(* ===== verification/Prelude.thy ===== *)
theory Prelude
  imports Main "HOL-Library.Word" "HOL-Library.List_Lexorder" "HOL-Library.Char_ord"
begin

text \<open>
  Shared vocabulary of the development.

  \<^item> Python values that every component uses: strings as lists of Unicode code points
    (\<open>ustr\<close>), byte strings as lists of 8-bit words (\<open>bytes\<close>).
  \<^item> Exceptions as values: \<open>exn\<close> pairs the Python exception class with the constant part of
    the message of the \<open>raise\<close> statement, so that every raise site of the sources is a
    different value; the parts of a message that an f-string computes are left out.
    A function that may raise returns \<open>'a result\<close>, \<open>Inl\<close> for the exception.
  \<^item> \<open>bindE\<close> sequences two such computations, \<open>forE\<close> runs a validator over the elements of a
    list (a \<open>for\<close> loop that stops at the first exception), \<open>mapE\<close> collects results.
  \<^item> The collection \<open>result_simps\<close> turns "this computation returned" into the conditions
    under which it does; component proofs simplify with it.
\<close>

section \<open>Strings and bytes\<close>

type_synonym ustr = "nat list"
type_synonym byte = "8 word"
type_synonym bytes = "byte list"

definition str :: "string \<Rightarrow> ustr" where
  "str s = map of_char s"

lemma str_inject [simp]: "str s = str t \<longleftrightarrow> s = t"
  by (simp add: str_def inj_map_eq_map inj_def)

lemma str_append: "str (s @ t) = str s @ str t"
  by (simp add: str_def)

lemma length_str [simp]: "length (str s) = length s"
  by (simp add: str_def)

lemma str_Nil [simp]: "str [] = []"
  by (simp add: str_def)

lemma str_eq_Nil_iff [simp]: "str s = [] \<longleftrightarrow> s = []" "[] = str s \<longleftrightarrow> s = []"
  by (auto simp: str_def)

section \<open>Exceptions as values\<close>

datatype exc_class =
    ValueError | TypeError | KeyError | IndexError | OverflowError | RuntimeError
  | UnicodeEncodeError | CanonicalEncodingError | RecordValidationError
  | BatchValidationError | PackageValidationError | AnchorValidationError
  | ProofBundleError | SnapshotValidationError | SurvivalArchiveError
  | ServiceError | MissingDependencyError | PolicyError | ResponsibleProfileError
  | EvidenceStoreError | BitcoinRPCError | IntegrityError | HTTPException | WalletError | OtherError

datatype exn = Exn (exc_of: exc_class) (message: string)

type_synonym 'a result = "exn + 'a"

text \<open>
  \<open>except C\<close> catches \<open>C\<close> and its subclasses. Every validation error of the package derives
  from \<open>ValueError\<close>, \<open>MissingDependencyError\<close> from \<open>ServiceError\<close>; \<open>UnicodeEncodeError\<close> is a
  \<open>ValueError\<close> of the language.
\<close>

fun is_ValueError :: "exc_class \<Rightarrow> bool" where
  "is_ValueError TypeError = False"
| "is_ValueError KeyError = False"
| "is_ValueError IndexError = False"
| "is_ValueError OverflowError = False"
| "is_ValueError RuntimeError = False"
| "is_ValueError BitcoinRPCError = False"
| "is_ValueError IntegrityError = False"
| "is_ValueError HTTPException = False"
| "is_ValueError OtherError = False"
| "is_ValueError _ = True"

fun is_ServiceError :: "exc_class \<Rightarrow> bool" where
  "is_ServiceError ServiceError = True"
| "is_ServiceError MissingDependencyError = True"
| "is_ServiceError _ = False"

section \<open>Sequencing\<close>

named_theorems result_simps "what it takes for a computation that may raise to return"

definition bindE :: "'a result \<Rightarrow> ('a \<Rightarrow> 'b result) \<Rightarrow> 'b result" where
  "bindE m k = (case m of Inl e \<Rightarrow> Inl e | Inr x \<Rightarrow> k x)"

lemma bindE_simps [simp]: "bindE (Inl e) k = Inl e" "bindE (Inr x) k = k x"
  by (simp_all add: bindE_def)

lemma bindE_eq_Inr [result_simps]:
  "bindE m k = Inr y \<longleftrightarrow> (\<exists>x. m = Inr x \<and> k x = Inr y)"
  by (cases m) simp_all

lemma bindE_eq_Inl:
  "bindE m k = Inl e \<longleftrightarrow> m = Inl e \<or> (\<exists>x. m = Inr x \<and> k x = Inl e)"
  by (cases m) simp_all

lemma bindE_cong [fundef_cong]:
  "m = m' \<Longrightarrow> (\<And>x. m' = Inr x \<Longrightarrow> k x = k' x) \<Longrightarrow> bindE m k = bindE m' k'"
  by (cases m') auto

lemma if_raise_eq_Inr [result_simps]:
  "(if c then Inl e else m) = Inr y \<longleftrightarrow> \<not> c \<and> m = Inr y"
  "(if c then m else Inl e) = Inr y \<longleftrightarrow> c \<and> m = Inr y"
  by simp_all

text \<open>A test that may itself raise, as \<open>x in a_set\<close> does for an unhashable \<open>x\<close>.\<close>

definition condE :: "bool result \<Rightarrow> 'a result \<Rightarrow> 'a result \<Rightarrow> 'a result" where
  "condE c t e = bindE c (\<lambda>b. if b then t else e)"

lemma condE_simps [simp]:
  "condE (Inl x) t e = Inl x" "condE (Inr True) t e = t" "condE (Inr False) t e = e"
  by (simp_all add: condE_def)

lemma condE_raise_eq_Inr [result_simps]:
  "condE c (Inl x) m = Inr y \<longleftrightarrow> c = Inr False \<and> m = Inr y"
  "condE c m (Inl x) = Inr y \<longleftrightarrow> c = Inr True \<and> m = Inr y"
  by (simp_all add: condE_def bindE_eq_Inr if_raise_eq_Inr) (metis (full_types))+

text \<open>\<open>try: m except E as exc: raise X from exc\<close>\<close>

definition reraise :: "(exc_class \<Rightarrow> bool) \<Rightarrow> exn \<Rightarrow> 'a result \<Rightarrow> 'a result" where
  "reraise catches x m =
     (case m of Inl e \<Rightarrow> if catches (exc_of e) then Inl x else Inl e | Inr y \<Rightarrow> Inr y)"

lemma reraise_Inr [simp]: "reraise p x (Inr y) = Inr y"
  by (simp add: reraise_def)

lemma reraise_eq_Inr [simp]: "reraise p x m = Inr y \<longleftrightarrow> m = Inr y"
  by (auto simp: reraise_def split: sum.splits)

primrec forE :: "('a \<Rightarrow> unit result) \<Rightarrow> 'a list \<Rightarrow> unit result" where
  "forE f [] = Inr ()"
| "forE f (x # xs) = bindE (f x) (\<lambda>_. forE f xs)"

lemma forE_eq_Inr [result_simps]: "forE f xs = Inr y \<longleftrightarrow> (\<forall>x \<in> set xs. f x = Inr ())"
  by (induction xs) (auto simp: result_simps)

primrec mapE :: "('a \<Rightarrow> 'b result) \<Rightarrow> 'a list \<Rightarrow> 'b list result" where
  "mapE f [] = Inr []"
| "mapE f (x # xs) = bindE (f x) (\<lambda>y. bindE (mapE f xs) (\<lambda>ys. Inr (y # ys)))"

lemma mapE_eq_Inr: "mapE f xs = Inr ys \<longleftrightarrow> list_all2 (\<lambda>x y. f x = Inr y) xs ys"
proof (induction xs arbitrary: ys)
  case Nil
  then show ?case by auto
next
  case (Cons x xs)
  then show ?case by (cases ys) (auto simp: bindE_eq_Inr)
qed

lemma mapE_total:
  "\<forall>x \<in> set xs. \<exists>y. f x = Inr y \<and> P y \<Longrightarrow>
   \<exists>ys. mapE f xs = Inr ys \<and> list_all P ys \<and> length ys = length xs"
proof (induction xs)
  case (Cons x xs)
  then obtain y ys where "f x = Inr y" "P y" "mapE f xs = Inr ys" "list_all P ys" "length ys = length xs"
    by auto
  then show ?case by simp
qed simp

section \<open>Lists and association lists\<close>

text \<open>A dictionary is an association list with distinct keys, in insertion order.\<close>

lemma map_of_filter_neq:
  "map_of (filter (\<lambda>(k', _). k' \<noteq> k) d) k' = (if k' = k then None else map_of d k')"
  by (induction d) auto

lemma distinct_map_filter_fst: "distinct (map fst d) \<Longrightarrow> distinct (map fst (filter P d))"
  by (induction d) auto

text \<open>Sorting a dictionary's items by key forgets the order in which they were inserted.\<close>

lemma sort_key_fst_unique:
  assumes "distinct (map fst xs)" "distinct (map fst ys)" "set xs = set ys"
  shows "sort_key fst xs = sort_key (fst :: ('k::linorder \<times> 'v) \<Rightarrow> 'k) ys"
proof (rule map_sorted_distinct_set_unique [where f = fst])
  show "inj_on fst (set (sort_key fst xs) \<union> set (sort_key fst ys))"
    using assms by (simp add: distinct_map)
qed (use assms in \<open>simp_all add: distinct_map\<close>)

lemma all_distinct_nth_eq:
  "distinct xs \<Longrightarrow> i < length xs \<Longrightarrow> j < length xs \<Longrightarrow> xs ! i = xs ! j \<Longrightarrow> i = j"
  by (simp add: nth_eq_iff_index_eq)

end
