(* ===== verification/PyText.thy ===== *)
theory PyText
  imports Prelude
begin

text \<open>
  The operations of Python's \<open>str\<close> and \<open>bytes\<close> that the package uses, on code points and on
  8-bit words: \<open>bytes.hex\<close> and \<open>bytes.fromhex\<close> (which skips ASCII white space between bytes and
  accepts both letter cases), \<open>str.encode\<close> for UTF-8 and ASCII, \<open>str.strip\<close>, \<open>str.isdigit\<close>,
  \<open>str(n)\<close>, and \<open>base64.b64encode\<close>/\<open>b64decode(validate=True)\<close> as CPython's \<open>binascii\<close>
  computes them. The lemmas are the round trips and the injectivity facts that the codec and
  the identifiers rest on.
\<close>

section \<open>Hexadecimal\<close>

definition hex_digit :: "nat \<Rightarrow> nat" where
  "hex_digit n = (if n < 10 then 48 + n else 87 + n)"

definition hex_val :: "nat \<Rightarrow> nat option" where
  "hex_val c = (if 48 \<le> c \<and> c \<le> 57 then Some (c - 48)
    else if 97 \<le> c \<and> c \<le> 102 then Some (c - 87)
    else if 65 \<le> c \<and> c \<le> 70 then Some (c - 55) else None)"

definition ascii_lower :: "nat \<Rightarrow> nat" where
  "ascii_lower c = (if 65 \<le> c \<and> c \<le> 90 then c + 32 else c)"

definition is_ascii_space :: "nat \<Rightarrow> bool" where
  "is_ascii_space c \<longleftrightarrow> (9 \<le> c \<and> c \<le> 13) \<or> c = 32"

primrec bytes_hex :: "bytes \<Rightarrow> ustr" where
  "bytes_hex [] = []"
| "bytes_hex (b # bs) = hex_digit (unat b div 16) # hex_digit (unat b mod 16) # bytes_hex bs"

fun fromhex_opt :: "ustr \<Rightarrow> bytes option" where
  "fromhex_opt [] = Some []"
| "fromhex_opt [c] = (if is_ascii_space c then Some [] else None)"
| "fromhex_opt (c # d # s) =
     (if is_ascii_space c then fromhex_opt (d # s)
      else case (hex_val c, hex_val d) of
        (Some a, Some b) \<Rightarrow> map_option ((#) (word_of_nat (16 * a + b))) (fromhex_opt s)
      | _ \<Rightarrow> None)"

definition bytes_fromhex :: "ustr \<Rightarrow> bytes result" where
  "bytes_fromhex s = (case fromhex_opt s of
     None \<Rightarrow> Inl (Exn ValueError ''non-hexadecimal number found in fromhex() arg'')
   | Some bs \<Rightarrow> Inr bs)"

lemma bytes_fromhex_eq_Inr [result_simps]:
  "bytes_fromhex s = Inr bs \<longleftrightarrow> fromhex_opt s = Some bs"
  by (simp add: bytes_fromhex_def split: option.splits)

lemma hex_val_hex_digit [simp]: "n < 16 \<Longrightarrow> hex_val (hex_digit n) = Some n"
  by (auto simp: hex_val_def hex_digit_def)

lemma hex_digit_not_space [simp]: "n < 16 \<Longrightarrow> \<not> is_ascii_space (hex_digit n)"
  by (auto simp: is_ascii_space_def hex_digit_def)

lemma unat_byte_less [simp]: "unat (b :: byte) < 256"
proof -
  have "unat b < 2 ^ LENGTH(8)" by (rule unsigned_less)
  then show ?thesis by simp
qed

lemma unat_byte_inverse [simp]: "word_of_nat (unat (b :: byte)) = b"
  by (rule word_nat_cases [of b]) (simp add: unat_of_nat)

lemma unat_byte_of_nat: "n < 256 \<Longrightarrow> unat (word_of_nat n :: byte) = n"
  by (simp add: unat_of_nat)

lemma byte_div_16 [simp]: "unat (b :: byte) div 16 < 16"
  by (rule less_mult_imp_div_less) simp

lemma byte_hex_join [simp]:
  "word_of_nat (16 * (unat (b :: byte) div 16) + unat b mod 16) = b"
  by (simp only: mult_div_mod_eq unat_byte_inverse)

lemma fromhex_bytes_hex [simp]: "fromhex_opt (bytes_hex bs) = Some bs"
  by (induction bs) simp_all

lemma bytes_fromhex_hex [simp]: "bytes_fromhex (bytes_hex bs) = Inr bs"
  by (simp add: bytes_fromhex_def)

lemma length_bytes_hex [simp]: "length (bytes_hex bs) = 2 * length bs"
  by (induction bs) simp_all

lemma bytes_hex_inject [simp]: "bytes_hex xs = bytes_hex ys \<longleftrightarrow> xs = ys"
  by (metis fromhex_bytes_hex option.inject)

lemma bytes_hex_append [simp]: "bytes_hex (xs @ ys) = bytes_hex xs @ bytes_hex ys"
  by (induction xs) simp_all

lemma hex_val_lower: "hex_val c = Some a \<Longrightarrow> ascii_lower c = hex_digit a \<and> a < 16"
  by (auto simp: hex_val_def ascii_lower_def hex_digit_def split: if_splits)

lemma fromhex_length: "fromhex_opt s = Some bs \<Longrightarrow> 2 * length bs \<le> length s"
proof (induction s arbitrary: bs rule: fromhex_opt.induct)
  case (3 c d s)
  show ?case
  proof (cases "is_ascii_space c")
    case True
    with 3 show ?thesis by fastforce
  next
    case False
    with 3 show ?thesis by (fastforce split: option.splits)
  qed
qed (auto split: if_splits)

text \<open>A string of exactly twice the length holds no white space: it is the canonical
  lower-case text up to letter case.\<close>

lemma fromhex_exact:
  "fromhex_opt s = Some bs \<Longrightarrow> length s = 2 * length bs \<Longrightarrow> map ascii_lower s = bytes_hex bs"
proof (induction s arbitrary: bs rule: fromhex_opt.induct)
  case (3 c d s)
  show ?case
  proof (cases "is_ascii_space c")
    case True
    with 3 have "2 * length bs \<le> length (d # s)" by (auto dest: fromhex_length)
    with 3 show ?thesis by simp
  next
    case False
    with 3 obtain a b bs' where ab: "hex_val c = Some a" "hex_val d = Some b"
      "fromhex_opt s = Some bs'" "bs = word_of_nat (16 * a + b) # bs'"
      by (auto split: option.splits)
    from ab(1,2) have "a < 16" "b < 16" by (auto dest: hex_val_lower)
    then have "unat (word_of_nat (16 * a + b) :: byte) = 16 * a + b"
      by (intro unat_byte_of_nat) simp
    with 3 False ab \<open>b < 16\<close> show ?thesis by (auto dest!: hex_val_lower)
  qed
qed (auto split: if_splits)

lemma bytes_hex_lower [simp]: "map ascii_lower (bytes_hex bs) = bytes_hex bs"
  by (rule fromhex_exact) simp_all

section \<open>Decimal numerals\<close>

fun dec :: "nat \<Rightarrow> ustr" where
  "dec n = (if n < 10 then [48 + n] else dec (n div 10) @ [48 + n mod 10])"

declare dec.simps [simp del]

definition is_digit :: "nat \<Rightarrow> bool" where
  "is_digit c \<longleftrightarrow> 48 \<le> c \<and> c \<le> 57"

definition undec :: "ustr \<Rightarrow> nat" where
  "undec s = foldl (\<lambda>n c. 10 * n + (c - 48)) 0 s"

lemma dec_nonempty [simp]: "dec n \<noteq> []"
  by (subst dec.simps) simp

lemma dec_digits: "list_all is_digit (dec n)"
proof (induction n rule: dec.induct)
  case (1 n)
  have "is_digit (48 + n mod 10)" "n < 10 \<Longrightarrow> is_digit (48 + n)"
    by (simp_all add: is_digit_def)
  with 1 show ?case by (subst dec.simps) simp
qed

lemma undec_dec [simp]: "undec (dec n) = n"
proof (induction n rule: dec.induct)
  case (1 n)
  then show ?case by (subst dec.simps) (auto simp: undec_def)
qed

lemma dec_inject [simp]: "dec n = dec m \<longleftrightarrow> n = m"
  by (metis undec_dec)

text \<open>A numeral followed by something other than a digit can be read back.\<close>

definition stops_digits :: "ustr \<Rightarrow> bool" where
  "stops_digits r \<longleftrightarrow> (case r of [] \<Rightarrow> True | c # _ \<Rightarrow> \<not> is_digit c)"

lemma takeWhile_digits:
  "list_all is_digit ds \<Longrightarrow> stops_digits r \<Longrightarrow> takeWhile is_digit (ds @ r) = ds"
  by (induction ds) (auto simp: stops_digits_def split: list.splits)

lemma dec_append_inject:
  assumes "dec n @ r = dec m @ r'" "stops_digits r" "stops_digits r'"
  shows "n = m \<and> r = r'"
proof -
  have "dec n = takeWhile is_digit (dec n @ r)"
    using dec_digits assms(2) by (simp add: takeWhile_digits)
  also have "\<dots> = dec m"
    unfolding assms(1) using dec_digits assms(3) by (simp add: takeWhile_digits)
  finally show ?thesis using assms(1) by simp
qed

definition py_str_int :: "int \<Rightarrow> ustr" where
  "py_str_int i = (if i < 0 then 45 # dec (nat (- i)) else dec (nat i))"

lemma dec_hd_digit: "dec n = c # cs \<Longrightarrow> is_digit c"
  using dec_digits [of n] by simp

lemma py_str_int_append_inject:
  assumes eq: "py_str_int i @ r = py_str_int j @ r'" and st: "stops_digits r" "stops_digits r'"
  shows "i = j \<and> r = r'"
proof -
  have neg: "dec n @ s \<noteq> 45 # t" for n s t
    using dec_digits [of n] by (cases "dec n") (auto simp: is_digit_def)
  consider "0 \<le> i \<and> 0 \<le> j" | "i < 0 \<and> j < 0"
    using eq neg [of "nat i" r "dec (nat (- j)) @ r'"]
      neg [of "nat j" r' "dec (nat (- i)) @ r"]
    by (cases "0 \<le> i"; cases "0 \<le> j") (auto simp: py_str_int_def)
  then show ?thesis
  proof cases
    case 1
    with eq have "nat i = nat j \<and> r = r'"
      by (intro dec_append_inject st) (simp add: py_str_int_def)
    with 1 show ?thesis by (auto simp: eq_nat_nat_iff)
  next
    case 2
    with eq have "nat (- i) = nat (- j) \<and> r = r'"
      by (intro dec_append_inject st) (simp add: py_str_int_def)
    with 2 show ?thesis by (auto simp: eq_nat_nat_iff)
  qed
qed

section \<open>Encodings\<close>

definition is_surrogate :: "nat \<Rightarrow> bool" where
  "is_surrogate c \<longleftrightarrow> 55296 \<le> c \<and> c \<le> 57343"

text \<open>A Python string has no code point above 1114111; lone surrogates do occur (a JSON text
  may escape one) and cannot be encoded.\<close>

definition utf8_char :: "nat \<Rightarrow> nat list option" where
  "utf8_char c =
     (if c < 128 then Some [c]
      else if c < 2048 then Some [192 + c div 64, 128 + c mod 64]
      else if is_surrogate c then None
      else if c < 65536 then
        Some [224 + c div 4096, 128 + c div 64 mod 64, 128 + c mod 64]
      else if c < 1114112 then
        Some [240 + c div 262144, 128 + c div 4096 mod 64, 128 + c div 64 mod 64, 128 + c mod 64]
      else None)"

primrec utf8_opt :: "ustr \<Rightarrow> nat list option" where
  "utf8_opt [] = Some []"
| "utf8_opt (c # s) = (case utf8_char c of None \<Rightarrow> None
     | Some bs \<Rightarrow> map_option ((@) bs) (utf8_opt s))"

definition encode_utf8 :: "ustr \<Rightarrow> bytes result" where
  "encode_utf8 s = (case utf8_opt s of
     None \<Rightarrow> Inl (Exn UnicodeEncodeError ''surrogates not allowed'')
   | Some ns \<Rightarrow> Inr (map word_of_nat ns))"

definition encode_ascii :: "ustr \<Rightarrow> bytes result" where
  "encode_ascii s = (if list_all (\<lambda>c. c < 128) s then Inr (map word_of_nat s)
     else Inl (Exn UnicodeEncodeError ''ordinal not in range(128)''))"

lemma split_64: "(a :: nat) div 64 = b div 64 \<Longrightarrow> a mod 64 = b mod 64 \<Longrightarrow> a = b"
  by (metis mult_div_mod_eq)

lemma split_4096:
  "(a :: nat) div 4096 = b div 4096 \<Longrightarrow> a div 64 mod 64 = b div 64 mod 64 \<Longrightarrow>
   a mod 64 = b mod 64 \<Longrightarrow> a = b"
  by (rule split_64, rule split_64) (simp_all flip: div_mult2_eq)

lemma split_262144:
  "(a :: nat) div 262144 = b div 262144 \<Longrightarrow> a div 4096 mod 64 = b div 4096 mod 64 \<Longrightarrow>
   a div 64 mod 64 = b div 64 mod 64 \<Longrightarrow> a mod 64 = b mod 64 \<Longrightarrow> a = b"
  by (rule split_4096, rule split_64) (simp_all flip: div_mult2_eq)

text \<open>The first byte tells how long the sequence is.\<close>

lemma utf8_char_cases:
  assumes "utf8_char c = Some xs"
  obtains (one) "c < 128" "xs = [c]"
  | (two) "128 \<le> c" "c < 2048" "xs = [192 + c div 64, 128 + c mod 64]" "c div 64 < 32"
  | (three) "2048 \<le> c" "c < 65536"
      "xs = [224 + c div 4096, 128 + c div 64 mod 64, 128 + c mod 64]" "c div 4096 < 16"
  | (four) "65536 \<le> c" "xs = [240 + c div 262144, 128 + c div 4096 mod 64,
      128 + c div 64 mod 64, 128 + c mod 64]"
proof -
  have "c < 2048 \<Longrightarrow> c div 64 < 32" "c < 65536 \<Longrightarrow> c div 4096 < 16" by simp_all
  with assms that show thesis
    unfolding utf8_char_def by (metis not_le_imp_less option.distinct(1) option.inject)
qed

lemma utf8_char_prefix_free:
  assumes c: "utf8_char c = Some xs" and d: "utf8_char d = Some ys" and eq: "xs @ r = ys @ r'"
  shows "c = d \<and> r = r'"
  using c
proof (cases rule: utf8_char_cases)
  case one
  with d eq show ?thesis by (cases rule: utf8_char_cases) auto
next
  case two
  from d show ?thesis
    by (cases rule: utf8_char_cases) (use two eq in \<open>auto intro: split_64\<close>)
next
  case three
  from d show ?thesis
    by (cases rule: utf8_char_cases) (use three eq in \<open>auto intro: split_4096\<close>)
next
  case four
  from d show ?thesis
    by (cases rule: utf8_char_cases) (use four eq in \<open>auto intro: split_262144\<close>)
qed

lemma utf8_char_bytes: "utf8_char c = Some xs \<Longrightarrow> list_all (\<lambda>n. n < 256) xs \<and> xs \<noteq> []"
  by (auto simp: utf8_char_def split: if_splits)

lemma utf8_opt_inject:
  "utf8_opt s = Some xs \<Longrightarrow> utf8_opt t = Some xs \<Longrightarrow> s = t"
proof (induction s arbitrary: xs t)
  case Nil
  then show ?case by (cases t) (auto split: option.splits dest: utf8_char_bytes)
next
  case (Cons c s)
  then obtain a as where a: "utf8_char c = Some a" "utf8_opt s = Some as" "xs = a @ as"
    by (auto split: option.splits)
  with Cons.prems obtain d t' b bs where b: "t = d # t'" "utf8_char d = Some b"
    "utf8_opt t' = Some bs" "xs = b @ bs"
    by (cases t) (auto split: option.splits dest: utf8_char_bytes)
  from a b have "c = d \<and> as = bs" by (intro utf8_char_prefix_free) auto
  with a b Cons.IH show ?case by auto
qed

lemma utf8_opt_bytes: "utf8_opt s = Some xs \<Longrightarrow> list_all (\<lambda>n. n < 256) xs"
  by (induction s arbitrary: xs) (auto split: option.splits dest: utf8_char_bytes)

lemma map_byte_inject:
  assumes "list_all (\<lambda>n. n < 256) xs" "list_all (\<lambda>n. n < 256) ys"
    and "map (word_of_nat :: nat \<Rightarrow> byte) xs = map word_of_nat ys"
  shows "xs = ys"
proof -
  have inv: "map unat (map (word_of_nat :: nat \<Rightarrow> byte) zs) = zs" if "list_all (\<lambda>n. n < 256) zs" for zs
    using that by (induction zs) (simp_all add: unat_of_nat)
  show ?thesis using inv [OF assms(1)] inv [OF assms(2)] assms(3) by simp
qed

theorem encode_utf8_inject: "encode_utf8 s = Inr bs \<Longrightarrow> encode_utf8 t = Inr bs \<Longrightarrow> s = t"
  by (auto simp: encode_utf8_def split: option.splits
      intro: utf8_opt_inject dest: map_byte_inject [OF utf8_opt_bytes utf8_opt_bytes])

section \<open>Tests on text\<close>

definition uni_isspace :: "nat \<Rightarrow> bool" where
  "uni_isspace c \<longleftrightarrow> (9 \<le> c \<and> c \<le> 13) \<or> (28 \<le> c \<and> c \<le> 32) \<or> c = 133 \<or> c = 160 \<or> c = 5760
     \<or> (8192 \<le> c \<and> c \<le> 8202) \<or> c = 8232 \<or> c = 8233 \<or> c = 8239 \<or> c = 8287 \<or> c = 12288"

definition py_strip :: "ustr \<Rightarrow> ustr" where
  "py_strip s = rev (dropWhile uni_isspace (rev (dropWhile uni_isspace s)))"

lemma uni_isspace_hex: "n < 16 \<Longrightarrow> \<not> uni_isspace (hex_digit n)"
  by (auto simp: uni_isspace_def hex_digit_def)

lemma py_strip_eq_Nil: "py_strip s = [] \<longleftrightarrow> (\<forall>c \<in> set s. uni_isspace c)"
  by (auto simp: py_strip_def dropWhile_eq_Nil_conv dest: set_dropWhileD)
     (metis dropWhile_eq_Nil_conv hd_dropWhile hd_in_set)

lemma py_strip_Cons: "\<not> uni_isspace c \<Longrightarrow> py_strip (c # s) \<noteq> []"
  by (simp add: py_strip_eq_Nil)

lemma set_py_strip: "set (py_strip s) \<subseteq> set s"
  by (auto simp: py_strip_def dest!: set_dropWhileD)

lemma length_py_strip: "length (py_strip s) \<le> length s"
  using length_dropWhile_le [of uni_isspace s]
    length_dropWhile_le [of uni_isspace "rev (dropWhile uni_isspace s)"]
  by (simp add: py_strip_def)

lemma py_strip_strip: "py_strip s \<noteq> [] \<Longrightarrow> py_strip (py_strip s) \<noteq> []"
proof -
  assume "py_strip s \<noteq> []"
  then obtain c t where "dropWhile uni_isspace (rev (dropWhile uni_isspace s)) = c # t"
    by (cases "dropWhile uni_isspace (rev (dropWhile uni_isspace s))") (simp_all add: py_strip_def)
  then have "\<not> uni_isspace c" "c \<in> set (py_strip s)"
    using hd_dropWhile [of uni_isspace "rev (dropWhile uni_isspace s)"] by (auto simp: py_strip_def)
  then show ?thesis by (auto simp: py_strip_eq_Nil)
qed

definition starts_with :: "ustr \<Rightarrow> ustr \<Rightarrow> bool" where
  "starts_with s p \<longleftrightarrow> take (length p) s = p"

definition remove_prefix :: "ustr \<Rightarrow> ustr \<Rightarrow> ustr" where
  "remove_prefix s p = (if starts_with s p then drop (length p) s else s)"

lemma starts_with_append [simp]: "starts_with (p @ s) p"
  by (simp add: starts_with_def)

lemma remove_prefix_append [simp]: "remove_prefix (p @ s) p = s"
  by (simp add: remove_prefix_def)

lemma starts_with_iff: "starts_with s p \<longleftrightarrow> (\<exists>t. s = p @ t)"
  by (metis append_take_drop_id starts_with_append starts_with_def)

text \<open>\<open>str.isdigit\<close>: the characters with Unicode property Digit or Decimal, as ranges.\<close>

definition digit_ranges :: "(nat \<times> nat) list" where
  "digit_ranges =
   [(48, 57), (178, 179), (185, 185), (1632, 1641), (1776, 1785), (1984, 1993), (2406, 2415),
   (2534, 2543), (2662, 2671), (2790, 2799), (2918, 2927), (3046, 3055), (3174, 3183), (3302,
   3311), (3430, 3439), (3558, 3567), (3664, 3673), (3792, 3801), (3872, 3881), (4160, 4169),
   (4240, 4249), (4969, 4977), (6112, 6121), (6160, 6169), (6470, 6479), (6608, 6618), (6784,
   6793), (6800, 6809), (6992, 7001), (7088, 7097), (7232, 7241), (7248, 7257), (8304, 8304),
   (8308, 8313), (8320, 8329), (9312, 9320), (9332, 9340), (9352, 9360), (9450, 9450), (9461,
   9469), (9471, 9471), (10102, 10110), (10112, 10120), (10122, 10130), (42528, 42537), (43216,
   43225), (43264, 43273), (43472, 43481), (43504, 43513), (43600, 43609), (44016, 44025),
   (65296, 65305), (66720, 66729), (68160, 68163), (68912, 68921), (69216, 69224), (69714,
   69722), (69734, 69743), (69872, 69881), (69942, 69951), (70096, 70105), (70384, 70393),
   (70736, 70745), (70864, 70873), (71248, 71257), (71360, 71369), (71472, 71481), (71904,
   71913), (72016, 72025), (72784, 72793), (73040, 73049), (73120, 73129), (92768, 92777),
   (92864, 92873), (93008, 93017), (120782, 120831), (123200, 123209), (123632, 123641),
   (125264, 125273), (127232, 127242), (130032, 130041)]"

definition uni_isdigit :: "nat \<Rightarrow> bool" where
  "uni_isdigit c \<longleftrightarrow> list_ex (\<lambda>(lo, hi). lo \<le> c \<and> c \<le> hi) digit_ranges"

end
