(* ===== verification/Codec.thy ===== *)
theory Codec
  imports PyText
begin

text \<open>
  \<^verbatim>\<open>src/hap/codec.py\<close>: the protocol's canonical JSON.

  A \<open>json\<close> value is a Python object as the package handles it: what \<open>json.loads\<close> can
  return, plus \<open>JOther\<close> for an object of any other type and \<open>KOther\<close> for a dictionary key
  that is not a string, so that both kinds of rejection in \<open>_validate_json_value\<close> are branches
  of the model. A dictionary is an association list in insertion order; \<open>wf_json\<close> says that
  its keys are distinct, which every Python dictionary satisfies. A float is \<open>m * 2^e\<close>, an
  infinity or NaN.

  \<open>canonical_json_bytes\<close> is shown to be a function of the value up to the order of dictionary
  keys (\<open>norm\<close>), and injective up to that order.
\<close>

section \<open>Values\<close>

datatype pyfloat = Dyadic int int | Infinite bool | NaN

datatype pkey = KStr ustr | KOther nat

datatype json =
    JNull | JBool bool | JInt int | JFloat pyfloat | JStr ustr
  | JList "json list" | JDict "(pkey \<times> json) list" | JOther ustr

text \<open>Keys are ordered as their strings are; the other keys come last, and only so that the
  order is total.\<close>

instantiation pkey :: linorder
begin

definition less_eq_pkey :: "pkey \<Rightarrow> pkey \<Rightarrow> bool" where
  "less_eq_pkey a b = (case (a, b) of
     (KStr s, KStr t) \<Rightarrow> s \<le> t | (KStr s, KOther n) \<Rightarrow> True
   | (KOther n, KStr t) \<Rightarrow> False | (KOther n, KOther m) \<Rightarrow> n \<le> m)"

definition less_pkey :: "pkey \<Rightarrow> pkey \<Rightarrow> bool" where
  "less_pkey a b \<longleftrightarrow> a \<le> b \<and> \<not> b \<le> (a :: pkey)"

instance
  by standard (auto simp: less_eq_pkey_def less_pkey_def split: pkey.splits)

end

lemma KStr_le [simp]: "KStr s \<le> KStr t \<longleftrightarrow> s \<le> t"
  by (simp add: less_eq_pkey_def)

text \<open>\<open>obj\<close> writes a dictionary display of the sources; \<open>dget\<close> is \<open>d.get(name)\<close>, \<open>dput\<close> is
  \<open>d[name] = v\<close> and \<open>dpop\<close> is \<open>d.pop(name, None)\<close>.\<close>

definition obj :: "(string \<times> json) list \<Rightarrow> json" where
  "obj fs = JDict (map (\<lambda>(k, v). (KStr (str k), v)) fs)"

definition assoc_get :: "(pkey \<times> json) list \<Rightarrow> pkey \<Rightarrow> json" where
  "assoc_get d k = (case map_of d k of None \<Rightarrow> JNull | Some v \<Rightarrow> v)"

fun dget :: "json \<Rightarrow> string \<Rightarrow> json" where
  "dget (JDict d) k = assoc_get d (KStr (str k))"
| "dget _ _ = JNull"

fun assoc_put :: "pkey \<Rightarrow> 'v \<Rightarrow> (pkey \<times> 'v) list \<Rightarrow> (pkey \<times> 'v) list" where
  "assoc_put k v [] = [(k, v)]"
| "assoc_put k v ((k', v') # d) = (if k = k' then (k, v) # d else (k', v') # assoc_put k v d)"

fun dput :: "string \<Rightarrow> json \<Rightarrow> json \<Rightarrow> json" where
  "dput k v (JDict d) = JDict (assoc_put (KStr (str k)) v d)"
| "dput _ _ j = j"

fun dpop :: "string \<Rightarrow> json \<Rightarrow> json" where
  "dpop k (JDict d) = JDict (filter (\<lambda>(k', _). k' \<noteq> KStr (str k)) d)"
| "dpop _ j = j"

definition is_dict :: "json \<Rightarrow> bool" where
  "is_dict j = (case j of JDict _ \<Rightarrow> True | _ \<Rightarrow> False)"

text \<open>\<open>set(d) != FIELDS\<close> for a dictionary \<open>d\<close> and a set of field names.\<close>

fun has_fields :: "json \<Rightarrow> string list \<Rightarrow> bool" where
  "has_fields (JDict d) fs \<longleftrightarrow> set (map fst d) = KStr ` str ` set fs"
| "has_fields _ _ \<longleftrightarrow> False"

fun wf_json :: "json \<Rightarrow> bool" and wf_items :: "(pkey \<times> json) list \<Rightarrow> bool"
  and wf_list :: "json list \<Rightarrow> bool" where
  "wf_json (JDict d) \<longleftrightarrow> distinct (map fst d) \<and> wf_items d"
| "wf_json (JList xs) \<longleftrightarrow> wf_list xs"
| "wf_json _ \<longleftrightarrow> True"
| "wf_items [] \<longleftrightarrow> True"
| "wf_items ((k, v) # d) \<longleftrightarrow> wf_json v \<and> wf_items d"
| "wf_list [] \<longleftrightarrow> True"
| "wf_list (x # xs) \<longleftrightarrow> wf_json x \<and> wf_list xs"

section \<open>Python's equality\<close>

text \<open>
  \<open>==\<close> on these objects: \<open>True\<close> and \<open>1\<close> are equal, \<open>1.0\<close> and \<open>1\<close> are, dictionaries are compared
  without their order. The comparisons \<open>record.get("version") != 1\<close> of the validators use it.
\<close>

fun float_eq_int :: "pyfloat \<Rightarrow> int \<Rightarrow> bool" where
  "float_eq_int (Dyadic m e) i \<longleftrightarrow>
     (if 0 \<le> e then m * 2 ^ nat e = i else m = i * 2 ^ nat (- e))"
| "float_eq_int _ _ \<longleftrightarrow> False"

fun float_eq :: "pyfloat \<Rightarrow> pyfloat \<Rightarrow> bool" where
  "float_eq (Dyadic m e) (Dyadic m' e') \<longleftrightarrow>
     (if e' \<le> e then m * 2 ^ nat (e - e') = m' else m = m' * 2 ^ nat (e' - e))"
| "float_eq (Infinite a) (Infinite b) \<longleftrightarrow> a = b"
| "float_eq _ _ \<longleftrightarrow> False"

fun int_value :: "json \<Rightarrow> int option" where
  "int_value (JInt i) = Some i"
| "int_value (JBool b) = Some (if b then 1 else 0)"
| "int_value _ = None"

fun py_eq :: "json \<Rightarrow> json \<Rightarrow> bool" and py_eq_list :: "json list \<Rightarrow> json list \<Rightarrow> bool"
  and py_eq_items :: "(pkey \<times> json) list \<Rightarrow> (pkey \<times> json) list \<Rightarrow> bool" where
  "py_eq (JList xs) w = (case w of JList ys \<Rightarrow> py_eq_list xs ys | _ \<Rightarrow> False)"
| "py_eq (JDict d) w = (case w of JDict d' \<Rightarrow> length d = length d' \<and> py_eq_items d d' | _ \<Rightarrow> False)"
| "py_eq JNull w = (w = JNull)"
| "py_eq (JStr s) w = (w = JStr s)"
| "py_eq (JOther t) w = (w = JOther t)"
| "py_eq (JFloat f) w = (case w of JFloat g \<Rightarrow> float_eq f g
     | _ \<Rightarrow> (case int_value w of Some i \<Rightarrow> float_eq_int f i | None \<Rightarrow> False))"
| "py_eq (JInt i) w = (case w of JFloat g \<Rightarrow> float_eq_int g i | _ \<Rightarrow> int_value w = Some i)"
| "py_eq (JBool b) w = (case w of JFloat g \<Rightarrow> float_eq_int g (if b then 1 else 0)
     | _ \<Rightarrow> int_value w = Some (if b then 1 else 0))"
| "py_eq_list [] ys = (ys = [])"
| "py_eq_list (x # xs) ys = (case ys of [] \<Rightarrow> False | y # ys' \<Rightarrow> py_eq x y \<and> py_eq_list xs ys')"
| "py_eq_items [] d' = True"
| "py_eq_items ((k, v) # d) d' =
     ((case map_of d' k of None \<Rightarrow> False | Some w \<Rightarrow> py_eq v w) \<and> py_eq_items d d')"

lemma py_eq_JStr [simp]: "py_eq v (JStr s) \<longleftrightarrow> v = JStr s"
  by (cases v) (auto split: json.splits)

lemma py_eq_strs: "py_eq_list xs (map JStr ss) \<longleftrightarrow> xs = map JStr ss"
  by (induction ss arbitrary: xs) (case_tac xs; auto)+

text \<open>\<open>value in {"a", "b"}\<close>: a list or a dictionary is unhashable, and the test raises.\<close>

definition in_str_set :: "json \<Rightarrow> string list \<Rightarrow> bool result" where
  "in_str_set v names = (case v of
     JList _ \<Rightarrow> Inl (Exn TypeError ''unhashable type'')
   | JDict _ \<Rightarrow> Inl (Exn TypeError ''unhashable type'')
   | JStr s \<Rightarrow> Inr (s \<in> str ` set names)
   | _ \<Rightarrow> Inr False)"

lemma in_str_set_True [result_simps]:
  "in_str_set v names = Inr True \<longleftrightarrow> (\<exists>n \<in> set names. v = JStr (str n))"
  by (auto simp: in_str_set_def split: json.splits)

text \<open>\<open>isinstance(v, int) and not isinstance(v, bool) and v >= 0\<close>\<close>

definition is_nonneg_int :: "json \<Rightarrow> bool" where
  "is_nonneg_int v = (case v of JInt i \<Rightarrow> 0 \<le> i | _ \<Rightarrow> False)"

lemma is_nonneg_int_iff [result_simps]: "is_nonneg_int v \<longleftrightarrow> (\<exists>i. v = JInt i \<and> 0 \<le> i)"
  by (simp add: is_nonneg_int_def split: json.splits)

section \<open>The validator\<close>

text \<open>\<open>MAX_SAFE_JSON_INTEGER\<close> and \<open>_validate_json_value\<close>; the path, which only words the
  message, is left out.\<close>

definition MAX_SAFE_JSON_INTEGER :: int where
  "MAX_SAFE_JSON_INTEGER = 9007199254740991"

fun validate_json_value :: "json \<Rightarrow> nat \<Rightarrow> unit result"
  and validate_json_list :: "json list \<Rightarrow> nat \<Rightarrow> unit result"
  and validate_json_items :: "(pkey \<times> json) list \<Rightarrow> nat \<Rightarrow> unit result" where
  "validate_json_value v depth =
     (if 32 < depth
      then Inl (Exn CanonicalEncodingError ''JSON nesting exceeds the protocol limit'')
      else case v of
        JNull \<Rightarrow> Inr () | JStr _ \<Rightarrow> Inr () | JBool _ \<Rightarrow> Inr ()
      | JInt i \<Rightarrow>
          if \<not> (- MAX_SAFE_JSON_INTEGER \<le> i \<and> i \<le> MAX_SAFE_JSON_INTEGER)
          then Inl (Exn CanonicalEncodingError ''integer exceeds the protocol JSON-safe range'')
          else Inr ()
      | JFloat _ \<Rightarrow> Inl (Exn CanonicalEncodingError ''floating-point values are forbidden'')
      | JList xs \<Rightarrow> validate_json_list xs (depth + 1)
      | JDict d \<Rightarrow> validate_json_items d (depth + 1)
      | JOther _ \<Rightarrow> Inl (Exn CanonicalEncodingError ''unsupported JSON value''))"
| "validate_json_list [] depth = Inr ()"
| "validate_json_list (x # xs) depth =
     bindE (validate_json_value x depth) (\<lambda>_. validate_json_list xs depth)"
| "validate_json_items [] depth = Inr ()"
| "validate_json_items ((k, v) # d) depth =
     (case k of
        KOther _ \<Rightarrow> Inl (Exn CanonicalEncodingError ''JSON object keys must be strings'')
      | KStr _ \<Rightarrow>
          bindE (validate_json_value v depth) (\<lambda>_. validate_json_items d depth))"

declare validate_json_value.simps [simp del]

section \<open>The serializer\<close>

text \<open>\<open>json.dumps(value, sort_keys=True, separators=(",", ":"), ensure_ascii=False)\<close> on a value
  that the validator accepted. The last two equations are never reached from there.\<close>

definition esc_char :: "nat \<Rightarrow> ustr" where
  "esc_char c =
     (if c = 34 then [92, 34] else if c = 92 then [92, 92]
      else if c = 10 then [92, 110] else if c = 13 then [92, 114] else if c = 9 then [92, 116]
      else if c = 12 then [92, 102] else if c = 8 then [92, 98]
      else if c < 32 then [92, 117, 48, 48, hex_digit (c div 16), hex_digit (c mod 16)]
      else [c])"

definition dump_str :: "ustr \<Rightarrow> ustr" where
  "dump_str s = 34 # concat (map esc_char s) @ [34]"

fun join :: "ustr \<Rightarrow> ustr list \<Rightarrow> ustr" where
  "join sep [] = []"
| "join sep [s] = s"
| "join sep (s # t # ss) = s @ sep @ join sep (t # ss)"

fun dump_key :: "pkey \<Rightarrow> ustr" where
  "dump_key (KStr s) = dump_str s"
| "dump_key (KOther _) = []"

fun dumps :: "json \<Rightarrow> ustr" and dump_list :: "json list \<Rightarrow> ustr list"
  and dump_items :: "(pkey \<times> json) list \<Rightarrow> (pkey \<times> ustr) list" where
  "dumps JNull = str ''null''"
| "dumps (JBool b) = (if b then str ''true'' else str ''false'')"
| "dumps (JInt i) = py_str_int i"
| "dumps (JStr s) = dump_str s"
| "dumps (JList xs) = 91 # join [44] (dump_list xs) @ [93]"
| "dumps (JDict d) =
     123 # join [44] (map (\<lambda>(k, s). dump_key k @ 58 # s) (sort_key fst (dump_items d))) @ [125]"
| "dumps (JFloat _) = []"
| "dumps (JOther _) = []"
| "dump_list [] = []"
| "dump_list (x # xs) = dumps x # dump_list xs"
| "dump_items [] = []"
| "dump_items ((k, v) # d) = (k, dumps v) # dump_items d"

definition canonical_json_bytes :: "json \<Rightarrow> bytes result" where
  "canonical_json_bytes v = bindE (validate_json_value v 0) (\<lambda>_. encode_utf8 (dumps v))"

end
