(* ===== verification/CodecFacts.thy ===== *)
theory CodecFacts
  imports Codec
begin

text \<open>
  Canonical JSON is a faithful name for a value: the bytes determine the value up to the order
  of dictionary keys, and do not depend on that order. \<open>norm\<close> sorts the keys of every
  dictionary inside a value; \<open>same_json\<close> compares values up to it.
\<close>

section \<open>Values up to key order\<close>

fun norm :: "json \<Rightarrow> json" and norm_list :: "json list \<Rightarrow> json list"
  and norm_items :: "(pkey \<times> json) list \<Rightarrow> (pkey \<times> json) list" where
  "norm (JList xs) = JList (norm_list xs)"
| "norm (JDict d) = JDict (sort_key fst (norm_items d))"
| "norm JNull = JNull"
| "norm (JBool b) = JBool b"
| "norm (JInt i) = JInt i"
| "norm (JFloat f) = JFloat f"
| "norm (JStr s) = JStr s"
| "norm (JOther t) = JOther t"
| "norm_list [] = []"
| "norm_list (x # xs) = norm x # norm_list xs"
| "norm_items [] = []"
| "norm_items ((k, v) # d) = (k, norm v) # norm_items d"

definition same_json :: "json \<Rightarrow> json \<Rightarrow> bool" where
  "same_json v w \<longleftrightarrow> norm v = norm w"

lemma norm_list_map [simp]: "norm_list xs = map norm xs"
  by (induction xs) simp_all

lemma norm_items_map [simp]: "norm_items d = map (\<lambda>(k, v). (k, norm v)) d"
  by (induction d) auto

lemma dump_list_map [simp]: "dump_list xs = map dumps xs"
  by (induction xs) simp_all

lemma dump_items_map [simp]: "dump_items d = map (\<lambda>(k, v). (k, dumps v)) d"
  by (induction d) auto

lemma wf_items_iff [simp]: "wf_items d \<longleftrightarrow> (\<forall>(k, v) \<in> set d. wf_json v)"
  by (induction d) auto

lemma wf_list_iff [simp]: "wf_list xs \<longleftrightarrow> (\<forall>x \<in> set xs. wf_json x)"
  by (induction xs) auto

lemma same_json_refl [simp]: "same_json v v"
  by (simp add: same_json_def)

lemma same_json_sym: "same_json v w \<Longrightarrow> same_json w v"
  by (simp add: same_json_def)

lemma same_json_trans: "same_json u v \<Longrightarrow> same_json v w \<Longrightarrow> same_json u w"
  by (simp add: same_json_def)

lemma norm_eq_leaf [simp]:
  "norm v = JStr s \<longleftrightarrow> v = JStr s" "JStr s = norm v \<longleftrightarrow> v = JStr s"
  "norm v = JInt i \<longleftrightarrow> v = JInt i" "JInt i = norm v \<longleftrightarrow> v = JInt i"
  "norm v = JNull \<longleftrightarrow> v = JNull" "JNull = norm v \<longleftrightarrow> v = JNull"
  by (cases v; auto)+

lemma same_json_strs: "same_json v (JList (map JStr ss)) \<longleftrightarrow> v = JList (map JStr ss)"
proof -
  have "map norm xs = map norm (map JStr ss) \<longleftrightarrow> xs = map JStr ss" for xs
    by (induction xs arbitrary: ss) (auto simp: Cons_eq_map_conv)
  then show ?thesis by (cases v) (auto simp: same_json_def)
qed

lemma map_of_map_val: "map_of (map (\<lambda>(k, v). (k, f v)) d) k = map_option f (map_of d k)"
  by (induction d) auto

lemma map_of_sort_key:
  "distinct (map fst d) \<Longrightarrow> map_of (sort_key fst d) k = map_of d (k :: 'a::linorder)"
  by (intro fun_cong [OF map_of_eqI]) (auto simp: map_of_eq_Some_iff distinct_map
      intro!: map_of_is_SomeI [symmetric])

lemma map_fst_map_val [simp]: "map fst (map (\<lambda>(k, v). (k, f v)) d) = map fst d"
  by (induction d) auto

text \<open>Reading a field commutes with normalisation.\<close>

lemma norm_dget: "wf_json v \<Longrightarrow> dget (norm v) k = norm (dget v k)"
proof (cases v)
  case (JDict d)
  assume "wf_json v"
  with JDict have "map_of (sort_key fst (map (\<lambda>(k, v). (k, norm v)) d)) (KStr (str k))
      = map_option norm (map_of d (KStr (str k)))"
    by (subst map_of_sort_key) (simp_all only: map_fst_map_val map_of_map_val wf_json.simps)
  with JDict show ?thesis by (simp add: assoc_get_def split: option.splits)
qed simp_all

lemma same_json_dget:
  "wf_json v \<Longrightarrow> wf_json w \<Longrightarrow> same_json v w \<Longrightarrow> same_json (dget v k) (dget w k)"
  by (metis norm_dget same_json_def)

lemma same_json_dict_perm:
  assumes "distinct (map fst d)" "distinct (map fst d')" "set d = set d'"
  shows "same_json (JDict d) (JDict d')"
  using assms by (auto simp: same_json_def comp_def case_prod_unfold
      intro!: sort_key_fst_unique)

section \<open>The validator and normalisation\<close>

text \<open>What the validator accepts at any depth: no float, no foreign object, no foreign key.\<close>

fun plain :: "json \<Rightarrow> bool" and plain_list :: "json list \<Rightarrow> bool"
  and plain_items :: "(pkey \<times> json) list \<Rightarrow> bool" where
  "plain (JFloat _) \<longleftrightarrow> False"
| "plain (JOther _) \<longleftrightarrow> False"
| "plain (JList xs) \<longleftrightarrow> plain_list xs"
| "plain (JDict d) \<longleftrightarrow> plain_items d"
| "plain _ \<longleftrightarrow> True"
| "plain_list [] \<longleftrightarrow> True"
| "plain_list (x # xs) \<longleftrightarrow> plain x \<and> plain_list xs"
| "plain_items [] \<longleftrightarrow> True"
| "plain_items ((k, v) # d) \<longleftrightarrow> (\<exists>s. k = KStr s) \<and> plain v \<and> plain_items d"

lemma plain_list_iff [simp]: "plain_list xs \<longleftrightarrow> (\<forall>x \<in> set xs. plain x)"
  by (induction xs) auto

lemma plain_items_iff [simp]:
  "plain_items d \<longleftrightarrow> (\<forall>(k, v) \<in> set d. (\<exists>s. k = KStr s) \<and> plain v)"
  by (induction d) auto

lemma validate_json_list_iff [simp]:
  "validate_json_list xs n = Inr () \<longleftrightarrow> (\<forall>x \<in> set xs. validate_json_value x n = Inr ())"
  by (induction xs) (auto simp: bindE_eq_Inr)

lemma validate_json_items_iff [simp]:
  "validate_json_items d n = Inr () \<longleftrightarrow>
     (\<forall>(k, v) \<in> set d. (\<exists>s. k = KStr s) \<and> validate_json_value v n = Inr ())"
  by (induction d) (auto simp: bindE_eq_Inr split: pkey.splits)

lemma validate_json_value_iff:
  "validate_json_value v n = Inr () \<longleftrightarrow> n \<le> 32 \<and>
     (case v of JInt i \<Rightarrow> \<bar>i\<bar> \<le> MAX_SAFE_JSON_INTEGER
      | JFloat _ \<Rightarrow> False | JOther _ \<Rightarrow> False
      | JList xs \<Rightarrow> (\<forall>x \<in> set xs. validate_json_value x (n + 1) = Inr ())
      | JDict d \<Rightarrow> (\<forall>(k, x) \<in> set d. (\<exists>s. k = KStr s) \<and> validate_json_value x (n + 1) = Inr ())
      | _ \<Rightarrow> True)"
  by (subst validate_json_value.simps) (auto split: json.splits)

lemma validated_plain: "validate_json_value v n = Inr () \<Longrightarrow> plain v"
proof (induction v arbitrary: n)
  case (JList xs)
  then show ?case by (auto simp: validate_json_value_iff [of "JList xs"])
next
  case (JDict d)
  then show ?case
    by (fastforce simp: validate_json_value_iff [of "JDict d"] snds.simps)
qed (auto simp: validate_json_value_iff)

lemma validate_norm: "validate_json_value (norm v) n = Inr () \<longleftrightarrow> validate_json_value v n = Inr ()"
proof (induction v arbitrary: n)
  case (JList xs)
  then show ?case
    by (simp add: validate_json_value_iff [of "JList xs"] validate_json_value_iff [of "JList (map norm xs)"])
next
  case (JDict d)
  then have "validate_json_value (norm x) m = Inr () \<longleftrightarrow> validate_json_value x m = Inr ()"
    if "(k, x) \<in> set d" for k x m using that by (force simp: snds.simps)
  then have "(\<forall>(k, x) \<in> set (sort_key fst (norm_items d)). (\<exists>s. k = KStr s) \<and>
      validate_json_value x (n + 1) = Inr ()) \<longleftrightarrow>
    (\<forall>(k, x) \<in> set d. (\<exists>s. k = KStr s) \<and> validate_json_value x (n + 1) = Inr ())"
    by (auto simp: case_prod_beta)
  then show ?case
    by (simp only: norm.simps validate_json_value_iff [of "JDict _"] json.case)
qed simp_all

section \<open>Serialization of the normal form\<close>

text \<open>On a value whose keys are already in order the serializer is plain concatenation.\<close>

fun raw_text :: "json \<Rightarrow> ustr" where
  "raw_text (JList xs) = 91 # join [44] (map raw_text xs) @ [93]"
| "raw_text (JDict d) = 123 # join [44] (map (\<lambda>(k, v). dump_key k @ 58 # raw_text v) d) @ [125]"
| "raw_text v = dumps v"

lemma insort_key_map:
  "(\<And>x. f (g x) = h x) \<Longrightarrow> insort_key f (g x) (map g xs) = map g (insort_key h x xs)"
  by (induction xs) simp_all

lemma sort_key_map:
  "(\<And>x. f (g x) = h x) \<Longrightarrow> sort_key f (map g xs) = map g (sort_key h xs)"
  by (induction xs) (simp_all add: insort_key_map)

lemma sort_key_map_val:
  "sort_key fst (map (\<lambda>(k, v). (k, f v)) d) = map (\<lambda>(k, v). (k, f v)) (sort_key fst d)"
  by (rule sort_key_map) auto

lemma dumps_raw_norm: "dumps v = raw_text (norm v)"
proof (induction v)
  case (JList xs)
  then show ?case by (simp add: comp_def cong: map_cong)
next
  case (JDict d)
  then have "dumps x = raw_text (norm x)" if "(k, x) \<in> set d" for k x
    using that by (force simp: snds.simps)
  then have "map (\<lambda>x. dump_key (fst x) @ 58 # dumps (snd x)) (sort_key fst d)
      = map (\<lambda>x. dump_key (fst x) @ 58 # raw_text (norm (snd x))) (sort_key fst d)"
    by (intro map_cong) auto
  then show ?case
    by (simp only: dumps.simps norm.simps raw_text.simps dump_items_map norm_items_map
      sort_key_map_val map_map comp_def case_prod_beta fst_conv snd_conv)
qed simp_all

text \<open>Reading back one escaped character.\<close>

definition unesc :: "ustr \<Rightarrow> (nat \<times> ustr) option" where
  "unesc s = (case s of
     [] \<Rightarrow> None
   | c # r \<Rightarrow> if c \<noteq> 92 then Some (c, r) else (case r of
       [] \<Rightarrow> None
     | e # r' \<Rightarrow>
         if e = 110 then Some (10, r') else if e = 114 then Some (13, r')
         else if e = 116 then Some (9, r') else if e = 102 then Some (12, r')
         else if e = 98 then Some (8, r')
         else if e = 117 then
           Some (16 * the (hex_val (r' ! 2)) + the (hex_val (r' ! 3)), drop 4 r')
         else Some (e, r')))"

lemma unesc_esc_char [simp]: "unesc (esc_char c @ r) = Some (c, r)"
proof -
  have "c < 32 \<Longrightarrow> c div 16 < 16" by simp
  then show ?thesis by (auto simp: unesc_def esc_char_def)
qed

lemma esc_char_hd: "\<exists>e es. esc_char c = e # es \<and> e \<noteq> 34"
  by (simp add: esc_char_def)

lemma dump_str_append_inject:
  "dump_str s @ r = dump_str t @ r' \<Longrightarrow> s = t \<and> r = r'"
proof (induction s arbitrary: t)
  case Nil
  then show ?case
    using esc_char_hd [of "hd t"] by (cases t) (auto simp: dump_str_def)
next
  case (Cons c s)
  then obtain d t' where t: "t = d # t'"
    using esc_char_hd [of c] by (cases t) (auto simp: dump_str_def)
  with Cons.prems have "esc_char c @ concat (map esc_char s) @ 34 # r
      = esc_char d @ concat (map esc_char t') @ 34 # r'"
    by (simp add: dump_str_def)
  then have "unesc (esc_char c @ concat (map esc_char s) @ 34 # r)
      = unesc (esc_char d @ concat (map esc_char t') @ 34 # r')" by simp
  then have "c = d" "dump_str s @ r = dump_str t' @ r'" by (simp_all add: dump_str_def)
  with t Cons.IH show ?case by auto
qed

text \<open>What may follow a value inside a text: the end, a comma or a closing bracket.\<close>

definition stops :: "ustr \<Rightarrow> bool" where
  "stops r \<longleftrightarrow> (case r of [] \<Rightarrow> True | c # _ \<Rightarrow> c = 44 \<or> c = 93 \<or> c = 125)"

lemma stops_simps [simp]: "stops (44 # r)" "stops (93 # r)" "stops (125 # r)" "stops []"
  by (simp_all add: stops_def)

lemma stops_stops_digits: "stops r \<Longrightarrow> stops_digits r"
  by (auto simp: stops_def stops_digits_def is_digit_def split: list.splits)

lemma join_Cons: "join sep (s # ss) = s @ (if ss = [] then [] else sep @ join sep ss)"
  by (cases ss) simp_all

text \<open>A bracketed, comma-separated sequence can be read back if its elements can.\<close>

lemma join_append_inject:
  assumes elems: "\<And>x y r r'. x \<in> set xs \<Longrightarrow> P y \<Longrightarrow> stops r \<Longrightarrow> stops r' \<Longrightarrow>
      f x @ r = f y @ r' \<Longrightarrow> x = y \<and> r = r'"
    and hds: "\<And>y. P y \<Longrightarrow> \<exists>c cs. f y = c # cs \<and> c \<noteq> 93 \<and> c \<noteq> 125"
    and P: "list_all P xs" "list_all P ys"
    and z: "z = 93 \<or> z = 125"
    and eq: "join [44] (map f xs) @ z # r = join [44] (map f ys) @ z # r'"
  shows "xs = ys \<and> r = r'"
  using elems P eq
proof (induction xs arbitrary: ys)
  case Nil
  then show ?case using hds [of "hd ys"] z by (cases ys) (auto simp: join_Cons)
next
  case (Cons x xs)
  then obtain y ys' where ys: "ys = y # ys'"
    using hds [of x] z by (cases ys) (auto simp: join_Cons)
  let ?rest = "\<lambda>zs r. (if zs = [] then [] else 44 # join [44] (map f zs)) @ z # r"
  have "f x @ ?rest xs r = f y @ ?rest ys' r'"
    using Cons.prems(4) by (cases "xs = []"; cases "ys' = []") (simp_all add: ys join_Cons)
  then have "x = y \<and> ?rest xs r = ?rest ys' r'"
    using Cons.prems(3) z ys by (intro Cons.prems(1)) auto
  moreover have "xs = ys' \<and> r = r'"
    if "join [44] (map f xs) @ z # r = join [44] (map f ys') @ z # r'"
  proof (rule Cons.IH [OF _ _ _ that])
    show "x' = y' \<and> s = s'"
      if "x' \<in> set xs" "P y'" "stops s" "stops s'" "f x' @ s = f y' @ s'" for x' y' s s'
      using that by (intro Cons.prems(1)) simp_all
  qed (use Cons.prems ys in simp_all)
  ultimately have "x = y \<and> xs = ys' \<and> r = r'"
    using z by (cases "xs = []"; cases "ys' = []") auto
  then show ?case using ys by simp
qed

lemma py_str_int_hd: "\<exists>c cs. py_str_int i = c # cs \<and> (c = 45 \<or> is_digit c)"
  using dec_digits [of "nat i"] by (cases "dec (nat i)") (auto simp: py_str_int_def)

text \<open>The first character tells the kind of the value.\<close>

fun first_char :: "json \<Rightarrow> nat \<Rightarrow> bool" where
  "first_char JNull c \<longleftrightarrow> c = 110"
| "first_char (JBool b) c \<longleftrightarrow> c = (if b then 116 else 102)"
| "first_char (JInt _) c \<longleftrightarrow> c = 45 \<or> is_digit c"
| "first_char (JStr _) c \<longleftrightarrow> c = 34"
| "first_char (JList _) c \<longleftrightarrow> c = 91"
| "first_char (JDict _) c \<longleftrightarrow> c = 123"
| "first_char _ c \<longleftrightarrow> False"

lemma raw_first_char: "plain v \<Longrightarrow> \<exists>c cs. raw_text v = c # cs \<and> first_char v c"
  using py_str_int_hd by (cases v) (auto simp: str_def dump_str_def)

lemma first_char_not_closing: "first_char v c \<Longrightarrow> c \<noteq> 93 \<and> c \<noteq> 125"
  by (cases v) (auto simp: is_digit_def split: if_splits)

lemma raw_append_inject:
  assumes "plain v" "plain w" "raw_text v @ r = raw_text w @ r'" "stops r" "stops r'"
  shows "v = w \<and> r = r'"
  using assms
proof (induction v arbitrary: w r r')
  case (JList xs)
  then obtain ys where w: "w = JList ys"
    using raw_first_char [of w] by (cases w) (auto simp: is_digit_def split: if_splits)
  have "xs = ys \<and> r = r'"
  proof (rule join_append_inject [where f = raw_text and P = plain and z = 93])
    show "\<exists>c cs. raw_text y = c # cs \<and> c \<noteq> 93 \<and> c \<noteq> 125" if "plain y" for y
      using raw_first_char [OF that] first_char_not_closing by blast
  next
    fix x y r r'
    assume "x \<in> set xs" "plain y" "stops r" "stops r'" "raw_text x @ r = raw_text y @ r'"
    with JList.IH JList.prems(1) show "x = y \<and> r = r'" by simp
  next
    show "join [44] (map raw_text xs) @ 93 # r = join [44] (map raw_text ys) @ 93 # r'"
      using JList.prems(3) w by simp
  qed (use JList.prems w in \<open>simp_all add: list_all_iff\<close>)
  with w show ?case by simp
next
  case (JDict d)
  then obtain d' where w: "w = JDict d'"
    using raw_first_char [of w] by (cases w) (auto simp: is_digit_def split: if_splits)
  have "d = d' \<and> r = r'"
  proof (rule join_append_inject [where z = 125 and f = "\<lambda>(k, v). dump_key k @ 58 # raw_text v"
        and P = "\<lambda>(k, v). (\<exists>s. k = KStr s) \<and> plain v"])
    fix x y r r'
    assume x: "x \<in> set d" and y: "case y of (k, v) \<Rightarrow> (\<exists>s. k = KStr s) \<and> plain v"
      and st: "stops r" "stops r'"
      and eq: "(case x of (k, v) \<Rightarrow> dump_key k @ 58 # raw_text v) @ r
        = (case y of (k, v) \<Rightarrow> dump_key k @ 58 # raw_text v) @ r'"
    from x y JDict.prems(1) obtain s v t v' where xy: "x = (KStr s, v)" "y = (KStr t, v')"
      "plain v" "plain v'" by (cases x; cases y) auto
    with eq have "dump_str s @ 58 # raw_text v @ r = dump_str t @ 58 # raw_text v' @ r'" by simp
    from dump_str_append_inject [OF this] have "s = t" "raw_text v @ r = raw_text v' @ r'" by simp_all
    moreover from this(2) have "v = v' \<and> r = r'"
      by (rule JDict.IH [OF x _ xy(3,4) _ st, rotated]) (simp add: xy(1) snds.simps)
    ultimately show "x = y \<and> r = r'" using xy by simp
  next
    show "\<exists>c cs. (case y of (k, v) \<Rightarrow> dump_key k @ 58 # raw_text v) = c # cs \<and> c \<noteq> 93 \<and> c \<noteq> 125"
      if "case y of (k, v) \<Rightarrow> (\<exists>s. k = KStr s) \<and> plain v" for y
      using that by (cases y) (auto simp: dump_str_def)
  next
    show "join [44] (map (\<lambda>(k, v). dump_key k @ 58 # raw_text v) d) @ 125 # r
      = join [44] (map (\<lambda>(k, v). dump_key k @ 58 # raw_text v) d') @ 125 # r'"
      using JDict.prems(3) w by simp
  qed (use JDict.prems w in \<open>simp_all add: list_all_iff\<close>)
  with w show ?case by simp
next
  case (JInt i)
  then obtain j where "w = JInt j"
    using raw_first_char [of w] py_str_int_hd [of i]
    by (cases w) (auto simp: is_digit_def split: if_splits)
  with JInt show ?case
    using py_str_int_append_inject [of i r j r'] stops_stops_digits by auto
next
  case (JStr s)
  then obtain t where "w = JStr t"
    using raw_first_char [of w] by (cases w) (auto simp: dump_str_def is_digit_def split: if_splits)
  with JStr show ?case using dump_str_append_inject [of s r t r'] by simp
next
  case (JBool b)
  then show ?case using raw_first_char [of w]
    by (cases w) (auto simp: str_def is_digit_def split: if_splits)
next
  case JNull
  then show ?case using raw_first_char [of w]
    by (cases w) (auto simp: str_def is_digit_def split: if_splits)
qed simp_all

section \<open>What the canonical bytes determine\<close>

lemma plain_norm: "plain v \<Longrightarrow> plain (norm v)"
proof (induction v)
  case (JDict d)
  then have "plain (norm x)" if "(k, x) \<in> set d" for k x
    using that by (force simp: snds.simps)
  with JDict.prems show ?case by auto
qed simp_all

lemma canonical_json_bytes_eq_Inr:
  "canonical_json_bytes v = Inr bs \<longleftrightarrow>
     validate_json_value v 0 = Inr () \<and> encode_utf8 (raw_text (norm v)) = Inr bs"
  by (simp add: canonical_json_bytes_def bindE_eq_Inr dumps_raw_norm)

lemma canonical_json_same:
  assumes "canonical_json_bytes v = Inr bs" "canonical_json_bytes w = Inr bs"
  shows "same_json v w"
proof -
  from assms have "raw_text (norm v) = raw_text (norm w)" "plain (norm v)" "plain (norm w)"
    by (auto simp: canonical_json_bytes_eq_Inr dest: encode_utf8_inject validated_plain intro: plain_norm)
  then have "norm v = norm w" by (metis raw_append_inject stops_simps(4))
  then show ?thesis by (simp add: same_json_def)
qed

lemma same_json_canonical:
  assumes "same_json v w" "canonical_json_bytes v = Inr bs"
  shows "canonical_json_bytes w = Inr bs"
proof -
  from assms have "validate_json_value w 0 = Inr ()"
    by (metis canonical_json_bytes_eq_Inr same_json_def validate_norm)
  with assms show ?thesis by (simp add: canonical_json_bytes_eq_Inr same_json_def)
qed

section \<open>Values without surrogates always have canonical bytes\<close>

definition scalar :: "nat \<Rightarrow> bool" where
  "scalar c \<longleftrightarrow> c < 1114112 \<and> \<not> is_surrogate c"

abbreviation encodable :: "ustr \<Rightarrow> bool" where
  "encodable \<equiv> list_all scalar"

lemma scalar_small [simp]: "c < 55296 \<Longrightarrow> scalar c"
  by (simp add: scalar_def is_surrogate_def)

fun encodable_json :: "json \<Rightarrow> bool" and encodable_list :: "json list \<Rightarrow> bool"
  and encodable_items :: "(pkey \<times> json) list \<Rightarrow> bool" where
  "encodable_json (JStr s) \<longleftrightarrow> encodable s"
| "encodable_json (JList xs) \<longleftrightarrow> encodable_list xs"
| "encodable_json (JDict d) \<longleftrightarrow> encodable_items d"
| "encodable_json _ \<longleftrightarrow> True"
| "encodable_list [] \<longleftrightarrow> True"
| "encodable_list (x # xs) \<longleftrightarrow> encodable_json x \<and> encodable_list xs"
| "encodable_items [] \<longleftrightarrow> True"
| "encodable_items ((k, v) # d) \<longleftrightarrow> (case k of KStr s \<Rightarrow> encodable s | _ \<Rightarrow> True) \<and> encodable_json v \<and> encodable_items d"

lemma encodable_list_iff [simp]: "encodable_list xs \<longleftrightarrow> (\<forall>x \<in> set xs. encodable_json x)"
  by (induction xs) auto

lemma encodable_items_iff [simp]: "encodable_items d \<longleftrightarrow>
    (\<forall>(k, v) \<in> set d. (case k of KStr s \<Rightarrow> encodable s | _ \<Rightarrow> True) \<and> encodable_json v)"
  by (induction d) auto

lemma encodable_str [simp]: "encodable (str s)"
proof -
  have "of_char c < (55296 :: nat)" for c :: char
    by (rule less_trans [OF nat_of_char_less_256]) simp
  then show ?thesis by (simp add: str_def list_all_iff)
qed

lemma hex_digit_scalar: "n < 16 \<Longrightarrow> scalar (hex_digit n)"
  by (simp add: hex_digit_def)

lemma encodable_dec: "encodable (dec n)"
  using dec_digits [of n] by (auto simp: list_all_iff is_digit_def)

lemma encodable_dump_str: "encodable s \<Longrightarrow> encodable (dump_str s)"
proof -
  have "encodable (esc_char c)" if "scalar c" for c
  proof -
    have "c < 32 \<Longrightarrow> c div 16 < 16" "c mod 16 < 16" by simp_all
    then have "c < 32 \<Longrightarrow> scalar (hex_digit (c div 16))" "scalar (hex_digit (c mod 16))"
      using hex_digit_scalar by blast+
    then show ?thesis using that by (simp add: esc_char_def)
  qed
  then show "encodable s \<Longrightarrow> encodable (dump_str s)"
    unfolding dump_str_def by (induction s) simp_all
qed

lemma encodable_py_strip: "encodable s \<Longrightarrow> encodable (py_strip s)"
  using set_py_strip by (auto simp: list_all_iff)

lemma encodable_join: "encodable sep \<Longrightarrow> \<forall>s \<in> set ss. encodable s \<Longrightarrow> encodable (join sep ss)"
  by (induction sep ss rule: join.induct) simp_all

lemma encodable_dumps: "encodable_json v \<Longrightarrow> encodable (dumps v)"
proof (induction v)
  case (JList xs)
  then show ?case by (simp add: encodable_join)
next
  case (JDict d)
  have key: "encodable (dump_key k)" if "(k, v) \<in> set d" for k v
    using that JDict.prems encodable_dump_str by (cases k) fastforce+
  have val: "encodable (dumps v)" if "(k, v) \<in> set d" for k v
    using that JDict by (force simp: snds.simps)
  show ?case using key val by (auto intro!: encodable_join)
qed (use encodable_dump_str encodable_dec in \<open>simp_all add: py_str_int_def\<close>)

lemma utf8_encodable: "encodable s \<Longrightarrow> \<exists>xs. utf8_opt s = Some xs"
  by (induction s) (auto simp: utf8_char_def scalar_def)

lemma canonical_json_bytes_total:
  "validate_json_value v 0 = Inr () \<Longrightarrow> encodable_json v \<Longrightarrow> \<exists>bs. canonical_json_bytes v = Inr bs"
  using utf8_encodable [OF encodable_dumps [of v]]
  by (auto simp: canonical_json_bytes_def encode_utf8_def)

section \<open>Digests of canonical bytes\<close>

text \<open>
  An identifier of the protocol is the digest of the canonical bytes of a body. Equal
  identifiers mean equal bodies, or the two canonical byte strings are a collision of the hash.
\<close>

definition digest_collision :: "(bytes \<Rightarrow> bytes) \<Rightarrow> json \<Rightarrow> json \<Rightarrow> bool" where
  "digest_collision H v w \<longleftrightarrow> (\<exists>x y. canonical_json_bytes v = Inr x \<and> canonical_json_bytes w = Inr y
     \<and> x \<noteq> y \<and> H x = H y)"

lemma same_digest:
  assumes "canonical_json_bytes v = Inr x" "canonical_json_bytes w = Inr y" "H x = H y"
  shows "same_json v w \<or> digest_collision H v w"
  using assms canonical_json_same unfolding digest_collision_def by (cases "x = y") blast+

section \<open>Fields of dictionaries\<close>

lemma assoc_get_put: "assoc_get (assoc_put k v d) k' = (if k = k' then v else assoc_get d k')"
  by (induction k v d rule: assoc_put.induct) (auto simp: assoc_get_def)

lemma dget_dput [simp]: "is_dict d \<Longrightarrow> dget (dput k v d) k' = (if k = k' then v else dget d k')"
  by (cases d) (auto simp: is_dict_def assoc_get_put)

lemma dget_dpop [simp]: "is_dict d \<Longrightarrow> dget (dpop k d) k' = (if k = k' then JNull else dget d k')"
  by (cases d) (auto simp: is_dict_def assoc_get_def map_of_filter_neq)

lemma is_dict_obj [simp]: "is_dict (obj fs)" "is_dict (JDict d)"
  by (simp_all add: is_dict_def obj_def)

lemma is_dict_dput [simp]: "is_dict (dput k v d) = is_dict d"
  by (cases d) (simp_all add: is_dict_def)

lemma is_dict_dpop [simp]: "is_dict (dpop k d) = is_dict d"
  by (cases d) (simp_all add: is_dict_def)

lemma dget_obj [simp]:
  "dget (obj []) k = JNull"
  "dget (obj ((k', v) # fs)) k = (if k = k' then v else dget (obj fs) k)"
  by (auto simp: obj_def assoc_get_def)

text \<open>Adding a field that is not there appends it; removing it again restores the dictionary.\<close>

lemma assoc_put_new: "k \<notin> fst ` set d \<Longrightarrow> assoc_put k v d = d @ [(k, v)]"
  by (induction k v d rule: assoc_put.induct) auto

lemma dput_obj: "k \<notin> fst ` set fs \<Longrightarrow> dput k v (obj fs) = obj (fs @ [(k, v)])"
  unfolding obj_def dput.simps by (subst assoc_put_new) (auto, force)

lemma dpop_obj: "dpop k (obj fs) = obj (filter (\<lambda>(k', _). k' \<noteq> k) fs)"
  by (induction fs) (auto simp: obj_def)

lemma has_fields_obj: "has_fields (obj fs) names \<longleftrightarrow> set (map fst fs) = set names"
proof -
  have "inj (\<lambda>s. KStr (str s))" by (simp add: inj_def)
  then have "(\<lambda>s. KStr (str s)) ` fst ` set fs = (\<lambda>s. KStr (str s)) ` set names
      \<longleftrightarrow> fst ` set fs = set names"
    by (rule inj_image_eq_iff)
  moreover have "set (map fst (map (\<lambda>(k, v). (KStr (str k), v)) fs)) = (\<lambda>s. KStr (str s)) ` fst ` set fs"
    by force
  ultimately show ?thesis by (simp only: obj_def has_fields.simps image_image set_map)
qed

lemma wf_obj: "wf_json (obj fs) \<longleftrightarrow> distinct (map fst fs) \<and> (\<forall>(k, v) \<in> set fs. wf_json v)"
proof -
  have "distinct (map fst (map (\<lambda>(k, v). (KStr (str k), v)) fs)) = distinct (map fst fs)"
    by (induction fs) (auto simp: image_iff)
  then show ?thesis by (auto simp: obj_def)
qed

lemma validate_obj:
  "validate_json_value (obj fs) n = Inr () \<longleftrightarrow>
     n \<le> 32 \<and> (\<forall>(k, v) \<in> set fs. validate_json_value v (n + 1) = Inr ())"
  by (simp add: obj_def validate_json_value_iff [of "JDict d" for d]) force

lemma validate_leaf:
  "validate_json_value (JStr s) n = Inr () \<longleftrightarrow> n \<le> 32"
  "validate_json_value (JInt i) n = Inr () \<longleftrightarrow> n \<le> 32 \<and> \<bar>i\<bar> \<le> MAX_SAFE_JSON_INTEGER"
  "validate_json_value JNull n = Inr () \<longleftrightarrow> n \<le> 32"
  "validate_json_value (JList xs) n = Inr () \<longleftrightarrow>
     n \<le> 32 \<and> (\<forall>x \<in> set xs. validate_json_value x (n + 1) = Inr ())"
  by (simp_all add: validate_json_value_iff)

lemma encodable_obj:
  "encodable_json (obj fs) \<longleftrightarrow> (\<forall>(k, v) \<in> set fs. encodable (str k) \<and> encodable_json v)"
  by (auto simp: obj_def)

lemma encodable_bytes_hex [simp]: "encodable (bytes_hex bs)"
  by (induction bs) (simp_all add: hex_digit_scalar)

lemma encodable_fromhex: "fromhex_opt s = Some bs \<Longrightarrow> encodable s"
  by (induction s arbitrary: bs rule: fromhex_opt.induct)
     (auto simp: is_ascii_space_def hex_val_def split: if_splits option.splits)

lemma wf_dget: "wf_json d \<Longrightarrow> wf_json (dget d k)"
  by (cases d) (auto simp: assoc_get_def split: option.splits dest!: map_of_SomeD)

lemma wf_dpop: "wf_json d \<Longrightarrow> wf_json (dpop k d)"
  by (cases d) (auto intro: distinct_map_filter_fst)

lemma wf_dget_list: "wf_json d \<Longrightarrow> dget d k = JList xs \<Longrightarrow> x \<in> set xs \<Longrightarrow> wf_json x"
  using wf_dget [of d k] by simp

section \<open>Nesting depth\<close>

fun json_depth :: "json \<Rightarrow> nat" and depth_list :: "json list \<Rightarrow> nat"
  and depth_items :: "(pkey \<times> json) list \<Rightarrow> nat" where
  "json_depth (JList xs) = depth_list xs"
| "json_depth (JDict d) = depth_items d"
| "json_depth _ = 0"
| "depth_list [] = 0"
| "depth_list (x # xs) = max (Suc (json_depth x)) (depth_list xs)"
| "depth_items [] = 0"
| "depth_items ((k, v) # d) = max (Suc (json_depth v)) (depth_items d)"

fun in_range :: "json \<Rightarrow> bool" and in_range_list :: "json list \<Rightarrow> bool"
  and in_range_items :: "(pkey \<times> json) list \<Rightarrow> bool" where
  "in_range (JInt i) \<longleftrightarrow> \<bar>i\<bar> \<le> MAX_SAFE_JSON_INTEGER"
| "in_range (JFloat _) \<longleftrightarrow> False"
| "in_range (JOther _) \<longleftrightarrow> False"
| "in_range (JList xs) \<longleftrightarrow> in_range_list xs"
| "in_range (JDict d) \<longleftrightarrow> in_range_items d"
| "in_range _ \<longleftrightarrow> True"
| "in_range_list [] \<longleftrightarrow> True"
| "in_range_list (x # xs) \<longleftrightarrow> in_range x \<and> in_range_list xs"
| "in_range_items [] \<longleftrightarrow> True"
| "in_range_items ((k, v) # d) \<longleftrightarrow> (\<exists>s. k = KStr s) \<and> in_range v \<and> in_range_items d"

lemma depth_list_le [simp]: "depth_list xs \<le> n \<longleftrightarrow> (\<forall>x \<in> set xs. Suc (json_depth x) \<le> n)"
  by (induction xs) auto

lemma depth_items_le [simp]: "depth_items d \<le> n \<longleftrightarrow> (\<forall>(k, v) \<in> set d. Suc (json_depth v) \<le> n)"
  by (induction d) auto

lemma in_range_list_iff [simp]: "in_range_list xs \<longleftrightarrow> (\<forall>x \<in> set xs. in_range x)"
  by (induction xs) auto

lemma in_range_items_iff [simp]:
  "in_range_items d \<longleftrightarrow> (\<forall>(k, v) \<in> set d. (\<exists>s. k = KStr s) \<and> in_range v)"
  by (induction d) auto

text \<open>The validator checks the values, and a bound on the depth that does not depend on them.\<close>

lemma validate_depth:
  "validate_json_value v n = Inr () \<longleftrightarrow> in_range v \<and> n \<le> 32 \<and> json_depth v \<le> 32 - n"
proof (induction v arbitrary: n)
  case (JList xs)
  then have "(\<forall>x \<in> set xs. validate_json_value x (n + 1) = Inr ())
    \<longleftrightarrow> (\<forall>x \<in> set xs. in_range x \<and> n + 1 \<le> 32 \<and> json_depth x \<le> 32 - (n + 1))" by simp
  then show ?case by (auto simp: validate_json_value_iff [of "JList xs"]) fastforce+
next
  case (JDict d)
  then have "validate_json_value v m = Inr () \<longleftrightarrow> in_range v \<and> m \<le> 32 \<and> json_depth v \<le> 32 - m"
    if "(k, v) \<in> set d" for k v m
    using that by (force simp: snds.simps)
  then have "(\<forall>(k, x) \<in> set d. (\<exists>s. k = KStr s) \<and> validate_json_value x (n + 1) = Inr ())
    \<longleftrightarrow> (\<forall>(k, x) \<in> set d. (\<exists>s. k = KStr s) \<and> in_range x \<and> n + 1 \<le> 32 \<and> json_depth x \<le> 32 - (n + 1))"
    by (intro ball_cong refl) auto
  then show ?case by (auto simp: validate_json_value_iff [of "JDict d"])
qed (auto simp: validate_json_value_iff)

text \<open>An object with the fields of a schema is bounded field by field.\<close>

lemma has_fields_items:
  assumes "has_fields r fs" "wf_json r"
  obtains d where "r = JDict d" "\<forall>(k, v) \<in> set d. \<exists>f \<in> set fs. k = KStr (str f) \<and> v = dget r f"
proof -
  from assms(1) obtain d where d: "r = JDict d" by (cases r) auto
  have "\<exists>f \<in> set fs. k = KStr (str f) \<and> v = dget r f" if kv: "(k, v) \<in> set d" for k v
  proof -
    have "k \<in> set (map fst d)" using kv by force
    then have "k \<in> KStr ` str ` set fs" using assms(1) d by simp
    then obtain f where f: "f \<in> set fs" "k = KStr (str f)" by blast
    have "map_of d k = Some v" using assms(2) kv d by (simp add: map_of_eq_Some_iff)
    with f d show ?thesis by (intro bexI [of _ f]) (simp_all add: assoc_get_def)
  qed
  with d that show thesis by blast
qed

lemma has_fields_depth:
  assumes "has_fields r fs" "wf_json r" "\<forall>f \<in> set fs. json_depth (dget r f) \<le> n"
  shows "json_depth r \<le> Suc n"
proof -
  obtain d where "r = JDict d" "\<forall>(k, v) \<in> set d. \<exists>f \<in> set fs. k = KStr (str f) \<and> v = dget r f"
    using has_fields_items [OF assms(1,2)] .
  with assms(3) show ?thesis by fastforce
qed

text \<open>Bytes exist only for values without surrogates.\<close>

lemma encodable_utf8: "utf8_opt s = Some xs \<Longrightarrow> encodable s"
  by (induction s arbitrary: xs) (auto simp: utf8_char_def scalar_def is_surrogate_def split: option.splits if_splits)

lemma encodable_esc_char: "encodable (esc_char c) \<Longrightarrow> scalar c"
  by (auto simp: esc_char_def split: if_splits)

lemma encodable_dump_str_iff: "encodable (dump_str s) \<Longrightarrow> encodable s"
  unfolding dump_str_def by (induction s) (auto dest: encodable_esc_char)

lemma encodable_join_iff: "encodable (join sep ss) \<Longrightarrow> s \<in> set ss \<Longrightarrow> encodable s"
  by (induction sep ss rule: join.induct) auto

lemma encodable_dumps_iff: "encodable (dumps v) \<Longrightarrow> plain v \<Longrightarrow> encodable_json v"
proof (induction v)
  case (JList xs)
  then have "encodable (join [44] (map dumps xs))" by simp
  from encodable_join_iff [OF this] JList show ?case by auto
next
  case (JDict d)
  have "encodable (dump_key k) \<and> encodable (dumps x)" if "(k, x) \<in> set d" for k x
  proof -
    have "dump_key k @ 58 # dumps x \<in> set (map (\<lambda>(k, s). dump_key k @ 58 # s)
        (sort_key fst (map (\<lambda>(k, v). (k, dumps v)) d)))"
      using that by force
    moreover have "encodable (join [44] (map (\<lambda>(k, s). dump_key k @ 58 # s)
        (sort_key fst (map (\<lambda>(k, v). (k, dumps v)) d))))"
      using JDict.prems(1) by simp
    ultimately have "encodable (dump_key k @ 58 # dumps x)" by (rule encodable_join_iff [rotated])
    then show ?thesis by simp
  qed
  with JDict show ?case by (fastforce simp: snds.simps dest: encodable_dump_str_iff split: pkey.splits)
qed (auto dest: encodable_dump_str_iff)

lemma canonical_json_bytes_iff:
  "(\<exists>bs. canonical_json_bytes v = Inr bs) \<longleftrightarrow> in_range v \<and> json_depth v \<le> 32 \<and> encodable_json v"
proof
  assume "\<exists>bs. canonical_json_bytes v = Inr bs"
  then have v: "validate_json_value v 0 = Inr ()" "\<exists>xs. utf8_opt (dumps v) = Some xs"
    by (auto simp: canonical_json_bytes_def bindE_eq_Inr encode_utf8_def split: option.splits)
  then have "encodable_json v"
    using encodable_dumps_iff [OF _ validated_plain [OF v(1)]] by (auto dest: encodable_utf8)
  with v(1) show "in_range v \<and> json_depth v \<le> 32 \<and> encodable_json v"
    by (simp add: validate_depth)
next
  assume "in_range v \<and> json_depth v \<le> 32 \<and> encodable_json v"
  then show "\<exists>bs. canonical_json_bytes v = Inr bs"
    by (intro canonical_json_bytes_total) (auto simp: validate_depth)
qed

lemma in_range_dget: "in_range d \<Longrightarrow> in_range (dget d k)"
  by (cases d) (auto simp: assoc_get_def split: option.splits dest!: map_of_SomeD)

end
