(* ===== verification/Crypto.thy ===== *)
theory Crypto
  imports CodecFacts
begin

text \<open>
  \<^verbatim>\<open>src/hap/crypto.py\<close>, and \<open>base64.b64encode\<close>/\<open>b64decode(validate=True)\<close> of the standard
  library as CPython's \<open>binascii\<close> computes them.

  The primitives of the third-party library \<open>cryptography\<close> and of \<open>hashlib\<close>, and
  \<open>datetime.fromisoformat\<close>, are the fields of an \<open>env\<close>, the first argument of every definition
  that depends on them. Nothing is assumed of them here; a lemma that needs a law of theirs
  states it as a hypothesis (\<open>digests_32\<close>, \<open>signatures_verify\<close>).
\<close>

section \<open>Base64\<close>

definition b64_char :: "nat \<Rightarrow> nat" where
  "b64_char v = (if v < 26 then 65 + v else if v < 52 then 71 + v else if v < 62 then v - 4
     else if v = 62 then 43 else 47)"

definition b64_val :: "nat \<Rightarrow> nat option" where
  "b64_val c = (if 65 \<le> c \<and> c \<le> 90 then Some (c - 65)
     else if 97 \<le> c \<and> c \<le> 122 then Some (c - 71)
     else if 48 \<le> c \<and> c \<le> 57 then Some (c + 4)
     else if c = 43 then Some 62 else if c = 47 then Some 63 else None)"

fun b64_nats :: "nat list \<Rightarrow> ustr" where
  "b64_nats [] = []"
| "b64_nats [a] = [b64_char (a div 4), b64_char (a mod 4 * 16), 61, 61]"
| "b64_nats [a, b] =
     [b64_char (a div 4), b64_char (a mod 4 * 16 + b div 16), b64_char (b mod 16 * 4), 61]"
| "b64_nats (a # b # c # rest) =
     b64_char (a div 4) # b64_char (a mod 4 * 16 + b div 16)
     # b64_char (b mod 16 * 4 + c div 64) # b64_char (c mod 64) # b64_nats rest"

definition b64encode :: "bytes \<Rightarrow> ustr" where
  "b64encode bs = b64_nats (map unat bs)"

text \<open>\<open>binascii.a2b_base64(data, strict_mode=True)\<close>: the position in the group of four, the
  bits left over from the previous character, the padding characters of this group, and
  whether any padding was seen. Padding at position 0 or 1 of a group is skipped, and the bits
  left over at the end are not looked at.\<close>

fun a2b_loop :: "nat list \<Rightarrow> nat \<Rightarrow> nat \<Rightarrow> nat \<Rightarrow> bool \<Rightarrow> nat list option" where
  "a2b_loop [] quad_pos leftchar pads started = (if quad_pos = 0 then Some [] else None)"
| "a2b_loop (c # cs) quad_pos leftchar pads started =
     (if c = 61 then
        if 2 \<le> quad_pos then
          if 4 \<le> quad_pos + (pads + 1) then (if cs = [] then Some [] else None)
          else a2b_loop cs quad_pos leftchar (pads + 1) True
        else a2b_loop cs quad_pos leftchar pads True
      else case b64_val c of
        None \<Rightarrow> None
      | Some v \<Rightarrow>
          if started then None
          else if quad_pos = 0 then a2b_loop cs 1 v 0 started
          else if quad_pos = 1 then
            map_option ((#) (leftchar * 4 + v div 16)) (a2b_loop cs 2 (v mod 16) 0 started)
          else if quad_pos = 2 then
            map_option ((#) (leftchar * 16 + v div 4)) (a2b_loop cs 3 (v mod 4) 0 started)
          else map_option ((#) (leftchar * 64 + v)) (a2b_loop cs 0 0 0 started))"

definition b64decode :: "ustr \<Rightarrow> bytes result" where
  "b64decode s =
     (if \<not> list_all (\<lambda>c. c < 128) s
      then Inl (Exn ValueError ''string argument should contain only ASCII characters'')
      else if s \<noteq> [] \<and> hd s = 61 then Inl (Exn ValueError ''Leading padding not allowed'')
      else case a2b_loop s 0 0 0 False of
        None \<Rightarrow> Inl (Exn ValueError ''Incorrect padding'')
      | Some ns \<Rightarrow> Inr (map word_of_nat ns))"

lemma b64_val_char [simp]: "v < 64 \<Longrightarrow> b64_val (b64_char v) = Some v"
  by (auto simp: b64_val_def b64_char_def)

lemma b64_char_not_pad [simp]: "v < 64 \<Longrightarrow> b64_char v \<noteq> 61"
  by (auto simp: b64_char_def)

lemma b64_char_ascii: "v < 64 \<Longrightarrow> b64_char v < 128"
  by (auto simp: b64_char_def)

lemma small_div: "b < 256 \<Longrightarrow> b div 16 < (16 :: nat)" "b < 256 \<Longrightarrow> b div 64 < (4 :: nat)"
  by simp_all

lemma six_bits:
  "a < 256 \<Longrightarrow> a div 4 < (64 :: nat)"
  "b < 256 \<Longrightarrow> a mod 4 * 16 + b div 16 < (64 :: nat)"
  "c < 256 \<Longrightarrow> b mod 16 * 4 + c div 64 < (64 :: nat)"
  "a mod 4 * 16 < (64 :: nat)" "b mod 16 * 4 < (64 :: nat)"
proof -
  show "a < 256 \<Longrightarrow> a div 4 < 64" by simp
  have "a mod 4 < 4" "b mod 16 < 16" by simp_all
  then show "a mod 4 * 16 < 64" "b mod 16 * 4 < 64" by linarith+
  show "a mod 4 * 16 + b div 16 < 64" if "b < 256"
  proof -
    from that have "b div 16 < 16" by simp
    with \<open>a mod 4 < 4\<close> show ?thesis by linarith
  qed
  show "b mod 16 * 4 + c div 64 < 64" if "c < 256"
  proof -
    from that have "c div 64 < 4" by simp
    with \<open>b mod 16 < 16\<close> show ?thesis by linarith
  qed
qed

lemma div_mod_digits:
  "(x :: nat) < 16 \<Longrightarrow> (a mod 4 * 16 + x) div 16 = a mod 4"
  "x < 16 \<Longrightarrow> (a mod 4 * 16 + x) mod 16 = x"
  "y < 4 \<Longrightarrow> (b mod 16 * 4 + y) div 4 = b mod 16"
  "y < 4 \<Longrightarrow> (b mod 16 * 4 + y) mod 4 = (y :: nat)"
  by (simp_all add: div_add1_eq)

lemma a2b_step [simp]:
  assumes "v < 64"
  shows "a2b_loop (b64_char v # cs) 0 l p False = a2b_loop cs 1 v 0 False"
    "a2b_loop (b64_char v # cs) (Suc 0) l p False
       = map_option ((#) (l * 4 + v div 16)) (a2b_loop cs 2 (v mod 16) 0 False)"
    "a2b_loop (b64_char v # cs) 2 l p False
       = map_option ((#) (l * 16 + v div 4)) (a2b_loop cs 3 (v mod 4) 0 False)"
    "a2b_loop (b64_char v # cs) 3 l p False
       = map_option ((#) (l * 64 + v)) (a2b_loop cs 0 0 0 False)"
  using assms by simp_all

lemma a2b_stop [simp]:
  "a2b_loop [] 0 l p s = Some []" "a2b_loop [61, 61] 2 l 0 s = Some []"
  "a2b_loop [61] 3 l 0 s = Some []"
  by simp_all

declare a2b_loop.simps [simp del]

lemma a2b_b64_nats:
  "list_all (\<lambda>n. n < 256) ns \<Longrightarrow> a2b_loop (b64_nats ns) 0 0 0 False = Some ns"
proof (induction ns rule: b64_nats.induct)
  case (3 a b)
  then have "b div 16 < 16" by (simp add: small_div)
  with 3 show ?case by (simp add: six_bits div_mod_digits)
next
  case (4 a b c rest)
  then have "b div 16 < 16" "c div 64 < 4" by (simp_all add: small_div)
  with 4 show ?case by (simp add: six_bits div_mod_digits mult.commute)
qed (simp_all add: six_bits)

lemma b64_nats_ascii: "list_all (\<lambda>n. n < 256) ns \<Longrightarrow> list_all (\<lambda>c. c < 128) (b64_nats ns)"
  by (induction ns rule: b64_nats.induct) (simp_all add: six_bits b64_char_ascii)

lemma b64_nats_no_leading_pad:
  "list_all (\<lambda>n. n < 256) ns \<Longrightarrow> b64_nats ns \<noteq> [] \<Longrightarrow> hd (b64_nats ns) \<noteq> 61"
  by (cases ns rule: b64_nats.cases) (simp_all add: six_bits)

lemma b64_round_trip [simp]: "b64decode (b64encode bs) = Inr bs"
proof -
  have "list_all (\<lambda>n. n < 256) (map unat bs)" by (simp add: list_all_iff)
  moreover have "map word_of_nat (map unat bs) = bs" by (simp add: map_idI)
  ultimately show ?thesis
    using b64_nats_no_leading_pad [of "map unat bs"]
    by (auto simp: b64decode_def b64encode_def a2b_b64_nats b64_nats_ascii)
qed

lemma encodable_b64encode [simp]: "encodable (b64encode bs)"
proof -
  have "list_all (\<lambda>c. c < 128) (b64encode bs)"
    unfolding b64encode_def by (rule b64_nats_ascii) (simp add: list_all_iff)
  then show ?thesis by (rule list.pred_mono_strong) simp
qed

section \<open>The environment\<close>

record env =
  sha256 :: "bytes \<Rightarrow> bytes"
  blake2b20 :: "bytes \<Rightarrow> bytes"
  ed_public :: "bytes \<Rightarrow> bytes option"
  ed_sign :: "bytes \<Rightarrow> bytes \<Rightarrow> bytes"
  ed_verify :: "bytes \<Rightarrow> bytes \<Rightarrow> bytes \<Rightarrow> bool"
  iso_aware :: "ustr \<Rightarrow> bool option"

text \<open>
  \<open>ed_public raw\<close> is the public key of the private key \<open>raw\<close>, \<open>None\<close> where
  \<open>Ed25519PrivateKey.from_private_bytes\<close> raises; \<open>ed_verify pk sig msg\<close> is whether
  \<open>from_public_bytes(pk).verify(sig, msg)\<close> returns; \<open>iso_aware s\<close> is \<open>None\<close> where
  \<open>datetime.fromisoformat(s)\<close> raises \<open>ValueError\<close>, and otherwise whether the result has a
  time zone.
\<close>

definition sha256_hex :: "env \<Rightarrow> bytes \<Rightarrow> ustr" where
  "sha256_hex E data = bytes_hex (sha256 E data)"

definition digests_32 :: "env \<Rightarrow> bool" where
  "digests_32 E \<longleftrightarrow> (\<forall>x. length (sha256 E x) = 32)"

text \<open>A signature of a key verifies under its public key, which has 32 bytes, and has 64
  bytes itself.\<close>

definition signatures_verify :: "env \<Rightarrow> bool" where
  "signatures_verify E \<longleftrightarrow> (\<forall>sk pk. ed_public E sk = Some pk \<longrightarrow>
     length pk = 32 \<and> (\<forall>msg. length (ed_sign E sk msg) = 64 \<and> ed_verify E pk (ed_sign E sk msg) msg))"

lemma length_sha256_hex [simp]: "digests_32 E \<Longrightarrow> length (sha256_hex E x) = 64"
  by (simp add: sha256_hex_def digests_32_def)

lemma fromhex_sha256_hex [simp]: "fromhex_opt (sha256_hex E x) = Some (sha256 E x)"
  by (simp add: sha256_hex_def)

section \<open>Keys and signatures\<close>

definition public_key_to_author_id :: "env \<Rightarrow> ustr \<Rightarrow> ustr result" where
  "public_key_to_author_id E public_key_hex =
     bindE (bytes_fromhex public_key_hex)
       (\<lambda>raw. Inr (str ''hap1'' @ bytes_hex (blake2b20 E raw)))"

definition load_private :: "env \<Rightarrow> ustr \<Rightarrow> (bytes \<times> bytes) result" where
  "load_private E private_key_b64 =
     bindE (b64decode private_key_b64) (\<lambda>raw. case ed_public E raw of
        None \<Rightarrow> Inl (Exn ValueError ''An Ed25519 private key is 32 bytes long'')
      | Some pk \<Rightarrow> Inr (raw, pk))"

definition derive_public_key :: "env \<Rightarrow> ustr \<Rightarrow> ustr result" where
  "derive_public_key E private_key_b64 =
     bindE (load_private E private_key_b64) (\<lambda>(raw, pk). Inr (bytes_hex pk))"

definition sign :: "env \<Rightarrow> ustr \<Rightarrow> bytes \<Rightarrow> ustr result" where
  "sign E private_key_b64 msg =
     bindE (load_private E private_key_b64) (\<lambda>(raw, pk). Inr (b64encode (ed_sign E raw msg)))"

text \<open>\<open>verify\<close> catches every exception.\<close>

definition verify :: "env \<Rightarrow> ustr \<Rightarrow> ustr \<Rightarrow> bytes \<Rightarrow> bool" where
  "verify E public_key_hex signature_b64 msg =
     (case (bytes_fromhex public_key_hex, b64decode signature_b64) of
        (Inr pk, Inr sig) \<Rightarrow> ed_verify E pk sig msg
      | _ \<Rightarrow> False)"

text \<open>\<open>generate_keypair\<close>, given the bytes that the key generator drew.\<close>

record keypair =
  kp_private_key :: ustr
  kp_public_key :: ustr
  kp_author_id :: ustr

definition generate_keypair :: "env \<Rightarrow> bytes \<Rightarrow> bytes \<Rightarrow> keypair result" where
  "generate_keypair E private_raw public_raw =
     bindE (public_key_to_author_id E (bytes_hex public_raw)) (\<lambda>a.
       Inr \<lparr>kp_private_key = b64encode private_raw, kp_public_key = bytes_hex public_raw, kp_author_id = a\<rparr>)"

definition redact_private_key :: "json \<Rightarrow> json" where
  "redact_private_key wallet = dpop ''private_key'' wallet"

lemma load_private_b64encode [simp]:
  "load_private E (b64encode sk) = (case ed_public E sk of
     None \<Rightarrow> Inl (Exn ValueError ''An Ed25519 private key is 32 bytes long'')
   | Some pk \<Rightarrow> Inr (sk, pk))"
  by (simp add: load_private_def)

lemma length_b64_nats: "length (b64_nats ns) = 4 * ((length ns + 2) div 3)"
proof (induction ns rule: b64_nats.induct)
  case (4 a b c rest)
  have "(5 + n) div 3 = Suc (Suc (Suc n) div 3)" for n :: nat by simp
  with 4 show ?case by simp
qed simp_all

lemma sign_verifies:
  assumes "signatures_verify E" "derive_public_key E sk = Inr pk" "sign E sk msg = Inr s"
  shows "verify E pk s msg" "length pk = 64" "length s = 88"
  using assms
  by (auto simp: derive_public_key_def sign_def result_simps verify_def load_private_def
      signatures_verify_def b64encode_def length_b64_nats split: option.splits)
     (metis b64_round_trip b64encode_def sum.case(2))

end
