(* ===== verification/PyValue.thy ===== *)
theory PyValue
  imports CodecFacts
begin

text \<open>
  What the sources do with a Python object whose type they do not check first: truth tests,
  \<open>d[k]\<close>, \<open>d.get(k, default)\<close>, \<open>for x in v\<close>, \<open>int(v)\<close>, \<open>float(v)\<close>, \<open>str(v)\<close>. Each raises where
  Python raises, so that an answer of the wrong shape is a branch of the caller.
\<close>

section \<open>Truth, lookup, iteration\<close>

fun truthy :: "json \<Rightarrow> bool" where
  "truthy JNull = False"
| "truthy (JBool b) = b"
| "truthy (JInt i) = (i \<noteq> 0)"
| "truthy (JFloat f) = (case f of Dyadic m e \<Rightarrow> m \<noteq> 0 | _ \<Rightarrow> True)"
| "truthy (JStr s) = (s \<noteq> [])"
| "truthy (JList xs) = (xs \<noteq> [])"
| "truthy (JDict d) = (d \<noteq> [])"
| "truthy (JOther t) = True"

definition attribute_error :: "'a result" where
  "attribute_error = Inl (Exn OtherError ''AttributeError'')"

text \<open>\<open>v.get(k, default)\<close>\<close>

definition dict_get :: "json \<Rightarrow> string \<Rightarrow> json \<Rightarrow> json result" where
  "dict_get v k d = (case v of
     JDict items \<Rightarrow> Inr (case map_of items (KStr (str k)) of Some w \<Rightarrow> w | None \<Rightarrow> d)
   | _ \<Rightarrow> attribute_error)"

text \<open>\<open>v[k]\<close> for a string \<open>k\<close>\<close>

definition dict_item :: "json \<Rightarrow> string \<Rightarrow> json result" where
  "dict_item v k = (case v of
     JDict items \<Rightarrow> (case map_of items (KStr (str k)) of
        Some w \<Rightarrow> Inr w | None \<Rightarrow> Inl (Exn KeyError k))
   | _ \<Rightarrow> Inl (Exn TypeError ''indices must be integers''))"

text \<open>\<open>v[0]\<close>\<close>

definition first_item :: "json \<Rightarrow> json result" where
  "first_item v = (case v of
     JList (x # _) \<Rightarrow> Inr x
   | JList [] \<Rightarrow> Inl (Exn IndexError ''list index out of range'')
   | JStr (c # _) \<Rightarrow> Inr (JStr [c])
   | JStr [] \<Rightarrow> Inl (Exn IndexError ''string index out of range'')
   | JDict _ \<Rightarrow> Inl (Exn KeyError ''0'')
   | _ \<Rightarrow> Inl (Exn TypeError ''object is not subscriptable''))"

text \<open>\<open>for x in v\<close>: a string yields its characters, a dictionary its keys; \<open>None\<close> stands for the
  \<open>TypeError\<close> of an object that is not iterable.\<close>

definition py_iter :: "json \<Rightarrow> json list option" where
  "py_iter v = (case v of
     JList xs \<Rightarrow> Some xs
   | JStr s \<Rightarrow> Some (map (\<lambda>c. JStr [c]) s)
   | JDict d \<Rightarrow> Some (map (\<lambda>(k, _). case k of KStr s \<Rightarrow> JStr s | KOther _ \<Rightarrow> JOther []) d)
   | _ \<Rightarrow> None)"

definition iterE :: "json \<Rightarrow> json list result" where
  "iterE v = (case py_iter v of
     Some xs \<Rightarrow> Inr xs | None \<Rightarrow> Inl (Exn TypeError ''object is not iterable''))"

lemma dict_get_eq_Inr [result_simps]:
  "dict_get v k d = Inr w \<longleftrightarrow>
     (\<exists>items. v = JDict items \<and> w = (case map_of items (KStr (str k)) of Some w \<Rightarrow> w | None \<Rightarrow> d))"
  by (auto simp: dict_get_def attribute_error_def split: json.splits)

lemma dict_get_None: "is_dict v \<Longrightarrow> dict_get v k JNull = Inr (dget v k)"
  by (cases v) (auto simp: is_dict_def dict_get_def assoc_get_def)

text \<open>An optional argument.\<close>

definition opt_str :: "ustr option \<Rightarrow> json" where
  "opt_str v = (case v of None \<Rightarrow> JNull | Some s \<Rightarrow> JStr s)"

definition opt_int :: "int option \<Rightarrow> json" where
  "opt_int v = (case v of None \<Rightarrow> JNull | Some i \<Rightarrow> JInt i)"

section \<open>Conversions\<close>

text \<open>The code points with value 0 of the decimal systems of Unicode; the ten digits of each
  are consecutive.\<close>

definition decimal_zeros :: "nat list" where
  "decimal_zeros =
   [48, 1632, 1776, 1984, 2406, 2534, 2662, 2790, 2918, 3046, 3174, 3302, 3430, 3558, 3664, 3792,
   3872, 4160, 4240, 6112, 6160, 6470, 6608, 6784, 6800, 6992, 7088, 7232, 7248, 42528, 43216,
   43264, 43472, 43504, 43600, 44016, 65296, 66720, 68912, 69734, 69872, 69942, 70096, 70384,
   70736, 70864, 71248, 71360, 71472, 71904, 72016, 72784, 73040, 73120, 92768, 92864, 93008,
   120782, 120792, 120802, 120812, 120822, 123200, 123632, 125264, 130032]"

definition decimal_value :: "nat \<Rightarrow> nat option" where
  "decimal_value c = map_option (\<lambda>z. c - z) (find (\<lambda>z. z \<le> c \<and> c \<le> z + 9) decimal_zeros)"

text \<open>\<open>int(s)\<close>: white space around, a sign, digits with single underscores between them, at most
  \<open>sys.get_int_max_str_digits()\<close> digits.\<close>

definition MAX_STR_DIGITS :: nat where "MAX_STR_DIGITS = 4300"

fun int_digits :: "ustr \<Rightarrow> nat \<Rightarrow> nat option" where
  "int_digits [] n = Some n"
| "int_digits [c] n = map_option (\<lambda>v. 10 * n + v) (decimal_value c)"
| "int_digits (c # d # s) n =
     (case decimal_value c of
        None \<Rightarrow> None
      | Some v \<Rightarrow> if d = 95 then (if s = [] then None else int_digits s (10 * n + v))
          else int_digits (d # s) (10 * n + v))"

definition int_of_str :: "ustr \<Rightarrow> int result" where
  "int_of_str s = (let bad = Inl (Exn ValueError ''invalid literal for int() with base 10'');
       num = (\<lambda>sgn t. if t = [] then bad else case int_digits t 0 of
          None \<Rightarrow> bad
        | Some n \<Rightarrow> if MAX_STR_DIGITS < length (filter (\<lambda>c. c \<noteq> 95) t)
            then Inl (Exn ValueError ''Exceeds the limit for integer string conversion'') else Inr (sgn * int n)) in
     case py_strip s of
       [] \<Rightarrow> bad
     | c # t \<Rightarrow> if c = 45 then num (- 1) t else if c = 43 then num 1 t else num 1 (c # t))"

text \<open>A number reads back what \<open>str\<close> writes, when it has that many digits at most (\<open>str\<close> has the same limit).\<close>

definition printable_int :: "int \<Rightarrow> bool" where
  "printable_int i \<longleftrightarrow> length (dec (nat \<bar>i\<bar>)) \<le> MAX_STR_DIGITS"

lemma decimal_value_digit: "is_digit c \<Longrightarrow> decimal_value c = Some (c - 48)"
  by (auto simp: decimal_value_def decimal_zeros_def is_digit_def)

lemma int_digits_numeral: "list_all is_digit s \<Longrightarrow> int_digits s n = Some (foldl (\<lambda>n c. 10 * n + (c - 48)) n s)"
  by (induction s n rule: int_digits.induct) (auto simp: decimal_value_digit, simp_all add: is_digit_def)

lemma py_strip_dense: "list_all (\<lambda>c. \<not> uni_isspace c) s \<Longrightarrow> py_strip s = s"
proof -
  assume "list_all (\<lambda>c. \<not> uni_isspace c) s"
  moreover have "dropWhile uni_isspace t = t" if "list_all (\<lambda>c. \<not> uni_isspace c) t" for t
    using that by (cases t) simp_all
  ultimately show ?thesis by (simp add: py_strip_def)
qed

lemma int_of_str_numeral:
  assumes "printable_int i"
  shows "int_of_str (py_str_int i) = Inr i"
proof -
  have plain: "filter (\<lambda>c. c \<noteq> 95) (dec n) = dec n" for n
    using dec_digits [of n] by (auto simp: filter_id_conv list_all_iff is_digit_def)
  have digit: "int_digits (dec n) 0 = Some n" for n
    using int_digits_numeral [OF dec_digits, of n 0] undec_dec [of n] by (simp add: undec_def)
  have dense: "list_all (\<lambda>c. \<not> uni_isspace c) (dec n)" for n
    using dec_digits [of n] by (auto simp: list_all_iff is_digit_def uni_isspace_def)
  then have strip: "py_strip (py_str_int i) = py_str_int i"
    by (intro py_strip_dense) (simp add: py_str_int_def, simp add: uni_isspace_def)
  show ?thesis
  proof (cases "i < 0")
    case True
    then show ?thesis using strip digit [of "nat (- i)"] plain [of "nat (- i)"] assms
      by (simp add: int_of_str_def py_str_int_def printable_int_def)
  next
    case False
    obtain c cs where c: "dec (nat i) = c # cs" by (cases "dec (nat i)") auto
    then have "c \<noteq> 45" "c \<noteq> 43" using dec_hd_digit [OF c] by (auto simp: is_digit_def)
    with c False show ?thesis using strip digit [of "nat i"] plain [of "nat i"] assms
      by (simp add: int_of_str_def py_str_int_def printable_int_def)
  qed
qed

definition py_int :: "json \<Rightarrow> int result" where
  "py_int v = (case v of
     JInt i \<Rightarrow> Inr i
   | JBool b \<Rightarrow> Inr (if b then 1 else 0)
   | JFloat (Dyadic m e) \<Rightarrow>
       Inr (if 0 \<le> e then m * 2 ^ nat e
            else if 0 \<le> m then m div 2 ^ nat (- e) else - ((- m) div 2 ^ nat (- e)))
   | JFloat (Infinite _) \<Rightarrow> Inl (Exn OverflowError ''cannot convert float infinity to integer'')
   | JFloat NaN \<Rightarrow> Inl (Exn ValueError ''cannot convert float NaN to integer'')
   | JStr s \<Rightarrow> int_of_str s
   | _ \<Rightarrow> Inl (Exn TypeError ''int() argument must be a string or a real number''))"

text \<open>\<open>float(i)\<close> for an integer: rounded to 53 bits, half to even.\<close>

fun bit_length :: "nat \<Rightarrow> nat" where
  "bit_length n = (if n = 0 then 0 else Suc (bit_length (n div 2)))"

declare bit_length.simps [simp del]

definition float_of_int :: "int \<Rightarrow> pyfloat result" where
  "float_of_int i =
     (let n = nat \<bar>i\<bar>; e = bit_length n - 53; q = n div 2 ^ e; r = n mod 2 ^ e;
          q' = (if 2 ^ e < 2 * r \<or> (2 ^ e = 2 * r \<and> odd q) then q + 1 else q)
      in if 2 ^ 1024 \<le> q' * 2 ^ e then Inl (Exn OverflowError ''int too large to convert to float'')
         else Inr (Dyadic (if i < 0 then - int q' else int q') (int e)))"

text \<open>\<open>float(v)\<close>; the parser of numeric strings is a parameter.\<close>

definition py_float :: "(ustr \<Rightarrow> pyfloat option) \<Rightarrow> json \<Rightarrow> pyfloat result" where
  "py_float float_of_str v = (case v of
     JFloat f \<Rightarrow> Inr f
   | JInt i \<Rightarrow> float_of_int i
   | JBool b \<Rightarrow> Inr (Dyadic (if b then 1 else 0) 0)
   | JStr s \<Rightarrow> (case float_of_str s of
        Some f \<Rightarrow> Inr f | None \<Rightarrow> Inl (Exn ValueError ''could not convert string to float''))
   | _ \<Rightarrow> Inl (Exn TypeError ''float() argument must be a string or a real number''))"

text \<open>\<open>a < b\<close> and \<open>a <= b\<close> on floats; every comparison with NaN is false.\<close>

fun float_le :: "pyfloat \<Rightarrow> pyfloat \<Rightarrow> bool" where
  "float_le (Dyadic m e) (Dyadic m' e') \<longleftrightarrow>
     (if e' \<le> e then m * 2 ^ nat (e - e') \<le> m' else m \<le> m' * 2 ^ nat (e' - e))"
| "float_le (Infinite neg) (Dyadic _ _) \<longleftrightarrow> neg"
| "float_le (Dyadic _ _) (Infinite neg) \<longleftrightarrow> \<not> neg"
| "float_le (Infinite a) (Infinite b) \<longleftrightarrow> a \<or> \<not> b"
| "float_le NaN _ \<longleftrightarrow> False"
| "float_le _ NaN \<longleftrightarrow> False"

definition float_less :: "pyfloat \<Rightarrow> pyfloat \<Rightarrow> bool" where
  "float_less a b \<longleftrightarrow> float_le a b \<and> \<not> float_le b a"

lemma float_le_total: "a \<noteq> NaN \<Longrightarrow> b \<noteq> NaN \<Longrightarrow> float_le a b \<or> float_le b a"
  by (cases a; cases b) (auto split: if_splits)

end
