(* ===== verification/Records.thy ===== *)
theory Records
  imports Crypto PyValue
begin

text \<open>
  \<^verbatim>\<open>src/hap/records.py\<close>: signed records, their identifiers and their validation.

  A record under validation is an arbitrary \<open>json\<close> value, as it arrives from a file or a peer.
  \<open>validate_record\<close> makes the checks in the order of the code, so the first failing one
  decides the message; a test that raises something other than a validation error (a kind that
  is a list, a text that UTF-8 cannot encode) is a branch too.
\<close>

definition TARGET_KINDS :: "string list" where
  "TARGET_KINDS = [''attestation'', ''dispute'', ''correction'', ''subject_response'',
     ''person_impact_notice'', ''restriction_notice'', ''withdrawal_notice'',
     ''legal_adjudication'', ''public_interest_justification'', ''view_decision'',
     ''provenance_assertion'']"

definition ALLOWED_KINDS :: "string list" where
  "ALLOWED_KINDS = ''claim'' # TARGET_KINDS"

definition MAX_TITLE_CHARS :: nat where "MAX_TITLE_CHARS = 240"
definition MAX_STATEMENT_CHARS :: nat where "MAX_STATEMENT_CHARS = 100000"
definition MAX_SOURCES :: nat where "MAX_SOURCES = 32"
definition MAX_EVIDENCE_ITEMS :: nat where "MAX_EVIDENCE_ITEMS = 64"
definition MAX_TAGS :: nat where "MAX_TAGS = 32"

definition RECORD_FIELDS :: "string list" where
  "RECORD_FIELDS = [''schema'', ''version'', ''kind'', ''created_at'', ''event_time'', ''author_id'',
     ''author_public_key'', ''title'', ''statement'', ''target_record_id'', ''sources'', ''evidence'',
     ''tags'', ''signature'', ''record_id'']"

definition SOURCE_FIELDS :: "string list" where "SOURCE_FIELDS = [''uri'', ''label'']"

definition EVIDENCE_FIELDS :: "string list" where
  "EVIDENCE_FIELDS = [''filename'', ''size'', ''mime_type'', ''sha256'', ''cid'']"

abbreviation record_error :: "string \<Rightarrow> exn" where
  "record_error \<equiv> Exn RecordValidationError"

section \<open>Bodies and identifiers\<close>

definition signing_body :: "json \<Rightarrow> json" where
  "signing_body r = dpop ''record_id'' (dpop ''signature'' r)"

definition envelope_for_id :: "json \<Rightarrow> json" where
  "envelope_for_id r = dpop ''record_id'' r"

definition calculate_record_id :: "env \<Rightarrow> json \<Rightarrow> ustr result" where
  "calculate_record_id E r =
     bindE (canonical_json_bytes (envelope_for_id r)) (\<lambda>bs. Inr (sha256_hex E bs))"

section \<open>Validation\<close>

text \<open>\<open>_require_hex_digest\<close>; the field name, which only words the message, is left out.
  \<open>except ValueError\<close> covers the only exception that \<open>fromhex\<close> raises on a string.\<close>

definition require_hex_digest :: "json \<Rightarrow> unit result" where
  "require_hex_digest v = (case v of
     JStr s \<Rightarrow>
       if length s \<noteq> 64 then Inl (record_error ''must be a 32-byte hexadecimal digest'')
       else bindE (reraise is_ValueError (record_error ''must be hexadecimal'') (bytes_fromhex s))
         (\<lambda>raw. if length raw \<noteq> 32 then Inl (record_error ''must be a 32-byte hexadecimal digest'')
           else Inr ())
   | _ \<Rightarrow> Inl (record_error ''must be a 32-byte hexadecimal digest''))"

text \<open>\<open>value.replace("Z", "+00:00")\<close>\<close>

definition replace_Z :: "ustr \<Rightarrow> ustr" where
  "replace_Z s = concat (map (\<lambda>c. if c = 90 then str ''+00:00'' else [c]) s)"

definition validate_created_at :: "env \<Rightarrow> ustr \<Rightarrow> unit result" where
  "validate_created_at E s = (case iso_aware E (replace_Z s) of
     None \<Rightarrow> Inl (record_error ''created_at must be RFC 3339 / ISO 8601'')
   | Some False \<Rightarrow> Inl (record_error ''created_at must include a timezone'')
   | Some True \<Rightarrow> Inr ())"

definition normalize_list :: "json \<Rightarrow> json list result" where
  "normalize_list v = (case v of JNull \<Rightarrow> Inr [] | JList xs \<Rightarrow> Inr xs
     | _ \<Rightarrow> Inl (record_error ''must be a list''))"

text \<open>\<open>isinstance(v, str)\<close> with bounds on the length; \<open>None\<close> where it is allowed.\<close>

definition str_upto :: "nat \<Rightarrow> json \<Rightarrow> bool" where
  "str_upto n v = (case v of JStr s \<Rightarrow> length s \<le> n | _ \<Rightarrow> False)"

definition null_or_str_upto :: "nat \<Rightarrow> json \<Rightarrow> bool" where
  "null_or_str_upto n v \<longleftrightarrow> v = JNull \<or> str_upto n v"

definition nonempty_str :: "json \<Rightarrow> bool" where
  "nonempty_str v = (case v of JStr s \<Rightarrow> s \<noteq> [] | _ \<Rightarrow> False)"

text \<open>\<open>not isinstance(record.get(field), str) or not record[field].strip()\<close>\<close>

definition required_text :: "json \<Rightarrow> string \<Rightarrow> unit result" where
  "required_text r field = (case dget r field of
     JStr s \<Rightarrow> if py_strip s = [] then Inl (record_error ''field is required'') else Inr ()
   | _ \<Rightarrow> Inl (record_error ''field is required''))"

text \<open>The text of a field that was already found to be a string.\<close>

definition text_of :: "json \<Rightarrow> ustr" where
  "text_of v = (case v of JStr s \<Rightarrow> s | _ \<Rightarrow> [])"

definition validate_source :: "json \<Rightarrow> unit result" where
  "validate_source source =
     (if \<not> has_fields source SOURCE_FIELDS
      then Inl (record_error ''source fields do not match the versioned schema'')
      else if \<not> nonempty_str (dget source ''uri'')
      then Inl (record_error ''each source requires a non-empty uri'')
      else if \<not> str_upto 2048 (dget source ''uri'')
      then Inl (record_error ''source uri is too long'')
      else if \<not> null_or_str_upto 240 (dget source ''label'')
      then Inl (record_error ''source label is invalid'')
      else Inr ())"

definition validate_evidence_item :: "json \<Rightarrow> unit result" where
  "validate_evidence_item item =
     (if \<not> has_fields item EVIDENCE_FIELDS
      then Inl (record_error ''evidence fields do not match the versioned schema'')
      else bindE (require_hex_digest (dget item ''sha256'')) (\<lambda>_.
      if \<not> (nonempty_str (dget item ''filename'') \<and> str_upto 255 (dget item ''filename''))
      then Inl (record_error ''evidence filename is invalid'')
      else if \<not> is_nonneg_int (dget item ''size'')
      then Inl (record_error ''evidence size must be a non-negative integer'')
      else if \<not> null_or_str_upto 255 (dget item ''mime_type'')
      then Inl (record_error ''evidence mime_type is invalid'')
      else if \<not> null_or_str_upto 512 (dget item ''cid'')
      then Inl (record_error ''evidence cid is invalid'')
      else Inr ()))"

text \<open>The checks up to the tags: schema, kind, texts, author, target and list sizes. Returns
  the sources and the evidence.\<close>

definition validate_head :: "env \<Rightarrow> json \<Rightarrow> unit result" where
  "validate_head E r =
     (if \<not> has_fields r RECORD_FIELDS
      then Inl (record_error ''record fields do not match the versioned schema'')
      else if dget r ''schema'' \<noteq> JStr (str ''hap.record'')
      then Inl (record_error ''unsupported record schema'')
      else if \<not> py_eq (dget r ''version'') (JInt 1)
      then Inl (record_error ''unsupported record version'')
      else condE (in_str_set (dget r ''kind'') ALLOWED_KINDS)
        (bindE (forE (required_text r)
          [''created_at'', ''author_id'', ''author_public_key'', ''title'', ''statement'']) (\<lambda>_.
        if \<not> str_upto 64 (dget r ''created_at'')
        then Inl (record_error ''created_at is too long'')
        else bindE (validate_created_at E (text_of (dget r ''created_at''))) (\<lambda>_.
        if \<not> null_or_str_upto 512 (dget r ''event_time'')
        then Inl (record_error ''event_time must be null or a string of 512 characters or fewer'')
        else if \<not> str_upto MAX_TITLE_CHARS (dget r ''title'')
        then Inl (record_error ''title must be 240 characters or fewer'')
        else if \<not> str_upto MAX_STATEMENT_CHARS (dget r ''statement'')
        then Inl (record_error ''statement is too large'')
        else if length (text_of (dget r ''author_public_key'')) \<noteq> 64
        then Inl (record_error ''author_public_key must be a 32-byte Ed25519 public key'')
        else bindE (reraise is_ValueError (record_error ''author_public_key must be hexadecimal'')
          (bytes_fromhex (text_of (dget r ''author_public_key'')))) (\<lambda>_.
        bindE (public_key_to_author_id E (text_of (dget r ''author_public_key''))) (\<lambda>expected_author.
        if dget r ''author_id'' \<noteq> JStr expected_author
        then Inl (record_error ''author_id does not match public key'')
        else Inr ())))))
        (Inl (record_error ''invalid record kind'')))"

definition validate_links :: "json \<Rightarrow> unit result" where
  "validate_links r =
     bindE (condE (in_str_set (dget r ''kind'') TARGET_KINDS)
       (require_hex_digest (dget r ''target_record_id''))
       (if dget r ''target_record_id'' \<noteq> JNull
        then Inl (record_error ''claim records cannot target another record'') else Inr ())) (\<lambda>_.
     bindE (normalize_list (dget r ''sources'')) (\<lambda>sources.
     bindE (normalize_list (dget r ''evidence'')) (\<lambda>evidence.
     bindE (normalize_list (dget r ''tags'')) (\<lambda>tags.
     if MAX_SOURCES < length sources
     then Inl (record_error ''a record may contain at most 32 sources'')
     else if MAX_EVIDENCE_ITEMS < length evidence
     then Inl (record_error ''a record may contain at most 64 evidence entries'')
     else if MAX_TAGS < length tags \<or> \<not> list_all (\<lambda>t. nonempty_str t \<and> str_upto 64 t) tags
     then Inl (record_error ''invalid tags'')
     else bindE (forE validate_source sources) (\<lambda>_. forE validate_evidence_item evidence)))))"

definition validate_signature :: "env \<Rightarrow> json \<Rightarrow> bool \<Rightarrow> unit result" where
  "validate_signature E r verify_signature =
     (if \<not> str_upto 256 (dget r ''signature'')
      then Inl (record_error ''signature is required'')
      else bindE (require_hex_digest (dget r ''record_id'')) (\<lambda>_.
      bindE (calculate_record_id E r) (\<lambda>calculated.
      if dget r ''record_id'' \<noteq> JStr calculated
      then Inl (record_error ''record_id does not match record contents'')
      else if \<not> verify_signature then Inr ()
      else bindE (canonical_json_bytes (signing_body r)) (\<lambda>body.
      if \<not> verify E (text_of (dget r ''author_public_key'')) (text_of (dget r ''signature'')) body
      then Inl (record_error ''invalid record signature'')
      else Inr ()))))"

definition validate_record_with :: "env \<Rightarrow> bool \<Rightarrow> json \<Rightarrow> unit result" where
  "validate_record_with E verify_signature r =
     bindE (validate_head E r) (\<lambda>_. bindE (validate_links r) (\<lambda>_.
       validate_signature E r verify_signature))"

definition validate_record :: "env \<Rightarrow> json \<Rightarrow> unit result" where
  "validate_record E r = validate_record_with E True r"

section \<open>Creation\<close>

text \<open>\<open>created_at or utc_now_iso()\<close>: the clock's text is an argument. \<open>sources or []\<close> and the
  like: a list stays what it is and \<open>None\<close> becomes the empty list.\<close>

definition create_signed_record :: "env \<Rightarrow> ustr \<Rightarrow> ustr \<Rightarrow> ustr \<Rightarrow> ustr \<Rightarrow> ustr \<Rightarrow> ustr option
    \<Rightarrow> ustr option \<Rightarrow> json list \<Rightarrow> json list \<Rightarrow> json list \<Rightarrow> ustr option \<Rightarrow> json result" where
  "create_signed_record E now private_key kind title statement event_time target sources evidence
     tags created_at =
   bindE (derive_public_key E private_key) (\<lambda>public_key.
   bindE (public_key_to_author_id E public_key) (\<lambda>author.
   let r = obj [(''schema'', JStr (str ''hap.record'')), (''version'', JInt 1), (''kind'', JStr kind),
         (''created_at'', JStr (case created_at of Some (c # cs) \<Rightarrow> c # cs | _ \<Rightarrow> now)),
         (''event_time'', opt_str event_time), (''author_id'', JStr author),
         (''author_public_key'', JStr public_key), (''title'', JStr (py_strip title)),
         (''statement'', JStr (py_strip statement)), (''target_record_id'', opt_str target),
         (''sources'', JList sources), (''evidence'', JList evidence), (''tags'', JList tags)]
   in bindE (canonical_json_bytes (signing_body r)) (\<lambda>body.
      bindE (sign E private_key body) (\<lambda>s.
      let r1 = dput ''signature'' (JStr s) r in
      bindE (calculate_record_id E r1) (\<lambda>rid.
      let r2 = dput ''record_id'' (JStr rid) r1 in
      bindE (validate_record E r2) (\<lambda>_. Inr r2))))))"

section \<open>What validation establishes\<close>

text \<open>A 64-character string of 32 bytes: the form of every identifier.\<close>

definition is_hex_digest :: "json \<Rightarrow> bool" where
  "is_hex_digest v \<longleftrightarrow> (\<exists>s bs. v = JStr s \<and> length s = 64 \<and> fromhex_opt s = Some bs \<and> length bs = 32)"

lemma require_hex_digest_eq_Inr [result_simps]:
  "require_hex_digest v = Inr u \<longleftrightarrow> is_hex_digest v"
  by (auto simp: require_hex_digest_def is_hex_digest_def result_simps split: json.splits)

lemma is_hex_digest_lower:
  "is_hex_digest (JStr s) \<Longrightarrow> \<exists>bs. length bs = 32 \<and> fromhex_opt s = Some bs \<and> map ascii_lower s = bytes_hex bs"
  using fromhex_exact [of s] by (auto simp: is_hex_digest_def)

lemma str_upto_iff [simp]: "str_upto n v \<longleftrightarrow> (\<exists>s. v = JStr s \<and> length s \<le> n)"
  by (auto simp: str_upto_def split: json.splits)

lemma nonempty_str_iff [simp]: "nonempty_str v \<longleftrightarrow> (\<exists>s. v = JStr s \<and> s \<noteq> [])"
  by (auto simp: nonempty_str_def split: json.splits)

lemma required_text_eq_Inr [result_simps]:
  "required_text r f = Inr u \<longleftrightarrow> (\<exists>s. dget r f = JStr s \<and> py_strip s \<noteq> [])"
  by (auto simp: required_text_def split: json.splits)

lemma normalize_list_eq_Inr [result_simps]:
  "normalize_list v = Inr xs \<longleftrightarrow> (v = JNull \<and> xs = []) \<or> v = JList xs"
  by (auto simp: normalize_list_def split: json.splits)

lemma has_fields_is_dict: "has_fields r fs \<Longrightarrow> is_dict r"
  by (cases r) (auto simp: is_dict_def)

lemma text_of_JStr [simp]: "text_of (JStr s) = s"
  by (simp add: text_of_def)

lemma validate_head_facts:
  assumes "validate_head E r = Inr u"
  shows "has_fields r RECORD_FIELDS" "dget r ''schema'' = JStr (str ''hap.record'')"
    "\<exists>k \<in> set ALLOWED_KINDS. dget r ''kind'' = JStr (str k)"
    "\<exists>pk raw. dget r ''author_public_key'' = JStr pk \<and> length pk = 64 \<and> fromhex_opt pk = Some raw
       \<and> dget r ''author_id'' = JStr (str ''hap1'' @ bytes_hex (blake2b20 E raw))"
    "\<exists>s. dget r ''title'' = JStr s \<and> py_strip s \<noteq> [] \<and> length s \<le> 240"
    "\<exists>s. dget r ''statement'' = JStr s \<and> py_strip s \<noteq> [] \<and> length s \<le> 100000"
    "\<exists>s. dget r ''created_at'' = JStr s \<and> length s \<le> 64 \<and> iso_aware E (replace_Z s) = Some True"
  using assms unfolding validate_head_def
  by (auto simp: result_simps validate_created_at_def public_key_to_author_id_def
      MAX_TITLE_CHARS_def MAX_STATEMENT_CHARS_def split: option.splits bool.splits)

lemma validate_links_facts:
  assumes "validate_links r = Inr u"
  shows "(\<exists>k \<in> set TARGET_KINDS. dget r ''kind'' = JStr (str k))
      \<Longrightarrow> is_hex_digest (dget r ''target_record_id'')"
    "(\<nexists>k. k \<in> set TARGET_KINDS \<and> dget r ''kind'' = JStr (str k))
      \<Longrightarrow> dget r ''target_record_id'' = JNull"
  using assms in_str_set_True [of "dget r ''kind''" TARGET_KINDS] unfolding validate_links_def
  by (auto simp: bindE_eq_Inr condE_def require_hex_digest_eq_Inr split: if_splits)

lemma validate_signature_facts:
  assumes "validate_signature E r True = Inr u"
  shows "\<exists>bs. canonical_json_bytes (envelope_for_id r) = Inr bs
      \<and> dget r ''record_id'' = JStr (sha256_hex E bs)"
    "\<exists>body sig. canonical_json_bytes (signing_body r) = Inr body \<and> dget r ''signature'' = JStr sig
      \<and> verify E (text_of (dget r ''author_public_key'')) sig body"
    "is_hex_digest (dget r ''record_id'')"
  using assms unfolding validate_signature_def calculate_record_id_def
  by (auto simp: result_simps)

lemma validate_record_eq_Inr:
  "validate_record E r = Inr u \<longleftrightarrow>
     validate_head E r = Inr () \<and> validate_links r = Inr () \<and> validate_signature E r True = Inr ()"
  by (auto simp: validate_record_def validate_record_with_def result_simps)

lemma validate_head_intro:
  assumes "has_fields r RECORD_FIELDS" "dget r ''schema'' = JStr (str ''hap.record'')"
    "py_eq (dget r ''version'') (JInt 1)" "k \<in> set ALLOWED_KINDS" "dget r ''kind'' = JStr (str k)"
    "dget r ''author_public_key'' = JStr pk" "py_strip pk \<noteq> []" "length pk = 64" "fromhex_opt pk = Some pkb"
    "dget r ''author_id'' = JStr (str ''hap1'' @ bytes_hex (blake2b20 E pkb))"
    "dget r ''title'' = JStr title" "py_strip title \<noteq> []" "length title \<le> 240"
    "dget r ''statement'' = JStr statement" "py_strip statement \<noteq> []" "length statement \<le> 100000"
    "dget r ''created_at'' = JStr t" "py_strip t \<noteq> []" "length t \<le> 64"
    "iso_aware E (replace_Z t) = Some True"
    "null_or_str_upto 512 (dget r ''event_time'')"
  shows "validate_head E r = Inr ()"
proof -
  have "in_str_set (dget r ''kind'') ALLOWED_KINDS = Inr True"
    using assms(4,5) by (auto simp: in_str_set_True)
  moreover have "py_strip (str ''hap1'' @ s) \<noteq> []" for s
    by (simp add: str_def py_strip_Cons uni_isspace_def)
  ultimately show ?thesis
    using assms
    by (simp add: validate_head_def required_text_def validate_created_at_def MAX_TITLE_CHARS_def
        MAX_STATEMENT_CHARS_def public_key_to_author_id_def bytes_fromhex_def)
qed

section \<open>Creation\<close>

definition record_fields :: "ustr \<Rightarrow> ustr \<Rightarrow> ustr option \<Rightarrow> ustr \<Rightarrow> ustr \<Rightarrow> ustr \<Rightarrow> ustr \<Rightarrow> ustr option
    \<Rightarrow> json list \<Rightarrow> json list \<Rightarrow> json list \<Rightarrow> (string \<times> json) list" where
  "record_fields kind t event_time author pk title statement target sources evidence tags =
    [(''schema'', JStr (str ''hap.record'')), (''version'', JInt 1), (''kind'', JStr kind),
      (''created_at'', JStr t), (''event_time'', opt_str event_time), (''author_id'', JStr author),
      (''author_public_key'', JStr pk), (''title'', JStr title), (''statement'', JStr statement),
      (''target_record_id'', opt_str target), (''sources'', JList sources), (''evidence'', JList evidence),
      (''tags'', JList tags)]"

definition list_arg_ok :: "json list \<Rightarrow> bool" where
  "list_arg_ok xs \<longleftrightarrow> (\<forall>x \<in> set xs. validate_json_value x 2 = Inr () \<and> encodable_json x)"

text \<open>Arguments from which a valid record can be made.\<close>

definition record_args_ok :: "env \<Rightarrow> string \<Rightarrow> ustr \<Rightarrow> ustr option \<Rightarrow> ustr \<Rightarrow> ustr \<Rightarrow> ustr option
    \<Rightarrow> json list \<Rightarrow> json list \<Rightarrow> json list \<Rightarrow> bool" where
  "record_args_ok E kind t event_time title statement target sources evidence tags \<longleftrightarrow>
     kind \<in> set ALLOWED_KINDS \<and>
     length t \<le> 64 \<and> py_strip t \<noteq> [] \<and> encodable t \<and> iso_aware E (replace_Z t) = Some True \<and>
     (case event_time of None \<Rightarrow> True | Some s \<Rightarrow> length s \<le> 512 \<and> encodable s) \<and>
     length title \<le> 240 \<and> py_strip title \<noteq> [] \<and> encodable title \<and>
     length statement \<le> 100000 \<and> py_strip statement \<noteq> [] \<and> encodable statement \<and>
     (if kind \<in> set TARGET_KINDS then (case target of None \<Rightarrow> False | Some s \<Rightarrow> is_hex_digest (JStr s))
      else target = None) \<and>
     length sources \<le> 32 \<and> length evidence \<le> 64 \<and> length tags \<le> 32 \<and>
     list_arg_ok sources \<and> list_arg_ok evidence \<and> list_arg_ok tags \<and>
     (\<forall>x \<in> set sources. validate_source x = Inr ()) \<and>
     (\<forall>x \<in> set evidence. validate_evidence_item x = Inr ()) \<and>
     list_all (\<lambda>v. nonempty_str v \<and> str_upto 64 v) tags"

lemma canonical_record_fields:
  assumes args: "record_args_ok E kind t event_time title statement target sources evidence tags"
    and "encodable author" "encodable pk" "encodable title'" "encodable statement'" and s: "encodable s"
  defines "fs \<equiv> record_fields (str kind) t event_time author pk title' statement' target sources evidence tags"
  shows "\<exists>bs. canonical_json_bytes (obj fs) = Inr bs"
    and "\<exists>bs. canonical_json_bytes (obj (fs @ [(''signature'', JStr s)])) = Inr bs"
proof -
  have target: "(case target of None \<Rightarrow> True | Some s \<Rightarrow> encodable s)"
    using args by (auto simp: record_args_ok_def is_hex_digest_def intro: encodable_fromhex split: if_splits option.splits)
  have valid: "validate_json_value (obj (fs @ gs)) 0 = Inr ()"
    if "\<forall>(k, v) \<in> set gs. validate_json_value v 1 = Inr ()" for gs
    using args that unfolding fs_def record_args_ok_def list_arg_ok_def
    by (auto simp: record_fields_def opt_str_def validate_obj validate_leaf MAX_SAFE_JSON_INTEGER_def numeral_2_eq_2
        split: option.splits)
  have enc: "encodable_json (obj (fs @ gs))"
    if "\<forall>(k, v) \<in> set gs. encodable_json v" for gs
    using args assms(2-5) target that unfolding fs_def record_args_ok_def list_arg_ok_def
    by (auto simp: record_fields_def opt_str_def encodable_obj split: option.splits)
  show "\<exists>bs. canonical_json_bytes (obj fs) = Inr bs"
    using canonical_json_bytes_total valid [of "[]"] enc [of "[]"] by simp
  show "\<exists>bs. canonical_json_bytes (obj (fs @ [(''signature'', JStr s)])) = Inr bs"
    by (rule canonical_json_bytes_total [OF valid enc]) (use s in \<open>simp_all add: validate_leaf\<close>)
qed

lemma in_str_set_str: "in_str_set (JStr (str k)) names = Inr (k \<in> set names)"
  by (auto simp: in_str_set_def)

lemma validate_links_intro:
  assumes "record_args_ok E kind t event_time title statement target sources evidence tags"
    and "dget r ''kind'' = JStr (str kind)"
    and "dget r ''target_record_id'' = opt_str target"
    and "dget r ''sources'' = JList sources" "dget r ''evidence'' = JList evidence"
      "dget r ''tags'' = JList tags"
  shows "validate_links r = Inr ()"
proof -
  have "condE (in_str_set (dget r ''kind'') TARGET_KINDS) (require_hex_digest (dget r ''target_record_id''))
      (if dget r ''target_record_id'' \<noteq> JNull
        then Inl (record_error ''claim records cannot target another record'') else Inr ()) = Inr ()"
    using assms(1-3)
    by (cases "kind \<in> set TARGET_KINDS")
      (auto simp: opt_str_def in_str_set_str record_args_ok_def require_hex_digest_eq_Inr split: option.splits)
  moreover have "forE validate_source sources = Inr ()" "forE validate_evidence_item evidence = Inr ()"
    using assms(1) by (auto simp: record_args_ok_def forE_eq_Inr)
  moreover have "length sources \<le> 32" "length evidence \<le> 64" "length tags \<le> 32"
    "list_all (\<lambda>v. nonempty_str v \<and> str_upto 64 v) tags"
    using assms(1) unfolding record_args_ok_def by blast+
  ultimately show ?thesis
    using assms(4-6)
    by (simp add: validate_links_def normalize_list_def MAX_SOURCES_def MAX_EVIDENCE_ITEMS_def
        MAX_TAGS_def del: nonempty_str_iff str_upto_iff)
qed

lemma record_fields_simps [simp]:
  "dget (obj (record_fields k t ev a pk ti st tg so evi ta @ gs)) f =
     (if f = ''schema'' then JStr (str ''hap.record'') else if f = ''version'' then JInt 1
      else if f = ''kind'' then JStr k else if f = ''created_at'' then JStr t
      else if f = ''event_time'' then opt_str ev
      else if f = ''author_id'' then JStr a else if f = ''author_public_key'' then JStr pk
      else if f = ''title'' then JStr ti else if f = ''statement'' then JStr st
      else if f = ''target_record_id'' then opt_str tg
      else if f = ''sources'' then JList so else if f = ''evidence'' then JList evi
      else if f = ''tags'' then JList ta else dget (obj gs) f)"
  by (simp add: record_fields_def)

lemma create_signed_record_total:
  assumes E: "digests_32 E" "signatures_verify E" and sk: "ed_public E sk = Some pkb"
    and args: "record_args_ok E kind t event_time title statement target sources evidence tags"
  shows "\<exists>r. create_signed_record E now (b64encode sk) (str kind) title statement event_time target
      sources evidence tags (Some t) = Inr r
    \<and> validate_record E r = Inr () \<and> dget r ''kind'' = JStr (str kind)
    \<and> dget r ''target_record_id'' = opt_str target
    \<and> dget r ''title'' = JStr (py_strip title) \<and> dget r ''statement'' = JStr (py_strip statement)
    \<and> dget r ''event_time'' = opt_str event_time \<and> dget r ''sources'' = JList sources
    \<and> dget r ''evidence'' = JList evidence \<and> dget r ''tags'' = JList tags
    \<and> (wf_json (JList (sources @ evidence @ tags)) \<longrightarrow> wf_json r)"
proof -
  define pk where "pk = bytes_hex pkb"
  define author where "author = str ''hap1'' @ bytes_hex (blake2b20 E pkb)"
  define fs where "fs = record_fields (str kind) t event_time author pk (py_strip title)
    (py_strip statement) target sources evidence tags"
  have pk: "derive_public_key E (b64encode sk) = Inr pk"
    "public_key_to_author_id E pk = Inr author" "fromhex_opt pk = Some pkb" "length pk = 64"
    using sk E(2) by (simp_all add: derive_public_key_def pk_def public_key_to_author_id_def author_def
        signatures_verify_def)
  have enc: "encodable author" "encodable pk" "encodable (py_strip title)" "encodable (py_strip statement)"
    using args by (auto simp: author_def pk_def record_args_ok_def intro: encodable_py_strip)
  obtain body where body: "canonical_json_bytes (obj fs) = Inr body"
    using canonical_record_fields(1) [OF args enc encodable_bytes_hex] unfolding fs_def by blast
  define s where "s = b64encode (ed_sign E sk body)"
  have sign: "sign E (b64encode sk) body = Inr s" using sk by (simp add: sign_def s_def)
  from sign_verifies [OF E(2) pk(1) sign] have s: "verify E pk s body" "length s = 88" by auto
  obtain env where env: "canonical_json_bytes (obj (fs @ [(''signature'', JStr s)])) = Inr env"
    using canonical_record_fields(2) [OF args enc encodable_b64encode] unfolding fs_def s_def by blast
  define rid where "rid = sha256_hex E env"
  define r where "r = obj (fs @ [(''signature'', JStr s), (''record_id'', JStr rid)])"
  have bodies: "signing_body (obj fs) = obj fs" "signing_body r = obj fs"
    "envelope_for_id r = obj (fs @ [(''signature'', JStr s)])"
    "envelope_for_id (obj (fs @ [(''signature'', JStr s)])) = obj (fs @ [(''signature'', JStr s)])"
    "dput ''signature'' (JStr s) (obj fs) = obj (fs @ [(''signature'', JStr s)])"
    "dput ''record_id'' (JStr rid) (obj (fs @ [(''signature'', JStr s)])) = r"
    by (simp_all add: signing_body_def envelope_for_id_def r_def fs_def record_fields_def dpop_obj dput_obj)
  have "pkb \<noteq> []" using pk(4) by (auto simp: pk_def)
  then have "py_strip pk \<noteq> []"
    by (cases pkb) (auto simp: pk_def uni_isspace_hex intro!: py_strip_Cons)
  then have "validate_head E r = Inr ()"
    using args pk py_strip_strip length_py_strip [of title] length_py_strip [of statement]
    by (intro validate_head_intro [where k = kind and pk = pk and pkb = pkb and t = t
          and title = "py_strip title" and statement = "py_strip statement"])
      (auto simp: r_def fs_def record_args_ok_def author_def has_fields_obj RECORD_FIELDS_def
        record_fields_def null_or_str_upto_def opt_str_def split: option.splits)
  moreover have "validate_links r = Inr ()"
    by (rule validate_links_intro [OF args]) (simp_all add: r_def fs_def)
  moreover have "require_hex_digest (JStr rid) = Inr ()"
    using E(1) by (auto simp: rid_def require_hex_digest_eq_Inr is_hex_digest_def digests_32_def)
  then have "validate_signature E r True = Inr ()"
    unfolding validate_signature_def calculate_record_id_def bodies body env
    using s by (auto simp: r_def fs_def simp flip: rid_def)
  ultimately have valid: "validate_record E r = Inr ()" by (simp add: validate_record_eq_Inr)
  moreover have "(case t of [] \<Rightarrow> now | c # cs \<Rightarrow> c # cs) = t"
    using args by (cases t) (auto simp: record_args_ok_def py_strip_def)
  ultimately have "create_signed_record E now (b64encode sk) (str kind) title statement event_time target
      sources evidence tags (Some t) = Inr r"
    using pk sign body env valid bodies
    by (simp add: create_signed_record_def calculate_record_id_def Let_def rid_def
        flip: record_fields_def fs_def)
  with valid show ?thesis
    by (auto simp: r_def fs_def wf_obj record_fields_def opt_str_def split: option.splits)
qed

section \<open>The size of a valid record\<close>

lemma null_or_str_depth: "null_or_str_upto n v \<Longrightarrow> json_depth v = 0"
  by (auto simp: null_or_str_upto_def)

lemma validate_source_depth: "validate_source x = Inr u \<Longrightarrow> wf_json x \<Longrightarrow> json_depth x \<le> 1"
  using has_fields_depth [of x SOURCE_FIELDS 0]
  by (auto simp: validate_source_def SOURCE_FIELDS_def null_or_str_depth split: if_splits)

lemma validate_evidence_depth: "validate_evidence_item x = Inr u \<Longrightarrow> wf_json x \<Longrightarrow> json_depth x \<le> 1"
  using has_fields_depth [of x EVIDENCE_FIELDS 0]
  by (auto simp: validate_evidence_item_def EVIDENCE_FIELDS_def null_or_str_depth is_hex_digest_def
      result_simps split: if_splits)

lemma str_list_depth: "list_all (\<lambda>t. nonempty_str t \<and> str_upto n t) ts \<Longrightarrow> t \<in> set ts \<Longrightarrow> json_depth t = 0"
  by (induction ts) auto

lemma py_eq_int_depth: "py_eq v (JInt i) \<Longrightarrow> json_depth v = 0"
  by (cases v) simp_all

lemma validate_record_lists:
  assumes "validate_links r = Inr u"
  shows "dget r ''sources'' = JNull \<or> (\<exists>xs. dget r ''sources'' = JList xs \<and> (\<forall>x \<in> set xs. validate_source x = Inr ()))"
    "dget r ''evidence'' = JNull \<or> (\<exists>xs. dget r ''evidence'' = JList xs \<and> (\<forall>x \<in> set xs. validate_evidence_item x = Inr ()))"
    "dget r ''tags'' = JNull \<or> (\<exists>xs. dget r ''tags'' = JList xs \<and> (\<forall>x \<in> set xs. json_depth x = 0))"
proof -
  from assms obtain so ev ta where "normalize_list (dget r ''sources'') = Inr so"
    "normalize_list (dget r ''evidence'') = Inr ev" "normalize_list (dget r ''tags'') = Inr ta"
    "\<forall>x \<in> set so. validate_source x = Inr ()" "\<forall>x \<in> set ev. validate_evidence_item x = Inr ()"
    "list_all (\<lambda>t. nonempty_str t \<and> str_upto 64 t) ta"
    unfolding validate_links_def
    by (auto simp: bindE_eq_Inr forE_eq_Inr simp del: nonempty_str_iff str_upto_iff split: if_splits)
  then show "dget r ''sources'' = JNull \<or> (\<exists>xs. dget r ''sources'' = JList xs \<and> (\<forall>x \<in> set xs. validate_source x = Inr ()))"
    "dget r ''evidence'' = JNull \<or> (\<exists>xs. dget r ''evidence'' = JList xs \<and> (\<forall>x \<in> set xs. validate_evidence_item x = Inr ()))"
    "dget r ''tags'' = JNull \<or> (\<exists>xs. dget r ''tags'' = JList xs \<and> (\<forall>x \<in> set xs. json_depth x = 0))"
    by (auto simp: normalize_list_eq_Inr intro: str_list_depth simp del: nonempty_str_iff str_upto_iff)
qed

lemma validate_record_depth:
  assumes "validate_record E r = Inr u" "wf_json r"
  shows "json_depth r \<le> 3"
proof -
  have r: "validate_head E r = Inr ()" "validate_links r = Inr ()" "validate_signature E r True = Inr ()"
    using assms(1) by (auto simp: validate_record_eq_Inr)
  note h = validate_head_facts [OF r(1)] and l = validate_record_lists [OF r(2)]
  have items: "\<forall>x \<in> set xs. wf_json x" if "dget r f = JList xs" for f xs
    using wf_dget_list [OF assms(2) that] by blast
  have lists: "json_depth (dget r ''sources'') \<le> 2" "json_depth (dget r ''evidence'') \<le> 2"
    "json_depth (dget r ''tags'') \<le> 2"
    using l items validate_source_depth validate_evidence_depth by fastforce+
  have "py_eq (dget r ''version'') (JInt 1)" "null_or_str_upto 512 (dget r ''event_time'')"
    using r(1) unfolding validate_head_def by (auto simp: result_simps)
  then have "json_depth (dget r ''version'') = 0" "json_depth (dget r ''event_time'') = 0"
    by (auto dest: py_eq_int_depth null_or_str_depth)
  moreover have "json_depth (dget r ''target_record_id'') = 0"
    using validate_links_facts [OF r(2)]
    by (cases "\<exists>k \<in> set TARGET_KINDS. dget r ''kind'' = JStr (str k)") (auto simp: is_hex_digest_def)
  moreover have "json_depth (dget r ''signature'') = 0" "json_depth (dget r ''record_id'') = 0"
    using validate_signature_facts [OF r(3)] by auto
  ultimately have "\<forall>f \<in> set RECORD_FIELDS. json_depth (dget r f) \<le> 2"
    using lists h by (auto simp: RECORD_FIELDS_def)
  from has_fields_depth [OF h(1) assms(2) this] show ?thesis by simp
qed

lemma items_put_back:
  assumes "wf_json (JDict d)" "(k', v) \<in> set d"
  shows "(k', v) \<in> set (filter (\<lambda>(k', _). k' \<noteq> KStr (str k)) d) \<or> k' = KStr (str k) \<and> v = dget (JDict d) k"
  using assms by (auto simp: assoc_get_def)

lemma in_range_put_back:
  assumes "is_dict r" "in_range (dpop k r)" "in_range (dget r k)" "wf_json r"
  shows "in_range r"
proof -
  obtain d where d: "r = JDict d" using assms(1) by (auto simp: is_dict_def split: json.splits)
  have "(\<exists>s. k' = KStr s) \<and> in_range v" if "(k', v) \<in> set d" for k' v
    using items_put_back [of d k' v k] that assms(2-4) by (auto simp: d)
  then show ?thesis by (auto simp: d)
qed

lemma encodable_put_back:
  assumes "is_dict r" "encodable_json (dpop k r)" "encodable_json (dget r k)" "wf_json r"
  shows "encodable_json r"
proof -
  obtain d where d: "r = JDict d" using assms(1) by (auto simp: is_dict_def split: json.splits)
  have "(case k' of KStr s \<Rightarrow> encodable s | _ \<Rightarrow> True) \<and> encodable_json v" if "(k', v) \<in> set d" for k' v
    using items_put_back [of d k' v k] that assms(2-4)
    by (cases "k' = KStr (str k)") (auto simp: d simp del: dget.simps)
  then show ?thesis by (auto simp: d)
qed

text \<open>Any document made of valid records and other encodable parts can be encoded.\<close>

lemma validate_record_encodable:
  assumes "validate_record E r = Inr u" "wf_json r"
  shows "in_range r" "encodable_json r"
proof -
  have r: "is_dict r" "validate_signature E r True = Inr ()"
    using assms(1) by (auto simp: validate_record_eq_Inr dest: validate_head_facts(1) has_fields_is_dict)
  then have e: "in_range (dpop ''record_id'' r)" "encodable_json (dpop ''record_id'' r)"
    "in_range (dget r ''record_id'')" "encodable_json (dget r ''record_id'')"
    using validate_signature_facts(1) [OF r(2)] canonical_json_bytes_iff [of "envelope_for_id r"]
    by (auto simp: envelope_for_id_def sha256_hex_def)
  show "in_range r" "encodable_json r"
    using in_range_put_back [OF r(1) e(1,3) assms(2)] encodable_put_back [OF r(1) e(2,4) assms(2)] by auto
qed

end
