(* ===== verification/Anchors.thy ===== *)
theory Anchors
  imports Records
begin

text \<open>
  \<^verbatim>\<open>src/hap/anchors.py\<close>: the shape of an anchor reference, the claim that a transaction output
  commits to a batch. Validation checks the form only; whether the claim is true is a matter of
  the Bitcoin node (theory Service).
\<close>

definition ALLOWED_NETWORKS :: "string list" where
  "ALLOWED_NETWORKS = [''mainnet'', ''signet'', ''regtest'']"

definition ALLOWED_STATUSES :: "string list" where
  "ALLOWED_STATUSES = [''unverified'', ''broadcast'', ''confirmed'', ''reorganised'', ''invalid'']"

definition ANCHOR_FIELDS :: "string list" where
  "ANCHOR_FIELDS = [''txid'', ''vout'', ''batch_id'', ''network'', ''status'', ''anchored_at'',
     ''block_hash'', ''block_height'']"

abbreviation anchor_error :: "string \<Rightarrow> exn" where
  "anchor_error \<equiv> Exn AnchorValidationError"

text \<open>\<open>_digest\<close>\<close>

definition anchor_digest :: "json \<Rightarrow> unit result" where
  "anchor_digest v = (case v of
     JStr s \<Rightarrow>
       if length s \<noteq> 64 then Inl (anchor_error ''must be a 32-byte hexadecimal digest'')
       else bindE (reraise is_ValueError (anchor_error ''must be hexadecimal'') (bytes_fromhex s))
         (\<lambda>raw. if length raw \<noteq> 32 then Inl (anchor_error ''must be a 32-byte hexadecimal digest'')
           else Inr ())
   | _ \<Rightarrow> Inl (anchor_error ''must be a 32-byte hexadecimal digest''))"

lemma anchor_digest_eq_Inr [result_simps]: "anchor_digest v = Inr u \<longleftrightarrow> is_hex_digest v"
  by (auto simp: anchor_digest_def is_hex_digest_def result_simps split: json.splits)

definition validate_anchor_reference :: "json \<Rightarrow> unit result" where
  "validate_anchor_reference a =
     (if \<not> has_fields a ANCHOR_FIELDS
      then Inl (anchor_error ''anchor fields do not match the versioned schema'')
      else bindE (anchor_digest (dget a ''txid'')) (\<lambda>_.
      if \<not> is_nonneg_int (dget a ''vout'')
      then Inl (anchor_error ''vout must be a non-negative integer'')
      else bindE (anchor_digest (dget a ''batch_id'')) (\<lambda>_.
      condE (in_str_set (dget a ''network'') ALLOWED_NETWORKS)
       (condE (in_str_set (dget a ''status'') ALLOWED_STATUSES)
         (if \<not> is_nonneg_int (dget a ''anchored_at'')
          then Inl (anchor_error ''anchored_at must be a non-negative integer'')
          else bindE (if dget a ''block_hash'' \<noteq> JNull then anchor_digest (dget a ''block_hash'')
            else Inr ()) (\<lambda>_.
          if dget a ''block_height'' \<noteq> JNull \<and> \<not> is_nonneg_int (dget a ''block_height'')
          then Inl (anchor_error ''block_height must be null or a non-negative integer'')
          else Inr ()))
         (Inl (anchor_error ''unsupported anchor status'')))
       (Inl (anchor_error ''unsupported anchor network'')))))"

text \<open>The typed form of an anchor, a row of the \<open>anchors\<close> table without its sequence number.\<close>

record anchor =
  a_txid :: ustr
  a_vout :: int
  a_batch_id :: ustr
  a_network :: ustr
  a_status :: ustr
  a_anchored_at :: int
  a_block_hash :: "ustr option"
  a_block_height :: "int option"

definition anchor_as_dict :: "anchor \<Rightarrow> json" where
  "anchor_as_dict a = obj [(''txid'', JStr (a_txid a)), (''vout'', JInt (a_vout a)),
     (''batch_id'', JStr (a_batch_id a)), (''network'', JStr (a_network a)),
     (''status'', JStr (a_status a)), (''anchored_at'', JInt (a_anchored_at a)),
     (''block_hash'', opt_str (a_block_hash a)), (''block_height'', opt_int (a_block_height a))]"

lemma validate_anchor_eq_Inr:
  "validate_anchor_reference a = Inr u \<longleftrightarrow>
     has_fields a ANCHOR_FIELDS \<and> is_hex_digest (dget a ''txid'') \<and> is_nonneg_int (dget a ''vout'')
     \<and> is_hex_digest (dget a ''batch_id'')
     \<and> (\<exists>n \<in> set ALLOWED_NETWORKS. dget a ''network'' = JStr (str n))
     \<and> (\<exists>n \<in> set ALLOWED_STATUSES. dget a ''status'' = JStr (str n))
     \<and> is_nonneg_int (dget a ''anchored_at'')
     \<and> (dget a ''block_hash'' = JNull \<or> is_hex_digest (dget a ''block_hash''))
     \<and> (dget a ''block_height'' = JNull \<or> is_nonneg_int (dget a ''block_height''))"
  unfolding validate_anchor_reference_def by (auto simp: result_simps)

end
