(* ===== verification/Bitcoin.thy ===== *)
theory Bitcoin
  imports Crypto PyValue
begin

text \<open>
  \<^verbatim>\<open>src/hap/bitcoin.py\<close>: the 38-byte anchor payload, the \<open>OP_RETURN\<close> script that carries it,
  and the operations of \<open>BitcoinRPC\<close>.

  The Bitcoin node is a parameter: \<open>rpc_answer n method params\<close> is its answer to the \<open>n\<close>-th
  request of this client object, \<open>None\<close> for a request that failed. The only state of the
  object is the request counter \<open>_counter\<close>; an operation is an \<open>act\<close>, which threads it, so two
  requests of one operation may get inconsistent answers.
\<close>

section \<open>The payload\<close>

definition MAGIC :: bytes where
  "MAGIC = [72, 73, 83, 84]"

definition VERSION :: nat where
  "VERSION = 3"

definition COMMITMENT_TYPE_BATCH_MANIFEST :: nat where
  "COMMITMENT_TYPE_BATCH_MANIFEST = 1"

record anchor_payload =
  payload_version :: nat
  commitment_type :: nat
  manifest_hash :: ustr

definition payload_as_dict :: "anchor_payload \<Rightarrow> json" where
  "payload_as_dict p = obj [(''magic'', JStr (str ''HIST'')), (''version'', JInt (int (payload_version p))),
     (''commitment_type'', JInt (int (commitment_type p))), (''manifest_hash'', JStr (manifest_hash p))]"

definition encode_anchor_payload :: "ustr \<Rightarrow> int \<Rightarrow> ustr result" where
  "encode_anchor_payload hash ctype =
     bindE (reraise is_ValueError (Exn ValueError ''manifest_hash must be hexadecimal'')
       (bytes_fromhex hash)) (\<lambda>digest.
     if length digest \<noteq> 32 then Inl (Exn ValueError ''manifest_hash must be a 32-byte hex digest'')
     else if \<not> (0 \<le> ctype \<and> ctype \<le> 255) then
       Inl (Exn ValueError ''commitment_type must fit in one byte'')
     else Inr (bytes_hex (MAGIC @ [word_of_nat VERSION, word_of_nat (nat ctype)] @ digest)))"

definition decode_anchor_payload :: "ustr \<Rightarrow> anchor_payload result" where
  "decode_anchor_payload payload_hex = bindE (bytes_fromhex payload_hex) (\<lambda>raw.
     if length raw \<noteq> 38 then Inl (Exn ValueError ''anchor payload must be 38 bytes'')
     else if take 4 raw \<noteq> MAGIC then Inl (Exn ValueError ''invalid anchor magic'')
     else if unat (raw ! 4) \<noteq> VERSION then Inl (Exn ValueError ''unsupported anchor version'')
     else Inr \<lparr>payload_version = unat (raw ! 4), commitment_type = unat (raw ! 5),
               manifest_hash = bytes_hex (drop 6 raw)\<rparr>)"

definition build_op_return_script :: "ustr \<Rightarrow> ustr result" where
  "build_op_return_script payload_hex = bindE (bytes_fromhex payload_hex) (\<lambda>payload.
     if 75 < length payload then
       Inl (Exn ValueError ''payload requires PUSHDATA encoding not supported by this helper'')
     else Inr (bytes_hex ([0x6A, word_of_nat (length payload)] @ payload)))"

text \<open>The script comes from the node and may be any JSON value; a \<open>TypeError\<close> is caught too.\<close>

definition extract_payload_from_script :: "json \<Rightarrow> ustr option" where
  "extract_payload_from_script script_hex = (case script_hex of
     JStr s \<Rightarrow> (case fromhex_opt s of
        Some (opcode # n # payload) \<Rightarrow>
          if opcode \<noteq> 0x6A then None
          else if 75 < unat n \<or> length payload \<noteq> unat n then None
          else Some (bytes_hex payload)
      | _ \<Rightarrow> None)
   | _ \<Rightarrow> None)"

lemma length_MAGIC [simp]: "length MAGIC = 4"
  by (simp add: MAGIC_def)

lemma encode_eq_Inr:
  "encode_anchor_payload hash ctype = Inr p \<longleftrightarrow> (\<exists>d. fromhex_opt hash = Some d \<and> length d = 32
     \<and> 0 \<le> ctype \<and> ctype \<le> 255
     \<and> p = bytes_hex (MAGIC @ [word_of_nat VERSION, word_of_nat (nat ctype)] @ d))"
  by (auto simp: encode_anchor_payload_def result_simps)

lemma decode_eq_Inr:
  "decode_anchor_payload s = Inr p \<longleftrightarrow> (\<exists>ctype d. fromhex_opt s = Some (MAGIC @ [3, ctype] @ d)
     \<and> length d = 32
     \<and> p = \<lparr>payload_version = 3, commitment_type = unat ctype, manifest_hash = bytes_hex d\<rparr>)"
  (is "?l \<longleftrightarrow> ?r")
proof
  assume ?l
  then obtain raw where raw: "fromhex_opt s = Some raw" "length raw = 38" "take 4 raw = MAGIC"
    "unat (raw ! 4) = 3" "p = \<lparr>payload_version = unat (raw ! 4), commitment_type = unat (raw ! 5),
       manifest_hash = bytes_hex (drop 6 raw)\<rparr>"
    by (auto simp: decode_anchor_payload_def result_simps VERSION_def)
  have w3: "raw ! 4 = 3"
    using raw(4) by (metis unat_byte_inverse of_nat_numeral)
  have "raw = take 4 raw @ raw ! 4 # raw ! Suc 4 # drop (Suc (Suc 4)) raw"
    using raw(2) by (simp only: Cons_nth_drop_Suc append_take_drop_id)
  with raw w3 show ?r
    by (intro exI [of _ "raw ! 5"] exI [of _ "drop 6 raw"]) simp
next
  assume ?r
  then show ?l by (auto simp: decode_anchor_payload_def result_simps VERSION_def nth_append MAGIC_def)
qed

lemma encode_decode:
  assumes "encode_anchor_payload hash ctype = Inr p"
  shows "\<exists>q. decode_anchor_payload p = Inr q \<and> commitment_type q = nat ctype
    \<and> fromhex_opt (manifest_hash q) = fromhex_opt hash
    \<and> (length hash = 64 \<longrightarrow> manifest_hash q = map ascii_lower hash) \<and> length p = 76"
proof -
  from assms obtain d where d: "fromhex_opt hash = Some d" "length d = 32" "0 \<le> ctype" "ctype \<le> 255"
    "p = bytes_hex (MAGIC @ [word_of_nat VERSION, word_of_nat (nat ctype)] @ d)"
    by (auto simp: encode_eq_Inr)
  then have "fromhex_opt p = Some (MAGIC @ [3, word_of_nat (nat ctype)] @ d)"
    by (simp only: fromhex_bytes_hex VERSION_def of_nat_numeral)
  then have dec: "decode_anchor_payload p = Inr \<lparr>payload_version = 3,
      commitment_type = unat (word_of_nat (nat ctype) :: byte), manifest_hash = bytes_hex d\<rparr>"
    unfolding decode_eq_Inr using d(2) by blast
  have "unat (word_of_nat (nat ctype) :: byte) = nat ctype"
    using d by (intro unat_byte_of_nat) simp
  then show ?thesis
    unfolding dec using d fromhex_exact [OF d(1)] by simp
qed

lemma decode_encode:
  assumes "decode_anchor_payload s = Inr p"
  shows "encode_anchor_payload (manifest_hash p) (int (commitment_type p))
    = Inr (bytes_hex (the (fromhex_opt s)))"
proof -
  have "unat (b :: byte) \<le> 255" for b
    using unat_byte_less [of b] by linarith
  with assms show ?thesis
    unfolding decode_eq_Inr encode_eq_Inr by (auto simp: VERSION_def)
qed

lemma extract_build:
  assumes "build_op_return_script p = Inr s"
  shows "extract_payload_from_script (JStr s) = Some (bytes_hex (the (fromhex_opt p)))"
  using assms
  by (auto simp: build_op_return_script_def result_simps extract_payload_from_script_def
      unat_byte_of_nat)

lemma build_extract:
  assumes "extract_payload_from_script (JStr s) = Some p"
  shows "build_op_return_script p = Inr (bytes_hex (the (fromhex_opt s)))"
  using assms
  by (auto simp: build_op_return_script_def extract_payload_from_script_def
      split: option.splits list.splits if_splits)

lemma extract_canonical:
  "extract_payload_from_script v = Some p \<Longrightarrow> \<exists>bs. p = bytes_hex bs \<and> length bs \<le> 75"
  by (auto simp: extract_payload_from_script_def split: json.splits option.splits list.splits if_splits)

section \<open>Requests\<close>

record rpc =
  rpc_answer :: "nat \<Rightarrow> string \<Rightarrow> json list \<Rightarrow> json option"
  max_anchor_fee_btc :: pyfloat
  float_of_str :: "ustr \<Rightarrow> pyfloat option"
  py_repr :: "json \<Rightarrow> ustr"

type_synonym 'a act = "nat \<Rightarrow> 'a result \<times> nat"

definition bindA :: "'a act \<Rightarrow> ('a \<Rightarrow> 'b act) \<Rightarrow> 'b act" where
  "bindA m k n = (case m n of (Inl e, n') \<Rightarrow> (Inl e, n') | (Inr x, n') \<Rightarrow> k x n')"

definition liftA :: "'a result \<Rightarrow> 'a act" where
  "liftA r n = (r, n)"

lemma fst_liftA [simp]: "fst (liftA r n) = r" "snd (liftA r n) = n"
  by (simp_all add: liftA_def)

lemma bindA_eq_Inr [result_simps]:
  "bindA m k n = (Inr y, n') \<longleftrightarrow> (\<exists>x n1. m n = (Inr x, n1) \<and> k x n1 = (Inr y, n'))"
  by (auto simp: bindA_def split: prod.splits sum.splits)

lemma liftA_eq [result_simps]: "liftA r n = (r', n') \<longleftrightarrow> r = r' \<and> n = n'"
  by (simp add: liftA_def)

definition rpc_error :: "string \<Rightarrow> 'a result" where
  "rpc_error text = Inl (Exn BitcoinRPCError text)"

lemma rpc_error_not_Inr [simp]: "rpc_error t \<noteq> Inr x"
  by (simp add: rpc_error_def)

definition rpc_call :: "rpc \<Rightarrow> string \<Rightarrow> json list \<Rightarrow> json act" where
  "rpc_call R mname params n = (
     (case rpc_answer R (n + 1) mname params of
        None \<Rightarrow> rpc_error ''Bitcoin Core RPC request failed''
      | Some data \<Rightarrow> bindE (dict_get data ''error'' JNull) (\<lambda>err.
          if truthy err then rpc_error ''error'' else dict_get data ''result'' JNull)),
     n + 1)"

definition rpc_network :: "rpc \<Rightarrow> json act" where
  "rpc_network R = bindA (rpc_call R ''getblockchaininfo'' []) (\<lambda>info.
     liftA (bindE (dict_item info ''chain'') (\<lambda>chain.
       condE (in_str_set chain [''main'']) (Inr (JStr (str ''mainnet''))) (Inr chain))))"

definition rpc_block_count :: "rpc \<Rightarrow> int act" where
  "rpc_block_count R = bindA (rpc_call R ''getblockcount'' []) (\<lambda>v. liftA (py_int v))"

text \<open>\<open>str(v)\<close>; the text of floats, lists, dictionaries and other objects is a parameter.\<close>

definition py_str :: "rpc \<Rightarrow> json \<Rightarrow> ustr" where
  "py_str R v = (case v of
     JStr s \<Rightarrow> s | JNull \<Rightarrow> str ''None'' | JInt i \<Rightarrow> py_str_int i
   | JBool b \<Rightarrow> if b then str ''True'' else str ''False'' | _ \<Rightarrow> py_repr R v)"

definition rpc_block_hash :: "rpc \<Rightarrow> int \<Rightarrow> ustr act" where
  "rpc_block_hash R height =
     (if height < 0 then liftA (rpc_error ''block height cannot be negative'')
      else bindA (rpc_call R ''getblockhash'' [JInt height]) (\<lambda>v. liftA (Inr (py_str R v))))"

definition rpc_block :: "rpc \<Rightarrow> ustr \<Rightarrow> int \<Rightarrow> json act" where
  "rpc_block R block_hash verbosity =
     bindA (rpc_call R ''getblock'' [JStr block_hash, JInt verbosity]) (\<lambda>v. liftA
       (if is_dict v then Inr v else rpc_error ''getblock did not return a decoded block''))"

section \<open>Broadcasting an anchor\<close>

definition output_payload :: "json \<Rightarrow> ustr option result" where
  "output_payload output = bindE (dict_get output ''scriptPubKey'' (JDict [])) (\<lambda>script.
     bindE (dict_get script ''hex'' (JStr [])) (\<lambda>h. Inr (extract_payload_from_script h)))"

fun matching_vouts :: "ustr \<Rightarrow> json list \<Rightarrow> int list result" where
  "matching_vouts payload_hex [] = Inr []"
| "matching_vouts payload_hex (output # outputs) = bindE (output_payload output) (\<lambda>p.
     if p = Some payload_hex
     then bindE (bindE (dict_get output ''n'' (JInt 0)) py_int) (\<lambda>n.
       bindE (matching_vouts payload_hex outputs) (\<lambda>ns. Inr (n # ns)))
     else matching_vouts payload_hex outputs)"

record broadcast =
  b_txid :: json
  b_vout :: int
  b_fee_btc :: pyfloat
  b_raw_transaction :: json

definition mempool_allows :: "json \<Rightarrow> bool result" where
  "mempool_allows acceptance =
     (if \<not> truthy acceptance then Inr False
      else bindE (first_item acceptance) (\<lambda>a.
        bindE (dict_get a ''allowed'' JNull) (\<lambda>v. Inr (truthy v))))"

definition broadcast_op_return :: "rpc \<Rightarrow> ustr \<Rightarrow> broadcast act" where
  "broadcast_op_return R payload_hex =
     bindA (rpc_call R ''createrawtransaction''
       [JList [], JList [obj [(''data'', JStr payload_hex)]], JInt 0, JBool True]) (\<lambda>raw.
     bindA (rpc_call R ''fundrawtransaction'' [raw, obj [(''changePosition'', JInt 1)]]) (\<lambda>funded.
     bindA (liftA (bindE (dict_get funded ''fee'' (JInt 0)) (py_float (float_of_str R)))) (\<lambda>fee.
     if float_le fee (Dyadic 0 0) \<or> float_less (max_anchor_fee_btc R) fee
     then liftA (rpc_error ''anchor fee is outside allowed range'')
     else
     bindA (liftA (dict_item funded ''hex'')) (\<lambda>unsigned.
     bindA (rpc_call R ''signrawtransactionwithwallet'' [unsigned]) (\<lambda>signed.
     bindA (liftA (dict_get signed ''complete'' JNull)) (\<lambda>complete.
     if \<not> truthy complete
     then liftA (rpc_error ''wallet could not fully sign the anchor transaction'')
     else
     bindA (liftA (dict_item signed ''hex'')) (\<lambda>tx_hex.
     bindA (rpc_call R ''testmempoolaccept'' [JList [tx_hex]]) (\<lambda>acceptance.
     bindA (liftA (mempool_allows acceptance)) (\<lambda>allowed.
     if \<not> allowed
     then liftA (rpc_error ''anchor transaction rejected by mempool policy'')
     else
     bindA (rpc_call R ''decoderawtransaction'' [tx_hex]) (\<lambda>decoded.
     bindA (liftA (bindE (dict_get decoded ''vout'' (JList [])) (\<lambda>v.
       bindE (iterE v) (matching_vouts payload_hex)))) (\<lambda>vouts.
     if length vouts \<noteq> 1
     then liftA (rpc_error
       ''signed anchor transaction does not contain exactly one expected commitment'')
     else
     bindA (rpc_call R ''sendrawtransaction'' [tx_hex]) (\<lambda>txid.
     liftA (Inr \<lparr>b_txid = txid, b_vout = hd vouts, b_fee_btc = fee,
                 b_raw_transaction = tx_hex\<rparr>)))))))))))))"

text \<open>\<open>transaction\<close>: the wallet's view first; on an RPC error, \<open>getrawtransaction\<close>.\<close>

definition decoded_wallet_tx :: "json \<Rightarrow> json result" where
  "decoded_wallet_tx wallet_tx =
     bindE (dict_get wallet_tx ''decoded'' JNull) (\<lambda>d.
     let decoded = (if truthy d then d else JDict []) in
     if \<not> is_dict decoded then attribute_error
     else bindE (dict_get wallet_tx ''confirmations'' (JInt 0)) (\<lambda>conf. Inr
       (dput ''blocktime'' (dget wallet_tx ''blocktime'')
       (dput ''blockheight'' (dget wallet_tx ''blockheight'')
       (dput ''blockhash'' (dget wallet_tx ''blockhash'')
       (dput ''confirmations'' conf decoded))))))"

definition rpc_transaction :: "rpc \<Rightarrow> json \<Rightarrow> json \<Rightarrow> json act" where
  "rpc_transaction R txid block_hash n =
     (case bindA (rpc_call R ''gettransaction'' [txid, JBool False, JBool True])
         (\<lambda>wallet_tx. liftA (decoded_wallet_tx wallet_tx)) n of
        (Inl (Exn BitcoinRPCError _), n') \<Rightarrow>
          rpc_call R ''getrawtransaction''
            ([txid, JBool True] @ (if truthy block_hash then [block_hash] else [])) n'
      | other \<Rightarrow> other)"

text \<open>The loop of \<open>find_payload\<close>: the index of the output, and the first valid payload so far.\<close>

fun find_loop :: "ustr option \<Rightarrow> int option \<Rightarrow> json list \<Rightarrow> int \<Rightarrow> (ustr \<times> int) option
    \<Rightarrow> (ustr \<times> int) option result" where
  "find_loop expected expected_vout [] index first_valid =
     Inr (if expected = None then first_valid else None)"
| "find_loop expected expected_vout (output # outputs) index first_valid =
     bindE (bindE (dict_get output ''n'' (JInt index)) py_int) (\<lambda>output_number.
     if expected_vout \<noteq> None \<and> expected_vout \<noteq> Some output_number
     then find_loop expected expected_vout outputs (index + 1) first_valid
     else bindE (output_payload output) (\<lambda>payload.
       case payload of
         None \<Rightarrow> find_loop expected expected_vout outputs (index + 1) first_valid
       | Some p \<Rightarrow>
           if p = [] \<or> (\<exists>e. decode_anchor_payload p = Inl e)
           then find_loop expected expected_vout outputs (index + 1) first_valid
           else if expected = None \<or> expected = Some p then Inr (Some (p, output_number))
           else find_loop expected expected_vout outputs (index + 1)
             (if first_valid = None then Some (p, output_number) else first_valid)))"

definition find_payload ::
  "rpc \<Rightarrow> json \<Rightarrow> json \<Rightarrow> ustr option \<Rightarrow> int option \<Rightarrow> (ustr \<times> json \<times> int) option act" where
  "find_payload R txid block_hash expected expected_vout =
     bindA (rpc_transaction R txid block_hash) (\<lambda>tx.
     bindA (liftA (bindE (dict_get tx ''vout'' (JList [])) (\<lambda>v.
       bindE (iterE v) (\<lambda>outputs. find_loop expected expected_vout outputs 0 None)))) (\<lambda>found.
     liftA (Inr (map_option (\<lambda>(p, n). (p, tx, n)) found))))"

record block_context =
  block_hash :: json
  block_height :: json
  block_time :: json
  median_time :: json
  block_confirmations :: json
  in_active_chain :: bool

definition rpc_block_context :: "rpc \<Rightarrow> json \<Rightarrow> block_context act" where
  "rpc_block_context R bhash =
     bindA (rpc_call R ''getblockheader'' [bhash, JBool True]) (\<lambda>header.
     liftA (bindE (dict_get header ''confirmations'' (JInt (- 1))) (\<lambda>conf.
       bindE (py_int conf) (\<lambda>c. Inr
         \<lparr>block_hash = bhash, block_height = dget header ''height'', block_time = dget header ''time'',
          median_time = dget header ''mediantime'', block_confirmations = dget header ''confirmations'',
          in_active_chain = (0 \<le> c)\<rparr>))))"

section \<open>What the operations guarantee\<close>

definition carries :: "ustr \<Rightarrow> json \<Rightarrow> bool" where
  "carries p out \<longleftrightarrow> output_payload out = Inr (Some p)"

text \<open>With an expected payload the first valid one does not matter.\<close>

lemma find_loop_first_valid:
  "find_loop (Some e) ev outputs i fv = find_loop (Some e) ev outputs i None"
proof (induction outputs arbitrary: i fv)
  case (Cons o1 outputs)
  show ?case
    unfolding find_loop.simps by (intro bindE_cong refl if_cong option.case_cong)
      (rule Cons | rule trans [OF Cons Cons [symmetric]])+
qed simp

lemma find_loop_step:
  assumes "bindE (dict_get o1 ''n'' (JInt i)) py_int = Inr num" "output_payload o1 = Inr pl"
    and "ev = None \<or> ev = Some num"
  shows "find_loop (Some e) ev (o1 # outputs) i fv =
    (if pl = Some e \<and> e \<noteq> [] \<and> (\<nexists>x. decode_anchor_payload e = Inl x) then Inr (Some (e, num))
     else find_loop (Some e) ev outputs (i + 1) None)"
  using assms find_loop_first_valid [of e ev outputs "i + 1"] by (cases pl) auto

text \<open>The output that is looked for: it carries the payload, and has the number, if one is given. An output
  without a number has its place in the list.\<close>

definition output_number :: "int \<Rightarrow> json \<Rightarrow> int result" where
  "output_number i out = bindE (dict_get out ''n'' (JInt i)) py_int"

definition wanted :: "ustr \<Rightarrow> int option \<Rightarrow> int \<Rightarrow> json \<Rightarrow> bool" where
  "wanted p vout i out \<longleftrightarrow> carries p out \<and> (case vout of None \<Rightarrow> True | Some v \<Rightarrow> output_number i out = Inr v)"

lemma decode_empty: "\<exists>x. decode_anchor_payload [] = Inl x"
  by (simp add: decode_anchor_payload_def bytes_fromhex_def)

lemma all_less_Suc_0: "(\<forall>j < Suc k. P j) \<longleftrightarrow> P 0 \<and> (\<forall>j < k. P (Suc j))"
  by (metis less_Suc_eq_0_disj)

lemma find_loop_None:
  "find_loop (Some e) vout outputs i fv = Inr None \<Longrightarrow> decode_anchor_payload e = Inr q \<Longrightarrow>
   \<forall>j < length outputs. \<not> wanted e vout (i + int j) (outputs ! j)"
proof (induction outputs arbitrary: i fv)
  case (Cons o1 outputs)
  from Cons.prems(1) obtain num where num: "bindE (dict_get o1 ''n'' (JInt i)) py_int = Inr num"
    by (auto simp: bindE_eq_Inr)
  have "(\<exists>fv. find_loop (Some e) vout outputs (i + 1) fv = Inr None) \<and> \<not> wanted e vout i o1"
  proof (cases "vout = None \<or> vout = Some num")
    case False
    with Cons.prems(1) num show ?thesis by (auto simp: wanted_def output_number_def split: option.splits)
  next
    case True
    with Cons.prems(1) num obtain pl where pl: "output_payload o1 = Inr pl" by (auto simp: bindE_eq_Inr)
    have "e \<noteq> []" using decode_empty Cons.prems(2) by auto
    with Cons.prems find_loop_step [OF num pl True, of e outputs fv] have "pl \<noteq> Some e"
      "find_loop (Some e) vout outputs (i + 1) None = Inr None" by (auto split: if_splits)
    then show ?thesis using pl by (auto simp: wanted_def carries_def)
  qed
  with Cons.IH [of "i + 1"] Cons.prems(2) have "\<forall>j < length outputs. \<not> wanted e vout (i + 1 + int j) (outputs ! j)"
    "\<not> wanted e vout i o1" by blast+
  then show ?case by (simp add: all_less_Suc_0 add.assoc)
qed simp

lemma find_loop_Some:
  "find_loop (Some e) vout outputs i fv = Inr (Some (p, n)) \<Longrightarrow>
   p = e \<and> (\<exists>q. decode_anchor_payload e = Inr q) \<and> (vout = None \<or> vout = Some n)
   \<and> (\<exists>k < length outputs. carries e (outputs ! k) \<and> output_number (i + int k) (outputs ! k) = Inr n
       \<and> (\<forall>j < k. \<not> wanted e vout (i + int j) (outputs ! j)))"
proof (induction outputs arbitrary: i fv)
  case (Cons o1 outputs)
  from Cons.prems obtain num where num: "bindE (dict_get o1 ''n'' (JInt i)) py_int = Inr num"
    by (auto simp: bindE_eq_Inr)
  have later: ?case if "find_loop (Some e) vout outputs (i + 1) fv' = Inr (Some (p, n))" "\<not> wanted e vout i o1" for fv'
  proof -
    have shift: "i + 1 + int j = i + int (Suc j)" for j by simp
    from Cons.IH [OF that(1), unfolded shift] obtain k where k: "k < length outputs" "carries e (outputs ! k)"
        "output_number (i + int (Suc k)) (outputs ! k) = Inr n" "\<forall>j < k. \<not> wanted e vout (i + int (Suc j)) (outputs ! j)"
      and rest: "p = e" "\<exists>q. decode_anchor_payload e = Inr q" "vout = None \<or> vout = Some n"
      by blast
    have "\<forall>j < Suc k. \<not> wanted e vout (i + int j) ((o1 # outputs) ! j)"
      using k(4) that(2) by (simp add: all_less_Suc_0)
    then show ?thesis using k(1-3) rest by (auto intro!: exI [of _ "Suc k"])
  qed
  show ?case
  proof (cases "vout = None \<or> vout = Some num")
    case False
    with Cons.prems num have "find_loop (Some e) vout outputs (i + 1) fv = Inr (Some (p, n))" by simp
    then show ?thesis using False num by (intro later) (auto simp: wanted_def output_number_def split: option.splits)
  next
    case True
    with Cons.prems num obtain pl where pl: "output_payload o1 = Inr pl" by (auto simp: bindE_eq_Inr)
    note step = Cons.prems [unfolded find_loop_step [OF num pl True]]
    show ?thesis
    proof (cases "pl = Some e \<and> e \<noteq> [] \<and> (\<nexists>x. decode_anchor_payload e = Inl x)")
      case True
      then have "p = e" "n = num" "\<exists>q. decode_anchor_payload e = Inr q"
        using step by (cases "decode_anchor_payload e"; simp)+
      then show ?thesis using \<open>vout = None \<or> vout = Some num\<close> pl num True
        by (auto simp: carries_def output_number_def intro!: exI [of _ "0 :: nat"])
    next
      case False
      from step have onward: "find_loop (Some e) vout outputs (i + 1) None = Inr (Some (p, n))"
        by (simp only: if_not_P [OF False])
      from Cons.IH [OF this] decode_empty have "e \<noteq> []" "\<nexists>x. decode_anchor_payload e = Inl x" by auto
      with False pl have "\<not> wanted e vout i o1" by (auto simp: wanted_def carries_def)
      with onward show ?thesis by (rule later)
    qed
  qed
qed simp

lemma matching_vouts_length:
  "matching_vouts p outputs = Inr ns \<Longrightarrow> length ns = length (filter (carries p) outputs)"
  by (induction outputs arbitrary: ns)
     (auto simp: bindE_eq_Inr carries_def split: if_splits)

lemma if_raise_act:
  "(if c then liftA (rpc_error t) else m) n = (Inr y, n') \<longleftrightarrow> \<not> c \<and> m n = (Inr y, n')"
  by (simp add: liftA_def)

text \<open>A finished broadcast made six requests; the sixth, which sends the transaction, follows
  the fee check and the check that one output carries the payload.\<close>

lemma rpc_call_count: "snd (rpc_call R m ps n) = n + 1"
  by (simp add: rpc_call_def)

lemma bindA_call:
  "bindA (rpc_call R m ps) k n = (Inr y, n') \<longleftrightarrow>
     (\<exists>x. fst (rpc_call R m ps n) = Inr x \<and> k x (n + 1) = (Inr y, n'))"
  by (auto simp: bindA_def rpc_call_def split: sum.splits)

lemma bindA_lift:
  "bindA (liftA r) k n = (Inr y, n') \<longleftrightarrow> (\<exists>x. r = Inr x \<and> k x n = (Inr y, n'))"
  by (auto simp: bindA_def liftA_def split: sum.splits)

lemma broadcast_checks:
  assumes "broadcast_op_return R p c = (Inr b, c')"
  shows "c' = c + 6" "\<not> float_le (b_fee_btc b) (Dyadic 0 0)"
    "\<not> float_less (max_anchor_fee_btc R) (b_fee_btc b)"
    "\<exists>decoded outputs. fst (rpc_call R ''decoderawtransaction'' [b_raw_transaction b] (c + 4)) = Inr decoded
       \<and> py_iter (dget decoded ''vout'') = Some outputs \<and> length (filter (carries p) outputs) = 1
       \<and> matching_vouts p outputs = Inr [b_vout b]"
proof -
  from assms obtain fee txid tx_hex decoded vouts where *:
    "\<not> (float_le fee (Dyadic 0 0) \<or> float_less (max_anchor_fee_btc R) fee)"
    "fst (rpc_call R ''decoderawtransaction'' [tx_hex] (c + 1 + 1 + 1 + 1)) = Inr decoded"
    "bindE (dict_get decoded ''vout'' (JList [])) (\<lambda>v. bindE (iterE v) (matching_vouts p)) = Inr vouts"
    "\<not> length vouts \<noteq> 1"
    "\<lparr>b_txid = txid, b_vout = hd vouts, b_fee_btc = fee, b_raw_transaction = tx_hex\<rparr> = b"
    "c + 1 + 1 + 1 + 1 + 1 + 1 = c'"
    unfolding broadcast_op_return_def
    by (simp only: bindA_call bindA_lift liftA_eq if_raise_act sum.inject)
      (elim exE conjE, rule that, (assumption | rule refl)+)
  from * show "c' = c + 6" "\<not> float_le (b_fee_btc b) (Dyadic 0 0)"
    "\<not> float_less (max_anchor_fee_btc R) (b_fee_btc b)" by auto
  from * have vouts: "vouts = [b_vout b]" by (cases vouts) auto
  from *(3) obtain v outputs where v: "dict_get decoded ''vout'' (JList []) = Inr v"
    "py_iter v = Some outputs" "matching_vouts p outputs = Inr vouts"
    by (auto simp: bindE_eq_Inr iterE_def split: option.splits)
  have one: "length (filter (carries p) outputs) = 1"
    using matching_vouts_length [OF v(3)] *(4) by simp
  from v(1,2) one have dget: "dget decoded ''vout'' = v"
    by (auto simp: dict_get_eq_Inr assoc_get_def py_iter_def split: option.splits)
  have raw: "b_raw_transaction b = tx_hex" using *(5) by auto
  have "fst (rpc_call R ''decoderawtransaction'' [tx_hex] (c + 4)) = Inr decoded"
    using *(2) by (simp add: numeral_eq_Suc)
  then show "\<exists>decoded outputs.
      fst (rpc_call R ''decoderawtransaction'' [b_raw_transaction b] (c + 4)) = Inr decoded
      \<and> py_iter (dget decoded ''vout'') = Some outputs \<and> length (filter (carries p) outputs) = 1
      \<and> matching_vouts p outputs = Inr [b_vout b]"
    unfolding raw using dget v(2,3) vouts one by blast
qed

lemma outputs_of_tx:
  assumes "dict_get tx ''vout'' (JList []) = Inr v" "py_iter v = Some outputs"
  shows "py_iter (dget tx ''vout'') = Some outputs \<or> (outputs = [] \<and> py_iter (dget tx ''vout'') = None)"
  using assms by (auto simp: dict_get_eq_Inr assoc_get_def py_iter_def split: option.splits)

lemma find_payload_spec:
  assumes "find_payload R txid bhash (Some payload) vout c = (Inr found, c')"
  shows "(case found of
      Some (p, tx, n) \<Rightarrow> p = payload \<and> (vout = None \<or> vout = Some n)
        \<and> (\<exists>q. decode_anchor_payload payload = Inr q) \<and> (\<exists>c1. rpc_transaction R txid bhash c = (Inr tx, c1))
        \<and> (\<exists>outputs. py_iter (dget tx ''vout'') = Some outputs \<and> (\<exists>k < length outputs.
              carries payload (outputs ! k) \<and> output_number (int k) (outputs ! k) = Inr n
              \<and> (\<forall>j < k. \<not> wanted payload vout (int j) (outputs ! j))))
    | None \<Rightarrow> (\<exists>e. decode_anchor_payload payload = Inl e) \<or>
        (\<exists>tx c1. rpc_transaction R txid bhash c = (Inr tx, c1) \<and>
           (\<forall>outputs. py_iter (dget tx ''vout'') = Some outputs \<longrightarrow>
             (\<forall>k < length outputs. \<not> wanted payload vout (int k) (outputs ! k)))))"
proof -
  obtain tx c1 v outputs r where tx: "rpc_transaction R txid bhash c = (Inr tx, c1)"
    and v: "dict_get tx ''vout'' (JList []) = Inr v" "py_iter v = Some outputs"
    and r: "find_loop (Some payload) vout outputs 0 None = Inr r"
    and found: "found = map_option (\<lambda>(p, n). (p, tx, n)) r"
    using assms unfolding find_payload_def
    by (auto simp: bindA_eq_Inr liftA_eq bindE_eq_Inr iterE_def split: option.splits)
  show ?thesis
  proof (cases r)
    case None
    have "\<forall>k < length outs. \<not> wanted payload vout (int k) (outs ! k)"
      if "py_iter (dget tx ''vout'') = Some outs" "decode_anchor_payload payload = Inr q" for outs q
      using find_loop_None [OF r [unfolded None] that(2)] that(1) outputs_of_tx [OF v] by auto
    then show ?thesis using tx None found by (cases "decode_anchor_payload payload") auto
  next
    case (Some pn)
    obtain p n where pn: "pn = (p, n)" by (cases pn)
    note spec = find_loop_Some [OF r [unfolded Some pn]]
    then have "outputs \<noteq> []" by auto
    then have "py_iter (dget tx ''vout'') = Some outputs" using outputs_of_tx [OF v] by auto
    then show ?thesis using found Some pn spec tx by simp
  qed
qed

end
