(* ===== verification/Merkle.thy ===== *)
theory Merkle
  imports PyValue
begin

text \<open>
  \<^verbatim>\<open>src/hap/merkle.py\<close>: Merkle roots, inclusion proofs and their verification.

  SHA-256 is a parameter \<open>H\<close>; the lemmas that need it assume that its digests have 32 bytes.
  A statement about security never assumes that \<open>H\<close> is injective, which no function from byte
  strings to 32 bytes is: it is relative to the byte strings that the computation at hand
  hashes (\<open>level_inputs\<close>, \<open>step_inputs\<close>), and says what follows when no two of those collide.
\<close>

section \<open>Roots\<close>

text \<open>\<open>_leaf\<close>\<close>

definition leaf :: "ustr \<Rightarrow> bytes result" where
  "leaf record_id = bindE (bytes_fromhex record_id) (\<lambda>raw.
     if length raw \<noteq> 32 then Inl (Exn ValueError ''record_id must be a 32-byte hex digest'')
     else Inr raw)"

text \<open>One pass of the \<open>while\<close> loop: repeat the last node of an odd level, hash the pairs.\<close>

definition pad_level :: "bytes list \<Rightarrow> bytes list" where
  "pad_level level = (if odd (length level) then level @ [last level] else level)"

fun hash_pairs :: "(bytes \<Rightarrow> bytes) \<Rightarrow> bytes list \<Rightarrow> bytes list" where
  "hash_pairs H (a # b # rest) = H (a @ b) # hash_pairs H rest"
| "hash_pairs H _ = []"

definition next_level :: "(bytes \<Rightarrow> bytes) \<Rightarrow> bytes list \<Rightarrow> bytes list" where
  "next_level H level = hash_pairs H (pad_level level)"

lemma length_hash_pairs [simp]: "length (hash_pairs H xs) = length xs div 2"
  by (induction H xs rule: hash_pairs.induct) auto

lemma length_next_level [simp]: "length (next_level H xs) = (length xs + 1) div 2"
  by (auto simp: next_level_def pad_level_def elim!: oddE)

function fold_levels :: "(bytes \<Rightarrow> bytes) \<Rightarrow> bytes list \<Rightarrow> bytes list" where
  "fold_levels H level =
     (if 1 < length level then fold_levels H (next_level H level) else level)"
  by pat_completeness auto
termination
  by (relation "measure (\<lambda>(H, level). length level)") auto

declare fold_levels.simps [simp del]

definition merkle_root :: "(bytes \<Rightarrow> bytes) \<Rightarrow> ustr list \<Rightarrow> ustr result" where
  "merkle_root H record_ids =
     (if record_ids = [] then Inr (concat (replicate 32 (str ''00'')))
      else bindE (mapE leaf record_ids) (\<lambda>level. Inr (bytes_hex (hd (fold_levels H level)))))"

section \<open>Proofs\<close>

record proof_step =
  sibling :: ustr
  side :: string

text \<open>\<open>ProofStep.as_dict\<close>\<close>

definition step_as_dict :: "proof_step \<Rightarrow> json" where
  "step_as_dict s = obj [(''sibling'', JStr (sibling s)), (''side'', JStr (str (side s)))]"

function proof_loop :: "(bytes \<Rightarrow> bytes) \<Rightarrow> bytes list \<Rightarrow> nat \<Rightarrow> proof_step list" where
  "proof_loop H level position =
     (if 1 < length level then
        let padded = pad_level level;
            sibling_index = (if odd position then position - 1 else position + 1);
            sibling_side = (if sibling_index < position then ''left'' else ''right'')
        in \<lparr>sibling = bytes_hex (padded ! sibling_index), side = sibling_side\<rparr>
           # proof_loop H (next_level H level) (position div 2)
      else [])"
  by pat_completeness auto
termination
  by (relation "measure (\<lambda>(H, level, position). length level)") auto

declare proof_loop.simps [simp del]

definition merkle_proof :: "(bytes \<Rightarrow> bytes) \<Rightarrow> ustr list \<Rightarrow> int \<Rightarrow> json result" where
  "merkle_proof H record_ids index =
     (if index < 0 \<or> int (length record_ids) \<le> index
      then Inl (Exn IndexError ''record index out of range'')
      else bindE (mapE leaf record_ids) (\<lambda>level.
        Inr (JList (map step_as_dict (proof_loop H level (nat index))))))"

section \<open>Verification\<close>

text \<open>\<open>bytes.fromhex(v)\<close> with a length check; a \<open>TypeError\<close>, \<open>ValueError\<close> or \<open>KeyError\<close> makes the
  verifier return \<open>False\<close>, here \<open>None\<close>.\<close>

definition hex32 :: "json \<Rightarrow> bytes option" where
  "hex32 v = (case v of
     JStr s \<Rightarrow> (case fromhex_opt s of
        Some bs \<Rightarrow> if length bs = 32 then Some bs else None
      | None \<Rightarrow> None)
   | _ \<Rightarrow> None)"

fun verify_steps :: "(bytes \<Rightarrow> bytes) \<Rightarrow> bytes \<Rightarrow> json list \<Rightarrow> bytes option" where
  "verify_steps H value [] = Some value"
| "verify_steps H value (step # steps) =
     (case hex32 (dget step ''sibling'') of
        None \<Rightarrow> None
      | Some sib \<Rightarrow>
          if dget step ''side'' = JStr (str ''left'') then verify_steps H (H (sib @ value)) steps
          else if dget step ''side'' = JStr (str ''right'') then verify_steps H (H (value @ sib)) steps
          else None)"

definition verify_merkle_proof :: "(bytes \<Rightarrow> bytes) \<Rightarrow> json \<Rightarrow> json \<Rightarrow> json \<Rightarrow> bool" where
  "verify_merkle_proof H record_id steps expected_root =
     (case (hex32 record_id, py_iter steps) of
        (Some value, Some xs) \<Rightarrow>
          (case verify_steps H value xs of
             Some w \<Rightarrow> expected_root = JStr (bytes_hex w)
           | None \<Rightarrow> False)
      | _ \<Rightarrow> False)"

section \<open>Shape of the tree\<close>

text \<open>The number of steps from a leaf to the root of a tree with \<open>n\<close> leaves.\<close>

fun tree_depth :: "nat \<Rightarrow> nat" where
  "tree_depth n = (if 1 < n then Suc (tree_depth ((n + 1) div 2)) else 0)"

declare tree_depth.simps [simp del]

lemma fold_levels_step: "1 < length xs \<Longrightarrow> fold_levels H xs = fold_levels H (next_level H xs)"
  by (subst fold_levels.simps) simp

lemma fold_levels_stop: "length xs \<le> 1 \<Longrightarrow> fold_levels H xs = xs"
  by (subst fold_levels.simps) simp

lemma length_fold_levels: "xs \<noteq> [] \<Longrightarrow> length (fold_levels H xs) = 1"
proof (induction H xs rule: fold_levels.induct)
  case (1 H xs)
  show ?case
  proof (cases "1 < length xs")
    case True
    then have "next_level H xs \<noteq> []" by (simp flip: length_greater_0_conv)
    with 1 True show ?thesis by (simp add: fold_levels_step)
  next
    case False
    with 1 show ?thesis by (simp add: fold_levels_stop linorder_not_less le_Suc_eq)
  qed
qed

lemma even_length_pad_level [simp]: "even (length (pad_level xs))"
  by (simp add: pad_level_def)

lemma set_pad_level [simp]: "set (pad_level xs) = set xs"
  by (cases "xs = []") (auto simp: pad_level_def)

lemma pad_level_nth: "i < length xs \<Longrightarrow> pad_level xs ! i = xs ! i"
  by (simp add: pad_level_def nth_append)

lemma length_pad_level: "length (pad_level xs) = 2 * ((length xs + 1) div 2)"
  by (auto simp: pad_level_def elim!: oddE)

lemma hash_pairs_nth:
  "2 * i + 1 < length xs \<Longrightarrow> hash_pairs H xs ! i = H (xs ! (2 * i) @ xs ! (2 * i + 1))"
proof (induction H xs arbitrary: i rule: hash_pairs.induct)
  case (1 H a b rest)
  then show ?case by (cases i) auto
qed auto

lemma set_hash_pairs:
  "y \<in> set (hash_pairs H xs) \<Longrightarrow> \<exists>a \<in> set xs. \<exists>b \<in> set xs. y = H (a @ b)"
  by (induction H xs rule: hash_pairs.induct) auto

lemma next_level_nth:
  "i < length xs \<Longrightarrow> next_level H xs ! (i div 2)
     = H (pad_level xs ! (2 * (i div 2)) @ pad_level xs ! (2 * (i div 2) + 1))"
  unfolding next_level_def by (rule hash_pairs_nth) (simp only: length_pad_level, presburger)

lemma next_level_32:
  assumes "\<forall>x. length (H x) = 32" "y \<in> set (next_level H xs)"
  shows "length y = 32"
  using assms set_hash_pairs [of y H "pad_level xs"] by (auto simp: next_level_def)

section \<open>Every generated proof is accepted\<close>

lemma hex32_bytes_hex [simp]: "length bs = 32 \<Longrightarrow> hex32 (JStr (bytes_hex bs)) = Some bs"
  by (simp add: hex32_def)

lemma hex32_eq_Some:
  "hex32 v = Some bs \<longleftrightarrow> (\<exists>s. v = JStr s \<and> fromhex_opt s = Some bs \<and> length bs = 32)"
  by (auto simp: hex32_def split: json.splits option.splits)

lemma dget_step_as_dict [simp]:
  "dget (step_as_dict s) ''sibling'' = JStr (sibling s)"
  "dget (step_as_dict s) ''side'' = JStr (str (side s))"
  by (simp_all add: step_as_dict_def obj_def assoc_get_def)

lemma proof_loop_verifies:
  "\<forall>x. length (H x) = 32 \<Longrightarrow> \<forall>x \<in> set level. length x = 32 \<Longrightarrow> i < length level \<Longrightarrow>
    verify_steps H (level ! i) (map step_as_dict (proof_loop H level i))
      = Some (hd (fold_levels H level))"
proof (induction H level arbitrary: i rule: fold_levels.induct)
  case (1 H level)
  show ?case
  proof (cases "1 < length level")
    case True
    define padded where "padded = pad_level level"
    define j where "j = (if odd i then i - 1 else i + 1)"
    have len: "j < length padded"
      using "1.prems"(3) True unfolding padded_def j_def length_pad_level by presburger
    then have "padded ! j \<in> set level"
      using nth_mem [of j padded] by (simp add: padded_def)
    then have j32: "length (padded ! j) = 32" using "1.prems" by blast
    have i: "level ! i = padded ! i" using "1.prems" by (simp add: padded_def pad_level_nth)
    have nxt: "next_level H level ! (i div 2)
        = (if j < i then H (padded ! j @ padded ! i) else H (padded ! i @ padded ! j))"
      using "1.prems" by (auto simp: next_level_nth padded_def j_def elim!: oddE evenE)
    have "\<forall>x \<in> set (next_level H level). length x = 32"
      using next_level_32 "1.prems"(1) by blast
    moreover have "i div 2 < length (next_level H level)" using "1.prems" by simp
    ultimately have "verify_steps H (next_level H level ! (i div 2))
        (map step_as_dict (proof_loop H (next_level H level) (i div 2)))
        = Some (hd (fold_levels H level))"
      using "1.IH" [OF True "1.prems"(1)] True by (simp add: fold_levels_step)
    with True j32 show ?thesis
      by (subst proof_loop.simps) (auto simp: Let_def nxt i simp flip: padded_def j_def)
  next
    case False
    with "1.prems" have "i = 0" by simp
    with False "1.prems" show ?thesis
      by (subst proof_loop.simps) (simp add: fold_levels_stop hd_conv_nth)
  qed
qed

section \<open>What an accepted proof proves\<close>

text \<open>The byte strings hashed when a root is built, and when a proof is checked.\<close>

fun pair_inputs :: "bytes list \<Rightarrow> bytes list" where
  "pair_inputs (a # b # rest) = (a @ b) # pair_inputs rest"
| "pair_inputs _ = []"

function level_inputs :: "(bytes \<Rightarrow> bytes) \<Rightarrow> bytes list \<Rightarrow> bytes list" where
  "level_inputs H level =
     (if 1 < length level then pair_inputs (pad_level level) @ level_inputs H (next_level H level)
      else [])"
  by pat_completeness auto
termination
  by (relation "measure (\<lambda>(H, level). length level)") auto

declare level_inputs.simps [simp del]

lemma level_inputs_step:
  "1 < length xs \<Longrightarrow> level_inputs H xs = pair_inputs (pad_level xs) @ level_inputs H (next_level H xs)"
  by (subst level_inputs.simps) simp

fun step_inputs :: "(bytes \<Rightarrow> bytes) \<Rightarrow> bytes \<Rightarrow> json list \<Rightarrow> bytes list" where
  "step_inputs H value [] = []"
| "step_inputs H value (step # steps) =
     (case hex32 (dget step ''sibling'') of
        None \<Rightarrow> []
      | Some sib \<Rightarrow>
          let x = (if dget step ''side'' = JStr (str ''left'') then sib @ value else value @ sib)
          in x # step_inputs H (H x) steps)"

text \<open>Two different byte strings among the given ones with the same digest.\<close>

definition collides :: "(bytes \<Rightarrow> bytes) \<Rightarrow> bytes list \<Rightarrow> bytes list \<Rightarrow> bool" where
  "collides H xs ys \<longleftrightarrow> (\<exists>x \<in> set xs. \<exists>y \<in> set ys. x \<noteq> y \<and> H x = H y)"

lemma collides_mono:
  "collides H xs ys \<Longrightarrow> set xs \<subseteq> set xs' \<Longrightarrow> set ys \<subseteq> set ys' \<Longrightarrow> collides H xs' ys'"
  by (auto simp: collides_def)

lemma hash_pairs_eq: "hash_pairs H xs = map H (pair_inputs xs)"
  by (induction xs rule: pair_inputs.induct) auto

lemma pair_inputs_halves:
  "a @ b \<in> set (pair_inputs xs) \<Longrightarrow> \<forall>x \<in> set xs. length x = 32 \<Longrightarrow> length a = 32 \<Longrightarrow>
   a \<in> set xs \<and> b \<in> set xs"
  by (induction xs rule: pair_inputs.induct) auto

lemma verify_steps_sound:
  "\<forall>x. length (H x) = 32 \<Longrightarrow> \<forall>x \<in> set level. length x = 32 \<Longrightarrow> level \<noteq> [] \<Longrightarrow>
   length v = 32 \<Longrightarrow> length steps = tree_depth (length level) \<Longrightarrow>
   verify_steps H v steps = Some (hd (fold_levels H level)) \<Longrightarrow>
   v \<in> set level \<or> collides H (level_inputs H level) (step_inputs H v steps)"
proof (induction H level arbitrary: v steps rule: fold_levels.induct)
  case (1 H level)
  show ?case
  proof (cases "1 < length level")
    case False
    with "1.prems" have "length level = 1" by (cases level) auto
    with "1.prems" show ?thesis
      by (auto simp: tree_depth.simps fold_levels_stop length_Suc_conv)
  next
    case True
    then have "tree_depth (length level) = Suc (tree_depth (length (next_level H level)))"
      by (subst tree_depth.simps) simp
    with "1.prems"(5) obtain s ss where steps: "steps = s # ss"
      "length ss = tree_depth (length (next_level H level))"
      by (cases steps) auto
    from "1.prems"(6) steps obtain sib where sib: "hex32 (dget s ''sibling'') = Some sib"
      by (auto split: option.splits)
    then have sib32: "length sib = 32" by (auto simp: hex32_eq_Some)
    define x where "x = (if dget s ''side'' = JStr (str ''left'') then sib @ v else v @ sib)"
    have ver: "verify_steps H (H x) ss = Some (hd (fold_levels H (next_level H level)))"
      using "1.prems"(6) steps sib True
      by (auto simp: x_def fold_levels_step split: if_splits)
    have ne: "next_level H level \<noteq> []" using True by (simp flip: length_greater_0_conv)
    have inputs: "level_inputs H level = pair_inputs (pad_level level) @ level_inputs H (next_level H level)"
      "step_inputs H v steps = x # step_inputs H (H x) ss"
      using level_inputs_step [OF True] steps(1) sib by (simp_all add: x_def Let_def)
    have "\<forall>y \<in> set (next_level H level). length y = 32"
      using next_level_32 "1.prems"(1) by blast
    with "1.IH" [OF True "1.prems"(1) _ ne _ steps(2) ver] "1.prems"(1)
    have "H x \<in> set (next_level H level)
        \<or> collides H (level_inputs H (next_level H level)) (step_inputs H (H x) ss)" by blast
    then show ?thesis
    proof
      assume "collides H (level_inputs H (next_level H level)) (step_inputs H (H x) ss)"
      then show ?thesis unfolding inputs by (elim collides_mono [THEN disjI2]) auto
    next
      assume "H x \<in> set (next_level H level)"
      then obtain y where y: "y \<in> set (pair_inputs (pad_level level))" "H x = H y"
        by (auto simp: next_level_def hash_pairs_eq)
      show ?thesis
      proof (cases "x = y")
        case True
        with y pair_inputs_halves [of _ _ "pad_level level"] have "v \<in> set (pad_level level)"
          using "1.prems"(2,4) sib32 by (auto simp: x_def split: if_splits)
        then show ?thesis by simp
      next
        case False
        with y show ?thesis unfolding inputs collides_def by (metis in_set_conv_decomp Un_iff list.set_intros(1) set_append)
      qed
    qed
  qed
qed

text \<open>Two lists of the same length with the same root have the same leaves.\<close>

lemma pair_inputs_inject:
  "pair_inputs xs = pair_inputs ys \<Longrightarrow> even (length xs) \<Longrightarrow> length xs = length ys \<Longrightarrow>
   \<forall>x \<in> set xs \<union> set ys. length x = 32 \<Longrightarrow> xs = ys"
proof (induction xs arbitrary: ys rule: pair_inputs.induct)
  case (1 a b rest)
  from 1(4) have "length ys = Suc (Suc (length rest))" by simp
  then obtain c d rest' where "ys = c # d # rest'" by (auto simp: length_Suc_conv)
  with 1 show ?case by auto
qed simp_all

lemma pad_level_inject: "pad_level xs = pad_level ys \<Longrightarrow> length xs = length ys \<Longrightarrow> xs = ys"
  by (auto simp: pad_level_def split: if_splits)

lemma map_eq_or_collides:
  "map H xs = map H ys \<Longrightarrow> xs = ys \<or> collides H xs ys"
  by (induction xs arbitrary: ys) (force simp: collides_def Cons_eq_map_conv)+

lemma fold_levels_inject:
  "\<forall>x. length (H x) = 32 \<Longrightarrow> \<forall>x \<in> set xs \<union> set ys. length x = 32 \<Longrightarrow> xs \<noteq> [] \<Longrightarrow>
   length xs = length ys \<Longrightarrow> hd (fold_levels H xs) = hd (fold_levels H ys) \<Longrightarrow>
   xs = ys \<or> collides H (level_inputs H xs) (level_inputs H ys)"
proof (induction H xs arbitrary: ys rule: fold_levels.induct)
  case (1 H xs)
  show ?case
  proof (cases "1 < length xs")
    case False
    with "1.prems" have "length xs = 1" "length ys = 1" by (cases xs; simp)+
    with "1.prems"(5) show ?thesis by (auto simp: fold_levels_stop length_Suc_conv)
  next
    case True
    have ne: "next_level H xs \<noteq> []" using True by (simp flip: length_greater_0_conv)
    have l32: "\<forall>x \<in> set (next_level H xs) \<union> set (next_level H ys). length x = 32"
      using next_level_32 "1.prems"(1) by blast
    have inputs: "level_inputs H zs = pair_inputs (pad_level zs) @ level_inputs H (next_level H zs)"
      if "length zs = length xs" for zs
      using True that by (intro level_inputs_step) simp
    have "next_level H xs = next_level H ys
        \<or> collides H (level_inputs H (next_level H xs)) (level_inputs H (next_level H ys))"
      using True "1.prems" by (intro "1.IH" [OF True "1.prems"(1) l32 ne]) (simp_all add: fold_levels_step)
    moreover have "collides H (level_inputs H xs) (level_inputs H ys)"
      if "collides H (pair_inputs (pad_level xs)) (pair_inputs (pad_level ys))
        \<or> collides H (level_inputs H (next_level H xs)) (level_inputs H (next_level H ys))"
      using that unfolding inputs [OF refl] inputs [OF "1.prems"(4) [symmetric]]
      by (elim disjE collides_mono) simp_all
    moreover have "xs = ys \<or> collides H (pair_inputs (pad_level xs)) (pair_inputs (pad_level ys))"
      if "next_level H xs = next_level H ys"
    proof -
      from that consider "pair_inputs (pad_level xs) = pair_inputs (pad_level ys)"
        | "collides H (pair_inputs (pad_level xs)) (pair_inputs (pad_level ys))"
        using map_eq_or_collides by (auto simp: next_level_def hash_pairs_eq)
      then show ?thesis
      proof cases
        case 1
        then have "pad_level xs = pad_level ys"
          using "1.prems"(2,4) by - (rule pair_inputs_inject, simp_all add: length_pad_level ball_Un)
        with "1.prems"(4) show ?thesis by (auto dest: pad_level_inject)
      next
        case 2
        then show ?thesis by simp
      qed
    qed
    ultimately show ?thesis by blast
  qed
qed

lemma mapE_leaf:
  "mapE leaf ids = Inr level \<Longrightarrow> map fromhex_opt ids = map Some level
     \<and> length level = length ids \<and> (\<forall>x \<in> set level. length x = 32)"
  unfolding mapE_eq_Inr
  by (induction rule: list_all2_induct) (auto simp: leaf_def result_simps)

lemma length_proof_loop: "length (proof_loop H level i) = tree_depth (length level)"
proof (induction H level i rule: proof_loop.induct)
  case (1 H level i)
  show ?case
  proof (cases "1 < length level")
    case True
    from "1.IH" [OF True refl refl refl] True show ?thesis
      by (subst proof_loop.simps, subst tree_depth.simps) (simp add: Let_def)
  next
    case False
    then show ?thesis by (subst proof_loop.simps, subst tree_depth.simps) simp
  qed
qed

lemma merkle_root_eq:
  "mapE leaf ids = Inr level \<Longrightarrow> ids \<noteq> [] \<Longrightarrow>
   merkle_root H ids = Inr (bytes_hex (hd (fold_levels H level)))"
  by (simp add: merkle_root_def)

lemma verify_merkle_proof_iff:
  "verify_merkle_proof H (JStr rid) (JList steps) (JStr root) \<longleftrightarrow>
     (\<exists>v w. hex32 (JStr rid) = Some v \<and> verify_steps H v steps = Some w \<and> root = bytes_hex w)"
  by (auto simp: verify_merkle_proof_def py_iter_def split: option.splits)

lemma merkle_proof_complete:
  assumes "\<forall>x. length (H x) = 32" "i < length ids" "mapE leaf ids = Inr level"
  shows "\<exists>steps root. merkle_proof H ids (int i) = Inr (JList steps) \<and> merkle_root H ids = Inr root
    \<and> verify_merkle_proof H (JStr (ids ! i)) (JList steps) (JStr root)
    \<and> length steps = tree_depth (length ids)"
proof -
  note l = mapE_leaf [OF assms(3)]
  have "fromhex_opt (ids ! i) = Some (level ! i)" using l assms(2) by (metis nth_map)
  moreover have "length (level ! i) = 32" using l assms(2) by simp
  ultimately have "hex32 (JStr (ids ! i)) = Some (level ! i)" by (simp add: hex32_eq_Some)
  moreover have "ids \<noteq> []" using assms(2) by auto
  ultimately show ?thesis
    using l assms proof_loop_verifies [of H level i] merkle_root_eq [OF assms(3), of H]
    by (auto simp: merkle_proof_def verify_merkle_proof_iff length_proof_loop)
qed

end
