(* ===== verification/Batches.thy ===== *)
theory Batches
  imports Anchors Bitcoin Merkle
begin

text \<open>
  \<^verbatim>\<open>src/hap/batches.py\<close>: the batch manifest, which lists record identifiers in lexicographic
  order with their Merkle root, and whose own digest is the batch identifier that the Bitcoin
  payload commits to.
\<close>

definition BATCH_VERSION :: int where "BATCH_VERSION = 3"
definition ORDERING_RULE :: string where "ORDERING_RULE = ''record_id_lexicographic_v1''"
definition MAX_BATCH_RECORDS :: nat where "MAX_BATCH_RECORDS = 50000"

definition BATCH_FIELDS :: "string list" where
  "BATCH_FIELDS = [''schema'', ''version'', ''created_at'', ''network'', ''record_count'',
     ''record_ordering'', ''record_ids'', ''merkle_root'', ''algorithms'', ''batch_id'',
     ''payload_hex'']"

abbreviation batch_error :: "string \<Rightarrow> exn" where
  "batch_error \<equiv> Exn BatchValidationError"

definition manifest_body :: "json \<Rightarrow> json" where
  "manifest_body b = dpop ''payload_hex'' (dpop ''batch_id'' b)"

definition calculate_batch_id :: "env \<Rightarrow> json \<Rightarrow> ustr result" where
  "calculate_batch_id E b =
     bindE (canonical_json_bytes (manifest_body b)) (\<lambda>bs. Inr (sha256_hex E bs))"

text \<open>\<open>_validate_digest\<close>\<close>

definition batch_digest :: "json \<Rightarrow> unit result" where
  "batch_digest v = (case v of
     JStr s \<Rightarrow>
       if length s \<noteq> 64 then Inl (batch_error ''must be a 32-byte hexadecimal digest'')
       else bindE (reraise is_ValueError (batch_error ''must be hexadecimal'') (bytes_fromhex s))
         (\<lambda>raw. if length raw \<noteq> 32 then Inl (batch_error ''must be a 32-byte hexadecimal digest'')
           else Inr ())
   | _ \<Rightarrow> Inl (batch_error ''must be a 32-byte hexadecimal digest''))"

lemma batch_digest_eq_Inr [result_simps]: "batch_digest v = Inr u \<longleftrightarrow> is_hex_digest v"
  by (auto simp: batch_digest_def is_hex_digest_def result_simps split: json.splits)

definition expected_algorithms :: json where
  "expected_algorithms = obj [(''record_id'', JStr (str ''sha256'')), (''batch_id'', JStr (str ''sha256'')),
     (''merkle_parent'', JStr (str ''sha256(left||right)'')),
     (''canonical_json'', JStr (str ''hap-canonical-json-v1''))]"

text \<open>The checks on the list of identifiers and the root, given the list of strings.\<close>

definition validate_record_ids :: "env \<Rightarrow> json \<Rightarrow> json list \<Rightarrow> unit result" where
  "validate_record_ids E b items =
     bindE (forE batch_digest items) (\<lambda>_.
     let ids = map text_of items in
     if ids \<noteq> sort ids
     then Inl (batch_error ''record_ids are not in canonical lexicographic order'')
     else if \<not> distinct ids
     then Inl (batch_error ''duplicate record_ids are not allowed in a batch'')
     else if \<not> py_eq (dget b ''record_count'') (JInt (int (length ids)))
     then Inl (batch_error ''record_count does not match record_ids'')
     else bindE (merkle_root (sha256 E) ids) (\<lambda>root.
     if dget b ''merkle_root'' \<noteq> JStr root
     then Inl (batch_error ''merkle_root does not match record_ids'')
     else Inr ()))"

text \<open>The checks on the batch identifier and the payload; \<open>except Exception\<close> catches all.\<close>

definition decode_payload_field :: "json \<Rightarrow> anchor_payload result" where
  "decode_payload_field v =
     reraise (\<lambda>_. True) (batch_error ''invalid anchor payload'')
       (case v of JStr s \<Rightarrow> decode_anchor_payload s
        | _ \<Rightarrow> Inl (Exn TypeError ''fromhex() argument must be str''))"

definition validate_commitment :: "env \<Rightarrow> json \<Rightarrow> unit result" where
  "validate_commitment E b =
     bindE (batch_digest (dget b ''batch_id'')) (\<lambda>_.
     bindE (calculate_batch_id E b) (\<lambda>calculated.
     if dget b ''batch_id'' \<noteq> JStr calculated
     then Inl (batch_error ''batch_id does not match canonical manifest'')
     else bindE (decode_payload_field (dget b ''payload_hex'')) (\<lambda>payload.
     if commitment_type payload \<noteq> COMMITMENT_TYPE_BATCH_MANIFEST
     then Inl (batch_error ''unsupported commitment type'')
     else if dget b ''batch_id'' \<noteq> JStr (manifest_hash payload)
     then Inl (batch_error ''anchor payload does not commit to batch_id'')
     else Inr ())))"

definition validate_batch :: "env \<Rightarrow> json \<Rightarrow> unit result" where
  "validate_batch E b =
     (if \<not> has_fields b BATCH_FIELDS
      then Inl (batch_error ''batch fields do not match the versioned schema'')
      else if dget b ''schema'' \<noteq> JStr (str ''hap.batch'') \<or> \<not> py_eq (dget b ''version'') (JInt BATCH_VERSION)
      then Inl (batch_error ''unsupported batch schema or version'')
      else if dget b ''record_ordering'' \<noteq> JStr (str ORDERING_RULE)
      then Inl (batch_error ''unsupported record ordering rule'')
      else condE (in_str_set (dget b ''network'') ALLOWED_NETWORKS)
       (if \<not> is_nonneg_int (dget b ''created_at'')
        then Inl (batch_error ''created_at must be a non-negative integer'')
        else case dget b ''record_ids'' of
          JList items \<Rightarrow>
            if items = [] then Inl (batch_error ''record_ids must be a non-empty list'')
            else if MAX_BATCH_RECORDS < length items
            then Inl (batch_error ''a batch may contain at most 50000 records'')
            else bindE (validate_record_ids E b items) (\<lambda>_.
            if \<not> py_eq (dget b ''algorithms'') expected_algorithms
            then Inl (batch_error ''unsupported algorithm declaration'')
            else validate_commitment E b)
        | _ \<Rightarrow> Inl (batch_error ''record_ids must be a non-empty list''))
       (Inl (batch_error ''unsupported Bitcoin network'')))"

definition create_batch_manifest :: "env \<Rightarrow> ustr list \<Rightarrow> ustr \<Rightarrow> int \<Rightarrow> json result" where
  "create_batch_manifest E record_ids network created_at =
     (if record_ids = [] then Inl (batch_error ''a batch requires at least one record'')
      else let ordered = sort record_ids in
        bindE (merkle_root (sha256 E) ordered) (\<lambda>root.
        let b = obj [(''schema'', JStr (str ''hap.batch'')), (''version'', JInt BATCH_VERSION),
              (''created_at'', JInt created_at), (''network'', JStr network),
              (''record_count'', JInt (int (length ordered))),
              (''record_ordering'', JStr (str ORDERING_RULE)),
              (''record_ids'', JList (map JStr ordered)), (''merkle_root'', JStr root),
              (''algorithms'', expected_algorithms)]
        in bindE (calculate_batch_id E b) (\<lambda>bid.
           let b1 = dput ''batch_id'' (JStr bid) b in
           bindE (encode_anchor_payload bid (int COMMITMENT_TYPE_BATCH_MANIFEST)) (\<lambda>payload.
           let b2 = dput ''payload_hex'' (JStr payload) b1 in
           bindE (validate_batch E b2) (\<lambda>_. Inr b2)))))"

section \<open>What validation establishes\<close>

definition record_ids_of :: "json \<Rightarrow> ustr list" where
  "record_ids_of b = (case dget b ''record_ids'' of JList items \<Rightarrow> map text_of items | _ \<Rightarrow> [])"

lemma validate_record_ids_eq_Inr:
  "validate_record_ids E b items = Inr u \<longleftrightarrow>
     (\<forall>x \<in> set items. is_hex_digest x) \<and> sorted (map text_of items) \<and> distinct (map text_of items)
     \<and> py_eq (dget b ''record_count'') (JInt (int (length items)))
     \<and> (\<exists>root. merkle_root (sha256 E) (map text_of items) = Inr root \<and> dget b ''merkle_root'' = JStr root)"
  unfolding validate_record_ids_def Let_def
  by (auto simp: bindE_eq_Inr forE_eq_Inr batch_digest_eq_Inr sorted_sort_id)
    (metis sorted_sort)

lemma decode_payload_field_eq_Inr:
  "decode_payload_field v = Inr p \<longleftrightarrow> (\<exists>s. v = JStr s \<and> decode_anchor_payload s = Inr p)"
  by (auto simp: decode_payload_field_def split: json.splits)

lemma validate_commitment_eq_Inr:
  "validate_commitment E b = Inr u \<longleftrightarrow> (\<exists>bid s p. dget b ''batch_id'' = JStr bid
     \<and> is_hex_digest (JStr bid) \<and> calculate_batch_id E b = Inr bid
     \<and> dget b ''payload_hex'' = JStr s \<and> decode_anchor_payload s = Inr p
     \<and> commitment_type p = 1 \<and> manifest_hash p = bid)"
  unfolding validate_commitment_def
  by (auto simp: bindE_eq_Inr batch_digest_eq_Inr decode_payload_field_eq_Inr
      COMMITMENT_TYPE_BATCH_MANIFEST_def)

lemma validate_batch_eq_Inr:
  "validate_batch E b = Inr u \<longleftrightarrow>
     has_fields b BATCH_FIELDS \<and> dget b ''schema'' = JStr (str ''hap.batch'')
     \<and> py_eq (dget b ''version'') (JInt 3) \<and> dget b ''record_ordering'' = JStr (str ORDERING_RULE)
     \<and> (\<exists>n \<in> set ALLOWED_NETWORKS. dget b ''network'' = JStr (str n))
     \<and> is_nonneg_int (dget b ''created_at'')
     \<and> (\<exists>items. dget b ''record_ids'' = JList items \<and> items \<noteq> [] \<and> length items \<le> 50000
          \<and> validate_record_ids E b items = Inr ())
     \<and> py_eq (dget b ''algorithms'') expected_algorithms \<and> validate_commitment E b = Inr ()"
  unfolding validate_batch_def
  by (auto simp: result_simps BATCH_VERSION_def MAX_BATCH_RECORDS_def split: json.splits)

lemma is_hex_digest_JStr: "is_hex_digest x \<Longrightarrow> x = JStr (text_of x)"
  by (auto simp: is_hex_digest_def)

text \<open>A valid batch's identifiers, typed.\<close>

lemma validate_batch_ids:
  assumes "validate_batch E b = Inr u"
  shows "dget b ''record_ids'' = JList (map JStr (record_ids_of b))"
    "record_ids_of b \<noteq> []" "length (record_ids_of b) \<le> 50000"
    "\<forall>i \<in> set (record_ids_of b). is_hex_digest (JStr i)"
    "sorted (record_ids_of b)" "distinct (record_ids_of b)"
    "py_eq (dget b ''record_count'') (JInt (int (length (record_ids_of b))))"
    "\<exists>root. merkle_root (sha256 E) (record_ids_of b) = Inr root \<and> dget b ''merkle_root'' = JStr root"
proof -
  from assms obtain items where items: "dget b ''record_ids'' = JList items" "items \<noteq> []"
    "length items \<le> 50000" "validate_record_ids E b items = Inr ()"
    by (auto simp: validate_batch_eq_Inr)
  then have ids: "record_ids_of b = map text_of items" by (simp add: record_ids_of_def)
  have eq: "items = map JStr (record_ids_of b)"
    using items(4) by (auto simp: ids validate_record_ids_eq_Inr comp_def is_hex_digest_JStr [symmetric]
        intro!: map_idI [symmetric])
  then show "dget b ''record_ids'' = JList (map JStr (record_ids_of b))" using items by simp
  show "record_ids_of b \<noteq> []" "length (record_ids_of b) \<le> 50000" using items ids by simp_all
  show "\<forall>i \<in> set (record_ids_of b). is_hex_digest (JStr i)"
    using items(4) unfolding eq validate_record_ids_eq_Inr by auto
  show "sorted (record_ids_of b)" "distinct (record_ids_of b)"
    "py_eq (dget b ''record_count'') (JInt (int (length (record_ids_of b))))"
    "\<exists>root. merkle_root (sha256 E) (record_ids_of b) = Inr root \<and> dget b ''merkle_root'' = JStr root"
    using items(4) by (auto simp: ids validate_record_ids_eq_Inr)
qed

lemma validate_batch_payload:
  assumes "validate_batch E b = Inr u"
  shows "\<exists>bid s. dget b ''batch_id'' = JStr bid \<and> length bid = 64 \<and> calculate_batch_id E b = Inr bid
    \<and> dget b ''payload_hex'' = JStr s
    \<and> (\<exists>p. decode_anchor_payload s = Inr p \<and> commitment_type p = 1 \<and> manifest_hash p = bid)"
  using assms
  by (auto simp: validate_batch_eq_Inr validate_commitment_eq_Inr is_hex_digest_def)

section \<open>Creation\<close>

text \<open>The manifest that \<open>create_batch_manifest\<close> builds, before and after the last two fields.\<close>

definition manifest_fields :: "ustr list \<Rightarrow> ustr \<Rightarrow> int \<Rightarrow> ustr \<Rightarrow> (string \<times> json) list" where
  "manifest_fields ordered network created_at root =
     [(''schema'', JStr (str ''hap.batch'')), (''version'', JInt BATCH_VERSION),
      (''created_at'', JInt created_at), (''network'', JStr network),
      (''record_count'', JInt (int (length ordered))),
      (''record_ordering'', JStr (str ORDERING_RULE)),
      (''record_ids'', JList (map JStr ordered)), (''merkle_root'', JStr root),
      (''algorithms'', expected_algorithms)]"

lemma mapE_leaf_total:
  assumes "\<forall>i \<in> set ids. is_hex_digest (JStr i)"
  shows "\<exists>level. mapE leaf ids = Inr level"
  using assms
proof (induction ids)
  case (Cons i ids)
  then obtain level bs where "mapE leaf ids = Inr level" "fromhex_opt i = Some bs" "length bs = 32"
    by (auto simp: is_hex_digest_def)
  then have "leaf i = Inr bs" by (simp add: leaf_def result_simps)
  with \<open>mapE leaf ids = Inr level\<close> show ?case by simp
qed simp

lemma merkle_root_total:
  assumes "\<forall>i \<in> set ids. is_hex_digest (JStr i)" "ids \<noteq> []"
  shows "\<exists>bs. merkle_root H ids = Inr (bytes_hex bs)"
  using mapE_leaf_total [OF assms(1)] assms(2) by (auto simp: merkle_root_def)

lemma validate_manifest_fields:
  assumes "0 \<le> created_at" "created_at \<le> MAX_SAFE_JSON_INTEGER" "length ordered \<le> 50000"
  shows "validate_json_value (obj (manifest_fields ordered network created_at root)) 0 = Inr ()"
  using assms
  by (auto simp: manifest_fields_def validate_obj validate_leaf expected_algorithms_def
      BATCH_VERSION_def MAX_SAFE_JSON_INTEGER_def)

lemma encodable_manifest_fields:
  assumes "n \<in> set ALLOWED_NETWORKS" "\<forall>i \<in> set ordered. is_hex_digest (JStr i)"
  shows "encodable_json (obj (manifest_fields ordered (str n) created_at (bytes_hex bs)))"
proof -
  have "\<forall>i \<in> set ordered. encodable i" using assms(2) by (auto simp: is_hex_digest_def intro: encodable_fromhex)
  with assms(1) show ?thesis
    by (auto simp: manifest_fields_def encodable_obj expected_algorithms_def ORDERING_RULE_def
        ALLOWED_NETWORKS_def)
qed

text \<open>Valid arguments always give a manifest, and it passes \<open>validate_batch\<close>.\<close>

lemma create_batch_manifest_total:
  assumes E: "digests_32 E" and ids: "ids \<noteq> []" "length ids \<le> 50000" "distinct ids"
      "\<forall>i \<in> set ids. is_hex_digest (JStr i)"
    and net: "n \<in> set ALLOWED_NETWORKS" and t: "0 \<le> t" "t \<le> MAX_SAFE_JSON_INTEGER"
  shows "\<exists>b. create_batch_manifest E ids (str n) t = Inr b \<and> validate_batch E b = Inr ()
    \<and> record_ids_of b = sort ids \<and> dget b ''network'' = JStr (str n) \<and> dget b ''created_at'' = JInt t"
proof -
  define ordered where "ordered = sort ids"
  have ord: "ordered \<noteq> []" "length ordered \<le> 50000" "distinct ordered" "sorted ordered"
    "\<forall>i \<in> set ordered. is_hex_digest (JStr i)"
    using ids by (simp_all add: ordered_def) (metis length_sort list.size(3) length_0_conv)
  obtain bs where root: "merkle_root (sha256 E) ordered = Inr (bytes_hex bs)"
    using merkle_root_total ord by blast
  define fs where "fs = manifest_fields ordered (str n) t (bytes_hex bs)"
  obtain body where body: "canonical_json_bytes (obj fs) = Inr body"
    using canonical_json_bytes_total validate_manifest_fields [OF t ord(2)]
      encodable_manifest_fields [OF net ord(5)] unfolding fs_def by blast
  define bid where "bid = sha256_hex E body"
  have bid: "fromhex_opt bid = Some (sha256 E body)" "length bid = 64" "length (sha256 E body) = 32"
    using E by (simp_all add: bid_def digests_32_def)
  define payload where "payload = bytes_hex (MAGIC @ [3, 1] @ sha256 E body)"
  have enc: "encode_anchor_payload bid (int COMMITMENT_TYPE_BATCH_MANIFEST) = Inr payload"
    using bid by (simp add: encode_eq_Inr payload_def VERSION_def COMMITMENT_TYPE_BATCH_MANIFEST_def)
  have dec: "decode_anchor_payload payload = Inr \<lparr>payload_version = 3, commitment_type = 1,
      manifest_hash = bid\<rparr>"
    unfolding decode_eq_Inr payload_def fromhex_bytes_hex using bid(3)
    by (intro exI [of _ 1] exI [of _ "sha256 E body"]) (simp add: bid_def sha256_hex_def)
  define b where "b = obj (fs @ [(''batch_id'', JStr bid), (''payload_hex'', JStr payload)])"
  have puts: "dput ''payload_hex'' (JStr payload) (dput ''batch_id'' (JStr bid) (obj fs)) = b"
    by (simp add: b_def fs_def manifest_fields_def dput_obj)
  have body_b: "manifest_body b = obj fs" "manifest_body (obj fs) = obj fs"
    by (simp_all add: b_def fs_def manifest_fields_def manifest_body_def dpop_obj)
  have ids_b: "record_ids_of b = ordered"
    by (simp add: record_ids_of_def b_def fs_def manifest_fields_def comp_def)
  have "validate_record_ids E b (map JStr ordered) = Inr ()"
    unfolding validate_record_ids_eq_Inr using ord root
    by (simp add: b_def fs_def manifest_fields_def comp_def)
  moreover have "validate_commitment E b = Inr ()"
    unfolding validate_commitment_eq_Inr calculate_batch_id_def body_b body using bid dec
    by (auto simp: b_def fs_def manifest_fields_def bid_def is_hex_digest_def)
  moreover have "py_eq expected_algorithms expected_algorithms"
    by (simp add: expected_algorithms_def obj_def)
  ultimately have valid: "validate_batch E b = Inr ()"
    unfolding validate_batch_eq_Inr using ord net t
    by (auto simp: b_def fs_def manifest_fields_def has_fields_obj BATCH_FIELDS_def BATCH_VERSION_def
        is_nonneg_int_def)
  have "create_batch_manifest E ids (str n) t = Inr b"
    using ids(1) root body valid enc puts
    by (simp add: create_batch_manifest_def Let_def calculate_batch_id_def body_b
        flip: ordered_def manifest_fields_def fs_def bid_def)
  with valid ids_b show ?thesis
    by (auto simp: ordered_def b_def fs_def manifest_fields_def)
qed

lemma in_assoc_put: "(k, w) \<in> set (assoc_put k' v d) \<Longrightarrow> k = k' \<and> w = v \<or> (k, w) \<in> set d"
  by (induction k' v d rule: assoc_put.induct) (auto split: if_splits)

lemma wf_dput: "wf_json d \<Longrightarrow> wf_json v \<Longrightarrow> wf_json (dput k v d)"
proof (cases d)
  case (JDict items)
  have "distinct (map fst items) \<Longrightarrow> distinct (map fst (assoc_put k' v items))" for k' :: pkey
    by (induction items) (auto simp: image_iff, metis in_assoc_put fst_conv)
  moreover have "(\<forall>(k, v) \<in> set items. wf_json v) \<Longrightarrow> wf_json v \<Longrightarrow> (\<forall>(k, v) \<in> set (assoc_put k' v items). wf_json v)"
    for k' :: pkey
    by (auto dest: in_assoc_put)
  ultimately show "wf_json d \<Longrightarrow> wf_json v \<Longrightarrow> wf_json (dput k v d)" using JDict by simp
qed simp_all

lemma create_batch_manifest_wf:
  assumes "create_batch_manifest E ids network t = Inr b"
  shows "wf_json b"
  using assms
  by (auto simp: create_batch_manifest_def Let_def bindE_eq_Inr wf_obj expected_algorithms_def
      intro!: wf_dput split: if_splits)

section \<open>A batch identifier names one manifest\<close>

lemma same_batch_id:
  assumes "calculate_batch_id E b = Inr i" "calculate_batch_id E b' = Inr i"
  shows "same_json (manifest_body b) (manifest_body b')
    \<or> digest_collision (sha256 E) (manifest_body b) (manifest_body b')"
proof -
  from assms obtain x y where "canonical_json_bytes (manifest_body b) = Inr x"
    "canonical_json_bytes (manifest_body b') = Inr y" "sha256 E x = sha256 E y"
    by (auto simp: calculate_batch_id_def bindE_eq_Inr sha256_hex_def)
  then show ?thesis by (rule same_digest)
qed

lemma same_manifest_ids:
  assumes "wf_json b" "wf_json b'" "validate_batch E b = Inr u" "validate_batch E b' = Inr u'"
    and "same_json (manifest_body b) (manifest_body b')"
  shows "record_ids_of b = record_ids_of b'"
proof -
  have dict: "is_dict b" "is_dict b'"
    using assms(3,4) has_fields_is_dict by (auto simp: validate_batch_eq_Inr)
  have "wf_json (manifest_body b)" "wf_json (manifest_body b')"
    using assms(1,2) by (simp_all add: manifest_body_def wf_dpop)
  then have "same_json (dget (manifest_body b) ''record_ids'') (dget (manifest_body b') ''record_ids'')"
    using assms(5) by (intro same_json_dget)
  then have "same_json (dget b ''record_ids'') (dget b' ''record_ids'')"
    using dict by (simp add: manifest_body_def)
  then have "map JStr (record_ids_of b) = map JStr (record_ids_of b')"
    by (simp add: validate_batch_ids(1) [OF assms(3)] validate_batch_ids(1) [OF assms(4)] same_json_strs)
  then show ?thesis by (simp add: inj_map_eq_map inj_def)
qed

section \<open>The size of a valid batch\<close>

lemma algorithms_depth:
  assumes "py_eq v expected_algorithms" "wf_json v"
  shows "json_depth v \<le> 1"
proof -
  obtain d where d: "v = JDict d" using assms(1) by (cases v) (auto simp: expected_algorithms_def obj_def)
  have str: "\<forall>(k, w) \<in> set (the_items e). \<exists>s. w = JStr s \<Longrightarrow> py_eq_items d (the_items e) \<Longrightarrow>
      (k, w) \<in> set d \<Longrightarrow> json_depth w = 0" for the_items :: "json \<Rightarrow> (pkey \<times> json) list" and e k w
    by (induction d) (force split: option.splits dest: map_of_SomeD)+
  have "json_depth w = 0" if "(k, w) \<in> set d" for k w
    by (rule str [of "\<lambda>v. case v of JDict e \<Rightarrow> e | _ \<Rightarrow> []" expected_algorithms k w])
      (use assms(1) that d in \<open>auto simp: expected_algorithms_def obj_def\<close>)
  then show ?thesis by (auto simp: d)
qed

lemma validate_batch_depth:
  assumes "validate_batch E b = Inr u" "wf_json b"
  shows "json_depth b \<le> 2"
proof -
  have "dget b ''record_ids'' = JList (map JStr (record_ids_of b))"
    "\<exists>root. dget b ''merkle_root'' = JStr root" "json_depth (dget b ''record_count'') = 0"
    using validate_batch_ids [OF assms(1)] by (auto dest: py_eq_int_depth)
  moreover have "\<exists>bid s. dget b ''batch_id'' = JStr bid \<and> dget b ''payload_hex'' = JStr s"
    using validate_batch_payload [OF assms(1)] by auto
  moreover have "json_depth (dget b ''version'') = 0" "json_depth (dget b ''algorithms'') \<le> 1"
    "is_nonneg_int (dget b ''created_at'')" "has_fields b BATCH_FIELDS"
    "\<exists>s. dget b ''schema'' = JStr s" "\<exists>s. dget b ''record_ordering'' = JStr s" "\<exists>s. dget b ''network'' = JStr s"
    using assms(1) algorithms_depth [OF _ wf_dget [OF assms(2)]]
    by (auto simp: validate_batch_eq_Inr dest: py_eq_int_depth)
  ultimately have f: "\<forall>f \<in> set BATCH_FIELDS. json_depth (dget b f) \<le> 1" "has_fields b BATCH_FIELDS"
    by (auto simp: BATCH_FIELDS_def is_nonneg_int_iff)
  from has_fields_depth [OF f(2) assms(2) f(1)] show ?thesis by simp
qed

lemma validate_batch_encodable:
  assumes "validate_batch E b = Inr u" "wf_json b"
  shows "in_range b" "encodable_json b"
proof -
  have dict: "is_dict b" using assms(1) has_fields_is_dict by (auto simp: validate_batch_eq_Inr)
  obtain bid s p where b: "dget b ''batch_id'' = JStr bid" "calculate_batch_id E b = Inr bid"
    "dget b ''payload_hex'' = JStr s" "decode_anchor_payload s = Inr p" "length bid = 64"
    using validate_batch_payload [OF assms(1)] by auto
  have "encodable s" using b(4) by (auto simp: decode_eq_Inr intro: encodable_fromhex)
  moreover have "encodable bid" using b(2) by (auto simp: calculate_batch_id_def bindE_eq_Inr sha256_hex_def)
  moreover have "in_range (manifest_body b)" "encodable_json (manifest_body b)"
    using b(2) canonical_json_bytes_iff [of "manifest_body b"]
    by (auto simp: calculate_batch_id_def bindE_eq_Inr)
  ultimately have "in_range (dpop ''batch_id'' b)" "encodable_json (dpop ''batch_id'' b)"
    using b dict wf_dpop [OF assms(2)] unfolding manifest_body_def
    by (auto intro!: in_range_put_back [of "dpop ''batch_id'' b" "''payload_hex''"]
        encodable_put_back [of "dpop ''batch_id'' b" "''payload_hex''"])
  then show "in_range b" "encodable_json b"
    using \<open>encodable bid\<close> b dict assms(2)
    by (auto intro!: in_range_put_back [of b "''batch_id''"] encodable_put_back [of b "''batch_id''"])
qed

end
