(* ===== verification/Packages.thy ===== *)
theory Packages
  imports Batches
begin

text \<open>
  \<^verbatim>\<open>src/hap/packages.py\<close>: a package is a batch manifest together with exactly the records it
  lists, in its order. The lemmas show that the committed batch identifier determines the
  package: two valid packages of one batch agree on every record, or exhibit a collision of the
  hash among the canonical byte strings that validation hashed.
\<close>

definition PACKAGE_VERSION :: int where "PACKAGE_VERSION = 1"

definition PACKAGE_FIELDS :: "string list" where
  "PACKAGE_FIELDS = [''schema'', ''version'', ''batch'', ''records'', ''package_id'']"

abbreviation package_error :: "string \<Rightarrow> exn" where
  "package_error \<equiv> Exn PackageValidationError"

definition package_body :: "json \<Rightarrow> json" where
  "package_body p = dpop ''package_id'' p"

definition calculate_package_id :: "env \<Rightarrow> json \<Rightarrow> ustr result" where
  "calculate_package_id E p =
     bindE (canonical_json_bytes (package_body p)) (\<lambda>bs. Inr (sha256_hex E bs))"

text \<open>The loop over the records, with the identifiers seen so far in reverse order.\<close>

fun package_loop :: "env \<Rightarrow> json list \<Rightarrow> ustr list \<Rightarrow> ustr list result" where
  "package_loop E [] seen = Inr (rev seen)"
| "package_loop E (r # rs) seen =
     bindE (validate_record E r) (\<lambda>_.
     let rid = text_of (dget r ''record_id'') in
     if rid \<in> set seen then Inl (package_error ''package contains a duplicate record'')
     else package_loop E rs (rid # seen))"

definition validate_package :: "env \<Rightarrow> json \<Rightarrow> unit result" where
  "validate_package E p =
     (if \<not> has_fields p PACKAGE_FIELDS
      then Inl (package_error ''package fields do not match the versioned schema'')
      else if dget p ''schema'' \<noteq> JStr (str ''hap.package'') \<or> \<not> py_eq (dget p ''version'') (JInt PACKAGE_VERSION)
      then Inl (package_error ''unsupported package schema or version'')
      else if \<not> is_dict (dget p ''batch'') then Inl (package_error ''package batch is required'')
      else bindE (validate_batch E (dget p ''batch'')) (\<lambda>_.
      case dget p ''records'' of
        JList records \<Rightarrow>
          if records = [] then Inl (package_error ''package records must be a non-empty list'')
          else if \<not> py_eq (JInt (int (length records))) (dget (dget p ''batch'') ''record_count'')
          then Inl (package_error ''package record count does not match batch'')
          else bindE (package_loop E records []) (\<lambda>ids.
          if \<not> py_eq (JList (map JStr ids)) (dget (dget p ''batch'') ''record_ids'')
          then Inl (package_error ''package records are not in the exact committed batch order'')
          else bindE (calculate_package_id E p) (\<lambda>calculated.
          if dget p ''package_id'' \<noteq> JStr calculated
          then Inl (package_error ''package_id does not match package contents'')
          else Inr ()))
      | _ \<Rightarrow> Inl (package_error ''package records must be a non-empty list'')))"

text \<open>\<open>by_id\<close> of \<open>create_package\<close>: a later record with the same key replaces an earlier one. A key
  that is a list or a dictionary is unhashable.\<close>

definition record_key :: "json \<Rightarrow> json result" where
  "record_key r = bindE (dict_item r ''record_id'') (\<lambda>k. case k of
     JList _ \<Rightarrow> Inl (Exn TypeError ''unhashable type'')
   | JDict _ \<Rightarrow> Inl (Exn TypeError ''unhashable type'')
   | _ \<Rightarrow> Inr k)"

definition lookup_key :: "(json \<times> json) list \<Rightarrow> json \<Rightarrow> json result" where
  "lookup_key by_id k = (case find (\<lambda>(k', _). py_eq k' k) (rev by_id) of
     None \<Rightarrow> Inl (Exn KeyError ''record_id'') | Some (_, r) \<Rightarrow> Inr r)"

definition create_package :: "env \<Rightarrow> json \<Rightarrow> json list \<Rightarrow> json result" where
  "create_package E batch records =
     bindE (mapE record_key records) (\<lambda>keys.
     bindE (dict_item batch ''record_ids'') (\<lambda>ids.
     bindE (iterE ids) (\<lambda>ids.
     bindE (mapE (lookup_key (zip keys records)) ids) (\<lambda>ordered.
     let p = obj [(''schema'', JStr (str ''hap.package'')), (''version'', JInt PACKAGE_VERSION),
                  (''batch'', batch), (''records'', JList ordered)]
     in bindE (calculate_package_id E p) (\<lambda>pid.
        let p1 = dput ''package_id'' (JStr pid) p in
        bindE (validate_package E p1) (\<lambda>_. Inr p1))))))"

section \<open>What validation establishes\<close>

definition records_of :: "json \<Rightarrow> json list" where
  "records_of p = (case dget p ''records'' of JList rs \<Rightarrow> rs | _ \<Rightarrow> [])"

definition rid_of :: "json \<Rightarrow> ustr" where
  "rid_of r = text_of (dget r ''record_id'')"

lemma package_loop_eq_Inr:
  "package_loop E rs seen = Inr ids \<longleftrightarrow>
     (\<forall>r \<in> set rs. validate_record E r = Inr ()) \<and> distinct (map rid_of rs)
     \<and> set (map rid_of rs) \<inter> set seen = {} \<and> ids = rev seen @ map rid_of rs"
  by (induction rs arbitrary: seen ids) (auto simp: bindE_eq_Inr rid_of_def Let_def)

lemma py_eq_list_strs: "py_eq_list (map JStr ss) ys \<longleftrightarrow> ys = map JStr ss"
  by (induction ss arbitrary: ys) (auto split: list.splits)

lemma py_eq_strs_left: "py_eq (JList (map JStr ss)) v \<longleftrightarrow> v = JList (map JStr ss)"
  by (auto simp: py_eq_list_strs split: json.splits)

lemma validate_package_eq_Inr:
  "validate_package E p = Inr u \<longleftrightarrow>
     has_fields p PACKAGE_FIELDS \<and> dget p ''schema'' = JStr (str ''hap.package'')
     \<and> py_eq (dget p ''version'') (JInt 1) \<and> is_dict (dget p ''batch'')
     \<and> validate_batch E (dget p ''batch'') = Inr ()
     \<and> dget p ''records'' = JList (records_of p) \<and> records_of p \<noteq> []
     \<and> py_eq (JInt (int (length (records_of p)))) (dget (dget p ''batch'') ''record_count'')
     \<and> (\<forall>r \<in> set (records_of p). validate_record E r = Inr ())
     \<and> distinct (map rid_of (records_of p))
     \<and> dget (dget p ''batch'') ''record_ids'' = JList (map JStr (map rid_of (records_of p)))
     \<and> (\<exists>i. calculate_package_id E p = Inr i \<and> dget p ''package_id'' = JStr i)"
  unfolding validate_package_def records_of_def
  by (cases "dget p ''records''")
    (auto simp: bindE_eq_Inr package_loop_eq_Inr py_eq_strs_left PACKAGE_VERSION_def simp del: py_eq.simps)

lemma validate_package_facts:
  assumes "validate_package E p = Inr u"
  shows "validate_batch E (dget p ''batch'') = Inr ()"
    "map rid_of (records_of p) = record_ids_of (dget p ''batch'')"
    "\<forall>r \<in> set (records_of p). validate_record E r = Inr ()"
  using assms
  by (auto simp: validate_package_eq_Inr record_ids_of_def)

section \<open>One record per identifier, one package per batch identifier\<close>

lemma validated_record_id:
  "validate_record E r = Inr u \<Longrightarrow> \<exists>bs. canonical_json_bytes (envelope_for_id r) = Inr bs
     \<and> dget r ''record_id'' = JStr (sha256_hex E bs)"
  by (auto simp: validate_record_eq_Inr dest: validate_signature_facts(1))

lemma same_record_id:
  assumes "validate_record E r = Inr u" "validate_record E r' = Inr u'"
    and "rid_of r = rid_of r'"
  shows "same_json (envelope_for_id r) (envelope_for_id r')
    \<or> digest_collision (sha256 E) (envelope_for_id r) (envelope_for_id r')"
proof -
  obtain x y where "canonical_json_bytes (envelope_for_id r) = Inr x"
    "canonical_json_bytes (envelope_for_id r') = Inr y" "sha256 E x = sha256 E y"
    using validated_record_id [OF assms(1)] validated_record_id [OF assms(2)] assms(3)
    by (auto simp: rid_of_def sha256_hex_def)
  then show ?thesis by (rule same_digest)
qed

text \<open>A dictionary is its envelope plus the identifier.\<close>

lemma sort_key_fst_insort:
  "distinct (map fst d) \<Longrightarrow> (k, v) \<in> set d \<Longrightarrow>
   sort_key fst d = insort_key fst (k, v) (sort_key fst (filter (\<lambda>(k', _). k' \<noteq> (k :: pkey)) d))"
proof -
  assume d: "distinct (map fst d)" "(k, v) \<in> set d"
  have "sort_key fst d = sort_key fst ((k, v) # filter (\<lambda>(k', _). k' \<noteq> k) d)"
  proof (rule sort_key_fst_unique)
    show "distinct (map fst ((k, v) # filter (\<lambda>(k', _). k' \<noteq> k) d))"
      using d by (auto intro: distinct_map_filter_fst)
    show "set d = set ((k, v) # filter (\<lambda>(k', _). k' \<noteq> k) d)"
      using d by (auto simp: distinct_map inj_on_def) (metis fst_conv snd_conv)
  qed (rule d)
  then show ?thesis by simp
qed

lemma map_val_filter:
  "map (\<lambda>(k, v). (k, f v)) (filter (\<lambda>(k', _). P k') d) = filter (\<lambda>(k', _). P k') (map (\<lambda>(k, v). (k, f v)) d)"
  by (induction d) auto

lemma same_json_put_back:
  assumes "wf_json r" "wf_json r'" "is_dict r" "is_dict r'" "dget r k = dget r' k"
    "dget r k \<noteq> JNull" "same_json (dpop k r) (dpop k r')"
  shows "same_json r r'"
proof -
  obtain d d' where d: "r = JDict d" "r' = JDict d'"
    using assms(3,4) by (auto simp: is_dict_def split: json.splits)
  define nd where "nd = map (\<lambda>(k :: pkey, v). (k, norm v))"
  let ?k = "KStr (str k)"
  let ?f = "filter (\<lambda>(k', _). k' \<noteq> ?k)"
  obtain v where v: "map_of d ?k = Some v" "map_of d' ?k = Some v"
    using assms(5,6) d by (auto simp: assoc_get_def split: option.splits)
  have dist: "distinct (map fst (nd d))" "distinct (map fst (nd d'))"
    using assms(1,2) d by (simp_all only: nd_def map_fst_map_val wf_json.simps)
  have mem: "(?k, norm v) \<in> set (nd d)" "(?k, norm v) \<in> set (nd d')"
    using v by (force simp: nd_def dest: map_of_SomeD)+
  have "sort_key fst (?f (nd d)) = sort_key fst (?f (nd d'))"
    using assms(7) by (simp add: same_json_def d nd_def map_val_filter)
  with sort_key_fst_insort [OF dist(1) mem(1)] sort_key_fst_insort [OF dist(2) mem(2)]
  show ?thesis by (simp add: same_json_def d flip: nd_def)
qed

lemma same_record:
  assumes "validate_record E r = Inr u" "validate_record E r' = Inr u'" "wf_json r" "wf_json r'"
    and "rid_of r = rid_of r'"
  shows "same_json r r' \<or> digest_collision (sha256 E) (envelope_for_id r) (envelope_for_id r')"
proof -
  have "is_dict r" "is_dict r'"
    using assms(1,2) by (auto simp: validate_record_eq_Inr dest: validate_head_facts(1) has_fields_is_dict)
  moreover have "dget r ''record_id'' = dget r' ''record_id''" "dget r ''record_id'' \<noteq> JNull"
    using assms(5) validated_record_id [OF assms(1)] validated_record_id [OF assms(2)]
    by (auto simp: rid_of_def)
  ultimately show ?thesis
    using same_record_id [OF assms(1,2,5)] same_json_put_back [OF assms(3,4)]
    unfolding envelope_for_id_def by blast
qed

lemma same_package:
  assumes p: "validate_package E p = Inr u" "wf_json p" and p': "validate_package E p' = Inr u'" "wf_json p'"
    and bid: "dget (dget p ''batch'') ''batch_id'' = dget (dget p' ''batch'') ''batch_id''"
  shows "(same_json (manifest_body (dget p ''batch'')) (manifest_body (dget p' ''batch''))
      \<and> list_all2 same_json (records_of p) (records_of p'))
    \<or> digest_collision (sha256 E) (manifest_body (dget p ''batch'')) (manifest_body (dget p' ''batch''))
    \<or> (\<exists>r \<in> set (records_of p). \<exists>r' \<in> set (records_of p').
          digest_collision (sha256 E) (envelope_for_id r) (envelope_for_id r'))"
proof -
  let ?b = "dget p ''batch''" and ?b' = "dget p' ''batch''"
  have b: "validate_batch E ?b = Inr ()" "validate_batch E ?b' = Inr ()"
    using validate_package_facts(1) [OF p(1)] validate_package_facts(1) [OF p'(1)] by auto
  then obtain i where "calculate_batch_id E ?b = Inr i" "calculate_batch_id E ?b' = Inr i"
    using bid by (auto dest!: validate_batch_payload)
  from same_batch_id [OF this] consider "digest_collision (sha256 E) (manifest_body ?b) (manifest_body ?b')"
    | "same_json (manifest_body ?b) (manifest_body ?b')" by blast
  then show ?thesis
  proof cases
    case 2
    have wf: "wf_json ?b" "wf_json ?b'" "\<forall>r \<in> set (records_of p) \<union> set (records_of p'). wf_json r"
      using p(2) p'(2)
      by (auto simp: records_of_def wf_dget split: json.splits intro: wf_dget_list [OF _ sym])
    from same_manifest_ids [OF wf(1,2) b 2]
    have ids: "map rid_of (records_of p) = map rid_of (records_of p')"
      using validate_package_facts(2) [OF p(1)] validate_package_facts(2) [OF p'(1)] by simp
    show ?thesis
    proof (cases "\<exists>r \<in> set (records_of p). \<exists>r' \<in> set (records_of p').
          digest_collision (sha256 E) (envelope_for_id r) (envelope_for_id r')")
      case False
      have "same_json (records_of p ! j) (records_of p' ! j)" if "j < length (records_of p)" for j
      proof -
        have len: "j < length (records_of p')" using that ids by (metis length_map)
        then have mem: "records_of p ! j \<in> set (records_of p)" "records_of p' ! j \<in> set (records_of p')"
          using that by simp_all
        then show ?thesis
          using same_record [of E "records_of p ! j" _ "records_of p' ! j"] False wf(3)
            validate_package_facts(3) [OF p(1)] validate_package_facts(3) [OF p'(1)]
            nth_map [OF that, of rid_of] nth_map [OF len, of rid_of] ids by auto
      qed
      moreover have "length (records_of p) = length (records_of p')" using ids by (metis length_map)
      ultimately show ?thesis using 2 by (simp add: list_all2_conv_all_nth)
    qed blast
  qed blast
qed

section \<open>Creation\<close>

lemma mapE_record_key:
  "\<forall>r \<in> set rs. validate_record E r = Inr () \<and> is_dict r \<Longrightarrow>
   mapE record_key rs = Inr (map (\<lambda>r. JStr (rid_of r)) rs)"
proof (induction rs)
  case (Cons r rs)
  then obtain s where "dget r ''record_id'' = JStr s" "is_dict r"
    using validated_record_id [of E r] by auto
  then have "record_key r = Inr (JStr (rid_of r))"
    by (cases r) (auto simp: record_key_def dict_item_def rid_of_def assoc_get_def is_dict_def split: option.splits)
  with Cons show ?case by simp
qed simp

lemma find_keyed:
  "distinct (map f xs) \<Longrightarrow> r \<in> set xs \<Longrightarrow>
   find (\<lambda>(k, _). k = JStr (f r)) (map (\<lambda>x. (JStr (f x), x)) xs) = Some (JStr (f r), r)"
  by (induction xs) auto

lemma lookup_key_zip:
  assumes "r \<in> set rs" "distinct (map rid_of rs)"
  shows "lookup_key (zip (map (\<lambda>r. JStr (rid_of r)) rs) rs) (JStr (rid_of r)) = Inr r"
proof -
  have "zip (map (\<lambda>r. JStr (rid_of r)) rs) rs = map (\<lambda>x. (JStr (rid_of x), x)) rs"
    by (induction rs) auto
  then have "rev (zip (map (\<lambda>r. JStr (rid_of r)) rs) rs) = map (\<lambda>x. (JStr (rid_of x), x)) (rev rs)"
    by (simp add: rev_map)
  then show ?thesis
    using find_keyed [of rid_of "rev rs" r] assms by (simp add: lookup_key_def rev_map [symmetric])
qed

text \<open>The records of a batch, looked up among records that have all of them.\<close>

lemma mapE_lookup:
  assumes "set ids \<subseteq> rid_of ` set rs" "distinct (map rid_of rs)"
  shows "\<exists>ordered. mapE (lookup_key (zip (map (\<lambda>r. JStr (rid_of r)) rs) rs)) (map JStr ids) = Inr ordered
    \<and> map rid_of ordered = ids \<and> set ordered \<subseteq> set rs"
  using assms(1)
proof (induction ids)
  case (Cons i ids)
  then obtain r where "r \<in> set rs" "i = rid_of r" by auto
  with Cons lookup_key_zip [OF \<open>r \<in> set rs\<close> assms(2)] show ?case by auto
qed simp

lemma create_package_total:
  assumes E: "digests_32 E" and b: "validate_batch E b = Inr u" "wf_json b"
    and rs: "\<forall>r \<in> set rs. validate_record E r = Inr () \<and> wf_json r" "distinct (map rid_of rs)"
    and ids: "set (record_ids_of b) \<subseteq> rid_of ` set rs"
  shows "\<exists>p. create_package E b rs = Inr p \<and> validate_package E p = Inr () \<and> wf_json p
    \<and> dget p ''batch'' = b \<and> map rid_of (records_of p) = record_ids_of b \<and> set (records_of p) \<subseteq> set rs"
proof -
  have dict: "is_dict b" "\<forall>r \<in> set rs. is_dict r"
    using b rs has_fields_is_dict by (auto simp: validate_batch_eq_Inr validate_record_eq_Inr dest: validate_head_facts(1))
  obtain ordered where ord: "mapE (lookup_key (zip (map (\<lambda>r. JStr (rid_of r)) rs) rs))
      (map JStr (record_ids_of b)) = Inr ordered" "map rid_of ordered = record_ids_of b" "set ordered \<subseteq> set rs"
    using mapE_lookup [OF ids rs(2)] by blast
  define fs where "fs = [(''schema'', JStr (str ''hap.package'')), (''version'', JInt PACKAGE_VERSION),
    (''batch'', b), (''records'', JList ordered)]"
  have parts: "\<forall>r \<in> set ordered. in_range r \<and> encodable_json r \<and> json_depth r \<le> 3 \<and> wf_json r
      \<and> validate_record E r = Inr ()"
    using ord(3) rs(1) validate_record_encodable validate_record_depth by blast
  moreover have "in_range b" "encodable_json b" "json_depth b \<le> 2"
    using validate_batch_encodable [OF b] validate_batch_depth [OF b] by auto
  ultimately have "in_range (obj fs) \<and> json_depth (obj fs) \<le> 32 \<and> encodable_json (obj fs)"
    by (auto simp: fs_def obj_def PACKAGE_VERSION_def MAX_SAFE_JSON_INTEGER_def)
  then obtain body where body: "canonical_json_bytes (obj fs) = Inr body"
    using canonical_json_bytes_iff by blast
  define pid where "pid = sha256_hex E body"
  define p where "p = obj (fs @ [(''package_id'', JStr pid)])"
  have puts: "dput ''package_id'' (JStr pid) (obj fs) = p" "package_body p = obj fs"
    "package_body (obj fs) = obj fs"
    by (simp_all add: p_def fs_def package_body_def dput_obj dpop_obj)
  have ids_b: "dget b ''record_ids'' = JList (map JStr (record_ids_of b))" "record_ids_of b \<noteq> []"
    "distinct (record_ids_of b)" "py_eq (dget b ''record_count'') (JInt (int (length (record_ids_of b))))"
    using validate_batch_ids [OF b(1)] by auto
  have count: "py_eq (JInt (int (length ordered))) (dget b ''record_count'')"
  proof -
    have "length ordered = length (record_ids_of b)" using ord(2) by (metis length_map)
    then show ?thesis using ids_b(4) by (cases "dget b ''record_count''") auto
  qed
  have recs: "records_of p = ordered" "dget p ''batch'' = b" "ordered \<noteq> []"
    using ids_b(2) ord(2) by (auto simp: records_of_def p_def fs_def)
  have "validate_package E p = Inr ()"
    unfolding validate_package_eq_Inr recs
    using dict b parts ids_b ord(2) count recs(3) puts body
    by (auto simp: p_def fs_def has_fields_obj PACKAGE_FIELDS_def PACKAGE_VERSION_def
        calculate_package_id_def pid_def simp del: map_map)
  moreover have "dict_item b ''record_ids'' = Inr (JList (map JStr (record_ids_of b)))"
    using dict(1) ids_b(1)
    by (auto simp: is_dict_def dict_item_def assoc_get_def split: json.splits option.splits)
  moreover have "mapE record_key rs = Inr (map (\<lambda>r. JStr (rid_of r)) rs)"
    using mapE_record_key rs(1) dict(2) by blast
  ultimately have "create_package E b rs = Inr p" "validate_package E p = Inr ()"
    using ord(1) body puts
    by (simp_all add: create_package_def calculate_package_id_def iterE_def py_iter_def Let_def
        flip: fs_def pid_def)
  then show ?thesis
    using recs ord parts b(2) by (auto simp: p_def fs_def wf_obj)
qed

end
