(* ===== verification/Example.thy ===== *)
theory Example
  imports Packages
begin

text \<open>
  A concrete environment and concrete objects on which the properties are exercised. The
  digest of \<open>toy_env\<close> is made of the length and the sum of the bytes, a signature repeats the
  key; neither is secure, which no property assumes.
\<close>

definition toy_sha256 :: "bytes \<Rightarrow> bytes" where
  "toy_sha256 x = replicate 30 0 @ [word_of_nat (length x), foldr (+) x 0]"

definition toy_env :: env where
  "toy_env = \<lparr>sha256 = toy_sha256, blake2b20 = take 20,
     ed_public = (\<lambda>sk. if length sk = 32 then Some sk else None),
     ed_sign = (\<lambda>sk m. sk @ sk), ed_verify = (\<lambda>pk s m. s = pk @ pk), iso_aware = (\<lambda>s. Some True)\<rparr>"

lemma toy_sha256_32: "\<forall>x. length (toy_sha256 x) = 32"
  by (simp add: toy_sha256_def)

lemma toy_digests_32: "digests_32 toy_env"
  by (simp add: digests_32_def toy_env_def toy_sha256_def)

text \<open>The signatures have 64 bytes for every key that has a public key.\<close>

lemma toy_signatures_verify: "signatures_verify toy_env"
  by (simp add: signatures_verify_def toy_env_def)

definition toy_key :: bytes where "toy_key = replicate 32 7"

lemma toy_public: "ed_public toy_env toy_key = Some toy_key"
  by (simp add: toy_env_def toy_key_def)

lemma toy_strip: "py_strip (str ''T'') = str ''T''" "py_strip (str ''T'') \<noteq> []"
  by (simp_all add: str_def py_strip_def uni_isspace_def)

lemma toy_args: "record_args_ok toy_env ''claim'' (str ''T'') None (str ''T'') (str ''T'') None [] [] []"
  by (simp add: record_args_ok_def ALLOWED_KINDS_def TARGET_KINDS_def toy_strip list_arg_ok_def
      toy_env_def)

definition toy_record :: json where
  "toy_record = (case create_signed_record toy_env [] (b64encode toy_key)
     (str ''claim'') (str ''T'') (str ''T'') None None [] [] [] (Some (str ''T'')) of
       Inr r \<Rightarrow> r | _ \<Rightarrow> JNull)"

lemma toy_record_valid: "validate_record toy_env toy_record = Inr ()" "wf_json toy_record"
  "dget toy_record ''kind'' = JStr (str ''claim'')" "dget toy_record ''target_record_id'' = JNull"
  "dget toy_record ''title'' = JStr (str ''T'')" "dget toy_record ''statement'' = JStr (str ''T'')"
  "dget toy_record ''event_time'' = JNull" "dget toy_record ''sources'' = JList []"
  "dget toy_record ''evidence'' = JList []" "dget toy_record ''tags'' = JList []"
  using create_signed_record_total [OF toy_digests_32 toy_signatures_verify toy_public toy_args, of "[]"]
  by (auto simp: toy_record_def opt_str_def toy_strip)

definition toy_batch :: json where
  "toy_batch = (case create_batch_manifest toy_env [rid_of toy_record] (str ''regtest'') 0 of
     Inr b \<Rightarrow> b | _ \<Rightarrow> JNull)"

lemma toy_rid: "is_hex_digest (JStr (rid_of toy_record))"
  using toy_record_valid(1) validate_signature_facts(3) [of toy_env toy_record "()"]
    validated_record_id [of toy_env toy_record]
  by (auto simp: rid_of_def validate_record_eq_Inr)

lemma toy_batch_valid: "validate_batch toy_env toy_batch = Inr ()"
  "record_ids_of toy_batch = [rid_of toy_record]" "dget toy_batch ''network'' = JStr (str ''regtest'')"
  "create_batch_manifest toy_env [rid_of toy_record] (str ''regtest'') 0 = Inr toy_batch"
  using create_batch_manifest_total [OF toy_digests_32, of "[rid_of toy_record]" "''regtest''" 0]
  by (auto simp: toy_batch_def toy_rid ALLOWED_NETWORKS_def MAX_SAFE_JSON_INTEGER_def)

lemma toy_batch_wf: "wf_json toy_batch"
  using create_batch_manifest_wf [OF toy_batch_valid(4)] .

definition toy_package :: json where
  "toy_package = (case create_package toy_env toy_batch [toy_record] of Inr p \<Rightarrow> p | _ \<Rightarrow> JNull)"

lemma toy_package_valid: "validate_package toy_env toy_package = Inr ()" "wf_json toy_package"
  "dget toy_package ''batch'' = toy_batch"
  using create_package_total [OF toy_digests_32 toy_batch_valid(1) toy_batch_wf, of "[toy_record]"]
    toy_record_valid toy_batch_valid(2)
  by (auto simp: toy_package_def)

text \<open>Two leaves and their tree.\<close>

definition toy_ids :: "ustr list" where
  "toy_ids = [bytes_hex (replicate 32 1), bytes_hex (replicate 32 2)]"

lemma toy_leaves: "mapE leaf toy_ids = Inr [replicate 32 1, replicate 32 2]"
  by (simp add: toy_ids_def leaf_def del: bytes_hex.simps)

text \<open>A node that accepts an anchor transaction with one output.\<close>

definition toy_payload :: ustr where
  "toy_payload = bytes_hex (MAGIC @ [3, 1] @ replicate 32 0)"

definition toy_output :: json where
  "toy_output = obj [(''n'', JInt 0), (''scriptPubKey'',
     obj [(''hex'', JStr (bytes_hex (0x6A # 38 # MAGIC @ [3, 1] @ replicate 32 0)))])]"

definition toy_tx :: json where
  "toy_tx = obj [(''hex'', JStr []), (''fee'', JFloat (Dyadic 1 (- 14))), (''complete'', JBool True),
     (''vout'', JList [toy_output])]"

definition toy_rpc :: rpc where
  "toy_rpc = \<lparr>rpc_answer = (\<lambda>_ m _. Some (obj [(''result'',
       if m = ''testmempoolaccept'' then JList [obj [(''allowed'', JBool True)]]
       else if m = ''gettransaction'' then obj [(''decoded'', toy_tx)] else toy_tx)])),
     max_anchor_fee_btc = Dyadic 1 (- 10), float_of_str = (\<lambda>_. None), py_repr = (\<lambda>_. [])\<rparr>"

lemma toy_carries: "output_payload toy_output = Inr (Some toy_payload)" "carries toy_payload toy_output"
proof -
  have "extract_payload_from_script (JStr (bytes_hex (0x6A # 38 # MAGIC @ [3, 1] @ replicate 32 0)))
      = Some toy_payload"
    unfolding extract_payload_from_script_def json.case fromhex_bytes_hex
    by (simp add: toy_payload_def)
  then show "output_payload toy_output = Inr (Some toy_payload)" "carries toy_payload toy_output"
    by (simp_all add: carries_def output_payload_def toy_output_def dict_get_def obj_def)
qed

lemma toy_get:
  "rpc_call toy_rpc m ps n = (Inr (if m = ''testmempoolaccept'' then JList [obj [(''allowed'', JBool True)]]
     else if m = ''gettransaction'' then obj [(''decoded'', toy_tx)] else toy_tx), n + 1)"
  "dict_get toy_tx ''fee'' d = Inr (JFloat (Dyadic 1 (- 14)))" "dict_item toy_tx ''hex'' = Inr (JStr [])"
  "dict_get toy_tx ''complete'' d = Inr (JBool True)" "dict_get toy_tx ''vout'' d = Inr (JList [toy_output])"
  "dict_get toy_output ''n'' d = Inr (JInt 0)"
  by (simp_all add: rpc_call_def toy_rpc_def dict_get_def dict_item_def obj_def toy_tx_def toy_output_def)

lemma toy_broadcast:
  "broadcast_op_return toy_rpc toy_payload 0 = (Inr \<lparr>b_txid = toy_tx, b_vout = 0,
     b_fee_btc = Dyadic 1 (- 14), b_raw_transaction = JStr []\<rparr>, 6)"
proof -
  have "mempool_allows (JList [obj [(''allowed'', JBool True)]]) = Inr True"
    by (simp add: mempool_allows_def first_item_def dict_get_def obj_def)
  moreover have "max_anchor_fee_btc toy_rpc = Dyadic 1 (- 10)" by (simp add: toy_rpc_def)
  ultimately show ?thesis
    by (simp add: broadcast_op_return_def bindA_def liftA_def toy_get py_float_def float_less_def
        iterE_def py_iter_def toy_carries py_int_def)
qed

lemma toy_find:
  "\<exists>tx. find_payload toy_rpc JNull JNull (Some toy_payload) None 0 = (Inr (Some (toy_payload, tx, 0)), 1)
     \<and> py_iter (dget tx ''vout'') = Some [toy_output]"
proof -
  obtain q where "decode_anchor_payload toy_payload = Inr q"
    unfolding decode_eq_Inr toy_payload_def fromhex_bytes_hex
    by (metis length_replicate append_Cons append_Nil)
  moreover have "toy_payload \<noteq> []" by (simp add: toy_payload_def MAGIC_def)
  ultimately have "find_loop (Some toy_payload) None [toy_output] 0 None = Inr (Some (toy_payload, 0))"
    by (simp add: toy_get toy_carries py_int_def)
  moreover obtain tx where tx: "decoded_wallet_tx (obj [(''decoded'', toy_tx)]) = Inr tx"
      "dict_get tx ''vout'' (JList []) = Inr (JList [toy_output])" "dget tx ''vout'' = JList [toy_output]"
    by (simp add: decoded_wallet_tx_def dict_get_def obj_def toy_tx_def Let_def is_dict_def assoc_get_def)
  ultimately have "find_payload toy_rpc JNull JNull (Some toy_payload) None 0
      = (Inr (Some (toy_payload, tx, 0)), 1)"
    by (simp add: find_payload_def rpc_transaction_def bindA_def liftA_def toy_get iterE_def py_iter_def
        del: find_loop.simps)
  with tx(3) show ?thesis by (simp add: py_iter_def)
qed

end
