(* ===== verification/Effects.thy ===== *)
theory Effects
  imports Prelude
begin

text \<open>
  Operations that read and change a state and may raise. An exception does not undo what was
  done before it, so an operation gives back a state in either case. \<open>preserves\<close> says that an
  operation keeps an invariant, whether it returns or raises; its rules follow the shape of the
  operation and are collected in \<open>preserve\<close>.
\<close>

section \<open>Operations\<close>

type_synonym ('s, 'a) op = "'s \<Rightarrow> 'a result \<times> 's"

definition bindM :: "('s, 'a) op \<Rightarrow> ('a \<Rightarrow> ('s, 'b) op) \<Rightarrow> ('s, 'b) op" where
  "bindM m k s = (case m s of (Inl e, s') \<Rightarrow> (Inl e, s') | (Inr x, s') \<Rightarrow> k x s')"

definition liftM :: "'a result \<Rightarrow> ('s, 'a) op" where
  "liftM r s = (r, s)"

abbreviation returnM :: "'a \<Rightarrow> ('s, 'a) op" where
  "returnM x \<equiv> liftM (Inr x)"

abbreviation raiseM :: "exn \<Rightarrow> ('s, 'a) op" where
  "raiseM e \<equiv> liftM (Inl e)"

definition readM :: "('s \<Rightarrow> 'a) \<Rightarrow> ('s, 'a) op" where
  "readM f s = (Inr (f s), s)"

text \<open>One transaction: an exception leaves the state as it was.\<close>

definition updateM :: "('s \<Rightarrow> ('a \<times> 's) result) \<Rightarrow> ('s, 'a) op" where
  "updateM f s = (case f s of Inl e \<Rightarrow> (Inl e, s) | Inr (x, s') \<Rightarrow> (Inr x, s'))"

text \<open>\<open>try: m except Exception\<close>: the outcome as a value.\<close>

definition tryM :: "('s, 'a) op \<Rightarrow> ('s, 'a result) op" where
  "tryM m s = (case m s of (r, s') \<Rightarrow> (Inr r, s'))"

primrec mapM :: "('a \<Rightarrow> ('s, 'b) op) \<Rightarrow> 'a list \<Rightarrow> ('s, 'b list) op" where
  "mapM f [] = returnM []"
| "mapM f (x # xs) = bindM (f x) (\<lambda>y. bindM (mapM f xs) (\<lambda>ys. returnM (y # ys)))"

lemma bindM_eq_Inr [result_simps]:
  "bindM m k s = (Inr y, s') \<longleftrightarrow> (\<exists>x s1. m s = (Inr x, s1) \<and> k x s1 = (Inr y, s'))"
  by (auto simp: bindM_def split: prod.splits sum.splits)

lemma liftM_eq [result_simps]: "liftM r s = (r', s') \<longleftrightarrow> r = r' \<and> s = s'"
  by (simp add: liftM_def)

lemma readM_eq [result_simps]: "readM f s = (r, s') \<longleftrightarrow> r = Inr (f s) \<and> s = s'"
  by (auto simp: readM_def)

lemma updateM_eq_Inr [result_simps]: "updateM f s = (Inr x, s') \<longleftrightarrow> f s = Inr (x, s')"
  by (auto simp: updateM_def split: sum.splits prod.splits)

lemma bindM_simps [simp]:
  "bindM (liftM (Inr x)) k s = k x s" "bindM (liftM (Inl e)) k s = (Inl e, s)"
  "bindM (readM f) k s = k (f s) s" "bindM (updateM (\<lambda>s. Inr (x, g s))) k s = k x (g s)"
  by (simp_all add: bindM_def liftM_def readM_def updateM_def)

lemma bindM_step: "m s = (Inr x, s1) \<Longrightarrow> bindM m k s = k x s1"
  by (simp add: bindM_def)

lemma if_raiseM [result_simps]:
  "(if c then raiseM e else m) s = (Inr y, s') \<longleftrightarrow> \<not> c \<and> m s = (Inr y, s')"
  "(if c then m else raiseM e) s = (Inr y, s') \<longleftrightarrow> c \<and> m s = (Inr y, s')"
  by (simp_all add: liftM_def)

lemma tryM_run: "m s = (r, s') \<Longrightarrow> tryM m s = (Inr r, s')"
  by (simp add: tryM_def)

section \<open>Preservation of an invariant\<close>

named_theorems preserve "operations that keep an invariant whether they return or raise"

definition preserves :: "('s \<Rightarrow> bool) \<Rightarrow> ('s, 'a) op \<Rightarrow> bool" where
  "preserves I m \<longleftrightarrow> (\<forall>s. I s \<longrightarrow> I (snd (m s)))"

lemma preservesD: "preserves I m \<Longrightarrow> m s = (r, s') \<Longrightarrow> I s \<Longrightarrow> I s'"
  by (force simp: preserves_def)

lemma preservesI: "(\<And>s. I s \<Longrightarrow> I (snd (m s))) \<Longrightarrow> preserves I m"
  by (simp add: preserves_def)

lemma preserves_lift [preserve]: "preserves I (liftM r)"
  by (simp add: preserves_def liftM_def)

lemma preserves_read [preserve]: "preserves I (readM f)"
  by (simp add: preserves_def readM_def)

lemma preserves_bind [preserve]:
  "preserves I m \<Longrightarrow> (\<And>x. preserves I (k x)) \<Longrightarrow> preserves I (bindM m k)"
  unfolding preserves_def bindM_def
  by (force split: prod.splits sum.splits)

text \<open>What a check that returned, or a value that was read, says to the rest.\<close>

lemma preserves_check_bind:
  "(\<And>x. r = Inr x \<Longrightarrow> preserves I (k x)) \<Longrightarrow> preserves I (bindM (liftM r) k)"
  by (cases r) (simp_all add: preserves_def)

lemma preserves_read_bind:
  "(\<And>x s0. I s0 \<Longrightarrow> x = f s0 \<Longrightarrow> preserves I (k x)) \<Longrightarrow> preserves I (bindM (readM f) k)"
  by (simp add: preserves_def)

lemma preserves_if [preserve]:
  "(c \<Longrightarrow> preserves I m) \<Longrightarrow> (\<not> c \<Longrightarrow> preserves I m') \<Longrightarrow> preserves I (if c then m else m')"
  by simp

lemma preserves_option [preserve]:
  "(x = None \<Longrightarrow> preserves I m) \<Longrightarrow> (\<And>y. x = Some y \<Longrightarrow> preserves I (k y)) \<Longrightarrow>
   preserves I (case x of None \<Rightarrow> m | Some y \<Rightarrow> k y)"
  by (cases x) simp_all

lemma preserves_prod [preserve]:
  "(\<And>x y. p = (x, y) \<Longrightarrow> preserves I (k x y)) \<Longrightarrow> preserves I (case p of (x, y) \<Rightarrow> k x y)"
  by (cases p) simp

lemma preserves_update:
  "(\<And>s x s'. I s \<Longrightarrow> f s = Inr (x, s') \<Longrightarrow> I s') \<Longrightarrow> preserves I (updateM f)"
  by (auto simp: preserves_def updateM_def split: sum.splits prod.splits)

lemma preserves_try [preserve]: "preserves I m \<Longrightarrow> preserves I (tryM m)"
  by (force simp: preserves_def tryM_def split: prod.splits)

lemma preserves_mapM [preserve]:
  "(\<And>x. x \<in> set xs \<Longrightarrow> preserves I (f x)) \<Longrightarrow> preserves I (mapM f xs)"
  by (induction xs) (auto intro!: preserve)

end
