(* ===== verification/Evidence.thy ===== *)
theory Evidence
  imports Effects Records
begin

text \<open>
  \<^verbatim>\<open>src/hap/evidence_store.py\<close>: evidence files stored under their SHA-256 digest.

  The state is the content of the directory: the files under \<open>evidence/dd/\<close>, by the digest that
  is their name. A file is replaced as a whole (\<open>os.replace\<close>), the temporary file is gone when an
  operation ends. The paths that the operations report are determined by the digest and left out.
\<close>

section \<open>State\<close>

record evidence_store =
  es_files :: "(ustr \<times> bytes) list"

abbreviation evidence_error :: "string \<Rightarrow> exn" where
  "evidence_error \<equiv> Exn EvidenceStoreError"

text \<open>\<open>_validate_digest\<close>\<close>

definition evidence_digest :: "json \<Rightarrow> ustr result" where
  "evidence_digest v = (case v of
     JStr s \<Rightarrow>
       if length s \<noteq> 64 then Inl (evidence_error ''evidence digest must be a 32-byte hexadecimal SHA-256 value'')
       else bindE (reraise is_ValueError (evidence_error ''evidence digest must be hexadecimal'') (bytes_fromhex s))
         (\<lambda>raw. if length raw \<noteq> 32
           then Inl (evidence_error ''evidence digest must be a 32-byte hexadecimal SHA-256 value'')
           else Inr (map ascii_lower s))
   | _ \<Rightarrow> Inl (evidence_error ''evidence digest must be a 32-byte hexadecimal SHA-256 value''))"

definition file_at :: "evidence_store \<Rightarrow> ustr \<Rightarrow> bytes option" where
  "file_at st k = map_of (es_files st) k"

fun put_file :: "ustr \<Rightarrow> bytes \<Rightarrow> (ustr \<times> bytes) list \<Rightarrow> (ustr \<times> bytes) list" where
  "put_file k c [] = [(k, c)]"
| "put_file k c ((k', c') # fs) = (if k = k' then (k, c) # fs else (k', c') # put_file k c fs)"

section \<open>Operations\<close>

definition has_evidence_file :: "evidence_store \<Rightarrow> json \<Rightarrow> bool result" where
  "has_evidence_file st digest = bindE (evidence_digest digest) (\<lambda>k. Inr (file_at st k \<noteq> None))"

definition verify_evidence :: "env \<Rightarrow> evidence_store \<Rightarrow> json \<Rightarrow> bool result" where
  "verify_evidence E st digest = bindE (evidence_digest digest) (\<lambda>k. Inr (case file_at st k of
     None \<Rightarrow> False | Some content \<Rightarrow> sha256_hex E content = k))"

text \<open>The content of the source is \<open>None\<close> when it is not a regular file. A digest that is present is
  not written again.\<close>

definition add_file :: "env \<Rightarrow> bytes option \<Rightarrow> int option \<Rightarrow> (evidence_store, ustr \<times> int) op" where
  "add_file E source max_bytes = (case source of
     None \<Rightarrow> raiseM (evidence_error ''evidence source is not a regular file'')
   | Some content \<Rightarrow>
       if (case max_bytes of None \<Rightarrow> False | Some m \<Rightarrow> m < int (length content))
       then raiseM (evidence_error ''evidence exceeds the configured limit'')
       else let digest = sha256_hex E content in
       bindM (liftM (evidence_digest (JStr digest))) (\<lambda>k.
       bindM (updateM (\<lambda>st. Inr ((), if file_at st k \<noteq> None then st
                else st\<lparr>es_files := put_file k content (es_files st)\<rparr>))) (\<lambda>_.
       bindM (readM (\<lambda>st. verify_evidence E st (JStr digest))) (\<lambda>v. bindM (liftM v) (\<lambda>ok.
       if \<not> ok then raiseM (evidence_error ''stored evidence failed its SHA-256 verification'')
       else returnM (digest, int (length content)))))))"

text \<open>The loop that reads the stream: the chunks up to the first empty one.\<close>

fun read_stream :: "int \<Rightarrow> bytes list \<Rightarrow> bytes \<Rightarrow> bytes result" where
  "read_stream max_bytes [] content = Inr content"
| "read_stream max_bytes (chunk # chunks) content =
     (if chunk = [] then Inr content
      else if max_bytes < int (length content + length chunk)
      then Inl (evidence_error ''evidence download exceeds the configured size limit'')
      else read_stream max_bytes chunks (content @ chunk))"

definition store_stream :: "env \<Rightarrow> json \<Rightarrow> bytes list \<Rightarrow> int \<Rightarrow> json option \<Rightarrow> (evidence_store, ustr \<times> int) op" where
  "store_stream E digest stream max_bytes expected_size =
     bindM (liftM (evidence_digest digest)) (\<lambda>k.
     bindM (readM (\<lambda>st. case file_at st k of
         None \<Rightarrow> None
       | Some old \<Rightarrow> if sha256_hex E old = k then Some old else None)) (\<lambda>present.
     case present of
       Some old \<Rightarrow> returnM (k, int (length old))
     | None \<Rightarrow> bindM (liftM (read_stream max_bytes stream [])) (\<lambda>content.
         if (case expected_size of None \<Rightarrow> False | Some v \<Rightarrow> \<not> py_eq (JInt (int (length content))) v)
         then raiseM (evidence_error ''evidence size does not match its signed metadata'')
         else if sha256_hex E content \<noteq> k
         then raiseM (evidence_error ''evidence bytes do not match the committed SHA-256 digest'')
         else bindM (updateM (\<lambda>st. Inr ((), st\<lparr>es_files := put_file k content (es_files st)\<rparr>))) (\<lambda>_.
           returnM (k, int (length content))))))"

text \<open>\<open>open\<close>, and the bytes that are read from the handle\<close>

definition open_evidence :: "env \<Rightarrow> evidence_store \<Rightarrow> json \<Rightarrow> bytes result" where
  "open_evidence E st digest = bindE (evidence_digest digest) (\<lambda>k. case file_at st k of
     None \<Rightarrow> Inl (evidence_error ''verified evidence is not available locally'')
   | Some content \<Rightarrow> bindE (verify_evidence E st digest) (\<lambda>ok.
       if \<not> ok then Inl (evidence_error ''verified evidence is not available locally'') else Inr content))"

definition evidence_files :: "evidence_store \<Rightarrow> ustr list" where
  "evidence_files st = sort (filter
     (\<lambda>k. length k = 64 \<and> (case evidence_digest (JStr k) of Inl _ \<Rightarrow> False | Inr _ \<Rightarrow> True))
     (map fst (es_files st)))"

definition evidence_count :: "evidence_store \<Rightarrow> nat" where
  "evidence_count st = length (evidence_files st)"

section \<open>Digests\<close>

lemma evidence_digest_eq_Inr [result_simps]:
  "evidence_digest v = Inr k \<longleftrightarrow> is_hex_digest v \<and> k = map ascii_lower (text_of v)"
  by (auto simp: evidence_digest_def is_hex_digest_def result_simps split: json.splits)

lemma is_hex_digest_sha: "digests_32 E \<Longrightarrow> is_hex_digest (JStr (sha256_hex E x))"
  by (simp add: is_hex_digest_def sha256_hex_def digests_32_def)

lemma evidence_digest_sha [simp]:
  "digests_32 E \<Longrightarrow> evidence_digest (JStr (sha256_hex E x)) = Inr (sha256_hex E x)"
  using is_hex_digest_sha [of E x] by (simp add: evidence_digest_eq_Inr) (simp add: sha256_hex_def)

lemma map_of_put_file: "map_of (put_file k c fs) = (map_of fs)(k \<mapsto> c)"
  by (induction k c fs rule: put_file.induct) auto

lemma file_at_put [simp]: "file_at (st\<lparr>es_files := put_file k c (es_files st)\<rparr>) k' =
    (if k' = k then Some c else file_at st k')"
  by (simp add: file_at_def map_of_put_file)

lemma put_file_keys: "fst ` set (put_file k c fs) = insert k (fst ` set fs)"
  by (induction k c fs rule: put_file.induct) auto

lemma put_file_distinct: "distinct (map fst fs) \<Longrightarrow> distinct (map fst (put_file k c fs))"
  by (induction k c fs rule: put_file.induct) (auto simp: put_file_keys)

section \<open>The invariant\<close>

text \<open>Every file is named by the digest of its content.\<close>

definition evidence_ok :: "env \<Rightarrow> evidence_store \<Rightarrow> bool" where
  "evidence_ok E st \<longleftrightarrow> distinct (map fst (es_files st))
     \<and> (\<forall>k content. file_at st k = Some content \<longrightarrow> sha256_hex E content = k)"

lemma evidence_ok_empty: "evidence_ok E \<lparr>es_files = []\<rparr>"
  by (simp add: evidence_ok_def file_at_def)

lemma evidence_ok_put:
  "evidence_ok E st \<Longrightarrow> sha256_hex E c = k \<Longrightarrow> evidence_ok E (st\<lparr>es_files := put_file k c (es_files st)\<rparr>)"
  by (simp add: evidence_ok_def put_file_distinct)

lemma read_stream_bound:
  "read_stream m chunks acc = Inr content \<Longrightarrow> int (length content) \<le> m \<or> content = acc"
  by (induction m chunks acc rule: read_stream.induct) (auto split: if_splits)

lemma store_stream_cases:
  assumes "store_stream E d stream m expected st = (r, st')"
  obtains (raised) e where "r = Inl e" "st' = st"
  | (present) k old where "r = Inr (k, int (length old))" "st' = st" "is_hex_digest d"
      "k = map ascii_lower (text_of d)" "file_at st k = Some old" "sha256_hex E old = k"
  | (stored) k content where "r = Inr (k, int (length content))" "is_hex_digest d"
      "k = map ascii_lower (text_of d)" "read_stream m stream [] = Inr content"
      "\<forall>v. expected = Some v \<longrightarrow> py_eq (JInt (int (length content))) v"
      "sha256_hex E content = k" "st' = st\<lparr>es_files := put_file k content (es_files st)\<rparr>"
proof (cases "evidence_digest d")
  case (Inl e)
  with assms show ?thesis by (intro raised [of e]) (auto simp: store_stream_def)
next
  case (Inr k)
  then have k: "is_hex_digest d" "k = map ascii_lower (text_of d)" by (auto simp: evidence_digest_eq_Inr)
  show ?thesis
  proof (cases "\<exists>old. file_at st k = Some old \<and> sha256_hex E old = k")
    case True
    then obtain old where "file_at st k = Some old" "sha256_hex E old = k" by blast
    with assms Inr k show ?thesis by (intro present [of k old]) (auto simp: store_stream_def liftM_def)
  next
    case False
    then have miss: "(case file_at st k of None \<Rightarrow> None
       | Some old \<Rightarrow> if sha256_hex E old = k then Some old else None) = None"
      by (auto split: option.splits)
    show ?thesis
    proof (cases "read_stream m stream []")
      case (Inl e)
      with assms Inr miss show ?thesis by (intro raised [of e]) (auto simp: store_stream_def)
    next
      case (Inr content)
      note run = assms [unfolded store_stream_def, simplified bindM_simps \<open>evidence_digest d = Inr k\<close> miss Inr option.case]
      show ?thesis
      proof (cases "\<exists>v. expected = Some v \<and> \<not> py_eq (JInt (int (length content))) v")
        case True
        then show ?thesis using run by (intro raised) (auto simp: liftM_def simp del: py_eq.simps)
      next
        case False
        then have sz: "\<not> (case expected of None \<Rightarrow> False | Some v \<Rightarrow> \<not> py_eq (JInt (int (length content))) v)"
          by (simp split: option.splits del: py_eq.simps)
        show ?thesis
        proof (cases "sha256_hex E content = k")
          case True
          show ?thesis
            by (rule stored [OF _ k Inr _ True]) (use run sz True False in \<open>auto simp: liftM_def simp del: py_eq.simps\<close>)
        next
          case False
          then show ?thesis using run sz by (intro raised) (auto simp: liftM_def simp del: py_eq.simps)
        qed
      qed
    qed
  qed
qed

lemma preserves_store_stream [preserve]: "preserves (evidence_ok E) (store_stream E d stream m expected)"
proof (rule preservesI)
  fix st assume ok: "evidence_ok E st"
  obtain r st' where run: "store_stream E d stream m expected st = (r, st')" by force
  from run show "evidence_ok E (snd (store_stream E d stream m expected st))"
    by (cases rule: store_stream_cases) (simp_all add: run ok evidence_ok_put)
qed

lemma store_stream_verified:
  assumes "store_stream E d stream m expected st = (Inr (k, n), st')"
  shows "\<exists>content. file_at st' k = Some content \<and> sha256_hex E content = k \<and> n = int (length content)"
    "\<forall>k'. k' \<noteq> k \<longrightarrow> file_at st' k' = file_at st k'" "is_hex_digest d" "k = map ascii_lower (text_of d)"
  using assms by (cases rule: store_stream_cases; auto)+

lemma add_file_total:
  assumes "digests_32 E" "evidence_ok E st" "case m of None \<Rightarrow> True | Some b \<Rightarrow> int (length content) \<le> b"
  shows "\<exists>st'. add_file E (Some content) m st = (Inr (sha256_hex E content, int (length content)), st')
    \<and> evidence_ok E st'
    \<and> (file_at st (sha256_hex E content) = None \<longrightarrow> file_at st' (sha256_hex E content) = Some content)
    \<and> (\<exists>c. file_at st' (sha256_hex E content) = Some c \<and> sha256_hex E c = sha256_hex E content)
    \<and> (\<forall>k. k \<noteq> sha256_hex E content \<longrightarrow> file_at st' k = file_at st k)"
proof -
  let ?k = "sha256_hex E content"
  define st' where "st' = (if file_at st ?k \<noteq> None then st else st\<lparr>es_files := put_file ?k content (es_files st)\<rparr>)"
  have ok: "evidence_ok E st'" using assms(2) by (simp add: st'_def evidence_ok_put)
  obtain c where c: "file_at st' ?k = Some c" "file_at st ?k = None \<longrightarrow> c = content"
    by (cases "file_at st ?k") (auto simp: st'_def)
  have v: "sha256_hex E c = ?k" using ok c(1) by (simp add: evidence_ok_def)
  have "verify_evidence E st' (JStr ?k) = Inr True"
    using assms(1) c(1) v by (simp add: verify_evidence_def)
  moreover have "\<not> (case m of None \<Rightarrow> False | Some b \<Rightarrow> b < int (length content))"
    using assms(3) by (auto split: option.splits)
  ultimately have "add_file E (Some content) m st = (Inr (?k, int (length content)), st')"
    using assms(1) by (simp add: add_file_def Let_def bindM_def liftM_def updateM_def readM_def st'_def)
  then show ?thesis using ok c v by (auto simp: st'_def)
qed

lemma open_evidence_eq_Inr:
  "open_evidence E st d = Inr content \<longleftrightarrow> is_hex_digest d \<and> file_at st (map ascii_lower (text_of d)) = Some content
     \<and> sha256_hex E content = map ascii_lower (text_of d)"
  by (auto simp: open_evidence_def verify_evidence_def result_simps split: option.splits)

section \<open>The interface to content-addressed files\<close>

text \<open>What a client of the store relies on: a file that was stored can be fetched by its address and
  has it, other files are not touched, and nothing is ever lost.\<close>

locale content_store =
  fixes fetch :: "'s \<Rightarrow> 'k \<Rightarrow> 'v option"
    and store :: "'d \<Rightarrow> 'i \<Rightarrow> ('s, 'r) op"
    and key :: "'d \<Rightarrow> 'k"
    and addr :: "'v \<Rightarrow> 'k"
    and ok :: "'s \<Rightarrow> bool"
  assumes store_ok: "ok s \<Longrightarrow> ok (snd (store d i s))"
    and store_fetch: "store d i s = (Inr r, s') \<Longrightarrow> \<exists>v. fetch s' (key d) = Some v \<and> addr v = key d"
    and store_keeps: "fetch s k = Some v \<Longrightarrow> k = key d \<or> fetch (snd (store d i s)) k = Some v"
    and fetch_addr: "ok s \<Longrightarrow> fetch s k = Some v \<Longrightarrow> addr v = k"
begin

text \<open>A sequence of stores that all returned: every address is available, whatever came after.\<close>

lemma mapM_store:
  assumes "ok s" "mapM (\<lambda>(d, i). store d i) xs s = (Inr rs, s')"
  shows "ok s' \<and> (\<forall>k. k \<in> key ` fst ` set xs \<or> fetch s k \<noteq> None \<longrightarrow> (\<exists>v. fetch s' k = Some v \<and> addr v = k))"
  using assms
proof (induction xs arbitrary: s rs)
  case Nil
  then show ?case using fetch_addr by (force simp: liftM_def)
next
  case (Cons x xs)
  obtain d i where x: "x = (d, i)" by (cases x)
  from Cons.prems(2) x obtain r s1 rs' where step: "store d i s = (Inr r, s1)"
    "mapM (\<lambda>(d, i). store d i) xs s1 = (Inr rs', s')"
    by (auto simp: result_simps)
  have ok1: "ok s1" using store_ok [OF Cons.prems(1), of d i] step(1) by simp
  have "fetch s1 k \<noteq> None" if "k = key d \<or> fetch s k \<noteq> None" for k
    using that store_fetch [OF step(1)] store_keeps [of s k _ d i] step(1) by fastforce
  then show ?case using Cons.IH [OF ok1 step(2)] x by auto
qed

text \<open>Whatever happens, nothing that could be fetched is lost.\<close>

lemma mapM_keeps:
  assumes "ok s" "fetch s k \<noteq> None"
  shows "fetch (snd (mapM (\<lambda>(d, i). store d i) xs s)) k \<noteq> None \<or> k \<in> key ` fst ` set xs"
  using assms
proof (induction xs arbitrary: s)
  case (Cons x xs)
  obtain d i where x: "x = (d, i)" by (cases x)
  obtain r s1 where run: "store d i s = (r, s1)" by force
  have "k = key d \<or> fetch s1 k \<noteq> None"
    using store_keeps [of s k _ d i] Cons.prems(2) run by auto
  then show ?case
    using Cons.IH [of s1] store_ok [OF Cons.prems(1), of d i] run x
    by (cases r) (auto simp: bindM_def liftM_def split: prod.splits sum.splits)
qed (simp add: liftM_def)

end

interpretation files: content_store file_at "\<lambda>d (stream, m, expected). store_stream E d stream m expected"
  "\<lambda>d. map ascii_lower (text_of d)" "sha256_hex E" "evidence_ok E" for E
proof unfold_locales
  show "evidence_ok E s \<Longrightarrow> evidence_ok E (snd ((case i of (stream, m, ex) \<Rightarrow> store_stream E d stream m ex) s))" for s d i
    using preserves_store_stream by (auto simp: preserves_def split: prod.splits)
  show "(case i of (stream, m, ex) \<Rightarrow> store_stream E d stream m ex) s = (Inr r, s') \<Longrightarrow>
      \<exists>v. file_at s' (map ascii_lower (text_of d)) = Some v \<and> sha256_hex E v = map ascii_lower (text_of d)"
    for d i s r s'
    using store_stream_verified(1,4) [of E d _ _ _ s "fst r" "snd r" s'] by (cases i) fastforce
  show "file_at s k = Some v \<Longrightarrow> k = map ascii_lower (text_of d)
      \<or> file_at (snd ((case i of (stream, m, ex) \<Rightarrow> store_stream E d stream m ex) s)) k = Some v" for s k v d i
  proof -
    assume a: "file_at s k = Some v"
    obtain stream m ex where i: "i = (stream, m, ex)" by (cases i)
    obtain r s' where run: "store_stream E d stream m ex s = (r, s')" by force
    from run a show ?thesis unfolding i prod.case
      by (cases rule: store_stream_cases) (simp_all add: run)
  qed
  show "evidence_ok E s \<Longrightarrow> file_at s k = Some v \<Longrightarrow> sha256_hex E v = k" for s k v
    by (simp add: evidence_ok_def)
qed

end
