(* ===== verification/Storage.thy ===== *)
theory Storage
  imports Packages
begin

text \<open>
  \<^verbatim>\<open>src/hap/storage.py\<close>: the SQLite index. The state is one HOL record with a list of rows per
  table; \<open>INSERT OR IGNORE\<close>, the upserts, \<open>INSERT OR REPLACE\<close>, \<open>AUTOINCREMENT\<close>, \<open>ORDER BY\<close>,
  \<open>LIMIT\<close>, the joins and the foreign keys are written out. A row keeps the stored body as the
  value that \<open>json.loads\<close> gives back for it: every body is a validated document, for which
  \<open>json.dumps\<close> followed by \<open>json.loads\<close> is the identity.

  An operation that raises leaves the state as it was (\<open>with self.connection\<close> rolls back).
  The locking, the creation and migration of the schema and the backup of the file are not
  modelled.
\<close>

section \<open>Tables with a sequence number and a unique key\<close>

record 'r table =
  rows :: "(nat \<times> 'r) list"
  last_seq :: nat

definition empty_table :: "'r table" where
  "empty_table = \<lparr>rows = [], last_seq = 0\<rparr>"

text \<open>An ignored insert and an update of a conflicting row use up a sequence number too.\<close>

definition insert_ignore :: "('r \<Rightarrow> 'k) \<Rightarrow> 'r \<Rightarrow> 'r table \<Rightarrow> bool \<times> 'r table" where
  "insert_ignore key r t =
     (if key r \<in> key ` snd ` set (rows t) then (False, t\<lparr>last_seq := last_seq t + 1\<rparr>)
      else (True, \<lparr>rows = rows t @ [(last_seq t + 1, r)], last_seq = last_seq t + 1\<rparr>))"

definition upsert :: "('r \<Rightarrow> 'k) \<Rightarrow> ('r \<Rightarrow> 'r \<Rightarrow> 'r) \<Rightarrow> 'r \<Rightarrow> 'r table \<Rightarrow> bool \<times> 'r table" where
  "upsert key merge r t =
     (if key r \<in> key ` snd ` set (rows t)
      then (False, \<lparr>rows = map (\<lambda>(n, r'). (n, if key r' = key r then merge r' r else r')) (rows t),
                    last_seq = last_seq t + 1\<rparr>)
      else (True, \<lparr>rows = rows t @ [(last_seq t + 1, r)], last_seq = last_seq t + 1\<rparr>))"

definition all_rows :: "'r table \<Rightarrow> 'r list" where
  "all_rows t = map snd (rows t)"

definition lookup_row :: "('r \<Rightarrow> 'k) \<Rightarrow> 'k \<Rightarrow> 'r table \<Rightarrow> 'r option" where
  "lookup_row key k t = find (\<lambda>r. key r = k) (all_rows t)"

definition delete_rows :: "('r \<Rightarrow> bool) \<Rightarrow> 'r table \<Rightarrow> 'r table" where
  "delete_rows P t = t\<lparr>rows := filter (\<lambda>(_, r). \<not> P r) (rows t)\<rparr>"

definition update_rows :: "('r \<Rightarrow> 'r) \<Rightarrow> 'r table \<Rightarrow> 'r table" where
  "update_rows f t = t\<lparr>rows := map (\<lambda>(n, r). (n, f r)) (rows t)\<rparr>"

text \<open>\<open>LIMIT n\<close>: a negative number is no limit.\<close>

definition sql_limit :: "int \<Rightarrow> 'a list \<Rightarrow> 'a list" where
  "sql_limit n xs = (if n < 0 then xs else take (nat n) xs)"

definition sync_page :: "int \<Rightarrow> int \<Rightarrow> 'r table \<Rightarrow> 'r list \<times> nat option" where
  "sync_page after_seq limit t =
     (let page = sql_limit limit (filter (\<lambda>(n, _). after_seq < int n) (rows t))
      in (map snd page, if page = [] then None else Some (fst (last page))))"

text \<open>The invariant of such a table.\<close>

definition table_ok :: "('r \<Rightarrow> 'k) \<Rightarrow> 'r table \<Rightarrow> bool" where
  "table_ok key t \<longleftrightarrow> distinct (map key (all_rows t)) \<and> sorted_wrt (<) (map fst (rows t))
     \<and> (\<forall>n \<in> fst ` set (rows t). 0 < n \<and> n \<le> last_seq t)"

lemma all_rows_set: "set (all_rows t) = snd ` set (rows t)"
  by (simp add: all_rows_def)

lemma table_ok_empty [simp]: "table_ok key empty_table" "all_rows empty_table = []"
  by (simp_all add: table_ok_def empty_table_def all_rows_def)

lemma all_rows_insert_ignore:
  "all_rows (snd (insert_ignore key r t)) =
     (if key r \<in> key ` set (all_rows t) then all_rows t else all_rows t @ [r])"
  "fst (insert_ignore key r t) \<longleftrightarrow> key r \<notin> key ` set (all_rows t)"
  by (auto simp: insert_ignore_def all_rows_def)

lemma all_rows_upsert:
  "all_rows (snd (upsert key merge r t)) =
     (if key r \<in> key ` set (all_rows t)
      then map (\<lambda>r'. if key r' = key r then merge r' r else r') (all_rows t) else all_rows t @ [r])"
  "fst (upsert key merge r t) \<longleftrightarrow> key r \<notin> key ` set (all_rows t)"
  by (auto simp: upsert_def all_rows_def)

lemma all_rows_delete: "all_rows (delete_rows P t) = filter (\<lambda>r. \<not> P r) (all_rows t)"
  by (auto simp: delete_rows_def all_rows_def filter_map comp_def case_prod_unfold)

lemma all_rows_update: "all_rows (update_rows f t) = map f (all_rows t)"
  by (auto simp: update_rows_def all_rows_def)

lemma table_ok_append:
  assumes "table_ok key t" "key r \<notin> key ` set (all_rows t)"
  shows "table_ok key \<lparr>rows = rows t @ [(last_seq t + 1, r)], last_seq = last_seq t + 1\<rparr>"
  using assms by (fastforce simp: table_ok_def all_rows_def sorted_wrt_append)

lemma table_ok_insert_ignore:
  "table_ok key t \<Longrightarrow> table_ok key (snd (insert_ignore key r t))"
  using table_ok_append [of key t r]
  by (auto simp: insert_ignore_def all_rows_set) (fastforce simp: table_ok_def all_rows_def)

lemma table_ok_map:
  assumes "table_ok key t" "\<And>r. key (f r) = key r" "last_seq t \<le> n"
  shows "table_ok key \<lparr>rows = map (\<lambda>(n, r). (n, f r)) (rows t), last_seq = n\<rparr>"
proof -
  have "map fst (map (\<lambda>(n, r). (n, f r)) (rows t)) = map fst (rows t)" by auto
  moreover have "map key (map snd (map (\<lambda>(n, r). (n, f r)) (rows t))) = map key (map snd (rows t))"
    using assms(2) by auto
  ultimately show ?thesis
    using assms(1,3) by (auto simp: table_ok_def all_rows_def simp del: map_map)
qed

lemma table_ok_upsert:
  assumes "table_ok key t" "\<And>r' r. key r' = key r \<Longrightarrow> key (merge r' r) = key r"
  shows "table_ok key (snd (upsert key merge r t))"
proof -
  have "(\<lambda>(n, r'). (n, if key r' = key r then merge r' r else r'))
      = (\<lambda>(n, r'). (n, (\<lambda>r'. if key r' = key r then merge r' r else r') r'))" by auto
  then have "table_ok key \<lparr>rows = map (\<lambda>(n, r'). (n, if key r' = key r then merge r' r else r')) (rows t),
      last_seq = last_seq t + 1\<rparr>"
    using table_ok_map [OF assms(1), of "\<lambda>r'. if key r' = key r then merge r' r else r'" "last_seq t + 1"]
      assms(2) by auto
  then show ?thesis
    using table_ok_append [OF assms(1), of r] by (auto simp: upsert_def all_rows_set)
qed

lemma table_ok_delete: "table_ok key t \<Longrightarrow> table_ok key (delete_rows P t)"
proof -
  assume ok: "table_ok key t"
  have "distinct (map key (filter (\<lambda>r. \<not> P r) (all_rows t)))"
    using ok by (auto simp: table_ok_def distinct_map_filter)
  moreover have "sorted_wrt (<) (map fst (filter (\<lambda>(_, r). \<not> P r) (rows t)))"
    using ok by (auto simp: table_ok_def sorted_wrt_map sorted_wrt_filter)
  ultimately show ?thesis
    using ok all_rows_delete [of P t] by (auto simp: table_ok_def) (auto simp: delete_rows_def)
qed

lemma table_ok_update: "table_ok key t \<Longrightarrow> (\<And>r. key (f r) = key r) \<Longrightarrow> table_ok key (update_rows f t)"
  using table_ok_map [of key t f "last_seq t"] by (cases t) (simp add: update_rows_def)

lemma find_unique:
  "distinct (map key xs) \<Longrightarrow> find (\<lambda>r. key r = k) xs = Some r \<longleftrightarrow> r \<in> set xs \<and> key r = k"
  by (induction xs) auto

lemma lookup_row_Some:
  "table_ok key t \<Longrightarrow> lookup_row key k t = Some r \<longleftrightarrow> r \<in> set (all_rows t) \<and> key r = k"
  by (simp add: lookup_row_def table_ok_def find_unique)

lemma lookup_row_None: "lookup_row key k t = None \<longleftrightarrow> k \<notin> key ` set (all_rows t)"
  by (auto simp: lookup_row_def find_None_iff)

text \<open>Pages: following the cursor from page to page visits every later row once, in order.\<close>

lemma sync_page_rows:
  assumes "table_ok key t" "sync_page after limit t = (items, nxt)" "0 < limit"
  shows "(case nxt of None \<Rightarrow> items = [] \<and> filter (\<lambda>(n, _). after < int n) (rows t) = []
    | Some c \<Rightarrow> after < int c \<and> items \<noteq> []
        \<and> map snd (filter (\<lambda>(n, _). after < int n) (rows t))
            = items @ map snd (filter (\<lambda>(n, _). int c < int n) (rows t)))"
proof -
  define rs where "rs = filter (\<lambda>(n, _). after < int n) (rows t)"
  define page where "page = take (nat limit) rs"
  have sorted: "sorted_wrt (<) (map fst (rows t))" using assms(1) by (simp add: table_ok_def)
  have res: "items = map snd page" "nxt = (if page = [] then None else Some (fst (last page)))"
    using assms(2,3) by (auto simp: sync_page_def sql_limit_def Let_def page_def rs_def)
  show ?thesis
  proof (cases "page = []")
    case True
    with assms(3) have "rs = []" by (auto simp: page_def)
    with True res show ?thesis by (simp add: rs_def)
  next
    case False
    define c where "c = fst (last page)"
    have rs: "rs = page @ drop (nat limit) rs" by (simp add: page_def)
    have "sorted_wrt (<) (map fst rs)"
      using sorted unfolding rs_def sorted_wrt_map by (rule sorted_wrt_filter)
    then have srs: "sorted_wrt (<) (map fst (page @ drop (nat limit) rs))" using rs by simp
    have lastp: "last page \<in> set page" using False by simp
    have "\<forall>x \<in> set page. \<not> c < fst x"
    proof
      fix x assume "x \<in> set page"
      then have "x = last page \<or> x \<in> set (butlast page)"
        using False by (metis append_butlast_last_id in_set_conv_decomp Un_iff set_append list.set(1,2) insertE empty_iff)
      moreover have "sorted_wrt (<) (map fst (butlast page @ [last page]))"
        using srs False by (simp add: sorted_wrt_append)
      ultimately show "\<not> c < fst x" by (auto simp: sorted_wrt_append c_def)
    qed
    moreover have "\<forall>x \<in> set (drop (nat limit) rs). c < fst x"
      using srs lastp by (auto simp: sorted_wrt_append c_def)
    ultimately have "filter (\<lambda>(n, _). c < n) (page @ drop (nat limit) rs) = drop (nat limit) rs"
      by (auto simp: filter_empty_conv case_prod_beta intro!: filter_True)
    moreover have "filter (\<lambda>(n, _). c < n) rs = filter (\<lambda>(n, _). c < n) (page @ drop (nat limit) rs)"
      by (subst (1) rs) (rule refl)
    moreover have "last page \<in> set rs" using lastp unfolding page_def by (rule in_set_takeD)
    then have aft: "after < int c" by (auto simp: rs_def c_def)
    then have "filter (\<lambda>(n, _). int c < int n) (rows t) = filter (\<lambda>(n, _). c < n) rs"
      unfolding rs_def by (auto intro!: filter_cong)
    ultimately have rest: "filter (\<lambda>(n, _). int c < int n) (rows t) = drop (nat limit) rs" by simp
    have "map snd rs = items @ map snd (drop (nat limit) rs)"
      using res(1) by (metis rs map_append)
    then show ?thesis
      using res False aft rest by (simp add: c_def rs_def)
  qed
qed

end
