(* ===== verification/Index.thy ===== *)
theory Index
  imports Storage
begin

text \<open>
  \<^verbatim>\<open>src/hap/storage.py\<close>, the operations of \<open>Storage\<close> on the index of records, batches, anchors,
  scanned blocks and commitments, and the invariant \<open>index_ok\<close> that all of them preserve: keys
  are unique, foreign keys point to rows, every stored record and batch is valid, and the
  records of a batch are indexed with their positions.
\<close>

section \<open>State\<close>

record record_row =
  r_id :: ustr
  r_kind :: ustr
  r_created_at :: ustr
  r_target :: "ustr option"
  r_author :: ustr
  r_body :: json

record batch_row =
  bt_id :: ustr
  bt_created_at :: int
  bt_network :: ustr
  bt_merkle_root :: ustr
  bt_payload_hex :: ustr
  bt_body :: json

record commitment =
  c_txid :: ustr
  c_vout :: int
  c_batch_id :: ustr
  c_payload_hex :: ustr
  c_network :: ustr
  c_block_height :: int
  c_block_hash :: ustr
  c_block_time :: int
  c_status :: ustr
  c_discovered_at :: int
  c_resolved :: bool

record block =
  bl_height :: int
  bl_hash :: ustr
  bl_time :: int

record index =
  metadata :: "(ustr \<times> ustr) list"
  records_t :: "record_row table"
  batches_t :: "batch_row table"
  record_batches :: "(ustr \<times> ustr \<times> nat) list"
  anchors_t :: "anchor table"
  bitcoin_blocks :: "block list"
  commitments_t :: "commitment table"

definition empty_index :: index where
  "empty_index = \<lparr>metadata = [], records_t = empty_table, batches_t = empty_table, record_batches = [],
     anchors_t = empty_table, bitcoin_blocks = [], commitments_t = empty_table\<rparr>"

definition a_point :: "anchor \<Rightarrow> ustr \<times> int" where "a_point a = (a_txid a, a_vout a)"
definition c_point :: "commitment \<Rightarrow> ustr \<times> int" where "c_point c = (c_txid c, c_vout c)"

text \<open>An \<open>INTEGER\<close> column holds 64 bits; binding a larger Python integer raises.\<close>

definition sql_int :: "int \<Rightarrow> unit result" where
  "sql_int i = (if - (2 ^ 63) \<le> i \<and> i < 2 ^ 63 then Inr ()
     else Inl (Exn OverflowError ''Python int too large to convert to SQLite INTEGER''))"

section \<open>Records\<close>

definition int_of_json :: "json \<Rightarrow> int" where
  "int_of_json v = (case v of JInt i \<Rightarrow> i | _ \<Rightarrow> 0)"

definition row_of_record :: "json \<Rightarrow> record_row" where
  "row_of_record r = \<lparr>r_id = text_of (dget r ''record_id''), r_kind = text_of (dget r ''kind''),
     r_created_at = text_of (dget r ''created_at''),
     r_target = (case dget r ''target_record_id'' of JStr s \<Rightarrow> Some s | _ \<Rightarrow> None),
     r_author = text_of (dget r ''author_id''), r_body = r\<rparr>"

definition add_record :: "json \<Rightarrow> index \<Rightarrow> bool \<times> index" where
  "add_record r s = (let (created, t) = insert_ignore r_id (row_of_record r) (records_t s)
     in (created, s\<lparr>records_t := t\<rparr>))"

definition get_record :: "index \<Rightarrow> ustr \<Rightarrow> json option" where
  "get_record s rid = map_option r_body (lookup_row r_id rid (records_t s))"

definition records_by_ids :: "index \<Rightarrow> ustr list \<Rightarrow> json list" where
  "records_by_ids s ids = List.map_filter (get_record s) ids"

definition is_batched :: "index \<Rightarrow> ustr \<Rightarrow> bool" where
  "is_batched s rid \<longleftrightarrow> list_ex (\<lambda>(r, _, _). r = rid) (record_batches s)"

definition list_records :: "index \<Rightarrow> int \<Rightarrow> bool \<Rightarrow> json list" where
  "list_records s limit unbatched_only = map r_body (sql_limit limit
     (if unbatched_only then filter (\<lambda>r. \<not> is_batched s (r_id r)) (all_rows (records_t s))
      else all_rows (records_t s)))"

definition record_sync_page :: "index \<Rightarrow> int \<Rightarrow> int \<Rightarrow> json list \<times> nat option" where
  "record_sync_page s after_seq limit =
     (let (items, nxt) = sync_page after_seq limit (records_t s) in (map r_body items, nxt))"

definition latest_records :: "index \<Rightarrow> int \<Rightarrow> json list" where
  "latest_records s limit = map r_body (sql_limit limit (rev (all_rows (records_t s))))"

definition linked_records :: "index \<Rightarrow> ustr \<Rightarrow> json list" where
  "linked_records s target =
     map r_body (filter (\<lambda>r. r_target r = Some target) (all_rows (records_t s)))"

section \<open>Batches\<close>

definition row_of_batch :: "json \<Rightarrow> batch_row" where
  "row_of_batch b = \<lparr>bt_id = text_of (dget b ''batch_id''), bt_created_at = int_of_json (dget b ''created_at''),
     bt_network = text_of (dget b ''network''), bt_merkle_root = text_of (dget b ''merkle_root''),
     bt_payload_hex = text_of (dget b ''payload_hex''), bt_body = b\<rparr>"

text \<open>\<open>INSERT OR IGNORE INTO record_batches\<close>, one row per record; the foreign key on the records is
  checked for each row that is inserted, and is not ignored.\<close>

fun link_records :: "ustr set \<Rightarrow> ustr \<Rightarrow> ustr list \<Rightarrow> nat \<Rightarrow> (ustr \<times> ustr \<times> nat) list
    \<Rightarrow> (ustr \<times> ustr \<times> nat) list result" where
  "link_records known bid [] pos rb = Inr rb"
| "link_records known bid (rid # rids) pos rb =
     (if (rid, bid) \<in> (\<lambda>(r, b, _). (r, b)) ` set rb then link_records known bid rids (pos + 1) rb
      else if rid \<notin> known then Inl (Exn IntegrityError ''FOREIGN KEY constraint failed'')
      else link_records known bid rids (pos + 1) (rb @ [(rid, bid, pos)]))"

definition add_batch :: "json \<Rightarrow> index \<Rightarrow> (bool \<times> index) result" where
  "add_batch b s =
     (let row = row_of_batch b; (created, t) = insert_ignore bt_id row (batches_t s)
      in bindE (sql_int (bt_created_at row)) (\<lambda>_.
         bindE (link_records (r_id ` set (all_rows (records_t s))) (bt_id row) (record_ids_of b) 0
           (record_batches s)) (\<lambda>rb.
         Inr (created, s\<lparr>batches_t := t, record_batches := rb\<rparr>))))"

definition get_batch :: "index \<Rightarrow> ustr \<Rightarrow> json option" where
  "get_batch s bid = map_option bt_body (lookup_row bt_id bid (batches_t s))"

definition list_batches :: "index \<Rightarrow> int \<Rightarrow> json list" where
  "list_batches s limit = map bt_body (sql_limit limit (rev (all_rows (batches_t s))))"

definition batch_sync_page :: "index \<Rightarrow> int \<Rightarrow> int \<Rightarrow> json list \<times> nat option" where
  "batch_sync_page s after_seq limit =
     (let (items, nxt) = sync_page after_seq limit (batches_t s) in (map bt_body items, nxt))"

definition batches_for_record :: "index \<Rightarrow> ustr \<Rightarrow> json list" where
  "batches_for_record s rid = map bt_body (filter
     (\<lambda>b. list_ex (\<lambda>(r, b', _). r = rid \<and> b' = bt_id b) (record_batches s)) (all_rows (batches_t s)))"

section \<open>Anchors\<close>

definition add_anchor :: "anchor \<Rightarrow> index \<Rightarrow> (bool \<times> index) result" where
  "add_anchor a s =
     bindE (sql_int (a_vout a)) (\<lambda>_.
     bindE (sql_int (a_anchored_at a)) (\<lambda>_.
     bindE (case a_block_height a of None \<Rightarrow> Inr () | Some h \<Rightarrow> sql_int h) (\<lambda>_.
     if a_batch_id a \<notin> bt_id ` set (all_rows (batches_t s))
     then Inl (Exn IntegrityError ''FOREIGN KEY constraint failed'')
     else let (created, t) = upsert a_point (\<lambda>_ new. new) a (anchors_t s)
       in Inr (created, s\<lparr>anchors_t := t\<rparr>))))"

definition get_anchor :: "index \<Rightarrow> ustr \<Rightarrow> int \<Rightarrow> anchor option" where
  "get_anchor s txid vout = lookup_row a_point (txid, vout) (anchors_t s)"

definition list_anchors :: "index \<Rightarrow> ustr option \<Rightarrow> anchor list" where
  "list_anchors s batch_id = (case batch_id of
     Some (c # cs) \<Rightarrow> filter (\<lambda>a. a_batch_id a = c # cs) (all_rows (anchors_t s))
   | _ \<Rightarrow> all_rows (anchors_t s))"

definition anchor_sync_page :: "index \<Rightarrow> int \<Rightarrow> int \<Rightarrow> anchor list \<times> nat option" where
  "anchor_sync_page s after_seq limit = sync_page after_seq limit (anchors_t s)"

definition is_confirmed :: "anchor \<Rightarrow> bool" where
  "is_confirmed a \<longleftrightarrow> a_status a = str ''confirmed''"

definition anchored_record_ids :: "index \<Rightarrow> ustr set" where
  "anchored_record_ids s = fst ` set (filter
     (\<lambda>(_, b, _). list_ex (\<lambda>a. a_batch_id a = b \<and> is_confirmed a) (all_rows (anchors_t s))) (record_batches s))"

definition confirmed_anchor_height_for_record :: "index \<Rightarrow> ustr \<Rightarrow> int option" where
  "confirmed_anchor_height_for_record s rid =
     (let hs = List.map_filter a_block_height (filter (\<lambda>a. is_confirmed a \<and>
        list_ex (\<lambda>(r, b, _). r = rid \<and> b = a_batch_id a) (record_batches s)) (all_rows (anchors_t s)))
      in if hs = [] then None else Some (Min (set hs)))"

definition confirmed_anchor_heights :: "index \<Rightarrow> ustr list \<Rightarrow> (ustr \<times> int) list" where
  "confirmed_anchor_heights s rids = List.map_filter
     (\<lambda>rid. map_option (Pair rid) (confirmed_anchor_height_for_record s rid)) rids"

section \<open>Scanned blocks and commitments\<close>

definition add_scanned_block :: "block \<Rightarrow> index \<Rightarrow> index result" where
  "add_scanned_block b s =
     bindE (sql_int (bl_height b)) (\<lambda>_. bindE (sql_int (bl_time b)) (\<lambda>_.
       Inr (s\<lparr>bitcoin_blocks := filter (\<lambda>b'. bl_height b' \<noteq> bl_height b \<and> bl_hash b' \<noteq> bl_hash b)
         (bitcoin_blocks s) @ [b]\<rparr>)))"

definition scanned_block :: "index \<Rightarrow> int \<Rightarrow> block option" where
  "scanned_block s height = find (\<lambda>b. bl_height b = height) (bitcoin_blocks s)"

definition latest_scanned_block :: "index \<Rightarrow> block option" where
  "latest_scanned_block s =
     (if bitcoin_blocks s = [] then None
      else scanned_block s (Max (bl_height ` set (bitcoin_blocks s))))"

text \<open>The update of a conflicting row leaves \<open>discovered_at\<close> and \<open>resolved\<close> as they were.\<close>

definition merge_commitment :: "commitment \<Rightarrow> commitment \<Rightarrow> commitment" where
  "merge_commitment old new = new\<lparr>c_discovered_at := c_discovered_at old, c_resolved := c_resolved old\<rparr>"

definition add_commitment :: "commitment \<Rightarrow> index \<Rightarrow> (bool \<times> index) result" where
  "add_commitment c s =
     bindE (forE sql_int [c_vout c, c_block_height c, c_block_time c, c_discovered_at c]) (\<lambda>_.
     let (created, t) = upsert c_point merge_commitment c (commitments_t s)
     in Inr (created, s\<lparr>commitments_t := t\<rparr>))"

definition get_commitment :: "index \<Rightarrow> ustr \<Rightarrow> int \<Rightarrow> commitment option" where
  "get_commitment s txid vout = lookup_row c_point (txid, vout) (commitments_t s)"

definition list_commitments :: "index \<Rightarrow> bool \<Rightarrow> ustr option \<Rightarrow> int \<Rightarrow> commitment list" where
  "list_commitments s unresolved_only batch_id limit = sql_limit limit (filter
     (\<lambda>c. (unresolved_only \<longrightarrow> \<not> c_resolved c) \<and> (case batch_id of None \<Rightarrow> True | Some b \<Rightarrow> c_batch_id c = b))
     (all_rows (commitments_t s)))"

definition mark_commitment_resolved :: "ustr \<Rightarrow> int \<Rightarrow> index \<Rightarrow> index" where
  "mark_commitment_resolved txid vout s = s\<lparr>commitments_t :=
     update_rows (\<lambda>c. if c_point c = (txid, vout) then c\<lparr>c_resolved := True\<rparr> else c) (commitments_t s)\<rparr>"

definition rewind_bitcoin_scan :: "int \<Rightarrow> index \<Rightarrow> index" where
  "rewind_bitcoin_scan ancestor_height s =
     (let points = map c_point (filter (\<lambda>c. ancestor_height < c_block_height c) (all_rows (commitments_t s)))
      in s\<lparr>anchors_t := update_rows (\<lambda>a. if a_point a \<in> set points
                 then a\<lparr>a_status := str ''reorganised''\<rparr> else a) (anchors_t s),
           commitments_t := delete_rows (\<lambda>c. ancestor_height < c_block_height c) (commitments_t s),
           bitcoin_blocks := filter (\<lambda>b. \<not> ancestor_height < bl_height b) (bitcoin_blocks s)\<rparr>)"

section \<open>Metadata and counts\<close>

definition metadata_get :: "index \<Rightarrow> ustr \<Rightarrow> ustr option" where
  "metadata_get s key = map_of (metadata s) key"

fun put_pair :: "'k \<Rightarrow> 'v \<Rightarrow> ('k \<times> 'v) list \<Rightarrow> ('k \<times> 'v) list" where
  "put_pair k v [] = [(k, v)]"
| "put_pair k v ((k', v') # d) = (if k = k' then (k, v) # d else (k', v') # put_pair k v d)"

definition metadata_set :: "ustr \<Rightarrow> ustr \<Rightarrow> index \<Rightarrow> index" where
  "metadata_set key v s = s\<lparr>metadata := put_pair key v (metadata s)\<rparr>"

definition node_instance_id :: "index \<Rightarrow> ustr result" where
  "node_instance_id s = (case metadata_get s (str ''node_instance_id'') of
     Some (c # cs) \<Rightarrow> Inr (c # cs)
   | _ \<Rightarrow> Inl (Exn RuntimeError ''node_instance_id is missing''))"

definition counts :: "index \<Rightarrow> (string \<times> nat) list" where
  "counts s = [(''records'', length (all_rows (records_t s))), (''batches'', length (all_rows (batches_t s))),
     (''anchors'', length (all_rows (anchors_t s))),
     (''bitcoin_commitments'', length (all_rows (commitments_t s))),
     (''unresolved_commitments'', length (filter (\<lambda>c. \<not> c_resolved c) (all_rows (commitments_t s)))),
     (''unbatched_records'', length (filter (\<lambda>r. \<not> is_batched s (r_id r)) (all_rows (records_t s))))]"

section \<open>The invariant\<close>

definition record_ids_in :: "index \<Rightarrow> ustr set" where
  "record_ids_in s = r_id ` set (all_rows (records_t s))"

definition batch_ids_in :: "index \<Rightarrow> ustr set" where
  "batch_ids_in s = bt_id ` set (all_rows (batches_t s))"

definition records_ok :: "env \<Rightarrow> index \<Rightarrow> bool" where
  "records_ok E s \<longleftrightarrow> table_ok r_id (records_t s) \<and> (\<forall>r \<in> set (all_rows (records_t s)).
     validate_record E (r_body r) = Inr () \<and> wf_json (r_body r) \<and> r = row_of_record (r_body r))"

definition batches_ok :: "env \<Rightarrow> index \<Rightarrow> bool" where
  "batches_ok E s \<longleftrightarrow> table_ok bt_id (batches_t s) \<and> (\<forall>b \<in> set (all_rows (batches_t s)).
     validate_batch E (bt_body b) = Inr () \<and> wf_json (bt_body b) \<and> b = row_of_batch (bt_body b))"

definition links_ok :: "index \<Rightarrow> bool" where
  "links_ok s \<longleftrightarrow> distinct (map (\<lambda>(r, b, _). (r, b)) (record_batches s))
     \<and> (\<forall>(r, b, _) \<in> set (record_batches s). r \<in> record_ids_in s \<and> b \<in> batch_ids_in s)
     \<and> (\<forall>b \<in> set (all_rows (batches_t s)). \<forall>i < length (record_ids_of (bt_body b)).
          (record_ids_of (bt_body b) ! i, bt_id b, i) \<in> set (record_batches s))"

definition anchor_ints :: "anchor \<Rightarrow> bool" where
  "anchor_ints a \<longleftrightarrow> sql_int (a_vout a) = Inr () \<and> sql_int (a_anchored_at a) = Inr ()
     \<and> (\<forall>h. a_block_height a = Some h \<longrightarrow> sql_int h = Inr ())"

definition anchors_ok :: "index \<Rightarrow> bool" where
  "anchors_ok s \<longleftrightarrow> table_ok a_point (anchors_t s) \<and> table_ok c_point (commitments_t s)
     \<and> (\<forall>a \<in> set (all_rows (anchors_t s)). a_batch_id a \<in> batch_ids_in s \<and> anchor_ints a)"

definition blocks_ok :: "index \<Rightarrow> bool" where
  "blocks_ok s \<longleftrightarrow> distinct (map bl_height (bitcoin_blocks s)) \<and> distinct (map bl_hash (bitcoin_blocks s))"

definition index_ok :: "env \<Rightarrow> index \<Rightarrow> bool" where
  "index_ok E s \<longleftrightarrow> records_ok E s \<and> batches_ok E s \<and> links_ok s \<and> anchors_ok s \<and> blocks_ok s"

lemmas index_ok_defs = index_ok_def records_ok_def batches_ok_def links_ok_def anchors_ok_def blocks_ok_def
  record_ids_in_def batch_ids_in_def

lemma index_ok_empty: "index_ok E empty_index"
  by (simp add: index_ok_defs empty_index_def)

lemma get_record_Some:
  "records_ok E s \<Longrightarrow> get_record s rid = Some r \<longleftrightarrow>
     r \<in> r_body ` set (all_rows (records_t s)) \<and> rid_of r = rid"
  by (auto simp: get_record_def records_ok_def lookup_row_Some row_of_record_def rid_of_def image_iff)
     (metis record_row.select_convs(1) record_row.select_convs(6))+

lemma get_record_None: "get_record s rid = None \<longleftrightarrow> rid \<notin> record_ids_in s"
  by (simp add: get_record_def lookup_row_None record_ids_in_def)

lemma get_record_valid:
  "records_ok E s \<Longrightarrow> get_record s rid = Some r \<Longrightarrow>
     validate_record E r = Inr () \<and> wf_json r \<and> rid_of r = rid"
  by (auto simp: get_record_Some) (auto simp: records_ok_def)

lemma get_batch_None: "get_batch s bid = None \<longleftrightarrow> bid \<notin> batch_ids_in s"
  by (simp add: get_batch_def lookup_row_None batch_ids_in_def)

definition bid_of :: "json \<Rightarrow> ustr" where
  "bid_of b = text_of (dget b ''batch_id'')"

lemma get_batch_valid:
  "batches_ok E s \<Longrightarrow> get_batch s bid = Some b \<Longrightarrow>
     validate_batch E b = Inr () \<and> wf_json b \<and> bid_of b = bid
     \<and> (\<exists>row \<in> set (all_rows (batches_t s)). bt_body row = b \<and> bt_id row = bid)"
  by (auto simp: get_batch_def batches_ok_def lookup_row_Some row_of_batch_def bid_of_def)
     (metis batch_row.select_convs(1))+

section \<open>Adding records\<close>

lemma row_of_record_simps [simp]: "r_id (row_of_record r) = rid_of r" "r_body (row_of_record r) = r"
  by (simp_all add: row_of_record_def rid_of_def)

lemma row_of_batch_simps [simp]: "bt_id (row_of_batch b) = bid_of b" "bt_body (row_of_batch b) = b"
  by (simp_all add: row_of_batch_def bid_of_def)

lemma add_record_unfold:
  "snd (add_record r s) = s\<lparr>records_t := snd (insert_ignore r_id (row_of_record r) (records_t s))\<rparr>"
  "fst (add_record r s) \<longleftrightarrow> rid_of r \<notin> record_ids_in s"
  by (simp_all add: add_record_def case_prod_unfold all_rows_insert_ignore record_ids_in_def Let_def)

lemma add_record_ids: "record_ids_in (snd (add_record r s)) = insert (rid_of r) (record_ids_in s)"
  by (auto simp: add_record_unfold record_ids_in_def all_rows_insert_ignore)

lemma add_record_get:
  "get_record (snd (add_record r s)) rid =
     (if get_record s rid = None \<and> rid = rid_of r then Some r else get_record s rid)"
proof (cases "rid_of r \<in> record_ids_in s")
  case True
  then have "all_rows (records_t (snd (add_record r s))) = all_rows (records_t s)"
    by (simp add: add_record_unfold all_rows_insert_ignore record_ids_in_def)
  then have "get_record (snd (add_record r s)) rid = get_record s rid"
    by (simp add: get_record_def lookup_row_def)
  with True show ?thesis by (auto simp: get_record_None)
next
  case False
  have "find (\<lambda>x. r_id x = rid) (xs @ [y]) =
      (case find (\<lambda>x. r_id x = rid) xs of Some x \<Rightarrow> Some x | None \<Rightarrow> if r_id y = rid then Some y else None)"
    for xs :: "record_row list" and y
    by (induction xs) auto
  with False show ?thesis
    by (auto simp: get_record_def lookup_row_def add_record_unfold all_rows_insert_ignore record_ids_in_def
        split: option.splits)
qed

lemma index_ok_add_record:
  assumes "index_ok E s" "validate_record E r = Inr ()" "wf_json r"
  shows "index_ok E (snd (add_record r s))"
proof -
  have "records_ok E (snd (add_record r s))"
    using assms table_ok_insert_ignore [of r_id "records_t s" "row_of_record r"]
    by (auto simp: index_ok_def records_ok_def add_record_unfold all_rows_insert_ignore)
  moreover have "links_ok (snd (add_record r s))"
    using assms(1) add_record_ids [of r s]
    by (auto simp: index_ok_def links_ok_def add_record_unfold batch_ids_in_def)
  ultimately show ?thesis
    using assms(1) by (auto simp: index_ok_def batches_ok_def anchors_ok_def blocks_ok_def batch_ids_in_def
        add_record_unfold)
qed

section \<open>Adding batches\<close>

lemma link_records_facts:
  "link_records known bid rids pos rb = Inr rb' \<Longrightarrow> distinct (map (\<lambda>(r, b, _). (r, b)) rb) \<Longrightarrow>
     distinct (map (\<lambda>(r, b, _). (r, b)) rb') \<and> set rb \<subseteq> set rb'
     \<and> (\<forall>(r, b, p) \<in> set rb'. (r, b, p) \<in> set rb \<or> r \<in> known \<and> b = bid)
     \<and> set rids \<subseteq> known \<union> {r. \<exists>p. (r, bid, p) \<in> set rb}"
proof (induction rids arbitrary: pos rb)
  case (Cons rid rids)
  show ?case
  proof (cases "(rid, bid) \<in> (\<lambda>(r, b, _). (r, b)) ` set rb")
    case True
    with Cons.prems have "link_records known bid rids (pos + 1) rb = Inr rb'" by simp
    from Cons.IH [OF this Cons.prems(2)] True show ?thesis by auto
  next
    case False
    with Cons.prems have step: "link_records known bid rids (pos + 1) (rb @ [(rid, bid, pos)]) = Inr rb'"
      "rid \<in> known" by (auto split: if_splits)
    have "distinct (map (\<lambda>(r, b, _). (r, b)) (rb @ [(rid, bid, pos)]))"
      using False Cons.prems(2) by auto
    from Cons.IH [OF step(1) this] step(2) show ?thesis by auto
  qed
qed auto

lemma link_records_new:
  "distinct rids \<Longrightarrow> \<forall>r \<in> set rids. (r, bid) \<notin> (\<lambda>(r, b, _). (r, b)) ` set rb \<Longrightarrow> set rids \<subseteq> known \<Longrightarrow>
   link_records known bid rids pos rb = Inr (rb @ map (\<lambda>(i, r). (r, bid, i)) (enumerate pos rids))"
proof (induction rids arbitrary: pos rb)
  case (Cons rid rids)
  then have "link_records known bid rids (pos + 1) (rb @ [(rid, bid, pos)])
      = Inr ((rb @ [(rid, bid, pos)]) @ map (\<lambda>(i, r). (r, bid, i)) (enumerate (pos + 1) rids))"
    by (intro Cons.IH) auto
  with Cons.prems show ?case by simp
qed simp

lemma add_batch_eq_Inr:
  "add_batch b s = Inr (created, s') \<longleftrightarrow> sql_int (int_of_json (dget b ''created_at'')) = Inr ()
     \<and> created = (bid_of b \<notin> batch_ids_in s)
     \<and> (\<exists>rb. link_records (record_ids_in s) (bid_of b) (record_ids_of b) 0 (record_batches s) = Inr rb
        \<and> s' = s\<lparr>batches_t := snd (insert_ignore bt_id (row_of_batch b) (batches_t s)), record_batches := rb\<rparr>)"
proof -
  have "bt_created_at (row_of_batch b) = int_of_json (dget b ''created_at'')" by (simp add: row_of_batch_def)
  then show ?thesis
    by (auto simp: add_batch_def case_prod_unfold Let_def bindE_eq_Inr all_rows_insert_ignore
        record_ids_in_def batch_ids_in_def)
qed

lemma index_ok_add_batch:
  assumes ok: "index_ok E s" and b: "validate_batch E b = Inr ()" "wf_json b"
    and add: "add_batch b s = Inr (created, s')"
  shows "index_ok E s'" "set (record_ids_of b) \<subseteq> record_ids_in s \<union> {r. \<exists>p. (r, bid_of b, p) \<in> set (record_batches s)}"
    "batch_ids_in s' = insert (bid_of b) (batch_ids_in s)"
proof -
  from add obtain rb where link: "link_records (record_ids_in s) (bid_of b) (record_ids_of b) 0 (record_batches s) = Inr rb"
    and s': "s' = s\<lparr>batches_t := snd (insert_ignore bt_id (row_of_batch b) (batches_t s)), record_batches := rb\<rparr>"
    by (auto simp: add_batch_eq_Inr)
  from link_records_facts [OF link] ok have rb: "distinct (map (\<lambda>(r, b, _). (r, b)) rb)"
    "set (record_batches s) \<subseteq> set rb"
    "\<forall>(r, b', p) \<in> set rb. (r, b', p) \<in> set (record_batches s) \<or> r \<in> record_ids_in s \<and> b' = bid_of b"
    and sub: "set (record_ids_of b) \<subseteq> record_ids_in s \<union> {r. \<exists>p. (r, bid_of b, p) \<in> set (record_batches s)}"
    by (auto simp: index_ok_def links_ok_def)
  show "set (record_ids_of b) \<subseteq> record_ids_in s \<union> {r. \<exists>p. (r, bid_of b, p) \<in> set (record_batches s)}" by (fact sub)
  show bids: "batch_ids_in s' = insert (bid_of b) (batch_ids_in s)"
    by (auto simp: s' batch_ids_in_def all_rows_insert_ignore)
  have rids: "record_ids_in s' = record_ids_in s" by (simp add: s' record_ids_in_def)
  have batches: "batches_ok E s'"
    using ok b table_ok_insert_ignore [of bt_id "batches_t s" "row_of_batch b"]
    by (auto simp: index_ok_def batches_ok_def s' all_rows_insert_ignore)
  have new: "(record_ids_of b ! i, bid_of b, i) \<in> set rb"
    if "bid_of b \<notin> batch_ids_in s" "i < length (record_ids_of b)" for i
  proof -
    have fresh: "\<forall>r. (r, bid_of b) \<notin> (\<lambda>(r, b, _). (r, b)) ` set (record_batches s)"
      using that(1) ok by (auto simp: index_ok_def links_ok_def)
    then have "set (record_ids_of b) \<subseteq> record_ids_in s" using sub by force
    then have "rb = record_batches s @ map (\<lambda>(i, r). (r, bid_of b, i)) (enumerate 0 (record_ids_of b))"
      using link link_records_new [of "record_ids_of b" "bid_of b" "record_batches s" "record_ids_in s" 0]
        validate_batch_ids(6) [OF b(1)] fresh by auto
    moreover have "(i, record_ids_of b ! i) \<in> set (enumerate 0 (record_ids_of b))"
      using that(2) by (simp add: in_set_enumerate_eq)
    then have "(record_ids_of b ! i, bid_of b, i)
        \<in> (\<lambda>(i, r). (r, bid_of b, i)) ` set (enumerate 0 (record_ids_of b))"
      by (rule rev_image_eqI) simp
    ultimately show ?thesis by simp
  qed
  have "links_ok s'"
    unfolding links_ok_def rids bids
  proof (intro conjI)
    show "distinct (map (\<lambda>(r, b, _). (r, b)) (record_batches s'))" using rb(1) by (simp add: s')
    show "\<forall>(r, b', _) \<in> set (record_batches s'). r \<in> record_ids_in s \<and> b' \<in> insert (bid_of b) (batch_ids_in s)"
      using rb(3) ok by (fastforce simp: s' index_ok_def links_ok_def)
    show "\<forall>b' \<in> set (all_rows (batches_t s')). \<forall>i < length (record_ids_of (bt_body b')).
        (record_ids_of (bt_body b') ! i, bt_id b', i) \<in> set (record_batches s')"
      using new rb(2) ok
      by (auto simp: s' all_rows_insert_ignore index_ok_def links_ok_def batch_ids_in_def split: if_splits)
  qed
  with batches ok show "index_ok E s'"
    using bids by (auto simp: s' index_ok_def records_ok_def anchors_ok_def blocks_ok_def)
qed

lemma validate_batch_created_at:
  assumes "validate_batch E b = Inr u"
  shows "\<exists>t. dget b ''created_at'' = JInt t \<and> 0 \<le> t \<and> t \<le> MAX_SAFE_JSON_INTEGER"
proof -
  from assms obtain t where t: "dget b ''created_at'' = JInt t" "0 \<le> t"
    by (auto simp: validate_batch_eq_Inr is_nonneg_int_iff)
  obtain d where d: "b = JDict d"
    using assms by (cases b) (simp_all add: validate_batch_eq_Inr)
  have "in_range (manifest_body b)"
    using validate_batch_payload [OF assms] canonical_json_bytes_iff [of "manifest_body b"]
    by (auto simp: calculate_batch_id_def bindE_eq_Inr)
  from in_range_dget [OF this, of "''created_at''"] have "in_range (JInt t)"
    using t(1) d by (simp add: manifest_body_def del: dpop.simps dget.simps in_range.simps)
  with t show ?thesis by auto
qed

text \<open>A valid batch whose records are all present is always stored.\<close>

lemma add_batch_total:
  assumes ok: "index_ok E s" and b: "validate_batch E b = Inr u" and sub: "set (record_ids_of b) \<subseteq> record_ids_in s"
  shows "\<exists>s'. add_batch b s = Inr (bid_of b \<notin> batch_ids_in s, s')"
proof -
  obtain t where "dget b ''created_at'' = JInt t" "0 \<le> t" "t \<le> MAX_SAFE_JSON_INTEGER"
    using validate_batch_created_at [OF b] by blast
  then have "sql_int (int_of_json (dget b ''created_at'')) = Inr ()"
    by (simp add: sql_int_def int_of_json_def MAX_SAFE_JSON_INTEGER_def)
  moreover have "\<exists>rb. link_records (record_ids_in s) (bid_of b) rids pos rb0 = Inr rb"
    if "set rids \<subseteq> record_ids_in s" for rids pos rb0
    using that by (induction rids arbitrary: pos rb0) auto
  ultimately show ?thesis using sub by (simp add: add_batch_eq_Inr)
qed

section \<open>Anchors, commitments and blocks\<close>

lemma add_anchor_eq_Inr:
  "add_anchor a s = Inr (created, s') \<longleftrightarrow> sql_int (a_vout a) = Inr () \<and> sql_int (a_anchored_at a) = Inr ()
     \<and> (\<forall>h. a_block_height a = Some h \<longrightarrow> sql_int h = Inr ()) \<and> a_batch_id a \<in> batch_ids_in s
     \<and> created = (a_point a \<notin> a_point ` set (all_rows (anchors_t s)))
     \<and> s' = s\<lparr>anchors_t := snd (upsert a_point (\<lambda>_ new. new) a (anchors_t s))\<rparr>"
  by (auto simp: add_anchor_def bindE_eq_Inr case_prod_unfold Let_def all_rows_upsert batch_ids_in_def
      split: option.splits)

text \<open>Storing an anchor replaces the one of the same transaction output and no other.\<close>

lemma add_anchor_rows:
  assumes "add_anchor a s = Inr (created, s')" "anchors_ok s"
  shows "set (all_rows (anchors_t s')) = insert a {a' \<in> set (all_rows (anchors_t s)). a_point a' \<noteq> a_point a}"
  using assms by (auto simp: add_anchor_eq_Inr all_rows_upsert image_iff)

lemma index_ok_add_anchor:
  assumes "index_ok E s" "add_anchor a s = Inr (created, s')"
  shows "index_ok E s'"
proof -
  have "table_ok a_point (anchors_t s')"
    using assms by (auto simp: add_anchor_eq_Inr index_ok_def anchors_ok_def intro!: table_ok_upsert)
  moreover have "\<forall>a' \<in> set (all_rows (anchors_t s')). a_batch_id a' \<in> batch_ids_in s \<and> anchor_ints a'"
    using add_anchor_rows [OF assms(2)] assms
    by (auto simp: add_anchor_eq_Inr index_ok_def anchors_ok_def anchor_ints_def)
  ultimately show ?thesis
    using assms by (auto simp: add_anchor_eq_Inr index_ok_def records_ok_def batches_ok_def links_ok_def
        anchors_ok_def blocks_ok_def batch_ids_in_def record_ids_in_def)
qed

lemma merge_commitment_point [simp]: "c_point (merge_commitment old new) = c_point new"
  by (simp add: c_point_def merge_commitment_def)

lemma add_commitment_eq_Inr:
  "add_commitment c s = Inr (created, s') \<longleftrightarrow>
     (\<forall>i \<in> {c_vout c, c_block_height c, c_block_time c, c_discovered_at c}. sql_int i = Inr ())
     \<and> created = (c_point c \<notin> c_point ` set (all_rows (commitments_t s)))
     \<and> s' = s\<lparr>commitments_t := snd (upsert c_point merge_commitment c (commitments_t s))\<rparr>"
  by (auto simp: add_commitment_def bindE_eq_Inr forE_eq_Inr case_prod_unfold Let_def all_rows_upsert)

lemma index_ok_commitments:
  assumes "index_ok E s" "table_ok c_point t"
  shows "index_ok E (s\<lparr>commitments_t := t\<rparr>)"
  using assms by (auto simp: index_ok_defs)

lemma index_ok_add_commitment:
  "index_ok E s \<Longrightarrow> add_commitment c s = Inr (created, s') \<Longrightarrow> index_ok E s'"
  by (auto simp: add_commitment_eq_Inr intro!: index_ok_commitments table_ok_upsert)
     (auto simp: index_ok_def anchors_ok_def)

lemma index_ok_mark_resolved: "index_ok E s \<Longrightarrow> index_ok E (mark_commitment_resolved txid vout s)"
  unfolding mark_commitment_resolved_def
  by (intro index_ok_commitments table_ok_update) (auto simp: index_ok_def anchors_ok_def c_point_def)

lemma index_ok_add_block:
  assumes "index_ok E s" "add_scanned_block b s = Inr s'"
  shows "index_ok E s'"
proof -
  have s': "s' = s\<lparr>bitcoin_blocks := filter (\<lambda>b'. bl_height b' \<noteq> bl_height b \<and> bl_hash b' \<noteq> bl_hash b)
      (bitcoin_blocks s) @ [b]\<rparr>"
    using assms(2) by (auto simp: add_scanned_block_def bindE_eq_Inr)
  have "blocks_ok s'"
    using assms(1) by (auto simp: s' index_ok_def blocks_ok_def distinct_map_filter)
  with assms(1) show ?thesis by (auto simp: s' index_ok_def records_ok_def batches_ok_def links_ok_def
        anchors_ok_def batch_ids_in_def record_ids_in_def)
qed

lemma scanned_block_iff:
  "blocks_ok s \<Longrightarrow> scanned_block s h = Some b \<longleftrightarrow> b \<in> set (bitcoin_blocks s) \<and> bl_height b = h"
  by (simp add: scanned_block_def blocks_ok_def find_unique)

lemma latest_scanned_block_max:
  assumes "blocks_ok s" "latest_scanned_block s = Some b"
  shows "b \<in> set (bitcoin_blocks s)" "\<forall>b' \<in> set (bitcoin_blocks s). bl_height b' \<le> bl_height b"
  using assms by (auto simp: latest_scanned_block_def scanned_block_iff split: if_splits)

lemma latest_scanned_block_None: "blocks_ok s \<Longrightarrow> latest_scanned_block s = None \<longleftrightarrow> bitcoin_blocks s = []"
proof -
  assume ok: "blocks_ok s"
  have "latest_scanned_block s \<noteq> None" if ne: "bitcoin_blocks s \<noteq> []"
  proof -
    have "Max (bl_height ` set (bitcoin_blocks s)) \<in> bl_height ` set (bitcoin_blocks s)"
      using ne by (intro Max_in) auto
    then obtain b where "b \<in> set (bitcoin_blocks s)" "bl_height b = Max (bl_height ` set (bitcoin_blocks s))" by auto
    then have "scanned_block s (Max (bl_height ` set (bitcoin_blocks s))) = Some b"
      by (simp add: scanned_block_iff [OF ok])
    with ne show ?thesis by (simp add: latest_scanned_block_def)
  qed
  then show ?thesis by (auto simp: latest_scanned_block_def)
qed

section \<open>Rewinding\<close>

lemma rewind_rows:
  "all_rows (commitments_t (rewind_bitcoin_scan h s)) =
     filter (\<lambda>c. c_block_height c \<le> h) (all_rows (commitments_t s))"
  "bitcoin_blocks (rewind_bitcoin_scan h s) = filter (\<lambda>b. bl_height b \<le> h) (bitcoin_blocks s)"
  "all_rows (anchors_t (rewind_bitcoin_scan h s)) =
     map (\<lambda>a. if \<exists>c \<in> set (all_rows (commitments_t s)). h < c_block_height c \<and> c_point c = a_point a
         then a\<lparr>a_status := str ''reorganised''\<rparr> else a) (all_rows (anchors_t s))"
proof -
  show "all_rows (commitments_t (rewind_bitcoin_scan h s)) =
     filter (\<lambda>c. c_block_height c \<le> h) (all_rows (commitments_t s))"
    "bitcoin_blocks (rewind_bitcoin_scan h s) = filter (\<lambda>b. bl_height b \<le> h) (bitcoin_blocks s)"
    by (simp_all add: rewind_bitcoin_scan_def Let_def all_rows_delete not_less)
  show "all_rows (anchors_t (rewind_bitcoin_scan h s)) =
     map (\<lambda>a. if \<exists>c \<in> set (all_rows (commitments_t s)). h < c_block_height c \<and> c_point c = a_point a
         then a\<lparr>a_status := str ''reorganised''\<rparr> else a) (all_rows (anchors_t s))"
    by (auto simp: rewind_bitcoin_scan_def Let_def all_rows_update image_iff)
qed

lemma index_ok_rewind: "index_ok E s \<Longrightarrow> index_ok E (rewind_bitcoin_scan h s)"
proof -
  assume ok: "index_ok E s"
  let ?s = "rewind_bitcoin_scan h s"
  have "table_ok a_point (anchors_t ?s)" "table_ok c_point (commitments_t ?s)"
    using ok by (auto simp: rewind_bitcoin_scan_def Let_def index_ok_def anchors_ok_def a_point_def
        intro!: table_ok_update table_ok_delete)
  moreover have "\<forall>a \<in> set (all_rows (anchors_t ?s)). a_batch_id a \<in> batch_ids_in s \<and> anchor_ints a"
    using ok by (auto simp: rewind_rows index_ok_def anchors_ok_def anchor_ints_def)
  moreover have "batch_ids_in ?s = batch_ids_in s" "record_ids_in ?s = record_ids_in s"
    "records_t ?s = records_t s" "batches_t ?s = batches_t s" "record_batches ?s = record_batches s"
    by (simp_all add: rewind_bitcoin_scan_def Let_def batch_ids_in_def record_ids_in_def)
  moreover have "blocks_ok ?s"
    using ok by (auto simp: rewind_rows index_ok_def blocks_ok_def distinct_map_filter)
  ultimately show ?thesis
    using ok by (simp add: index_ok_def records_ok_def batches_ok_def links_ok_def anchors_ok_def)
qed

text \<open>What a record's anchored state is read from.\<close>

lemma anchored_iff:
  "rid \<in> anchored_record_ids s \<longleftrightarrow> (\<exists>b p a. (rid, b, p) \<in> set (record_batches s)
     \<and> a \<in> set (all_rows (anchors_t s)) \<and> a_batch_id a = b \<and> is_confirmed a)"
  by (force simp: anchored_record_ids_def list_ex_iff)

lemma anchored_mono:
  assumes "\<And>a. a \<in> set (all_rows (anchors_t s')) \<Longrightarrow> is_confirmed a \<Longrightarrow>
      \<exists>a' \<in> set (all_rows (anchors_t s)). is_confirmed a' \<and> a_batch_id a' = a_batch_id a"
    and "record_batches s' = record_batches s"
  shows "anchored_record_ids s' \<subseteq> anchored_record_ids s"
  using assms by (fastforce simp: anchored_iff)

end
