(* ===== verification/Bundles.thy ===== *)
theory Bundles
  imports Packages
begin

text \<open>
  \<^verbatim>\<open>src/hap/proofs.py\<close> and \<^verbatim>\<open>src/hap/archive.py\<close>: proof bundles and snapshots, the two documents a
  node exports, and their validation. A snapshot is closed under references: targets of records,
  records of batches, batches of anchors.
\<close>

section \<open>Proof bundles\<close>

definition PROOF_BUNDLE_FIELDS :: "string list" where
  "PROOF_BUNDLE_FIELDS = [''schema'', ''version'', ''record'', ''proofs'', ''bundle_id'']"

definition PROOF_FIELDS :: "string list" where
  "PROOF_FIELDS = [''schema'', ''version'', ''record_id'', ''batch'', ''index'', ''path'', ''anchors'']"

definition PROOF_STEP_FIELDS :: "string list" where
  "PROOF_STEP_FIELDS = [''sibling'', ''side'']"

abbreviation bundle_error :: "string \<Rightarrow> exn" where
  "bundle_error \<equiv> Exn ProofBundleError"

definition proof_bundle_body :: "json \<Rightarrow> json" where
  "proof_bundle_body b = dpop ''bundle_id'' b"

definition calculate_proof_bundle_id :: "env \<Rightarrow> json \<Rightarrow> ustr result" where
  "calculate_proof_bundle_id E b =
     bindE (canonical_json_bytes (proof_bundle_body b)) (\<lambda>bs. Inr (sha256_hex E bs))"

definition create_proof_bundle :: "env \<Rightarrow> json \<Rightarrow> json list \<Rightarrow> json result" where
  "create_proof_bundle E r proofs =
     (let b = obj [(''schema'', JStr (str ''hap.proof-bundle'')), (''version'', JInt 1),
        (''record'', r), (''proofs'', JList proofs)]
      in bindE (calculate_proof_bundle_id E b) (\<lambda>i. Inr (dput ''bundle_id'' (JStr i) b)))"

text \<open>\<open>_validate_digest\<close>\<close>

definition bundle_digest :: "json \<Rightarrow> unit result" where
  "bundle_digest v = (case v of
     JStr s \<Rightarrow>
       if length s \<noteq> 64 then Inl (bundle_error ''must be a 32-byte hexadecimal digest'')
       else (case fromhex_opt s of
          Some raw \<Rightarrow> if length raw \<noteq> 32
            then Inl (bundle_error ''must be a 32-byte hexadecimal digest'') else Inr ()
        | None \<Rightarrow> Inl (bundle_error ''must be a 32-byte hexadecimal digest''))
   | _ \<Rightarrow> Inl (bundle_error ''must be a 32-byte hexadecimal digest''))"

lemma bundle_digest_eq_Inr [result_simps]: "bundle_digest v = Inr u \<longleftrightarrow> is_hex_digest v"
  by (auto simp: bundle_digest_def is_hex_digest_def split: json.splits option.splits)

definition validate_step :: "json \<Rightarrow> unit result" where
  "validate_step step =
     (if \<not> has_fields step PROOF_STEP_FIELDS
      then Inl (bundle_error ''proof step fields do not match the schema'')
      else bindE (bundle_digest (dget step ''sibling'')) (\<lambda>_.
        condE (in_str_set (dget step ''side'') [''left'', ''right'']) (Inr ())
          (Inl (bundle_error ''proof side must be left or right''))))"

definition validate_bundle_proof :: "env \<Rightarrow> json \<Rightarrow> json \<Rightarrow> unit result" where
  "validate_bundle_proof E r p =
     (if \<not> has_fields p PROOF_FIELDS
      then Inl (bundle_error ''proof fields do not match the versioned schema'')
      else if dget p ''schema'' \<noteq> JStr (str ''hap.proof'') \<or> \<not> py_eq (dget p ''version'') (JInt 3)
      then Inl (bundle_error ''unsupported proof schema or version'')
      else if \<not> py_eq (dget p ''record_id'') (dget r ''record_id'')
      then Inl (bundle_error ''proof record_id does not match bundle record'')
      else bindE (validate_batch E (dget p ''batch'')) (\<lambda>_.
      case dget p ''index'' of
        JInt i \<Rightarrow>
          if i < 0 then Inl (bundle_error ''proof index must be a non-negative integer'')
          else if int (length (record_ids_of (dget p ''batch''))) \<le> i
          then Inl (bundle_error ''proof index is outside the batch'')
          else (case dget p ''path'' of
            JList path \<Rightarrow>
              if 64 < length path then Inl (bundle_error ''proof path is invalid'')
              else bindE (forE validate_step path) (\<lambda>_.
                case dget p ''anchors'' of
                  JList anchors \<Rightarrow> forE validate_anchor_reference anchors
                | _ \<Rightarrow> Inl (bundle_error ''proof anchors must be a list''))
          | _ \<Rightarrow> Inl (bundle_error ''proof path is invalid''))
      | _ \<Rightarrow> Inl (bundle_error ''proof index must be a non-negative integer'')))"

definition validate_proof_bundle_shape :: "env \<Rightarrow> json \<Rightarrow> unit result" where
  "validate_proof_bundle_shape E b =
     (if \<not> has_fields b PROOF_BUNDLE_FIELDS
      then Inl (bundle_error ''proof bundle fields do not match the versioned schema'')
      else if dget b ''schema'' \<noteq> JStr (str ''hap.proof-bundle'') \<or> \<not> py_eq (dget b ''version'') (JInt 1)
      then Inl (bundle_error ''unsupported proof bundle schema or version'')
      else if \<not> is_dict (dget b ''record'') then Inl (bundle_error ''proof bundle record is required'')
      else bindE (validate_record E (dget b ''record'')) (\<lambda>_.
      case dget b ''proofs'' of
        JList proofs \<Rightarrow> bindE (forE (validate_bundle_proof E (dget b ''record'')) proofs) (\<lambda>_.
          bindE (calculate_proof_bundle_id E b) (\<lambda>i.
          if dget b ''bundle_id'' \<noteq> JStr i
          then Inl (bundle_error ''bundle_id does not match proof bundle contents'')
          else Inr ()))
      | _ \<Rightarrow> Inl (bundle_error ''proofs must be a list'')))"

lemma validate_bundle_proof_facts:
  assumes "validate_bundle_proof E r p = Inr u"
  shows "validate_batch E (dget p ''batch'') = Inr ()"
    "py_eq (dget p ''record_id'') (dget r ''record_id'')"
    "\<exists>i. dget p ''index'' = JInt i \<and> 0 \<le> i \<and> i < int (length (record_ids_of (dget p ''batch'')))"
    "\<exists>path. dget p ''path'' = JList path \<and> length path \<le> 64 \<and> (\<forall>s \<in> set path. validate_step s = Inr ())"
    "\<exists>as. dget p ''anchors'' = JList as \<and> (\<forall>a \<in> set as. validate_anchor_reference a = Inr ())"
  using assms unfolding validate_bundle_proof_def
  by (auto simp: result_simps split: json.splits if_splits)

lemma validate_proof_bundle_eq_Inr:
  "validate_proof_bundle_shape E b = Inr u \<longleftrightarrow> has_fields b PROOF_BUNDLE_FIELDS
     \<and> dget b ''schema'' = JStr (str ''hap.proof-bundle'') \<and> py_eq (dget b ''version'') (JInt 1)
     \<and> is_dict (dget b ''record'') \<and> validate_record E (dget b ''record'') = Inr ()
     \<and> (\<exists>proofs. dget b ''proofs'' = JList proofs
          \<and> (\<forall>p \<in> set proofs. validate_bundle_proof E (dget b ''record'') p = Inr ()))
     \<and> (\<exists>i. calculate_proof_bundle_id E b = Inr i \<and> dget b ''bundle_id'' = JStr i)"
  unfolding validate_proof_bundle_shape_def
  by (cases "dget b ''proofs''") (auto simp: result_simps)

section \<open>Snapshots\<close>

definition SNAPSHOT_FIELDS :: "string list" where
  "SNAPSHOT_FIELDS = [''schema'', ''version'', ''created_at'', ''records'', ''batches'', ''anchors'', ''snapshot_id'']"

abbreviation snapshot_error :: "string \<Rightarrow> exn" where
  "snapshot_error \<equiv> Exn SnapshotValidationError"

definition snapshot_body :: "json \<Rightarrow> json" where
  "snapshot_body s = dpop ''snapshot_id'' s"

definition calculate_snapshot_id :: "env \<Rightarrow> json \<Rightarrow> ustr result" where
  "calculate_snapshot_id E s =
     bindE (canonical_json_bytes (snapshot_body s)) (\<lambda>bs. Inr (sha256_hex E bs))"

definition list_field :: "json \<Rightarrow> string \<Rightarrow> json list" where
  "list_field v k = (case dget v k of JList xs \<Rightarrow> xs | _ \<Rightarrow> [])"

definition is_list :: "json \<Rightarrow> bool" where
  "is_list v = (case v of JList _ \<Rightarrow> True | _ \<Rightarrow> False)"

fun snapshot_records :: "env \<Rightarrow> json list \<Rightarrow> ustr set \<Rightarrow> ustr set result" where
  "snapshot_records E [] ids = Inr ids"
| "snapshot_records E (r # rs) ids = bindE (validate_record E r) (\<lambda>_.
     if rid_of r \<in> ids then Inl (snapshot_error ''snapshot contains a duplicate record'')
     else snapshot_records E rs (insert (rid_of r) ids))"

text \<open>\<open>if target and target not in record_ids\<close>\<close>

definition snapshot_target :: "ustr set \<Rightarrow> json \<Rightarrow> unit result" where
  "snapshot_target ids r = (case dget r ''target_record_id'' of
     JStr (c # cs) \<Rightarrow> if c # cs \<in> ids then Inr ()
       else Inl (snapshot_error ''snapshot is missing target record'')
   | _ \<Rightarrow> Inr ())"

fun snapshot_batches :: "env \<Rightarrow> ustr set \<Rightarrow> json list \<Rightarrow> ustr set \<Rightarrow> ustr set result" where
  "snapshot_batches E ids [] bids = Inr bids"
| "snapshot_batches E ids (b # bs) bids = bindE (validate_batch E b) (\<lambda>_.
     let bid = text_of (dget b ''batch_id'') in
     if bid \<in> bids then Inl (snapshot_error ''snapshot contains a duplicate batch'')
     else if \<not> set (record_ids_of b) \<subseteq> ids
     then Inl (snapshot_error ''batch references a record missing from the snapshot'')
     else snapshot_batches E ids bs (insert bid bids))"

fun snapshot_anchors :: "ustr set \<Rightarrow> json list \<Rightarrow> (ustr \<times> json) set \<Rightarrow> unit result" where
  "snapshot_anchors bids [] points = Inr ()"
| "snapshot_anchors bids (a # as) points = bindE (validate_anchor_reference a) (\<lambda>_.
     let point = (text_of (dget a ''txid''), dget a ''vout'') in
     if point \<in> points then Inl (snapshot_error ''snapshot contains a duplicate anchor output'')
     else if text_of (dget a ''batch_id'') \<notin> bids
     then Inl (snapshot_error ''anchor references a batch missing from the snapshot'')
     else snapshot_anchors bids as (insert point points))"

definition validate_snapshot :: "env \<Rightarrow> json \<Rightarrow> unit result" where
  "validate_snapshot E s =
     (if \<not> has_fields s SNAPSHOT_FIELDS
      then Inl (snapshot_error ''snapshot fields do not match the versioned schema'')
      else if dget s ''schema'' \<noteq> JStr (str ''hap.snapshot'') \<or> \<not> py_eq (dget s ''version'') (JInt 1)
      then Inl (snapshot_error ''unsupported snapshot schema or version'')
      else if \<not> is_nonneg_int (dget s ''created_at'')
      then Inl (snapshot_error ''snapshot created_at must be a non-negative integer'')
      else if \<not> (is_list (dget s ''records'') \<and> is_list (dget s ''batches'') \<and> is_list (dget s ''anchors''))
      then Inl (snapshot_error ''must be a list'')
      else bindE (calculate_snapshot_id E s) (\<lambda>i.
      if dget s ''snapshot_id'' \<noteq> JStr i
      then Inl (snapshot_error ''snapshot_id does not match snapshot contents'')
      else bindE (snapshot_records E (list_field s ''records'') {}) (\<lambda>ids.
      bindE (forE (snapshot_target ids) (list_field s ''records'')) (\<lambda>_.
      bindE (snapshot_batches E ids (list_field s ''batches'') {}) (\<lambda>bids.
      snapshot_anchors bids (list_field s ''anchors'') {})))))"

lemma snapshot_records_eq_Inr:
  "snapshot_records E rs ids = Inr ids' \<longleftrightarrow> (\<forall>r \<in> set rs. validate_record E r = Inr ())
     \<and> distinct (map rid_of rs) \<and> rid_of ` set rs \<inter> ids = {} \<and> ids' = ids \<union> rid_of ` set rs"
  by (induction rs arbitrary: ids) (auto simp: bindE_eq_Inr)

lemma snapshot_target_eq_Inr:
  "snapshot_target ids r = Inr u \<longleftrightarrow> (\<forall>t. dget r ''target_record_id'' = JStr t \<and> t \<noteq> [] \<longrightarrow> t \<in> ids)"
  by (auto simp: snapshot_target_def split: json.splits list.splits)

lemma snapshot_batches_eq_Inr:
  "snapshot_batches E ids bs bids = Inr bids' \<longleftrightarrow> (\<forall>b \<in> set bs. validate_batch E b = Inr ()
       \<and> set (record_ids_of b) \<subseteq> ids)
     \<and> distinct (map (\<lambda>b. text_of (dget b ''batch_id'')) bs)
     \<and> (\<lambda>b. text_of (dget b ''batch_id'')) ` set bs \<inter> bids = {}
     \<and> bids' = bids \<union> (\<lambda>b. text_of (dget b ''batch_id'')) ` set bs"
  by (induction bs arbitrary: bids) (auto simp: bindE_eq_Inr Let_def)

lemma snapshot_anchors_eq_Inr:
  "snapshot_anchors bids as points = Inr u \<longleftrightarrow> (\<forall>a \<in> set as. validate_anchor_reference a = Inr ()
       \<and> text_of (dget a ''batch_id'') \<in> bids)
     \<and> distinct (map (\<lambda>a. (text_of (dget a ''txid''), dget a ''vout'')) as)
     \<and> (\<lambda>a. (text_of (dget a ''txid''), dget a ''vout'')) ` set as \<inter> points = {}"
  by (induction as arbitrary: points) (auto simp: bindE_eq_Inr Let_def)

text \<open>What a valid snapshot is: a well-typed index in itself, closed under every reference.\<close>

definition snapshot_closed :: "env \<Rightarrow> json list \<Rightarrow> json list \<Rightarrow> json list \<Rightarrow> bool" where
  "snapshot_closed E rs bs as \<longleftrightarrow>
     (\<forall>r \<in> set rs. validate_record E r = Inr ()) \<and> distinct (map rid_of rs)
     \<and> (\<forall>r \<in> set rs. \<forall>t. dget r ''target_record_id'' = JStr t \<longrightarrow> t \<in> rid_of ` set rs)
     \<and> (\<forall>b \<in> set bs. validate_batch E b = Inr () \<and> set (record_ids_of b) \<subseteq> rid_of ` set rs)
     \<and> distinct (map (\<lambda>b. text_of (dget b ''batch_id'')) bs)
     \<and> (\<forall>a \<in> set as. validate_anchor_reference a = Inr ()
          \<and> text_of (dget a ''batch_id'') \<in> (\<lambda>b. text_of (dget b ''batch_id'')) ` set bs)
     \<and> distinct (map (\<lambda>a. (text_of (dget a ''txid''), dget a ''vout'')) as)"

lemma record_target_nonempty:
  "validate_record E r = Inr u \<Longrightarrow> dget r ''target_record_id'' = JStr t \<Longrightarrow> t \<noteq> []"
  using validate_links_facts [of r "()"]
  by (cases "\<exists>k \<in> set TARGET_KINDS. dget r ''kind'' = JStr (str k)")
    (auto simp: validate_record_eq_Inr is_hex_digest_def)

lemma validate_snapshot_eq_Inr:
  "validate_snapshot E s = Inr u \<longleftrightarrow> has_fields s SNAPSHOT_FIELDS
     \<and> dget s ''schema'' = JStr (str ''hap.snapshot'') \<and> py_eq (dget s ''version'') (JInt 1)
     \<and> is_nonneg_int (dget s ''created_at'')
     \<and> is_list (dget s ''records'') \<and> is_list (dget s ''batches'') \<and> is_list (dget s ''anchors'')
     \<and> (\<exists>i. calculate_snapshot_id E s = Inr i \<and> dget s ''snapshot_id'' = JStr i)
     \<and> snapshot_closed E (list_field s ''records'') (list_field s ''batches'') (list_field s ''anchors'')"
proof -
  have "(\<forall>r \<in> set rs. validate_record E r = Inr ()) \<Longrightarrow>
      (\<forall>r \<in> set rs. \<forall>t. dget r ''target_record_id'' = JStr t \<and> t \<noteq> [] \<longrightarrow> t \<in> X)
      \<longleftrightarrow> (\<forall>r \<in> set rs. \<forall>t. dget r ''target_record_id'' = JStr t \<longrightarrow> t \<in> X)" for rs X
    using record_target_nonempty by blast
  then show ?thesis
    unfolding validate_snapshot_def snapshot_closed_def
    by (auto simp: bindE_eq_Inr forE_eq_Inr if_raise_eq_Inr snapshot_records_eq_Inr snapshot_target_eq_Inr
        snapshot_batches_eq_Inr snapshot_anchors_eq_Inr)
qed

end
