(* ===== verification/Service.thy ===== *)
theory Service
  imports Evidence Index Bundles
begin

text \<open>
  \<^verbatim>\<open>src/hap/service.py\<close>: \<open>HistoryAnchorService\<close>, the operations on records, batches, packages and
  snapshots. A node is the index, the evidence store, the counter of
  the requests it has made and the states of the synchronisation with its peers.
  An operation is an \<open>op\<close> over nodes: each storage call is one transaction, and what was stored
  before an exception stays stored. The clock is an argument.

  The two loops that import a set of records targets first (\<open>import_package\<close>, \<open>import_snapshot\<close>)
  are the same loop, \<open>import_pending\<close>; what it relies on is the locale \<open>record_importer\<close>.
\<close>

section \<open>Nodes\<close>

text \<open>The state of the synchronisation with a peer, which \<open>set_peer_sync_state\<close> keeps as JSON in the
  metadata table, under the key of the peer.\<close>

record peer_state =
  ps_peer :: ustr
  ps_epoch :: ustr
  ps_records :: int
  ps_batches :: int
  ps_anchors :: int

record node =
  ix :: index
  ev :: evidence_store
  calls :: nat
  peer_states :: "(ustr \<times> peer_state) list"

definition node_ok :: "env \<Rightarrow> node \<Rightarrow> bool" where
  "node_ok E n \<longleftrightarrow> index_ok E (ix n) \<and> evidence_ok E (ev n)"

abbreviation askM :: "(index \<Rightarrow> 'a) \<Rightarrow> (node, 'a) op" where
  "askM f \<equiv> readM (\<lambda>n. f (ix n))"

definition storeM :: "(index \<Rightarrow> ('a \<times> index) result) \<Rightarrow> (node, 'a) op" where
  "storeM f = updateM (\<lambda>n. bindE (f (ix n)) (\<lambda>(x, s). Inr (x, n\<lparr>ix := s\<rparr>)))"

abbreviation service_error :: "string \<Rightarrow> exn" where
  "service_error \<equiv> Exn ServiceError"

abbreviation missing_dependency :: "string \<Rightarrow> exn" where
  "missing_dependency \<equiv> Exn MissingDependencyError"

text \<open>\<open>except Exception as exc: raise ServiceError(str(exc)) from exc\<close>\<close>

abbreviation as_service_error :: "'a result \<Rightarrow> 'a result" where
  "as_service_error \<equiv> reraise (\<lambda>_. True) (service_error ''str(exc)'')"

lemma storeM_eq_Inr [result_simps]:
  "storeM f n = (Inr x, n') \<longleftrightarrow> (\<exists>s. f (ix n) = Inr (x, s) \<and> n' = n\<lparr>ix := s\<rparr>)"
  by (auto simp: storeM_def result_simps)

lemma preserves_storeM:
  "(\<And>s x s'. index_ok E s \<Longrightarrow> f s = Inr (x, s') \<Longrightarrow> index_ok E s') \<Longrightarrow> preserves (node_ok E) (storeM f)"
  unfolding storeM_def
  by (rule preserves_update) (auto simp: bindE_eq_Inr node_ok_def split: prod.splits)

section \<open>Submission\<close>

definition target_of :: "json \<Rightarrow> ustr option" where
  "target_of r = (case dget r ''target_record_id'' of JStr (c # cs) \<Rightarrow> Some (c # cs) | _ \<Rightarrow> None)"

definition submit_record :: "env \<Rightarrow> (json \<Rightarrow> unit result) option \<Rightarrow> bool \<Rightarrow> json \<Rightarrow> (node, ustr \<times> string) op" where
  "submit_record E local_policy require_local_target r =
     bindM (liftM (reraise is_ValueError (service_error ''str(exc)'')
       (bindE (validate_record E r) (\<lambda>_. case local_policy of None \<Rightarrow> Inr () | Some policy \<Rightarrow> policy r)))) (\<lambda>_.
     bindM (askM (\<lambda>s. get_record s (rid_of r))) (\<lambda>existing.
     if existing \<noteq> None then returnM (rid_of r, ''already_exists'')
     else bindM (askM (\<lambda>s. case target_of r of None \<Rightarrow> False | Some t \<Rightarrow> get_record s t = None)) (\<lambda>no_target.
     if require_local_target \<and> no_target
     then raiseM (service_error ''target_record_id does not exist in this index'')
     else bindM (storeM (\<lambda>s. Inr (add_record r s))) (\<lambda>_. returnM (rid_of r, ''accepted'')))))"

section \<open>Batches and packages\<close>

text \<open>The records that fit by the estimate, in order.\<close>

fun choose_records :: "int \<Rightarrow> json list \<Rightarrow> json list \<Rightarrow> int \<Rightarrow> json list result" where
  "choose_records max_bytes [] records estimated = Inr records"
| "choose_records max_bytes (r # candidates) records estimated =
     bindE (canonical_json_bytes r) (\<lambda>bs.
     let record_bytes = int (length bs) + 96 in
     if records \<noteq> [] \<and> max_bytes < estimated + record_bytes then Inr records
     else if records = [] \<and> max_bytes < estimated + record_bytes
     then Inl (service_error ''the next record cannot fit within the configured package limit'')
     else choose_records max_bytes candidates (records @ [r]) (estimated + record_bytes))"

text \<open>The loop that drops the last record until the package fits.\<close>

function fitting_batch :: "env \<Rightarrow> ustr \<Rightarrow> int \<Rightarrow> int \<Rightarrow> json list \<Rightarrow> json result" where
  "fitting_batch E network created_at max_bytes records =
     (if records = [] then Inl (service_error ''no record can fit within the configured package limit'')
      else bindE (create_batch_manifest E (map rid_of records) network created_at) (\<lambda>batch.
      bindE (create_package E batch records) (\<lambda>package.
      bindE (canonical_json_bytes package) (\<lambda>bs.
      if int (length bs) \<le> max_bytes then Inr batch
      else fitting_batch E network created_at max_bytes (butlast records)))))"
  by pat_completeness auto
termination
  by (relation "measure (\<lambda>(E, network, created_at, max_bytes, records). length records)") auto

declare fitting_batch.simps [simp del]

definition create_batch :: "env \<Rightarrow> int \<Rightarrow> ustr \<Rightarrow> int \<Rightarrow> int \<Rightarrow> (node, json) op" where
  "create_batch E now network limit max_package_bytes =
     bindM (askM (\<lambda>s. list_records s limit True)) (\<lambda>candidates.
     if candidates = [] then raiseM (service_error ''there are no unbatched records'')
     else bindM (liftM (choose_records max_package_bytes candidates [] 4096)) (\<lambda>records.
     bindM (liftM (fitting_batch E network now max_package_bytes records)) (\<lambda>batch.
     bindM (storeM (add_batch batch)) (\<lambda>_. returnM batch))))"

definition create_direct_batch :: "env \<Rightarrow> int \<Rightarrow> ustr \<Rightarrow> ustr \<Rightarrow> (node, json) op" where
  "create_direct_batch E now record_id network =
     bindM (askM (\<lambda>s. get_record s record_id)) (\<lambda>r.
     if r = None then raiseM (service_error ''record not found'')
     else bindM (liftM (create_batch_manifest E [record_id] network now)) (\<lambda>batch.
     bindM (storeM (add_batch batch)) (\<lambda>_. returnM batch)))"

definition package_for_batch :: "env \<Rightarrow> index \<Rightarrow> ustr \<Rightarrow> json option result" where
  "package_for_batch E s batch_id = (case get_batch s batch_id of
     None \<Rightarrow> Inr None
   | Some batch \<Rightarrow>
       let records = records_by_ids s (record_ids_of batch) in
       if \<not> py_eq (JInt (int (length records))) (dget batch ''record_count'')
       then Inl (missing_dependency ''local batch is missing one or more committed records'')
       else bindE (create_package E batch records) (\<lambda>p. Inr (Some p)))"

definition import_batch :: "env \<Rightarrow> json \<Rightarrow> (node, ustr \<times> string) op" where
  "import_batch E batch =
     bindM (liftM (as_service_error (validate_batch E batch))) (\<lambda>_.
     bindM (askM (\<lambda>s. filter (\<lambda>rid. get_record s rid = None) (record_ids_of batch))) (\<lambda>missing.
     if missing \<noteq> []
     then raiseM (missing_dependency ''batch references records that are not present locally'')
     else bindM (storeM (add_batch batch)) (\<lambda>created.
       returnM (bid_of batch, if created then ''accepted'' else ''already_exists''))))"

section \<open>Importing records targets first\<close>

text \<open>\<open>{record["record_id"]: record for record in records}\<close>\<close>

definition pending_of :: "json list \<Rightarrow> (ustr \<times> json) list" where
  "pending_of rs = foldl (\<lambda>d r. put_pair (rid_of r) r d) [] rs"

text \<open>One pass of the \<open>while\<close> loop over a copy of the pending items: the items left, the number
  imported so far and whether any record was submitted.\<close>

fun import_pass :: "('s \<Rightarrow> ustr \<Rightarrow> bool) \<Rightarrow> (json \<Rightarrow> ('s, ustr \<times> string) op) \<Rightarrow> (ustr \<times> json) list
    \<Rightarrow> (ustr \<times> json) list \<Rightarrow> nat \<Rightarrow> bool \<Rightarrow> ('s, (ustr \<times> json) list \<times> nat \<times> bool) op" where
  "import_pass has submit [] pending imported progressed = returnM (pending, imported, progressed)"
| "import_pass has submit ((rid, r) # items) pending imported progressed =
     bindM (readM (\<lambda>s. case target_of r of None \<Rightarrow> False | Some t \<Rightarrow> \<not> has s t \<and> t \<in> fst ` set pending)) (\<lambda>waits.
     if waits then import_pass has submit items pending imported progressed
     else bindM (submit r) (\<lambda>(_, status).
       import_pass has submit items (filter (\<lambda>(k, _). k \<noteq> rid) pending)
         (if status = ''accepted'' then imported + 1 else imported) True))"

lemma import_pass_length:
  "import_pass has submit items pending imported progressed s = (Inr (pending', imported', progressed'), s') \<Longrightarrow>
     length pending' \<le> length pending \<and> set pending' \<subseteq> set pending
     \<and> (progressed' \<and> \<not> progressed \<and> fst ` set items \<subseteq> fst ` set pending \<longrightarrow> length pending' < length pending)"
proof (induction has submit items pending imported progressed arbitrary: s rule: import_pass.induct)
  case (1 has submit pending imported progressed)
  then show ?case by (auto simp: liftM_def)
next
  case (2 has submit rid r items pending imported progressed)
  let ?waits = "case target_of r of None \<Rightarrow> False | Some t \<Rightarrow> \<not> has s t \<and> t \<in> fst ` set pending"
  show ?case
  proof (cases ?waits)
    case True
    with 2(3) have "import_pass has submit items pending imported progressed s
        = (Inr (pending', imported', progressed'), s')" by (simp cong: if_cong)
    from 2(1) [OF True this] show ?thesis by auto
  next
    case False
    with 2(3) obtain x st s1 where step: "submit r s = (Inr (x, st), s1)"
      "import_pass has submit items (filter (\<lambda>(k, _). k \<noteq> rid) pending)
         (if st = ''accepted'' then imported + 1 else imported) True s1 = (Inr (pending', imported', progressed'), s')"
      by (auto simp: result_simps cong: if_cong)
    have le: "length (filter (\<lambda>(k, _). k \<noteq> rid) pending) \<le> length pending" by simp
    have lt: "rid \<in> fst ` set pending \<Longrightarrow> length (filter (\<lambda>(k, _). k \<noteq> rid) pending) < length pending"
      by (auto intro!: length_filter_less)
    from 2(2) [of False, OF _ step(2)]
    have "length pending' \<le> length (filter (\<lambda>(k, _). k \<noteq> rid) pending)"
      "set pending' \<subseteq> {x \<in> set pending. case x of (k, _) \<Rightarrow> k \<noteq> rid}" by auto
    moreover from this(1) le have "length pending' \<le> length pending" by (rule order_trans)
    moreover have "length pending' < length pending" if "rid \<in> fst ` set pending"
      using calculation(1) lt [OF that] by (rule order_le_less_trans)
    ultimately show ?thesis by auto
  qed
qed

text \<open>The \<open>while\<close> loop: every pass that makes progress shortens the pending items.\<close>

function import_pending :: "exn \<Rightarrow> ('s \<Rightarrow> ustr \<Rightarrow> bool) \<Rightarrow> (json \<Rightarrow> ('s, ustr \<times> string) op) \<Rightarrow> (ustr \<times> json) list
    \<Rightarrow> nat \<Rightarrow> 's \<Rightarrow> nat result \<times> 's" where
  "import_pending unresolved has submit pending imported s =
     (if pending = [] then (Inr imported, s)
      else case import_pass has submit pending pending imported False s of
        (Inl e, s') \<Rightarrow> (Inl e, s')
      | (Inr (pending', imported', progressed), s') \<Rightarrow>
          if \<not> progressed then (Inl unresolved, s')
          else import_pending unresolved has submit pending' imported' s')"
  by pat_completeness auto
termination
  by (relation "measure (\<lambda>(unresolved, has, submit, pending, imported, s). length pending)")
    (auto dest!: import_pass_length [OF sym] import_pass_length)

declare import_pending.simps [simp del]

definition import_package :: "env \<Rightarrow> json \<Rightarrow> (node, ustr \<times> ustr \<times> nat \<times> string) op" where
  "import_package E package =
     bindM (liftM (as_service_error (validate_package E package))) (\<lambda>_.
     bindM (import_pending (service_error ''package record graph contains unresolved targets'')
       (\<lambda>n t. get_record (ix n) t \<noteq> None) (submit_record E None False)
       (pending_of (records_of package)) 0) (\<lambda>imported.
     bindM (import_batch E (dget package ''batch'')) (\<lambda>(_, status).
     returnM (text_of (dget package ''package_id''), bid_of (dget package ''batch''), imported, status))))"

section \<open>Anchor references and snapshots\<close>

definition CHECKED_STATUSES :: "string list" where
  "CHECKED_STATUSES = [''broadcast'', ''confirmed'', ''invalid'', ''reorganised'']"

definition locally_checked :: "anchor option \<Rightarrow> bool" where
  "locally_checked existing = (case existing of None \<Rightarrow> False
     | Some a \<Rightarrow> a_status a \<in> str ` set CHECKED_STATUSES)"

definition opt_text :: "json \<Rightarrow> ustr option" where
  "opt_text v = (case v of JStr s \<Rightarrow> Some s | _ \<Rightarrow> None)"

definition opt_number :: "json \<Rightarrow> int option" where
  "opt_number v = (case v of JInt i \<Rightarrow> Some i | _ \<Rightarrow> None)"

text \<open>A reference from elsewhere keeps what this node found out about the output, and brings nothing
  but its own claim, marked unverified.\<close>

definition local_reference :: "json \<Rightarrow> anchor option \<Rightarrow> anchor" where
  "local_reference a existing =
     \<lparr>a_txid = text_of (dget a ''txid''), a_vout = int_of_json (dget a ''vout''),
      a_batch_id = text_of (dget a ''batch_id''), a_network = text_of (dget a ''network''),
      a_status = (case existing of Some old \<Rightarrow> if locally_checked existing then a_status old else str ''unverified''
         | None \<Rightarrow> str ''unverified''),
      a_anchored_at = (case existing of
           Some old \<Rightarrow> if locally_checked existing then a_anchored_at old else int_of_json (dget a ''anchored_at'')
         | None \<Rightarrow> int_of_json (dget a ''anchored_at'')),
      a_block_hash = (case existing of
           Some old \<Rightarrow> if locally_checked existing then a_block_hash old else opt_text (dget a ''block_hash'')
         | None \<Rightarrow> opt_text (dget a ''block_hash'')),
      a_block_height = (case existing of
           Some old \<Rightarrow> if locally_checked existing then a_block_height old else opt_number (dget a ''block_height'')
         | None \<Rightarrow> opt_number (dget a ''block_height''))\<rparr>"

definition import_anchor_reference :: "json \<Rightarrow> (node, ustr \<times> string) op" where
  "import_anchor_reference a =
     bindM (liftM (as_service_error (validate_anchor_reference a))) (\<lambda>_.
     bindM (askM (\<lambda>s. get_batch s (text_of (dget a ''batch_id'')))) (\<lambda>batch.
     case batch of
       None \<Rightarrow> raiseM (missing_dependency ''anchor batch is not present locally'')
     | Some b \<Rightarrow>
         if dget a ''network'' \<noteq> dget b ''network''
         then raiseM (service_error ''anchor network does not match batch'')
         else bindM (liftM (sql_int (int_of_json (dget a ''vout'')))) (\<lambda>_.
         bindM (askM (\<lambda>s. get_anchor s (text_of (dget a ''txid'')) (int_of_json (dget a ''vout'')))) (\<lambda>existing.
         if (case existing of None \<Rightarrow> False | Some old \<Rightarrow> a_batch_id old \<noteq> text_of (dget a ''batch_id''))
         then raiseM (service_error ''anchor txid is already associated with a different batch'')
         else bindM (storeM (add_anchor (local_reference a existing))) (\<lambda>created.
           returnM (text_of (dget a ''txid''), if created then ''accepted'' else ''updated''))))))"

definition export_snapshot :: "env \<Rightarrow> int \<Rightarrow> index \<Rightarrow> json result" where
  "export_snapshot E now s =
     (let snapshot = obj [(''schema'', JStr (str ''hap.snapshot'')), (''version'', JInt 1),
        (''created_at'', JInt now), (''records'', JList (list_records s 10000000 False)),
        (''batches'', JList (rev (list_batches s 10000000))),
        (''anchors'', JList (map anchor_as_dict (list_anchors s None)))]
      in bindE (calculate_snapshot_id E snapshot) (\<lambda>i.
         let snapshot = dput ''snapshot_id'' (JStr i) snapshot
         in bindE (validate_snapshot E snapshot) (\<lambda>_. Inr snapshot)))"

definition accepted_count :: "(ustr \<times> string) list \<Rightarrow> nat" where
  "accepted_count results = length (filter (\<lambda>(_, status). status = ''accepted'') results)"

definition import_snapshot :: "env \<Rightarrow> json \<Rightarrow> (node, nat \<times> nat \<times> nat) op" where
  "import_snapshot E snapshot =
     bindM (liftM (validate_snapshot E snapshot)) (\<lambda>_.
     bindM (import_pending (service_error ''snapshot record graph contains unresolved targets'')
       (\<lambda>n t. get_record (ix n) t \<noteq> None) (submit_record E None False)
       (pending_of (list_field snapshot ''records'')) 0) (\<lambda>records.
     bindM (mapM (import_batch E) (list_field snapshot ''batches'')) (\<lambda>batches.
     bindM (mapM import_anchor_reference (list_field snapshot ''anchors'')) (\<lambda>anchors.
     returnM (records, accepted_count batches, accepted_count anchors)))))"

end
