(* ===== verification/ServiceFacts.thy ===== *)
theory ServiceFacts
  imports Service
begin

text \<open>
  What the operations of \<^verbatim>\<open>src/hap/service.py\<close> on records, batches, packages and snapshots keep and
  achieve: \<open>node_ok\<close> is kept whether they return or raise, the import of a package or snapshot
  goes through when the targets of its records are not circular, a stored batch can always be
  packaged, and nothing that is imported makes a record count as anchored.
\<close>

section \<open>The invariant is kept\<close>

lemma preserves_submit_record [preserve]:
  assumes "wf_json r"
  shows "preserves (node_ok E) (submit_record E policy local r)"
  unfolding submit_record_def
proof (rule preserves_check_bind)
  fix u assume "reraise is_ValueError (service_error ''str(exc)'')
       (bindE (validate_record E r) (\<lambda>_. case policy of None \<Rightarrow> Inr () | Some policy \<Rightarrow> policy r)) = Inr u"
  then have v: "validate_record E r = Inr ()" by (auto simp: bindE_eq_Inr)
  have "preserves (node_ok E) (storeM (\<lambda>s. Inr (add_record r s)))"
    using index_ok_add_record [OF _ v assms] by (intro preserves_storeM) (metis Inr_inject snd_conv)
  then show "preserves (node_ok E) (bindM (askM (\<lambda>s. get_record s (rid_of r))) (\<lambda>existing.
     if existing \<noteq> None then returnM (rid_of r, ''already_exists'')
     else bindM (askM (\<lambda>s. case target_of r of None \<Rightarrow> False | Some t \<Rightarrow> get_record s t = None)) (\<lambda>no_target.
     if local \<and> no_target
     then raiseM (service_error ''target_record_id does not exist in this index'')
     else bindM (storeM (\<lambda>s. Inr (add_record r s))) (\<lambda>_. returnM (rid_of r, ''accepted'')))))"
    by (intro preserve)
qed

lemma create_batch_manifest_valid:
  "create_batch_manifest E ids network t = Inr b \<Longrightarrow> validate_batch E b = Inr ()"
  by (auto simp: create_batch_manifest_def Let_def bindE_eq_Inr split: if_splits)

lemma preserves_add_batch:
  assumes "validate_batch E b = Inr u" "wf_json b"
  shows "preserves (node_ok E) (storeM (add_batch b))"
  using index_ok_add_batch(1) [OF _ _ assms(2)] assms(1) by (intro preserves_storeM) auto

text \<open>What the loop of \<open>create_batch\<close> returns: a manifest of a prefix of the records whose package
  fits.\<close>

lemma fitting_batch_facts:
  "fitting_batch E network t max_bytes records = Inr b \<Longrightarrow>
     \<exists>n > 0. \<exists>p bs. n \<le> length records
       \<and> create_batch_manifest E (map rid_of (take n records)) network t = Inr b
       \<and> create_package E b (take n records) = Inr p \<and> canonical_json_bytes p = Inr bs
       \<and> int (length bs) \<le> max_bytes"
proof (induction E network t max_bytes records rule: fitting_batch.induct)
  case (1 E network t max_bytes records)
  from 1(2) obtain b1 p bs where r: "records \<noteq> []"
    "create_batch_manifest E (map rid_of records) network t = Inr b1"
    "create_package E b1 records = Inr p" "canonical_json_bytes p = Inr bs"
    and res: "(if int (length bs) \<le> max_bytes then Inr b1
      else fitting_batch E network t max_bytes (butlast records)) = Inr b"
    unfolding fitting_batch.simps [of E network t max_bytes records]
    by (auto simp: bindE_eq_Inr split: if_splits)
  show ?case
  proof (cases "int (length bs) \<le> max_bytes")
    case True
    with res r show ?thesis
      by (intro exI [of _ "length records"]) auto
  next
    case False
    with res have rec: "fitting_batch E network t max_bytes (butlast records) = Inr b" by simp
    obtain n p' bs' where n: "0 < n" "n \<le> length (butlast records)"
      "create_batch_manifest E (map rid_of (take n (butlast records))) network t = Inr b"
      "create_package E b (take n (butlast records)) = Inr p'" "canonical_json_bytes p' = Inr bs'"
      "int (length bs') \<le> max_bytes"
      using 1(1) [OF r False rec] by blast
    have "take n (butlast records) = take n records"
      using n(2) by (auto simp: butlast_conv_take min_def split: if_splits)
    with n show ?thesis by (intro exI [of _ n]) auto
  qed
qed

lemma preserves_create_batch: "preserves (node_ok E) (create_batch E now network limit max_bytes)"
proof -
  have "preserves (node_ok E) (storeM (add_batch b))"
    if "fitting_batch E network now max_bytes records = Inr b" for b records
    using fitting_batch_facts [OF that] create_batch_manifest_valid create_batch_manifest_wf
    by (auto intro: preserves_add_batch)
  then show ?thesis
    unfolding create_batch_def by (intro preserve preserves_check_bind) auto
qed

lemma preserves_create_direct_batch: "preserves (node_ok E) (create_direct_batch E now rid network)"
  unfolding create_direct_batch_def
  by (intro preserve preserves_check_bind)
    (auto intro: preserves_add_batch create_batch_manifest_valid create_batch_manifest_wf)

lemma preserves_import_batch [preserve]: "wf_json b \<Longrightarrow> preserves (node_ok E) (import_batch E b)"
  unfolding import_batch_def
  by (intro preserve preserves_check_bind) (auto intro: preserves_add_batch)

lemma preserves_import_anchor [preserve]: "preserves (node_ok E) (import_anchor_reference a)"
  unfolding import_anchor_reference_def
  by (intro preserve preserves_storeM) (rule index_ok_add_anchor)

lemma preserves_import_pass:
  "(\<And>k r. (k, r) \<in> set items \<Longrightarrow> preserves I (submit r)) \<Longrightarrow>
     preserves I (import_pass has submit items pending imported progressed)"
proof (induction items arbitrary: pending imported progressed)
  case (Cons i items)
  obtain rid r where i: "i = (rid, r)" by (cases i)
  show ?case
    unfolding i import_pass.simps
    by (intro preserve Cons.IH) (auto intro: Cons.prems simp: i)
qed (simp add: preserve)

lemma preserves_import_pending:
  "(\<And>k r. (k, r) \<in> set pending \<Longrightarrow> preserves I (submit r)) \<Longrightarrow> I s \<Longrightarrow>
     I (snd (import_pending unresolved has submit pending imported s))"
proof (induction unresolved has submit pending imported s rule: import_pending.induct)
  case (1 unresolved has submit pending imported s)
  obtain r s1 where pass: "import_pass has submit pending pending imported False s = (r, s1)" by force
  have ok: "I s1"
    using preservesD [OF preserves_import_pass pass] 1(2,3) by blast
  show ?case
  proof (cases "pending = [] \<or> (\<exists>e. r = Inl e) \<or> (\<exists>p n. r = Inr (p, n, False))")
    case True
    then show ?thesis using ok 1(3) pass by (subst import_pending.simps) auto
  next
    case False
    then obtain p n where r: "pending \<noteq> []" "r = Inr (p, n, True)"
      by (metis (full_types) old.sum.exhaust prod.exhaust)
    have "set p \<subseteq> set pending" using import_pass_length [OF pass [unfolded r(2)]] by blast
    then have "I (snd (import_pending unresolved has submit p n s1))"
      by (intro 1(1) [OF r(1) pass [symmetric, unfolded r(2)] refl]) (use 1(2) ok in auto)
    with pass r show ?thesis by (subst import_pending.simps) simp
  qed
qed

lemma put_pair_set: "set (put_pair k v d) \<subseteq> insert (k, v) (set d)"
  by (induction k v d rule: put_pair.induct) auto

lemma pending_of_set: "set (pending_of rs) \<subseteq> (\<lambda>r. (rid_of r, r)) ` set rs"
proof -
  have "set (foldl (\<lambda>d r. put_pair (rid_of r) r d) d rs) \<subseteq> set d \<union> (\<lambda>r. (rid_of r, r)) ` set rs" for d
    by (induction rs arbitrary: d) (use put_pair_set in fastforce)+
  from this [of "[]"] show ?thesis by (simp add: pending_of_def)
qed

lemma put_pair_new: "k \<notin> fst ` set d \<Longrightarrow> put_pair k v d = d @ [(k, v)]"
  by (induction k v d rule: put_pair.induct) auto

lemma pending_of_distinct:
  "distinct (map rid_of rs) \<Longrightarrow> pending_of rs = map (\<lambda>r. (rid_of r, r)) rs"
proof -
  have "distinct (map rid_of rs) \<Longrightarrow> fst ` set d \<inter> rid_of ` set rs = {} \<Longrightarrow>
      foldl (\<lambda>d r. put_pair (rid_of r) r d) d rs = d @ map (\<lambda>r. (rid_of r, r)) rs" for d
  proof (induction rs arbitrary: d)
    case (Cons r rs)
    then have "put_pair (rid_of r) r d = d @ [(rid_of r, r)]" by (intro put_pair_new) auto
    with Cons show ?case by auto
  qed simp
  then show "distinct (map rid_of rs) \<Longrightarrow> pending_of rs = map (\<lambda>r. (rid_of r, r)) rs"
    by (simp add: pending_of_def)
qed

lemma wf_list_field: "wf_json v \<Longrightarrow> x \<in> set (list_field v k) \<Longrightarrow> wf_json x"
  by (cases "dget v k") (auto simp: list_field_def dest: wf_dget_list)

lemma wf_records_of: "wf_json p \<Longrightarrow> r \<in> set (records_of p) \<Longrightarrow> wf_json r"
  by (cases "dget p ''records''") (auto simp: records_of_def dest: wf_dget_list)

lemma preserves_import_records:
  assumes "\<forall>r \<in> set rs. wf_json r"
  shows "preserves (node_ok E) (import_pending unresolved has (submit_record E None False) (pending_of rs) 0)"
proof (rule preservesI, rule preserves_import_pending)
  fix k r assume "(k, r) \<in> set (pending_of rs)"
  then have "wf_json r" using assms pending_of_set [of rs] by auto
  then show "preserves (node_ok E) (submit_record E None False r)" by (rule preserves_submit_record)
qed

lemma preserves_import_package: "wf_json p \<Longrightarrow> preserves (node_ok E) (import_package E p)"
  unfolding import_package_def
  by (intro preserve preserves_import_records) (auto intro: wf_records_of wf_dget)

lemma preserves_import_snapshot: "wf_json s \<Longrightarrow> preserves (node_ok E) (import_snapshot E s)"
  unfolding import_snapshot_def
  by (intro preserve preserves_import_records) (auto intro: wf_list_field)

section \<open>The import of records goes through\<close>

text \<open>What the import loop relies on: a valid record is accepted whatever is stored, and is then
  stored unless its identifier was, with everything else that was.\<close>

locale record_importer =
  fixes get :: "'s \<Rightarrow> ustr \<Rightarrow> json option"
    and submit :: "json \<Rightarrow> ('s, ustr \<times> string) op"
    and ok :: "'s \<Rightarrow> bool"
    and valid :: "json \<Rightarrow> bool"
  assumes submit_stores: "ok s \<Longrightarrow> valid r \<Longrightarrow> \<exists>status s'. submit r s = (Inr (rid_of r, status), s') \<and> ok s'
      \<and> (\<forall>k. get s' k = (if get s k = None \<and> k = rid_of r then Some r else get s k))"
begin

lemma pass_total:
  assumes has: "has = (\<lambda>s t. get s t \<noteq> None)"
  assumes "ok s" "\<forall>(k, r) \<in> set items. k = rid_of r \<and> valid r" "distinct (map fst items)"
  shows "\<exists>D n s'. import_pass has submit items pending imported progressed s
      = (Inr (filter (\<lambda>(k, _). k \<notin> D) pending, n, progressed \<or> D \<noteq> {}), s') \<and> ok s'
    \<and> D \<subseteq> fst ` set items \<and> (\<forall>k. get s' k = (if get s k = None \<and> k \<in> D then map_of items k else get s k))
    \<and> (\<forall>(k, r) \<in> set items. (\<forall>t. target_of r = Some t \<longrightarrow> t \<notin> fst ` set pending) \<longrightarrow> k \<in> D)"
  using assms(2-)
proof (induction items arbitrary: s pending imported progressed)
  case Nil
  then show ?case by (intro exI [of _ "{}"]) (auto simp: liftM_def)
next
  case (Cons i items)
  obtain rid r where i: "i = (rid, r)" by (cases i)
  have r: "rid = rid_of r" "valid r" and items: "\<forall>(k, r) \<in> set items. k = rid_of r \<and> valid r"
    and dist: "distinct (map fst items)" "rid \<notin> fst ` set items"
    using Cons.prems(2,3) i by auto
  define waits where "waits = (case target_of r of None \<Rightarrow> False | Some t \<Rightarrow> \<not> has s t \<and> t \<in> fst ` set pending)"
  show ?case
  proof (cases waits)
    case True
    then have "import_pass has submit (i # items) pending imported progressed s
        = import_pass has submit items pending imported progressed s"
      by (simp add: i waits_def)
    moreover have "\<not> (\<forall>t. target_of r = Some t \<longrightarrow> t \<notin> fst ` set pending)"
      using True by (auto simp: waits_def split: option.splits)
    moreover obtain D n s' where D: "import_pass has submit items pending imported progressed s
        = (Inr (filter (\<lambda>(k, _). k \<notin> D) pending, n, progressed \<or> D \<noteq> {}), s')" "ok s'" "D \<subseteq> fst ` set items"
      "\<forall>k. get s' k = (if get s k = None \<and> k \<in> D then map_of items k else get s k)"
      "\<forall>(k, r) \<in> set items. (\<forall>t. target_of r = Some t \<longrightarrow> t \<notin> fst ` set pending) \<longrightarrow> k \<in> D"
      using Cons.IH [OF Cons.prems(1) items dist(1), of pending imported progressed] by blast
    moreover have "rid \<notin> D" using D(3) dist(2) by blast
    ultimately show ?thesis
      by (intro exI [of _ D] exI [of _ n] exI [of _ s']) (use i in auto)
  next
    case False
    obtain st s1 where step: "submit r s = (Inr (rid_of r, st), s1)" "ok s1"
      "\<forall>k. get s1 k = (if get s k = None \<and> k = rid_of r then Some r else get s k)"
      using submit_stores [OF Cons.prems(1) r(2)] by blast
    define rest where "rest = filter (\<lambda>(k, _). k \<noteq> rid) pending"
    have run: "import_pass has submit (i # items) pending imported progressed s
        = import_pass has submit items rest (if st = ''accepted'' then imported + 1 else imported) True s1"
      using False step(1) by (simp add: i waits_def bindM_step rest_def)
    obtain D n s' where D: "import_pass has submit items rest (if st = ''accepted'' then imported + 1 else imported) True s1
        = (Inr (filter (\<lambda>(k, _). k \<notin> D) rest, n, True), s')" "ok s'" "D \<subseteq> fst ` set items"
      "\<forall>k. get s' k = (if get s1 k = None \<and> k \<in> D then map_of items k else get s1 k)"
      "\<forall>(k, r) \<in> set items. (\<forall>t. target_of r = Some t \<longrightarrow> t \<notin> fst ` set rest) \<longrightarrow> k \<in> D"
      using Cons.IH [OF step(2) items dist(1), of rest "if st = ''accepted'' then imported + 1 else imported" True]
      unfolding simp_thms by blast
    have rest: "filter (\<lambda>(k, _). k \<notin> D) rest = filter (\<lambda>(k, _). k \<notin> insert rid D) pending"
      unfolding rest_def filter_filter by (rule filter_cong) auto
    have sub: "fst ` set rest \<subseteq> fst ` set pending" by (auto simp: rest_def)
    show ?thesis
      unfolding run D(1) rest
    proof (intro exI [of _ "insert rid D"] exI [of _ n] exI [of _ s'] conjI)
      show "insert rid D \<subseteq> fst ` set (i # items)" using D(3) i by auto
      show "\<forall>k. get s' k = (if get s k = None \<and> k \<in> insert rid D then map_of (i # items) k else get s k)"
        using D(4) step(3) r(1) i by auto
      show "\<forall>(k, r) \<in> set (i # items). (\<forall>t. target_of r = Some t \<longrightarrow> t \<notin> fst ` set pending) \<longrightarrow> k \<in> insert rid D"
      proof (rule ballI, unfold case_prod_unfold, rule impI)
        fix x assume x: "x \<in> set (i # items)" "\<forall>t. target_of (snd x) = Some t \<longrightarrow> t \<notin> fst ` set pending"
        then have "\<forall>t. target_of (snd x) = Some t \<longrightarrow> t \<notin> fst ` set rest" using sub by blast
        then have "x \<in> set items \<Longrightarrow> fst x \<in> D"
          using bspec [OF D(5), of x] by (simp only: case_prod_unfold)
        with x(1) i show "fst x \<in> insert rid D" by auto
      qed
    qed (use D(2) in simp_all)
  qed
qed

lemma map_of_filter_keys: "map_of (filter (\<lambda>(k, _). k \<notin> D) xs) k = (if k \<in> D then None else map_of xs k)"
  by (induction xs) auto

lemma pending_total:
  assumes has: "has = (\<lambda>s t. get s t \<noteq> None)"
  assumes "ok s" "\<forall>(k, r) \<in> set pending. k = rid_of r \<and> valid r" "distinct (map fst pending)"
    and "\<forall>(k, r) \<in> set pending. \<forall>t. target_of r = Some t \<and> t \<in> fst ` set pending \<longrightarrow> rank t < (rank k :: nat)"
  shows "\<exists>n s'. import_pending unresolved has submit pending imported s = (Inr n, s') \<and> ok s'
    \<and> (\<forall>k. get s' k = (if get s k = None then map_of pending k else get s k))"
  using assms(2-)
proof (induction "length pending" arbitrary: pending imported s rule: less_induct)
  case less
  show ?case
  proof (cases "pending = []")
    case True
    then show ?thesis using less.prems(1) by (subst import_pending.simps) auto
  next
    case False
    obtain D n s1 where D: "import_pass has submit pending pending imported False s
        = (Inr (filter (\<lambda>(k, _). k \<notin> D) pending, n, D \<noteq> {}), s1)" "ok s1" "D \<subseteq> fst ` set pending"
      "\<forall>k. get s1 k = (if get s k = None \<and> k \<in> D then map_of pending k else get s k)"
      "\<forall>(k, r) \<in> set pending. (\<forall>t. target_of r = Some t \<longrightarrow> t \<notin> fst ` set pending) \<longrightarrow> k \<in> D"
      using pass_total [OF has less.prems(1,2,3), of pending imported False] unfolding simp_thms by blast
    obtain i where i: "i \<in> set pending" "\<forall>j \<in> set pending. rank (fst i) \<le> rank (fst j)"
      using False ex_has_least_nat [of "\<lambda>i. i \<in> set pending" _ "\<lambda>i. rank (fst i)"]
      by (metis list.set_intros(1) neq_Nil_conv)
    obtain k r where kr: "i = (k, r)" by (cases i)
    have "\<forall>t. target_of r = Some t \<longrightarrow> t \<notin> fst ` set pending"
      using less.prems(4) i kr by fastforce
    then have k: "k \<in> D" using D(5) i(1) kr by blast
    let ?rest = "filter (\<lambda>(k, _). k \<notin> D) pending"
    have "length ?rest < length pending"
      using i(1) kr k by (auto intro!: length_filter_less)
    moreover have "\<forall>(k, r) \<in> set ?rest. k = rid_of r \<and> valid r" using less.prems(2) by auto
    moreover have "distinct (map fst ?rest)" using less.prems(3) by (rule distinct_map_filter)
    moreover have "\<forall>(k, r) \<in> set ?rest. \<forall>t. target_of r = Some t \<and> t \<in> fst ` set ?rest \<longrightarrow> rank t < rank k"
      using less.prems(4) by fastforce
    ultimately obtain n' s' where rec: "import_pending unresolved has submit ?rest n s1 = (Inr n', s')" "ok s'"
      "\<forall>k. get s' k = (if get s1 k = None then map_of ?rest k else get s1 k)"
      using less.hyps [of ?rest s1 n] D(2) by blast
    have "import_pending unresolved has submit pending imported s = (Inr n', s')"
      using False D(1) k rec(1) by (subst import_pending.simps) auto
    moreover have "get s' k = (if get s k = None then map_of pending k else get s k)" for k
      using spec [OF rec(3), of k] spec [OF D(4), of k]
      by (cases "get s k"; cases "k \<in> D") (simp_all add: map_of_filter_keys split: if_splits)
    ultimately show ?thesis using rec(2) by blast
  qed
qed

end

lemma submit_record_run:
  assumes "validate_record E r = Inr ()"
  shows "submit_record E None False r n = (if get_record (ix n) (rid_of r) \<noteq> None
     then (Inr (rid_of r, ''already_exists''), n)
     else (Inr (rid_of r, ''accepted''), n\<lparr>ix := snd (add_record r (ix n))\<rparr>))"
  using assms by (auto simp: submit_record_def storeM_def updateM_def bindM_def liftM_def readM_def
      bindE_def split: prod.splits)

interpretation importer: record_importer "\<lambda>n. get_record (ix n)" "submit_record E None False" "node_ok E"
  "\<lambda>r. validate_record E r = Inr () \<and> wf_json r" for E
proof unfold_locales
  fix s r assume ok: "node_ok E s" and r: "validate_record E r = Inr () \<and> wf_json r"
  have "node_ok E (s\<lparr>ix := snd (add_record r (ix s))\<rparr>)"
    using ok r index_ok_add_record by (auto simp: node_ok_def)
  then show "\<exists>status s'. submit_record E None False r s = (Inr (rid_of r, status), s') \<and> node_ok E s'
      \<and> (\<forall>k. get_record (ix s') k = (if get_record (ix s) k = None \<and> k = rid_of r then Some r else get_record (ix s) k))"
    using ok r by (auto simp: submit_record_run add_record_get)
qed

text \<open>The targets among the records of a document are not circular.\<close>

definition targets_ranked :: "(ustr \<Rightarrow> nat) \<Rightarrow> json list \<Rightarrow> bool" where
  "targets_ranked rank rs \<longleftrightarrow> (\<forall>r \<in> set rs. \<forall>t. target_of r = Some t \<and> t \<in> rid_of ` set rs \<longrightarrow> rank t < rank (rid_of r))"

lemma import_records_total:
  assumes "node_ok E n" "\<forall>r \<in> set rs. validate_record E r = Inr () \<and> wf_json r" "distinct (map rid_of rs)"
    and "targets_ranked rank rs"
  shows "\<exists>m n'. import_pending unresolved (\<lambda>n t. get_record (ix n) t \<noteq> None) (submit_record E None False)
      (pending_of rs) 0 n = (Inr m, n') \<and> node_ok E n' \<and> record_ids_in (ix n') = record_ids_in (ix n) \<union> rid_of ` set rs
    \<and> (\<forall>r \<in> set rs. get_record (ix n) (rid_of r) = None \<longrightarrow> get_record (ix n') (rid_of r) = Some r)"
proof -
  have p: "pending_of rs = map (\<lambda>r. (rid_of r, r)) rs" using assms(3) by (rule pending_of_distinct)
  have d: "distinct (map fst (pending_of rs))" using assms(3) by (simp add: p comp_def)
  have v: "\<forall>(k, r) \<in> set (pending_of rs). k = rid_of r \<and> validate_record E r = Inr () \<and> wf_json r"
    using assms(2) by (auto simp: p)
  have k: "\<forall>(k, r) \<in> set (pending_of rs). \<forall>t. target_of r = Some t \<and> t \<in> fst ` set (pending_of rs) \<longrightarrow> rank t < rank k"
    using assms(4) by (simp add: p targets_ranked_def image_image)
  obtain m n' where run: "import_pending unresolved (\<lambda>n t. get_record (ix n) t \<noteq> None) (submit_record E None False)
      (pending_of rs) 0 n = (Inr m, n')" "node_ok E n'"
    "\<forall>k. get_record (ix n') k = (if get_record (ix n) k = None then map_of (pending_of rs) k else get_record (ix n) k)"
    using importer.pending_total [OF refl assms(1) v d k, of unresolved 0] by metis
  have dom: "map_of (pending_of rs) k = None \<longleftrightarrow> k \<notin> rid_of ` set rs" for k
    by (simp add: p map_of_eq_None_iff image_image)
  have ids: "k \<in> record_ids_in (ix n') \<longleftrightarrow> k \<in> record_ids_in (ix n) \<union> rid_of ` set rs" for k
    using run(3) dom [of k] get_record_None [of "ix n" k] get_record_None [of "ix n'" k] by auto
  have "map_of (pending_of rs) (rid_of r) = Some r" if "r \<in> set rs" for r
    using that assms(3) by (intro map_of_is_SomeI) (auto simp: p comp_def)
  then have "get_record (ix n') (rid_of r) = Some r" if "r \<in> set rs" "get_record (ix n) (rid_of r) = None" for r
    using that run(3) by simp
  with run(1,2) ids show ?thesis by blast
qed

lemma import_batch_total:
  assumes "node_ok E n" "validate_batch E b = Inr ()" "wf_json b" "set (record_ids_of b) \<subseteq> record_ids_in (ix n)"
  shows "\<exists>status n'. import_batch E b n = (Inr (bid_of b, status), n') \<and> node_ok E n'
    \<and> bid_of b \<in> batch_ids_in (ix n') \<and> record_ids_in (ix n') = record_ids_in (ix n)
    \<and> batch_ids_in (ix n) \<subseteq> batch_ids_in (ix n') \<and> anchors_t (ix n') = anchors_t (ix n)"
proof -
  have ok: "index_ok E (ix n)" using assms(1) by (simp add: node_ok_def)
  obtain s' where add: "add_batch b (ix n) = Inr (bid_of b \<notin> batch_ids_in (ix n), s')"
    using add_batch_total [OF ok assms(2,4)] by blast
  have missing: "filter (\<lambda>rid. get_record (ix n) rid = None) (record_ids_of b) = []"
    using assms(4) by (auto simp: filter_empty_conv get_record_None)
  then have "import_batch E b n = (Inr (bid_of b, if bid_of b \<notin> batch_ids_in (ix n) then ''accepted'' else ''already_exists''),
      n\<lparr>ix := s'\<rparr>)"
    using assms(2) add by (simp add: import_batch_def storeM_def updateM_def bindM_def liftM_def readM_def)
  moreover have "index_ok E s'" "batch_ids_in s' = insert (bid_of b) (batch_ids_in (ix n))"
    using index_ok_add_batch [OF ok assms(2,3) add] by auto
  moreover have "record_ids_in s' = record_ids_in (ix n)" "anchors_t s' = anchors_t (ix n)"
    using add by (auto simp: add_batch_eq_Inr record_ids_in_def)
  ultimately show ?thesis using assms(1) by (auto simp: node_ok_def)
qed

text \<open>A valid package whose targets are not circular is imported completely.\<close>

lemma import_package_total:
  assumes "node_ok E n" "validate_package E p = Inr ()" "wf_json p" "targets_ranked rank (records_of p)"
  shows "\<exists>m status n'. import_package E p n = (Inr (text_of (dget p ''package_id''), bid_of (dget p ''batch''), m, status), n')
    \<and> node_ok E n' \<and> record_ids_in (ix n') = record_ids_in (ix n) \<union> rid_of ` set (records_of p)
    \<and> bid_of (dget p ''batch'') \<in> batch_ids_in (ix n')"
proof -
  let ?b = "dget p ''batch''"
  note v = validate_package_facts [OF assms(2)]
  have recs: "\<forall>r \<in> set (records_of p). validate_record E r = Inr () \<and> wf_json r"
    using v(3) wf_records_of [OF assms(3)] by blast
  have dist: "distinct (map rid_of (records_of p))" using assms(2) by (auto simp: validate_package_eq_Inr)
  from import_records_total [OF assms(1) recs dist assms(4),
      of "service_error ''package record graph contains unresolved targets''"]
  obtain m n1 where imp: "import_pending (service_error ''package record graph contains unresolved targets'')
      (\<lambda>n t. get_record (ix n) t \<noteq> None) (submit_record E None False) (pending_of (records_of p)) 0 n = (Inr m, n1)"
    "node_ok E n1" "record_ids_in (ix n1) = record_ids_in (ix n) \<union> rid_of ` set (records_of p)"
    by (elim exE conjE)
  have "set (record_ids_of ?b) \<subseteq> record_ids_in (ix n1)"
    using imp(3) v(2) by (metis UnCI image_set subsetI)
  then obtain status n' where b: "import_batch E ?b n1 = (Inr (bid_of ?b, status), n')" "node_ok E n'"
    "bid_of ?b \<in> batch_ids_in (ix n')" "record_ids_in (ix n') = record_ids_in (ix n1)"
    using import_batch_total [OF imp(2) v(1) wf_dget [OF assms(3)]] by blast
  have "import_package E p n = (Inr (text_of (dget p ''package_id''), bid_of ?b, m, status), n')"
    using assms(2) imp(1) b(1) by (simp add: import_package_def bindM_def liftM_def)
  with b imp(3) show ?thesis by auto
qed

section \<open>A stored batch can be packaged\<close>

lemma create_package_shape:
  assumes "create_package E b rs = Inr p"
  shows "\<exists>i. p = dput ''package_id'' (JStr i) (obj [(''schema'', JStr (str ''hap.package'')),
      (''version'', JInt PACKAGE_VERSION), (''batch'', b), (''records'', JList (records_of p))])
    \<and> calculate_package_id E (obj [(''schema'', JStr (str ''hap.package'')),
      (''version'', JInt PACKAGE_VERSION), (''batch'', b), (''records'', JList (records_of p))]) = Inr i
    \<and> validate_package E p = Inr ()"
  using assms by (auto simp: create_package_def bindE_eq_Inr Let_def records_of_def)

lemma create_package_unique:
  assumes "create_package E b rs = Inr p" "create_package E b rs' = Inr p'" "records_of p = records_of p'"
  shows "p = p'"
  using create_package_shape [OF assms(1)] create_package_shape [OF assms(2)] assms(3) by auto

lemma records_by_ids_Inr:
  assumes ok: "records_ok E s" and sub: "set ids \<subseteq> record_ids_in s"
  shows "map rid_of (records_by_ids s ids) = ids"
    "\<forall>r \<in> set (records_by_ids s ids). validate_record E r = Inr () \<and> wf_json r \<and> get_record s (rid_of r) = Some r"
proof -
  have get: "\<exists>r. get_record s i = Some r \<and> rid_of r = i \<and> validate_record E r = Inr () \<and> wf_json r"
    if "i \<in> set ids" for i
    using that sub get_record_None [of s i] get_record_valid [OF ok, of i] by (cases "get_record s i") auto
  show "map rid_of (records_by_ids s ids) = ids"
    using get by (induction ids) (auto simp: records_by_ids_def List.map_filter_def, fastforce)
  show "\<forall>r \<in> set (records_by_ids s ids). validate_record E r = Inr () \<and> wf_json r \<and> get_record s (rid_of r) = Some r"
    using get by (auto simp: records_by_ids_def List.map_filter_def, force+)
qed

lemma links_records_present:
  assumes "index_ok E s" "get_batch s bid = Some b"
  shows "set (record_ids_of b) \<subseteq> record_ids_in s"
proof
  fix i assume "i \<in> set (record_ids_of b)"
  then obtain j where j: "j < length (record_ids_of b)" "record_ids_of b ! j = i"
    by (auto simp: in_set_conv_nth)
  obtain row where "row \<in> set (all_rows (batches_t s))" "bt_body row = b"
    using get_batch_valid [OF _ assms(2)] assms(1) by (auto simp: index_ok_def)
  then have "(i, bt_id row, j) \<in> set (record_batches s)"
    using assms(1) j by (auto simp: index_ok_def links_ok_def)
  then show "i \<in> record_ids_in s" using assms(1) by (auto simp: index_ok_def links_ok_def)
qed

lemma package_for_batch_total:
  assumes ok: "index_ok E s" and E: "digests_32 E" and b: "get_batch s bid = Some b"
  shows "\<exists>p. package_for_batch E s bid = Inr (Some p) \<and> validate_package E p = Inr ()
    \<and> dget p ''batch'' = b \<and> map rid_of (records_of p) = record_ids_of b
    \<and> (\<forall>r \<in> set (records_of p). get_record s (rid_of r) = Some r)"
proof -
  have v: "validate_batch E b = Inr ()" "wf_json b"
    using get_batch_valid [OF _ b] ok by (auto simp: index_ok_def)
  note ids = validate_batch_ids [OF v(1)]
  have rok: "records_ok E s" using ok by (simp add: index_ok_def)
  note rs = records_by_ids_Inr [OF rok links_records_present [OF ok b]]
  have dist: "distinct (map rid_of (records_by_ids s (record_ids_of b)))" using rs(1) ids(6) by simp
  have sub: "set (record_ids_of b) \<subseteq> rid_of ` set (records_by_ids s (record_ids_of b))"
    by (metis rs(1) image_set subset_refl)
  obtain p where p: "create_package E b (records_by_ids s (record_ids_of b)) = Inr p"
    "validate_package E p = Inr ()" "dget p ''batch'' = b" "map rid_of (records_of p) = record_ids_of b"
    "set (records_of p) \<subseteq> set (records_by_ids s (record_ids_of b))"
    using create_package_total [OF E v _ dist sub] rs(2) by blast
  have "length (records_by_ids s (record_ids_of b)) = length (record_ids_of b)" by (metis rs(1) length_map)
  then have "py_eq (JInt (int (length (records_by_ids s (record_ids_of b))))) (dget b ''record_count'')"
    using ids(7) by (cases "dget b ''record_count''") auto
  then have "package_for_batch E s bid = Inr (Some p)"
    using b p(1) by (simp add: package_for_batch_def Let_def)
  with p rs(2) show ?thesis by blast
qed

text \<open>What \<open>create_batch\<close> stored: a batch of stored records whose package, as it is served later, fits.\<close>

lemma choose_records_sub:
  "choose_records m cs acc est = Inr rs \<Longrightarrow> \<exists>n. rs = acc @ take n cs"
proof (induction m cs acc est rule: choose_records.induct)
  case (2 m r cs acc est)
  from 2(2) obtain bs where bs: "canonical_json_bytes r = Inr bs" by (auto simp: bindE_eq_Inr)
  show ?case
  proof (cases "m < est + (int (length bs) + 96)")
    case True
    with 2(2) bs show ?thesis by (intro exI [of _ 0]) (auto simp: Let_def split: if_splits)
  next
    case False
    with 2(2) bs have "choose_records m cs (acc @ [r]) (est + (int (length bs) + 96)) = Inr rs"
      by (simp add: Let_def)
    with 2(1) [OF bs refl] False obtain n where "rs = (acc @ [r]) @ take n cs" by auto
    then show ?thesis by (intro exI [of _ "Suc n"]) simp
  qed
qed simp

lemma list_records_stored:
  assumes "records_ok E s" "r \<in> set (list_records s limit u)"
  shows "get_record s (rid_of r) = Some r" "validate_record E r = Inr ()" "wf_json r"
proof -
  have "r \<in> r_body ` set (all_rows (records_t s))"
    using assms(2) by (auto simp: list_records_def sql_limit_def split: if_splits dest!: in_set_takeD)
  then show g: "get_record s (rid_of r) = Some r" using get_record_Some [OF assms(1)] by blast
  show "validate_record E r = Inr ()" "wf_json r" using get_record_valid [OF assms(1) g] by auto
qed

lemma list_records_distinct:
  assumes "records_ok E s"
  shows "distinct (map rid_of (list_records s limit u))"
proof -
  have key: "rid_of (r_body r) = r_id r" if "r \<in> set (all_rows (records_t s))" for r
    using assms that by (auto simp: records_ok_def) (metis row_of_record_simps(1))
  have "distinct (map (\<lambda>r. rid_of (r_body r)) (all_rows (records_t s)))"
    using assms key by (simp add: records_ok_def table_ok_def cong: map_cong)
  then have "distinct (map (\<lambda>r. rid_of (r_body r)) (filter P (all_rows (records_t s))))" for P
    by (rule distinct_map_filter)
  from this [of "\<lambda>r. u \<longrightarrow> \<not> is_batched s (r_id r)"] show ?thesis
    by (auto simp: list_records_def sql_limit_def comp_def take_map [symmetric] intro: distinct_take)
qed

lemma create_batch_fits:
  assumes "node_ok E n" "digests_32 E" "create_batch E now network limit max_bytes n = (Inr b, n')"
  shows "\<exists>p bs. package_for_batch E (ix n') (bid_of b) = Inr (Some p) \<and> canonical_json_bytes p = Inr bs
    \<and> int (length bs) \<le> max_bytes \<and> records_of p \<noteq> []
    \<and> (\<forall>i \<in> set (record_ids_of b). i \<in> record_ids_in (ix n))
    \<or> bid_of b \<in> batch_ids_in (ix n)"
proof -
  let ?cands = "list_records (ix n) limit True"
  have ok: "index_ok E (ix n)" "records_ok E (ix n)" using assms(1) by (auto simp: node_ok_def index_ok_def)
  from assms(3) obtain rs created s' where rs: "choose_records max_bytes ?cands [] 4096 = Inr rs"
    "fitting_batch E network now max_bytes rs = Inr b"
    "add_batch b (ix n) = Inr (created, s')" "n' = n\<lparr>ix := s'\<rparr>"
    unfolding create_batch_def by (auto simp: result_simps)
  obtain k where k: "rs = take k ?cands" using choose_records_sub [OF rs(1)] by auto
  obtain m p bs where m: "0 < m" "m \<le> length rs"
    "create_batch_manifest E (map rid_of (take m rs)) network now = Inr b"
    "create_package E b (take m rs) = Inr p" "canonical_json_bytes p = Inr bs" "int (length bs) \<le> max_bytes"
    using fitting_batch_facts [OF rs(2)] by blast
  have vb: "validate_batch E b = Inr ()" "wf_json b"
    using m(3) create_batch_manifest_valid create_batch_manifest_wf by blast+
  show ?thesis
  proof (cases "bid_of b \<in> batch_ids_in (ix n)")
    case False
    define xs where "xs = take m rs"
    have xs: "set xs \<subseteq> set ?cands" "distinct (map rid_of xs)"
      using k list_records_distinct [OF ok(2), of limit True]
      by (auto simp: xs_def take_map [symmetric] distinct_take dest!: in_set_takeD)
    have stored: "\<forall>r \<in> set xs. get_record (ix n) (rid_of r) = Some r \<and> validate_record E r = Inr () \<and> wf_json r"
      using xs(1) list_records_stored [OF ok(2)] by blast
    have ids: "record_ids_of b = sort (map rid_of xs)"
      using m(3) by (auto simp: create_batch_manifest_def Let_def bindE_eq_Inr record_ids_of_def xs_def
          comp_def split: if_splits)
    have "rows (batches_t s') = rows (batches_t (ix n)) @ [(last_seq (batches_t (ix n)) + 1, row_of_batch b)]"
      using rs(3) False by (auto simp: add_batch_eq_Inr insert_ignore_def batch_ids_in_def all_rows_def image_image)
    then have got: "get_batch s' (bid_of b) = Some b"
      using index_ok_add_batch(1) [OF ok(1) vb rs(3)]
      by (auto simp: get_batch_def index_ok_def batches_ok_def lookup_row_Some all_rows_def)
    have same: "get_record s' = get_record (ix n)"
      using rs(3) by (intro ext) (auto simp: add_batch_eq_Inr get_record_def)
    obtain p' where p': "package_for_batch E s' (bid_of b) = Inr (Some p')" "map rid_of (records_of p') = record_ids_of b"
      "\<forall>r \<in> set (records_of p'). get_record s' (rid_of r) = Some r"
      using package_for_batch_total [OF index_ok_add_batch(1) [OF ok(1) vb rs(3)] assms(2) got] by blast
    obtain p2 where p2: "create_package E b xs = Inr p2" "map rid_of (records_of p2) = record_ids_of b"
      "set (records_of p2) \<subseteq> set xs"
      using create_package_total [OF assms(2) vb _ xs(2)] stored ids by auto
    then have p: "p2 = p" using m(4) by (simp add: xs_def)
    have "records_of p = records_of p'"
    proof (rule nth_equalityI)
      show len: "length (records_of p) = length (records_of p')" using p2(2) p'(2) p by (metis length_map)
      fix i assume i: "i < length (records_of p)"
      then have "rid_of (records_of p ! i) = rid_of (records_of p' ! i)"
        using p2(2) p'(2) p len by (metis nth_map)
      moreover have "get_record (ix n) (rid_of (records_of p ! i)) = Some (records_of p ! i)"
        using i p2(3) p stored nth_mem [OF i] by blast
      moreover have "get_record (ix n) (rid_of (records_of p' ! i)) = Some (records_of p' ! i)"
        using bspec [OF p'(3), of "records_of p' ! i"] i len unfolding same by simp
      ultimately show "records_of p ! i = records_of p' ! i" by (metis option.inject)
    qed
    moreover obtain rs' where "create_package E b rs' = Inr p'"
      using p'(1) got by (auto simp: package_for_batch_def Let_def bindE_eq_Inr split: if_splits)
    ultimately have "p = p'" using create_package_unique m(4) by blast
    moreover have "records_of p \<noteq> []" using p2(2) p validate_batch_ids(2) [OF vb(1)] by auto
    moreover have "rid_of r \<in> record_ids_in (ix n)" if "r \<in> set xs" for r
      using stored that get_record_None [of "ix n" "rid_of r"] by auto
    then have "\<forall>i \<in> set (record_ids_of b). i \<in> record_ids_in (ix n)" using ids by auto
    ultimately show ?thesis using p'(1) m(5,6) rs(4) by auto
  qed auto
qed

end
