(* ===== verification/SnapshotFacts.thy ===== *)
theory SnapshotFacts
  imports ServiceFacts
begin

text \<open>
  More about \<^verbatim>\<open>src/hap/service.py\<close>: what may become of anchors by importing (never a
  confirmation), when a snapshot can be imported, and when it can be exported.
\<close>

section \<open>Imports do not confirm\<close>

text \<open>The outputs that count as confirmed commitments, with their batches.\<close>

definition confirmed_outputs :: "index \<Rightarrow> ((ustr \<times> int) \<times> ustr) set" where
  "confirmed_outputs s = (\<lambda>a. (a_point a, a_batch_id a)) ` {a \<in> set (all_rows (anchors_t s)). is_confirmed a}"

definition settled :: "env \<Rightarrow> ((ustr \<times> int) \<times> ustr) set \<Rightarrow> node \<Rightarrow> bool" where
  "settled E C n \<longleftrightarrow> node_ok E n \<and> confirmed_outputs (ix n) = C"

lemma preserves_settled_store:
  assumes "\<And>s x s'. index_ok E s \<Longrightarrow> f s = Inr (x, s') \<Longrightarrow> index_ok E s' \<and> anchors_t s' = anchors_t s"
  shows "preserves (settled E C) (storeM f)"
proof (rule preservesI)
  fix n assume n: "settled E C n"
  show "settled E C (snd (storeM f n))"
  proof (cases "f (ix n)")
    case (Inl e)
    with n show ?thesis by (simp add: storeM_def updateM_def)
  next
    case (Inr y)
    obtain x s' where y: "y = (x, s')" by (cases y)
    have "index_ok E s' \<and> anchors_t s' = anchors_t (ix n)"
      using assms [of "ix n" x s'] n Inr y by (simp add: settled_def node_ok_def)
    with n Inr y show ?thesis
      by (simp add: storeM_def updateM_def settled_def node_ok_def confirmed_outputs_def)
  qed
qed

lemma settled_submit_record [preserve]:
  assumes "wf_json r"
  shows "preserves (settled E C) (submit_record E policy local r)"
  unfolding submit_record_def
proof (rule preserves_check_bind)
  fix u assume "reraise is_ValueError (service_error ''str(exc)'')
       (bindE (validate_record E r) (\<lambda>_. case policy of None \<Rightarrow> Inr () | Some policy \<Rightarrow> policy r)) = Inr u"
  then have v: "validate_record E r = Inr ()" by (auto simp: bindE_eq_Inr)
  have "anchors_t (snd (add_record r s)) = anchors_t s" for s by (simp add: add_record_unfold)
  then have "preserves (settled E C) (storeM (\<lambda>s. Inr (add_record r s)))"
    using index_ok_add_record [OF _ v assms] by (intro preserves_settled_store) (metis Inr_inject snd_conv)
  then show "preserves (settled E C) (bindM (askM (\<lambda>s. get_record s (rid_of r))) (\<lambda>existing.
     if existing \<noteq> None then returnM (rid_of r, ''already_exists'')
     else bindM (askM (\<lambda>s. case target_of r of None \<Rightarrow> False | Some t \<Rightarrow> get_record s t = None)) (\<lambda>no_target.
     if local \<and> no_target
     then raiseM (service_error ''target_record_id does not exist in this index'')
     else bindM (storeM (\<lambda>s. Inr (add_record r s))) (\<lambda>_. returnM (rid_of r, ''accepted'')))))"
    by (intro preserve)
qed

lemma settled_add_batch:
  assumes "validate_batch E b = Inr u" "wf_json b"
  shows "preserves (settled E C) (storeM (add_batch b))"
proof (rule preserves_settled_store)
  fix s x s' assume "index_ok E s" "add_batch b s = Inr (x, s')"
  then show "index_ok E s' \<and> anchors_t s' = anchors_t s"
    using index_ok_add_batch(1) [of E s b x s'] assms by (auto simp: add_batch_eq_Inr)
qed

lemma settled_import_batch [preserve]: "wf_json b \<Longrightarrow> preserves (settled E C) (import_batch E b)"
  unfolding import_batch_def
  by (intro preserve preserves_check_bind) (auto intro: settled_add_batch)

text \<open>Running a check and a transaction.\<close>

lemma bind_lift: "bindM (liftM r) k n = (case r of Inl e \<Rightarrow> (Inl e, n) | Inr x \<Rightarrow> k x n)"
  by (simp add: bindM_def liftM_def split: sum.split)

lemma bind_store:
  "bindM (storeM f) k n = (case f (ix n) of Inl e \<Rightarrow> (Inl e, n) | Inr (x, s) \<Rightarrow> k x (n\<lparr>ix := s\<rparr>))"
  by (simp add: bindM_def storeM_def updateM_def bindE_def split: sum.split prod.split)

lemma import_anchor_cases:
  "(\<exists>e. import_anchor_reference a n = (Inl e, n))
   \<or> (\<exists>b ex c s'. validate_anchor_reference a = Inr () \<and> get_batch (ix n) (text_of (dget a ''batch_id'')) = Some b
      \<and> ex = get_anchor (ix n) (text_of (dget a ''txid'')) (int_of_json (dget a ''vout''))
      \<and> (\<forall>old. ex = Some old \<longrightarrow> a_batch_id old = text_of (dget a ''batch_id''))
      \<and> add_anchor (local_reference a ex) (ix n) = Inr (c, s')
      \<and> import_anchor_reference a n
          = (Inr (text_of (dget a ''txid''), if c then ''accepted'' else ''updated''), n\<lparr>ix := s'\<rparr>))"
proof -
  have "validate_anchor_reference a = Inr u \<Longrightarrow> u = ()" for u by simp
  then show ?thesis
    unfolding import_anchor_reference_def bind_lift bind_store bindM_simps
    by (cases "validate_anchor_reference a"; cases "get_batch (ix n) (text_of (dget a ''batch_id''))";
        cases "sql_int (int_of_json (dget a ''vout''))";
        cases "add_anchor (local_reference a (get_anchor (ix n) (text_of (dget a ''txid''))
          (int_of_json (dget a ''vout'')))) (ix n)")
      ((simp add: bind_lift bind_store liftM_def reraise_def split: option.split prod.split)+, blast?)
qed

lemma local_reference_simps [simp]:
  "a_txid (local_reference a ex) = text_of (dget a ''txid'')"
  "a_vout (local_reference a ex) = int_of_json (dget a ''vout'')"
  "a_batch_id (local_reference a ex) = text_of (dget a ''batch_id'')"
  by (simp_all add: local_reference_def)

lemma local_reference_confirmed:
  "is_confirmed (local_reference a ex) \<longleftrightarrow> (\<exists>old. ex = Some old \<and> is_confirmed old)"
  by (auto simp: is_confirmed_def local_reference_def locally_checked_def CHECKED_STATUSES_def split: option.splits)

lemma add_anchor_confirmed:
  assumes ok: "anchors_ok s" and add: "add_anchor (local_reference a ex) s = Inr (c, s')"
    and ex: "ex = get_anchor s (text_of (dget a ''txid'')) (int_of_json (dget a ''vout''))"
      "\<forall>old. ex = Some old \<longrightarrow> a_batch_id old = text_of (dget a ''batch_id'')"
  shows "confirmed_outputs s' = confirmed_outputs s"
proof -
  let ?new = "local_reference a ex" and ?A = "set (all_rows (anchors_t s))"
  have rows: "set (all_rows (anchors_t s')) = insert ?new {a' \<in> ?A. a_point a' \<noteq> a_point ?new}"
    using add_anchor_rows [OF add ok] .
  have found: "ex = Some old \<longleftrightarrow> old \<in> ?A \<and> a_point old = a_point ?new" for old
    using ok ex(1) by (simp add: get_anchor_def anchors_ok_def lookup_row_Some a_point_def)
  have uniq: "x \<in> ?A \<Longrightarrow> y \<in> ?A \<Longrightarrow> a_point x = a_point y \<Longrightarrow> x = y" for x y
    using ok by (auto simp: anchors_ok_def table_ok_def distinct_map dest: inj_onD)
  have "x \<in> confirmed_outputs s' \<longleftrightarrow> x \<in> confirmed_outputs s" for x
  proof (cases "fst x = a_point ?new")
    case True
    have "x \<in> confirmed_outputs s' \<longleftrightarrow> is_confirmed ?new \<and> snd x = a_batch_id ?new"
      using True unfolding confirmed_outputs_def rows by (cases x) auto
    also have "\<dots> \<longleftrightarrow> (\<exists>old \<in> ?A. a_point old = fst x \<and> is_confirmed old \<and> a_batch_id old = snd x)"
      using found ex(2) True unfolding local_reference_confirmed by auto
    also have "\<dots> \<longleftrightarrow> x \<in> confirmed_outputs s"
      unfolding confirmed_outputs_def by (cases x) force
    finally show ?thesis .
  next
    case False
    then show ?thesis unfolding confirmed_outputs_def rows by (cases x) auto
  qed
  then show ?thesis by blast
qed

lemma settled_import_anchor [preserve]: "preserves (settled E C) (import_anchor_reference a)"
proof (rule preservesI)
  fix n assume n: "settled E C n"
  then have ok: "index_ok E (ix n)" "anchors_ok (ix n)" by (auto simp: settled_def node_ok_def index_ok_def)
  from import_anchor_cases [of a n] show "settled E C (snd (import_anchor_reference a n))"
  proof (elim disjE exE conjE)
    fix b ex c s'
    assume "ex = get_anchor (ix n) (text_of (dget a ''txid'')) (int_of_json (dget a ''vout''))"
      "\<forall>old. ex = Some old \<longrightarrow> a_batch_id old = text_of (dget a ''batch_id'')"
      and add: "add_anchor (local_reference a ex) (ix n) = Inr (c, s')"
      and run: "import_anchor_reference a n
          = (Inr (text_of (dget a ''txid''), if c then ''accepted'' else ''updated''), n\<lparr>ix := s'\<rparr>)"
    then have "confirmed_outputs s' = confirmed_outputs (ix n)" using add_anchor_confirmed [OF ok(2) add] by blast
    with n run index_ok_add_anchor [OF ok(1) add] show ?thesis by (simp add: settled_def node_ok_def)
  qed (use n in simp)
qed

lemma settled_import_records:
  assumes "\<forall>r \<in> set rs. wf_json r"
  shows "preserves (settled E C) (import_pending unresolved has (submit_record E None False) (pending_of rs) 0)"
proof (rule preservesI, rule preserves_import_pending)
  fix k r assume "(k, r) \<in> set (pending_of rs)"
  then have "wf_json r" using assms pending_of_set [of rs] by auto
  then show "preserves (settled E C) (submit_record E None False r)" by (rule settled_submit_record)
qed

lemma settled_import_package: "wf_json p \<Longrightarrow> preserves (settled E C) (import_package E p)"
  unfolding import_package_def
  by (intro preserve settled_import_records) (auto intro: wf_records_of wf_dget)

lemma settled_import_snapshot: "wf_json s \<Longrightarrow> preserves (settled E C) (import_snapshot E s)"
  unfolding import_snapshot_def
  by (intro preserve settled_import_records) (auto intro: wf_list_field)

section \<open>Restoring a snapshot\<close>

lemma find_append_None: "find P (xs @ ys) = (case find P xs of None \<Rightarrow> find P ys | Some x \<Rightarrow> Some x)"
  by (induction xs) auto

lemma add_batch_get:
  assumes "add_batch b s = Inr (c, s')"
  shows "get_batch s' k = (if get_batch s k = None \<and> k = bid_of b then Some b else get_batch s k)"
proof -
  have rows: "all_rows (batches_t s') = (if bid_of b \<in> batch_ids_in s then all_rows (batches_t s)
      else all_rows (batches_t s) @ [row_of_batch b])"
    using assms by (auto simp: add_batch_eq_Inr all_rows_insert_ignore batch_ids_in_def)
  show ?thesis
  proof (cases "bid_of b \<in> batch_ids_in s")
    case True
    then show ?thesis using rows get_batch_None [of s "bid_of b"] by (auto simp: get_batch_def lookup_row_def)
  next
    case False
    with rows show ?thesis by (auto simp: get_batch_def lookup_row_def find_append_None split: option.splits)
  qed
qed

text \<open>\<open>import_batch\<close> when the records are there.\<close>

lemma import_batch_run:
  assumes "node_ok E n" "validate_batch E b = Inr ()" "wf_json b" "set (record_ids_of b) \<subseteq> record_ids_in (ix n)"
  shows "\<exists>status s'. import_batch E b n = (Inr (bid_of b, status), n\<lparr>ix := s'\<rparr>) \<and> index_ok E s'
    \<and> (\<forall>k. get_batch s' k = (if get_batch (ix n) k = None \<and> k = bid_of b then Some b else get_batch (ix n) k))
    \<and> records_t s' = records_t (ix n) \<and> anchors_t s' = anchors_t (ix n)"
proof -
  have ok: "index_ok E (ix n)" using assms(1) by (simp add: node_ok_def)
  obtain c s' where add: "add_batch b (ix n) = Inr (c, s')"
    using add_batch_total [OF ok assms(2,4)] by blast
  have "filter (\<lambda>rid. get_record (ix n) rid = None) (record_ids_of b) = []"
    using assms(4) by (auto simp: filter_empty_conv get_record_None)
  then have "import_batch E b n = (Inr (bid_of b, if c then ''accepted'' else ''already_exists''), n\<lparr>ix := s'\<rparr>)"
    using assms(2) add by (simp add: import_batch_def bind_lift bind_store reraise_def liftM_def)
  moreover have "index_ok E s'" using index_ok_add_batch(1) [OF ok assms(2,3) add] .
  ultimately show ?thesis using add_batch_get [OF add] add by (auto simp: add_batch_eq_Inr)
qed

lemma import_batches_run:
  assumes "node_ok E n" "\<forall>b \<in> set bs. validate_batch E b = Inr () \<and> wf_json b \<and> set (record_ids_of b) \<subseteq> record_ids_in (ix n)"
    and "distinct (map bid_of bs)"
  shows "\<exists>rs s'. mapM (import_batch E) bs n = (Inr rs, n\<lparr>ix := s'\<rparr>) \<and> index_ok E s'
    \<and> (\<forall>k. get_batch s' k = (if get_batch (ix n) k = None then map_of (map (\<lambda>b. (bid_of b, b)) bs) k else get_batch (ix n) k))
    \<and> records_t s' = records_t (ix n) \<and> anchors_t s' = anchors_t (ix n)"
  using assms
proof (induction bs arbitrary: n)
  case Nil
  then show ?case by (intro exI [of _ "[]"] exI [of _ "ix n"]) (auto simp: liftM_def node_ok_def)
next
  case (Cons b bs)
  obtain st s1 where b: "import_batch E b n = (Inr (bid_of b, st), n\<lparr>ix := s1\<rparr>)" "index_ok E s1"
    "\<forall>k. get_batch s1 k = (if get_batch (ix n) k = None \<and> k = bid_of b then Some b else get_batch (ix n) k)"
    "records_t s1 = records_t (ix n)" "anchors_t s1 = anchors_t (ix n)"
    using import_batch_run [OF Cons.prems(1), of b] Cons.prems(2) by auto
  have n1: "node_ok E (n\<lparr>ix := s1\<rparr>)" using Cons.prems(1) b(2) by (simp add: node_ok_def)
  have "record_ids_in s1 = record_ids_in (ix n)" using b(4) by (simp add: record_ids_in_def)
  then obtain rs s' where rest: "mapM (import_batch E) bs (n\<lparr>ix := s1\<rparr>) = (Inr rs, n\<lparr>ix := s'\<rparr>)" "index_ok E s'"
    "\<forall>k. get_batch s' k = (if get_batch s1 k = None then map_of (map (\<lambda>b. (bid_of b, b)) bs) k else get_batch s1 k)"
    "records_t s' = records_t s1" "anchors_t s' = anchors_t s1"
    using Cons.IH [OF n1] Cons.prems(2,3) by auto
  have "mapM (import_batch E) (b # bs) n = (Inr ((bid_of b, st) # rs), n\<lparr>ix := s'\<rparr>)"
    using b(1) rest(1) by (simp add: bindM_def liftM_def)
  moreover have "get_batch s' k = (if get_batch (ix n) k = None then map_of (map (\<lambda>b. (bid_of b, b)) (b # bs)) k
      else get_batch (ix n) k)" for k
    using spec [OF rest(3), of k] spec [OF b(3), of k] by auto
  ultimately show ?case using rest(2,4,5) b(4,5) by auto
qed

text \<open>An anchor that fits the index: its batch is stored with the same network, no output of another
  batch is in the way, and its numbers fit the columns.\<close>

definition anchor_fits :: "index \<Rightarrow> json \<Rightarrow> bool" where
  "anchor_fits s a \<longleftrightarrow> validate_anchor_reference a = Inr ()
     \<and> (\<exists>b. get_batch s (text_of (dget a ''batch_id'')) = Some b \<and> dget b ''network'' = dget a ''network'')
     \<and> (\<forall>old. get_anchor s (text_of (dget a ''txid'')) (int_of_json (dget a ''vout'')) = Some old \<longrightarrow>
          a_batch_id old = text_of (dget a ''batch_id'')
          \<and> sql_int (a_anchored_at old) = Inr () \<and> (\<forall>h. a_block_height old = Some h \<longrightarrow> sql_int h = Inr ()))
     \<and> sql_int (int_of_json (dget a ''vout'')) = Inr () \<and> sql_int (int_of_json (dget a ''anchored_at'')) = Inr ()
     \<and> (\<forall>h. dget a ''block_height'' = JInt h \<longrightarrow> sql_int h = Inr ())"

lemma import_anchor_run:
  assumes "anchor_fits s a" "ix n = s"
  shows "\<exists>c s'. import_anchor_reference a n
      = (Inr (text_of (dget a ''txid''), if c then ''accepted'' else ''updated''), n\<lparr>ix := s'\<rparr>)
    \<and> add_anchor (local_reference a (get_anchor s (text_of (dget a ''txid'')) (int_of_json (dget a ''vout'')))) s = Inr (c, s')"
proof -
  define ex where "ex = get_anchor s (text_of (dget a ''txid'')) (int_of_json (dget a ''vout''))"
  from assms(1) obtain b where b: "get_batch s (text_of (dget a ''batch_id'')) = Some b" "dget b ''network'' = dget a ''network''"
    and v: "validate_anchor_reference a = Inr ()" "sql_int (int_of_json (dget a ''vout'')) = Inr ()"
    and old: "\<forall>old. ex = Some old \<longrightarrow> a_batch_id old = text_of (dget a ''batch_id'')
          \<and> sql_int (a_anchored_at old) = Inr () \<and> (\<forall>h. a_block_height old = Some h \<longrightarrow> sql_int h = Inr ())"
    and new: "sql_int (int_of_json (dget a ''anchored_at'')) = Inr ()" "\<forall>h. dget a ''block_height'' = JInt h \<longrightarrow> sql_int h = Inr ()"
    by (auto simp: anchor_fits_def ex_def)
  have "sql_int (a_anchored_at (local_reference a ex)) = Inr ()"
    using old new by (auto simp: local_reference_def split: option.splits)
  moreover have "\<forall>h. a_block_height (local_reference a ex) = Some h \<longrightarrow> sql_int h = Inr ()"
    using old new by (auto simp: local_reference_def opt_number_def split: option.splits json.splits)
  moreover have "text_of (dget a ''batch_id'') \<in> batch_ids_in s" using b(1) get_batch_None [of s] by (metis option.simps(3))
  ultimately obtain c s' where add: "add_anchor (local_reference a ex) s = Inr (c, s')"
    using v(2) by (auto simp: add_anchor_eq_Inr)
  have "import_anchor_reference a n
      = (Inr (text_of (dget a ''txid''), if c then ''accepted'' else ''updated''), n\<lparr>ix := s'\<rparr>)"
    using v b old add assms(2)
    by (simp add: import_anchor_reference_def bind_lift bind_store reraise_def liftM_def
        flip: ex_def split: option.split)
  with add show ?thesis unfolding ex_def by blast
qed

lemma get_anchor_iff:
  "anchors_ok s \<Longrightarrow> get_anchor s t v = Some a \<longleftrightarrow> a \<in> set (all_rows (anchors_t s)) \<and> a_point a = (t, v)"
  by (simp add: get_anchor_def anchors_ok_def lookup_row_Some)

lemma add_anchor_get:
  assumes "anchors_ok s" "anchors_ok s'" "add_anchor a s = Inr (c, s')"
  shows "get_anchor s' t v = (if (t, v) = a_point a then Some a else get_anchor s t v)"
proof (cases "(t, v) = a_point a")
  case True
  have "a \<in> set (all_rows (anchors_t s'))" using add_anchor_rows [OF assms(3,1)] by simp
  with True show ?thesis using get_anchor_iff [OF assms(2)] by simp
next
  case False
  have "get_anchor s' t v = Some x \<longleftrightarrow> get_anchor s t v = Some x" for x
    unfolding get_anchor_iff [OF assms(2)] get_anchor_iff [OF assms(1)] add_anchor_rows [OF assms(3,1)]
    using False by auto
  then have "get_anchor s' t v = get_anchor s t v" by (metis option.exhaust)
  with False show ?thesis by simp
qed

lemma add_anchor_tables:
  assumes "add_anchor a s = Inr (c, s')"
  shows "records_t s' = records_t s" "get_batch s' = get_batch s"
  using assms by (auto simp: add_anchor_eq_Inr get_batch_def)

definition point_of :: "json \<Rightarrow> ustr \<times> int" where
  "point_of a = (text_of (dget a ''txid''), int_of_json (dget a ''vout''))"

lemma import_anchors_run:
  assumes "node_ok E n" "\<forall>a \<in> set as. anchor_fits (ix n) a" "distinct (map point_of as)"
  shows "\<exists>rs s'. mapM import_anchor_reference as n = (Inr rs, n\<lparr>ix := s'\<rparr>) \<and> index_ok E s'
    \<and> records_t s' = records_t (ix n) \<and> get_batch s' = get_batch (ix n)
    \<and> a_point ` set (all_rows (anchors_t s')) = a_point ` set (all_rows (anchors_t (ix n))) \<union> point_of ` set as"
  using assms
proof (induction as arbitrary: n)
  case Nil
  then show ?case by (intro exI [of _ "[]"] exI [of _ "ix n"]) (auto simp: liftM_def node_ok_def)
next
  case (Cons a as)
  have ok: "index_ok E (ix n)" using Cons.prems(1) by (simp add: node_ok_def)
  define new where "new = local_reference a (get_anchor (ix n) (text_of (dget a ''txid'')) (int_of_json (dget a ''vout'')))"
  have p: "a_point new = point_of a" by (simp add: new_def a_point_def point_of_def)
  obtain c s1 where a: "import_anchor_reference a n
      = (Inr (text_of (dget a ''txid''), if c then ''accepted'' else ''updated''), n\<lparr>ix := s1\<rparr>)"
    "add_anchor new (ix n) = Inr (c, s1)"
    using import_anchor_run [of "ix n" a n] Cons.prems(2) unfolding new_def by auto
  have ok1: "index_ok E s1" using index_ok_add_anchor [OF ok a(2)] .
  then have aok: "anchors_ok (ix n)" "anchors_ok s1" using ok by (auto simp: index_ok_def)
  have n1: "node_ok E (n\<lparr>ix := s1\<rparr>)" using Cons.prems(1) ok1 by (simp add: node_ok_def)
  have "anchor_fits s1 x" if x: "x \<in> set as" for x
  proof -
    have "point_of x \<in> point_of ` set as" "point_of a \<notin> point_of ` set as" using Cons.prems(3) x by auto
    then have "point_of x \<noteq> a_point new" unfolding p by metis
    then have "get_anchor s1 (text_of (dget x ''txid'')) (int_of_json (dget x ''vout''))
        = get_anchor (ix n) (text_of (dget x ''txid'')) (int_of_json (dget x ''vout''))"
      using add_anchor_get [OF aok a(2)] by (simp add: point_of_def)
    then show ?thesis using Cons.prems(2) x add_anchor_tables(2) [OF a(2)] by (auto simp: anchor_fits_def)
  qed
  then obtain rs s' where rest: "mapM import_anchor_reference as (n\<lparr>ix := s1\<rparr>) = (Inr rs, n\<lparr>ix := s'\<rparr>)" "index_ok E s'"
    "records_t s' = records_t s1" "get_batch s' = get_batch s1"
    "a_point ` set (all_rows (anchors_t s')) = a_point ` set (all_rows (anchors_t s1)) \<union> point_of ` set as"
    using Cons.IH [OF n1] Cons.prems(3) by auto
  have "mapM import_anchor_reference (a # as) n
      = (Inr ((text_of (dget a ''txid''), if c then ''accepted'' else ''updated'') # rs), n\<lparr>ix := s'\<rparr>)"
    using a(1) rest(1) by (simp add: bindM_def liftM_def)
  moreover have "a_point ` set (all_rows (anchors_t s1)) = insert (point_of a) (a_point ` set (all_rows (anchors_t (ix n))))"
    unfolding add_anchor_rows [OF a(2) aok(1)] p [symmetric] by auto
  ultimately show ?case using rest add_anchor_tables [OF a(2)] by auto
qed

lemma list_field_obj_dput:
  "list_field (dput k v (obj fs)) f = (if k = f then (case v of JList xs \<Rightarrow> xs | _ \<Rightarrow> []) else list_field (obj fs) f)"
  by (simp add: list_field_def)

lemma export_snapshot_parts:
  assumes "export_snapshot E t s = Inr snap"
  shows "validate_snapshot E snap = Inr ()"
    "list_field snap ''records'' = list_records s 10000000 False"
    "list_field snap ''batches'' = rev (list_batches s 10000000)"
    "list_field snap ''anchors'' = map anchor_as_dict (all_rows (anchors_t s))"
  using assms
  by (auto simp: export_snapshot_def Let_def bindE_eq_Inr list_field_obj_dput list_anchors_def)
     (auto simp: list_field_def)

text \<open>Export fails when a stored record targets one that is not stored.\<close>

lemma export_dangling:
  assumes "records_ok E s" "length (all_rows (records_t s)) \<le> 10000000"
    and "get_record s i = Some r" "dget r ''target_record_id'' = JStr t" "get_record s t = None"
  shows "\<exists>e. export_snapshot E now s = Inl e"
proof (rule ccontr)
  assume "\<nexists>e. export_snapshot E now s = Inl e"
  then obtain snap where snap: "export_snapshot E now s = Inr snap" by (cases "export_snapshot E now s") auto
  note p = export_snapshot_parts [OF snap]
  have rs: "list_field snap ''records'' = map r_body (all_rows (records_t s))"
    using assms(2) by (simp add: p(2) list_records_def sql_limit_def)
  have "r \<in> set (list_field snap ''records'')"
    using get_record_Some [OF assms(1)] assms(3) by (auto simp: rs)
  then have "t \<in> rid_of ` set (list_field snap ''records'')"
    using p(1) assms(4) by (auto simp: validate_snapshot_eq_Inr snapshot_closed_def)
  then have "t \<in> record_ids_in s"
    using assms(1) by (auto simp: rs records_ok_def record_ids_in_def) (metis image_eqI row_of_record_simps(1))
  then show False using assms(5) by (simp add: get_record_None)
qed

lemma list_batches_all:
  "length (all_rows (batches_t s)) \<le> 10000000 \<Longrightarrow> rev (list_batches s 10000000) = map bt_body (all_rows (batches_t s))"
  by (simp add: list_batches_def sql_limit_def rev_map)

lemma get_record_map_of:
  assumes "records_ok E s"
  shows "get_record s k = map_of (map (\<lambda>r. (rid_of r, r)) (map r_body (all_rows (records_t s)))) k"
proof -
  have "find (\<lambda>r. r_id r = k) rs = None \<and> map_of (map (\<lambda>r. (rid_of r, r)) (map r_body rs)) k = None
      \<or> (\<exists>r. find (\<lambda>r. r_id r = k) rs = Some r \<and> map_of (map (\<lambda>r. (rid_of r, r)) (map r_body rs)) k = Some (r_body r))"
    if "\<forall>r \<in> set rs. r = row_of_record (r_body r)" for rs
    using that by (induction rs) (auto, (metis row_of_record_simps(1))+)
  with assms show ?thesis
    unfolding records_ok_def get_record_def lookup_row_def by fastforce
qed

lemma get_batch_map_of:
  assumes "batches_ok E s"
  shows "get_batch s k = map_of (map (\<lambda>b. (bid_of b, b)) (map bt_body (all_rows (batches_t s)))) k"
proof -
  have "find (\<lambda>r. bt_id r = k) rs = None \<and> map_of (map (\<lambda>b. (bid_of b, b)) (map bt_body rs)) k = None
      \<or> (\<exists>r. find (\<lambda>r. bt_id r = k) rs = Some r \<and> map_of (map (\<lambda>b. (bid_of b, b)) (map bt_body rs)) k = Some (bt_body r))"
    if "\<forall>r \<in> set rs. r = row_of_batch (bt_body r)" for rs
    using that by (induction rs) (auto, (metis row_of_batch_simps(1))+)
  with assms show ?thesis
    unfolding batches_ok_def get_batch_def lookup_row_def by fastforce
qed

lemma anchor_as_dict_simps [simp]:
  "text_of (dget (anchor_as_dict a) ''txid'') = a_txid a" "dget (anchor_as_dict a) ''vout'' = JInt (a_vout a)"
  "text_of (dget (anchor_as_dict a) ''batch_id'') = a_batch_id a"
  "dget (anchor_as_dict a) ''network'' = JStr (a_network a)"
  "dget (anchor_as_dict a) ''anchored_at'' = JInt (a_anchored_at a)"
  "dget (anchor_as_dict a) ''block_height'' = opt_int (a_block_height a)"
  by (simp_all add: anchor_as_dict_def)

lemma point_of_anchor [simp]: "point_of (anchor_as_dict a) = a_point a"
  by (simp add: point_of_def a_point_def int_of_json_def)

text \<open>Storing records changes no other table.\<close>

lemma submit_record_tables:
  "preserves (\<lambda>n. batches_t (ix n) = B \<and> anchors_t (ix n) = A) (submit_record E policy local r)"
proof -
  have "preserves (\<lambda>n. batches_t (ix n) = B \<and> anchors_t (ix n) = A) (storeM (\<lambda>s. Inr (add_record r s)))"
    unfolding storeM_def
    by (rule preserves_update) (auto simp: bindE_eq_Inr add_record_def Let_def split: prod.splits)
  then show ?thesis unfolding submit_record_def by (intro preserve)
qed

lemma import_records_tables:
  assumes "import_pending unresolved has (submit_record E None False) pending i n = (x, n')"
  shows "batches_t (ix n') = batches_t (ix n)" "anchors_t (ix n') = anchors_t (ix n)"
  using preserves_import_pending [where I = "\<lambda>m. batches_t (ix m) = batches_t (ix n) \<and> anchors_t (ix m) = anchors_t (ix n)"
      and submit = "submit_record E None False" and pending = pending and s = n and unresolved = unresolved
      and has = has and imported = i] submit_record_tables assms by auto

text \<open>A node restored from an exported snapshot stores the same records, batches and outputs, none of
  them confirmed.\<close>

lemma restore_snapshot:
  assumes ok: "node_ok E n" and small: "length (all_rows (records_t (ix n))) \<le> 10000000"
      "length (all_rows (batches_t (ix n))) \<le> 10000000"
    and snap: "export_snapshot E now (ix n) = Inr snap"
    and ranked: "targets_ranked rank (map r_body (all_rows (records_t (ix n))))"
    and nets: "\<forall>a \<in> set (all_rows (anchors_t (ix n))). \<exists>b. get_batch (ix n) (a_batch_id a) = Some b
        \<and> dget b ''network'' = JStr (a_network a)"
    and empty: "ix m = empty_index" "evidence_ok E (ev m)"
  shows "\<exists>counts m'. import_snapshot E snap m = (Inr counts, m') \<and> node_ok E m'
    \<and> get_record (ix m') = get_record (ix n) \<and> get_batch (ix m') = get_batch (ix n)
    \<and> a_point ` set (all_rows (anchors_t (ix m'))) = a_point ` set (all_rows (anchors_t (ix n)))
    \<and> confirmed_outputs (ix m') = {}"
proof -
  have parts: "records_ok E (ix n)" "batches_ok E (ix n)" "anchors_ok (ix n)"
    using ok by (auto simp: node_ok_def index_ok_def)
  note p = export_snapshot_parts [OF snap]
  define rs bs as where "rs = map r_body (all_rows (records_t (ix n)))"
    and "bs = map bt_body (all_rows (batches_t (ix n)))" and "as = all_rows (anchors_t (ix n))"
  have fields: "list_field snap ''records'' = rs" "list_field snap ''batches'' = bs"
    "list_field snap ''anchors'' = map anchor_as_dict as"
    using small by (simp_all add: p list_batches_all rs_def bs_def as_def list_records_def sql_limit_def)
  have closed: "snapshot_closed E rs bs (map anchor_as_dict as)"
    using p(1) fields by (auto simp: validate_snapshot_eq_Inr)
  have m0: "node_ok E m" using empty by (simp add: node_ok_def index_ok_empty)
  have none: "get_record (ix m) k = None" "get_batch (ix m) k = None" "get_anchor (ix m) t v = None"
    "record_ids_in (ix m) = {}" "confirmed_outputs (ix m) = {}" "anchors_t (ix m) = empty_table" for k t v
    by (simp_all add: empty empty_index_def get_record_def get_batch_def get_anchor_def lookup_row_def
        record_ids_in_def confirmed_outputs_def)
  have r: "\<forall>r \<in> set rs. validate_record E r = Inr () \<and> wf_json r" "distinct (map rid_of rs)"
    using closed parts(1) by (auto simp: snapshot_closed_def rs_def records_ok_def)
  from import_records_total [OF m0 r ranked [folded rs_def],
      of "service_error ''snapshot record graph contains unresolved targets''"]
  obtain c1 m1 where m1: "import_pending (service_error ''snapshot record graph contains unresolved targets'')
      (\<lambda>n t. get_record (ix n) t \<noteq> None) (submit_record E None False) (pending_of rs) 0 m = (Inr c1, m1)"
    "node_ok E m1" "record_ids_in (ix m1) = rid_of ` set rs"
    "\<forall>r \<in> set rs. get_record (ix m1) (rid_of r) = Some r"
    unfolding none by auto
  have tables1: "batches_t (ix m1) = empty_table" "anchors_t (ix m1) = empty_table"
    using import_records_tables [OF m1(1)] by (simp_all add: empty empty_index_def)
  have recs: "get_record (ix m1) k = get_record (ix n) k" for k
  proof (cases "k \<in> rid_of ` set rs")
    case True
    then obtain x where x: "x \<in> set rs" "k = rid_of x" by auto
    then have "map_of (map (\<lambda>r. (rid_of r, r)) rs) k = Some x"
      using r(2) by (intro map_of_is_SomeI) (auto simp: comp_def)
    then show ?thesis
      using bspec [OF m1(4) x(1)] x(2) get_record_map_of [OF parts(1), of k, folded rs_def] by metis
  next
    case False
    then have "map_of (map (\<lambda>r. (rid_of r, r)) rs) k = None" by (auto simp: map_of_eq_None_iff)
    moreover have "get_record (ix m1) k = None" using False m1(3) by (simp add: get_record_None)
    ultimately show ?thesis using get_record_map_of [OF parts(1), of k, folded rs_def] by metis
  qed
  have b: "\<forall>b \<in> set bs. validate_batch E b = Inr () \<and> wf_json b \<and> set (record_ids_of b) \<subseteq> record_ids_in (ix m1)"
    "distinct (map bid_of bs)"
    using closed parts(2) m1(3) by (auto simp: snapshot_closed_def bs_def batches_ok_def bid_of_def [abs_def])
  have nob: "get_batch (ix m1) k = None" for k by (simp add: get_batch_def lookup_row_def tables1)
  from import_batches_run [OF m1(2) b] obtain c2 s2
    where m2: "mapM (import_batch E) bs m1 = (Inr c2, m1\<lparr>ix := s2\<rparr>)" "index_ok E s2"
    "\<forall>k. get_batch s2 k = map_of (map (\<lambda>b. (bid_of b, b)) bs) k"
    "records_t s2 = records_t (ix m1)" "anchors_t s2 = empty_table"
    unfolding nob tables1 by auto
  have bats: "get_batch s2 k = get_batch (ix n) k" for k
    using m2(3) get_batch_map_of [OF parts(2), of k] by (simp add: bs_def)
  have m2ok: "node_ok E (m1\<lparr>ix := s2\<rparr>)" using m1(2) m2(2) by (simp add: node_ok_def)
  have "anchor_fits s2 (anchor_as_dict a)" if a: "a \<in> set as" for a
  proof -
    have "get_anchor s2 t v = None" for t v by (simp add: get_anchor_def lookup_row_def m2(5))
    moreover obtain bt where "get_batch s2 (a_batch_id a) = Some bt" "dget bt ''network'' = JStr (a_network a)"
      using nets a bats by (auto simp: as_def)
    moreover have "anchor_ints a" using parts(3) a by (auto simp: anchors_ok_def as_def)
    moreover have "validate_anchor_reference (anchor_as_dict a) = Inr ()"
      using closed a by (auto simp: snapshot_closed_def)
    ultimately show ?thesis
      by (auto simp: anchor_fits_def anchor_ints_def int_of_json_def opt_int_def split: option.splits)
  qed
  then have fits: "\<forall>a \<in> set (map anchor_as_dict as). anchor_fits (ix (m1\<lparr>ix := s2\<rparr>)) a" by auto
  have dist: "distinct (map point_of (map anchor_as_dict as))"
    using parts(3) by (simp add: anchors_ok_def table_ok_def as_def comp_def)
  from import_anchors_run [OF m2ok fits dist] obtain c3 s3
    where m3: "mapM import_anchor_reference (map anchor_as_dict as) (m1\<lparr>ix := s2\<rparr>) = (Inr c3, m1\<lparr>ix := s3\<rparr>)"
    "index_ok E s3" "records_t s3 = records_t s2" "get_batch s3 = get_batch s2"
    "a_point ` set (all_rows (anchors_t s3)) = a_point ` set as"
    using m2(5) by (auto simp: image_image)
  have set2: "settled E {} (m1\<lparr>ix := s2\<rparr>)"
    using m2ok m2(5) by (simp add: settled_def confirmed_outputs_def)
  have "preserves (settled E {}) (mapM import_anchor_reference (map anchor_as_dict as))"
    by (intro preserve)
  from preservesD [OF this m3(1) set2] have set3: "settled E {} (m1\<lparr>ix := s3\<rparr>)" .
  have "import_snapshot E snap m = (Inr (c1, accepted_count c2, accepted_count c3), m1\<lparr>ix := s3\<rparr>)"
    using p(1) m1(1) m2(1) m3(1) unfolding import_snapshot_def fields by (simp add: bindM_def liftM_def)
  moreover have "get_record s3 = get_record (ix n)" using recs m3(3) m2(4) by (auto simp: get_record_def)
  moreover have "get_batch s3 = get_batch (ix n)" using bats m3(4) by auto
  ultimately show ?thesis using set3 m3(5) by (auto simp: settled_def as_def)
qed

end
