(* ===== verification/Anchoring.thy ===== *)
theory Anchoring
  imports SnapshotFacts Bitcoin
begin

text \<open>
  \<^verbatim>\<open>src/hap/service.py\<close>: the operations that connect a batch to Bitcoin, \<open>anchor_batch\<close>,
  \<open>direct_anchor_record\<close>, \<open>register_scanned_anchor\<close> and \<open>verify_bitcoin_anchor\<close>. The RPC client's
  answers are those of an \<open>rpc\<close>; its request counter is part of the node.

  What a verification or a registration stores is tied to what the RPC or the chain scan said.
\<close>

section \<open>RPC requests of a node\<close>

definition rpcM :: "'a act \<Rightarrow> (node, 'a) op" where
  "rpcM m n = (case m (calls n) of (r, c) \<Rightarrow> (r, n\<lparr>calls := c\<rparr>))"

lemma rpcM_eq [result_simps]:
  "rpcM m n = (r, n') \<longleftrightarrow> (\<exists>c. m (calls n) = (r, c) \<and> n' = n\<lparr>calls := c\<rparr>)"
  by (auto simp: rpcM_def split: prod.splits)

lemma preserves_rpc [preserve]: "preserves (node_ok E) (rpcM m)"
  by (simp add: preserves_def rpcM_def node_ok_def split: prod.splits)

text \<open>
  Values of the RPC's answers that are bound to columns. A \<open>TEXT NOT NULL\<close> column stores a number
  as its text. A block height is an integer or null in the answers of Bitcoin Core; SQLite would
  store any other value as it is, which is an error here.
\<close>

definition column_text :: "rpc \<Rightarrow> json \<Rightarrow> ustr result" where
  "column_text R v = (case v of
     JStr s \<Rightarrow> bindE (encode_utf8 s) (\<lambda>_. Inr s)
   | JNull \<Rightarrow> Inl (Exn IntegrityError ''NOT NULL constraint failed'')
   | JBool b \<Rightarrow> Inr (py_str_int (if b then 1 else 0))
   | JInt i \<Rightarrow> bindE (sql_int i) (\<lambda>_. Inr (py_str_int i))
   | JFloat f \<Rightarrow> Inr (py_repr R v)
   | _ \<Rightarrow> Inl (Exn OtherError ''Error binding parameter''))"

definition column_opt_text :: "rpc \<Rightarrow> json \<Rightarrow> ustr option result" where
  "column_opt_text R v = (if v = JNull then Inr None else bindE (column_text R v) (\<lambda>s. Inr (Some s)))"

definition column_opt_int :: "json \<Rightarrow> int option result" where
  "column_opt_int v = (case v of
     JNull \<Rightarrow> Inr None | JInt i \<Rightarrow> Inr (Some i) | JBool b \<Rightarrow> Inr (Some (if b then 1 else 0))
   | _ \<Rightarrow> Inl (Exn OtherError ''not an integer''))"

section \<open>Anchoring\<close>

definition anchor_batch :: "env \<Rightarrow> rpc \<Rightarrow> int \<Rightarrow> bool \<Rightarrow> ustr \<Rightarrow> (node, anchor \<times> pyfloat) op" where
  "anchor_batch E R now allow_mainnet batch_id =
     bindM (askM (\<lambda>s. get_batch s batch_id)) (\<lambda>found.
     case found of
       None \<Rightarrow> raiseM (service_error ''batch not found'')
     | Some batch \<Rightarrow>
         bindM (liftM (validate_batch E batch)) (\<lambda>_.
         if dget batch ''network'' = JStr (str ''mainnet'') \<and> \<not> allow_mainnet
         then raiseM (service_error ''mainnet anchoring is disabled; explicitly enable it after commissioning'')
         else bindM (rpcM (rpc_network R)) (\<lambda>network.
         if network \<noteq> dget batch ''network''
         then raiseM (service_error ''Bitcoin RPC is on another network than this batch was prepared for'')
         else bindM (rpcM (broadcast_op_return R (text_of (dget batch ''payload_hex'')))) (\<lambda>sent.
         bindM (liftM (column_text R (b_txid sent))) (\<lambda>txid.
         let anchor = \<lparr>a_txid = txid, a_vout = b_vout sent, a_batch_id = batch_id,
               a_network = text_of network, a_status = str ''broadcast'', a_anchored_at = now,
               a_block_hash = None, a_block_height = None\<rparr>
         in bindM (storeM (add_anchor anchor)) (\<lambda>_. returnM (anchor, b_fee_btc sent)))))))"

definition direct_anchor_record ::
  "env \<Rightarrow> rpc \<Rightarrow> int \<Rightarrow> int \<Rightarrow> bool \<Rightarrow> ustr \<Rightarrow> ustr \<Rightarrow> (node, json \<times> json \<times> anchor) op" where
  "direct_anchor_record E R now now' allow_mainnet record_id network =
     bindM (create_direct_batch E now record_id network) (\<lambda>batch.
     bindM (readM (\<lambda>n. package_for_batch E (ix n) (bid_of batch))) (\<lambda>r. bindM (liftM r) (\<lambda>package.
     case package of
       None \<Rightarrow> raiseM (service_error ''could not construct the direct-publication package'')
     | Some p \<Rightarrow> bindM (anchor_batch E R now' allow_mainnet (bid_of batch)) (\<lambda>(anchor, _).
         returnM (batch, p, anchor)))))"

text \<open>A batch for mainnet is refused before any request where mainnet is not allowed; what is returned was
  sent on the network of the batch, at a fee within the maximum.\<close>

lemma anchor_batch_guarded:
  assumes b: "get_batch (ix n) bid = Some b" and run: "anchor_batch E R now allow_mainnet bid n = (res, n')"
  shows "(dget b ''network'' = JStr (str ''mainnet'') \<and> \<not> allow_mainnet \<longrightarrow> (\<exists>e. res = Inl e) \<and> n' = n)
    \<and> (\<forall>a fee. res = Inr (a, fee) \<longrightarrow> a_batch_id a = bid \<and> \<not> is_confirmed a
        \<and> fst (rpc_network R (calls n)) = Inr (dget b ''network'') \<and> \<not> float_less (max_anchor_fee_btc R) fee)"
proof (intro conjI impI allI)
  assume "dget b ''network'' = JStr (str ''mainnet'') \<and> \<not> allow_mainnet"
  then have "(\<exists>e. res = Inl e) \<and> n' = n"
    using run b by (cases "validate_batch E b") (auto simp: anchor_batch_def liftM_def bindM_def readM_def)
  then show "\<exists>e. res = Inl e" "n' = n" by auto
next
  fix a fee assume "res = Inr (a, fee)"
  with run b obtain sent c c' where sent: "fst (rpc_network R (calls n)) = Inr (dget b ''network'')"
    "broadcast_op_return R (text_of (dget b ''payload_hex'')) c = (Inr sent, c')" "fee = b_fee_btc sent"
    "a_batch_id a = bid" "a_status a = str ''broadcast''"
    by (auto simp: anchor_batch_def result_simps Let_def)
  then show "a_batch_id a = bid" "\<not> is_confirmed a" "fst (rpc_network R (calls n)) = Inr (dget b ''network'')"
    "\<not> float_less (max_anchor_fee_btc R) fee"
    using broadcast_checks(3) [OF sent(2)] by (auto simp: is_confirmed_def)
qed

section \<open>Registering a scanned commitment\<close>

definition anchor_of_commitment :: "ustr \<Rightarrow> ustr \<Rightarrow> commitment \<Rightarrow> anchor" where
  "anchor_of_commitment batch_id txid c =
     \<lparr>a_txid = txid, a_vout = c_vout c, a_batch_id = batch_id, a_network = c_network c,
      a_status = str ''confirmed'', a_anchored_at = c_block_time c,
      a_block_hash = Some (c_block_hash c), a_block_height = Some (c_block_height c)\<rparr>"

definition register_scanned_anchor :: "ustr \<Rightarrow> ustr \<Rightarrow> int \<Rightarrow> (node, anchor) op" where
  "register_scanned_anchor batch_id txid vout =
     bindM (askM (\<lambda>s. get_batch s batch_id)) (\<lambda>found.
     case found of
       None \<Rightarrow> raiseM (missing_dependency ''Bitcoin commitment package has not been retrieved yet'')
     | Some batch \<Rightarrow>
         bindM (askM (\<lambda>s. filter (\<lambda>c. c_txid c = txid \<and> c_vout c = vout)
           (list_commitments s False (Some batch_id) 10000))) (\<lambda>matches.
         if matches = []
         then raiseM (missing_dependency ''Bitcoin commitment is not present in the local chain scan'')
         else let c = hd matches in
         if JStr (c_payload_hex c) \<noteq> dget batch ''payload_hex''
         then raiseM (service_error ''scanned Bitcoin payload does not match the retrieved batch'')
         else let anchor = anchor_of_commitment batch_id txid c in
         bindM (storeM (add_anchor anchor)) (\<lambda>_.
         bindM (mapM (\<lambda>item. storeM (\<lambda>s. Inr ((), mark_commitment_resolved (c_txid item) (c_vout item) s))) matches) (\<lambda>_.
         returnM anchor))))"

section \<open>Verifying an anchor with Bitcoin Core\<close>

record verification =
  vf_verified :: bool
  vf_payload_matches :: bool
  vf_confirmations :: int
  vf_txid :: ustr
  vf_vout :: int
  vf_payload_hex :: ustr
  vf_expected_payload_hex :: ustr
  vf_context :: "block_context option"
  vf_status :: string

text \<open>\<open>int(tx.get("confirmations", 0) or 0)\<close>\<close>

definition tx_confirmations :: "json \<Rightarrow> int result" where
  "tx_confirmations tx = bindE (dict_get tx ''confirmations'' (JInt 0)) (\<lambda>v.
     if truthy v then py_int v else Inr 0)"

definition context_of :: "rpc \<Rightarrow> json \<Rightarrow> (node, block_context option) op" where
  "context_of R bhash =
     (if truthy bhash then bindM (rpcM (rpc_block_context R bhash)) (\<lambda>c. returnM (Some c))
      else returnM None)"

definition verified_status :: "bool \<Rightarrow> int \<Rightarrow> block_context option \<Rightarrow> string" where
  "verified_status payload_matches confirmations context =
     (if payload_matches \<and> 0 < confirmations \<and> (case context of None \<Rightarrow> False | Some c \<Rightarrow> in_active_chain c)
      then ''confirmed''
      else if payload_matches \<and> (case context of None \<Rightarrow> False | Some c \<Rightarrow> \<not> in_active_chain c)
      then ''reorganised''
      else if payload_matches then ''broadcast'' else ''invalid'')"

text \<open>The existing row of the output, or a new one with the network that the RPC names now.\<close>

definition base_anchor :: "rpc \<Rightarrow> int \<Rightarrow> ustr \<Rightarrow> ustr \<Rightarrow> int \<Rightarrow> anchor option \<Rightarrow> (node, anchor) op" where
  "base_anchor R now batch_id txid vout existing = (case existing of
     Some a \<Rightarrow> returnM a
   | None \<Rightarrow> bindM (rpcM (rpc_network R)) (\<lambda>network. bindM (liftM (column_text R network)) (\<lambda>net.
       returnM \<lparr>a_txid = txid, a_vout = vout, a_batch_id = batch_id, a_network = net, a_status = [],
         a_anchored_at = now, a_block_hash = None, a_block_height = None\<rparr>)))"

text \<open>From the payload that was found to the row that is stored.\<close>

definition record_verification ::
  "rpc \<Rightarrow> int \<Rightarrow> ustr \<Rightarrow> ustr \<Rightarrow> ustr \<Rightarrow> anchor list \<Rightarrow> ustr \<Rightarrow> json \<Rightarrow> int \<Rightarrow> (node, verification) op" where
  "record_verification R now batch_id tx_id payload anchors found_hex tx found_vout =
     bindM (liftM (tx_confirmations tx)) (\<lambda>confirmations.
     bindM (liftM (dict_get tx ''blockhash'' JNull)) (\<lambda>bhash.
     bindM (context_of R bhash) (\<lambda>context.
     bindM (base_anchor R now batch_id tx_id found_vout
       (find (\<lambda>a. a_txid a = tx_id \<and> a_vout a = found_vout) anchors)) (\<lambda>base.
     let matches = (found_hex = payload);
         status = verified_status matches confirmations context in
     bindM (liftM (column_opt_text R bhash)) (\<lambda>bh.
     bindM (liftM (case context of None \<Rightarrow> Inr None | Some c \<Rightarrow> column_opt_int (block_height c))) (\<lambda>height.
     bindM (storeM (add_anchor (base\<lparr>a_status := str status, a_block_hash := bh, a_block_height := height\<rparr>))) (\<lambda>_.
     returnM \<lparr>vf_verified = (status = ''confirmed''), vf_payload_matches = matches,
       vf_confirmations = confirmations, vf_txid = tx_id, vf_vout = found_vout,
       vf_payload_hex = found_hex, vf_expected_payload_hex = payload, vf_context = context,
       vf_status = status\<rparr>)))))))"

definition verify_bitcoin_anchor ::
  "rpc \<Rightarrow> int \<Rightarrow> ustr \<Rightarrow> ustr option \<Rightarrow> (node, verification option) op" where
  "verify_bitcoin_anchor R now batch_id txid =
     bindM (askM (\<lambda>s. get_batch s batch_id)) (\<lambda>found.
     case found of
       None \<Rightarrow> raiseM (service_error ''batch not found'')
     | Some batch \<Rightarrow>
         bindM (askM (\<lambda>s. list_anchors s (Some batch_id))) (\<lambda>anchors.
         if txid = None \<and> anchors = [] then raiseM (service_error ''no anchor found for batch'')
         else let tx_id = (case txid of None \<Rightarrow> a_txid (last anchors) | Some t \<Rightarrow> t);
                  payload = text_of (dget batch ''payload_hex'') in
         bindM (rpcM (rpc_network R)) (\<lambda>network.
         if network \<noteq> dget batch ''network''
         then raiseM (service_error ''Bitcoin RPC network does not match batch network'')
         else let known = find (\<lambda>a. a_txid a = tx_id) anchors in
         bindM (rpcM (find_payload R (JStr tx_id) (opt_str (Option.bind known a_block_hash)) (Some payload)
           (map_option a_vout known))) (\<lambda>result.
         case result of
           None \<Rightarrow> returnM None
         | Some (found_hex, tx, found_vout) \<Rightarrow>
             bindM (record_verification R now batch_id tx_id payload anchors found_hex tx found_vout)
               (\<lambda>v. returnM (Some v))))))"

section \<open>The invariant is kept\<close>

lemma preserves_add_anchor [preserve]: "preserves (node_ok E) (storeM (add_anchor a))"
  by (rule preserves_storeM) (rule index_ok_add_anchor)

lemma preserves_mark [preserve]:
  "preserves (node_ok E) (storeM (\<lambda>s. Inr ((), mark_commitment_resolved t v s)))"
  by (rule preserves_storeM) (auto intro: index_ok_mark_resolved)

lemma preserves_anchor_batch [preserve]: "preserves (node_ok E) (anchor_batch E R now allow bid)"
  unfolding anchor_batch_def Let_def by (intro preserve)

lemma preserves_direct_anchor: "preserves (node_ok E) (direct_anchor_record E R now now' allow rid network)"
  unfolding direct_anchor_record_def by (intro preserve preserves_create_direct_batch)

lemma preserves_register [preserve]: "preserves (node_ok E) (register_scanned_anchor bid txid vout)"
  unfolding register_scanned_anchor_def Let_def by (intro preserve)

lemma preserves_verify_anchor: "preserves (node_ok E) (verify_bitcoin_anchor R now bid txid)"
  unfolding verify_bitcoin_anchor_def record_verification_def Let_def context_of_def base_anchor_def
  by (intro preserve)

section \<open>What a verification says\<close>

lemma context_of_run:
  assumes "context_of R bhash n = (Inr c, n')"
  shows "ix n' = ix n" "c = None \<longrightarrow> \<not> truthy bhash"
    "\<forall>ctx. c = Some ctx \<longrightarrow> (\<exists>j j'. rpc_block_context R bhash j = (Inr ctx, j'))"
  using assms by (auto simp: context_of_def result_simps split: if_splits)

lemma base_anchor_run:
  assumes "base_anchor R now bid txid vout existing n = (Inr a, n')"
    and "\<forall>old. existing = Some old \<longrightarrow> a_txid old = txid \<and> a_vout old = vout \<and> a_batch_id old = bid"
  shows "ix n' = ix n" "a_txid a = txid" "a_vout a = vout" "a_batch_id a = bid"
  using assms by (auto simp: base_anchor_def result_simps split: option.splits)

lemma batch_id_nonempty: "batches_ok E s \<Longrightarrow> get_batch s bid = Some b \<Longrightarrow> bid \<noteq> []"
  using get_batch_valid [of E s bid b] validate_batch_payload [of E b "()"] by (auto simp: bid_of_def)

lemma list_anchors_batch: "bid \<noteq> [] \<Longrightarrow> a \<in> set (list_anchors s (Some bid)) \<longleftrightarrow>
    a \<in> set (all_rows (anchors_t s)) \<and> a_batch_id a = bid"
  by (cases bid) (auto simp: list_anchors_def)

lemma verify_anchor_run:
  assumes run: "verify_bitcoin_anchor R now bid txid n = (Inr (Some v), n')" and ok: "node_ok E n"
  shows "\<exists>batch bh ev k k' tx bhash m m' base c. get_batch (ix n) bid = Some batch
    \<and> vf_expected_payload_hex v = text_of (dget batch ''payload_hex'')
    \<and> find_payload R (JStr (vf_txid v)) bh (Some (vf_expected_payload_hex v)) ev k
        = (Inr (Some (vf_payload_hex v, tx, vf_vout v)), k')
    \<and> tx_confirmations tx = Inr (vf_confirmations v) \<and> dict_get tx ''blockhash'' JNull = Inr bhash
    \<and> context_of R bhash m = (Inr (vf_context v), m')
    \<and> vf_payload_matches v = (vf_payload_hex v = vf_expected_payload_hex v)
    \<and> vf_status v = verified_status (vf_payload_matches v) (vf_confirmations v) (vf_context v)
    \<and> vf_verified v = (vf_status v = ''confirmed'')
    \<and> a_txid base = vf_txid v \<and> a_vout base = vf_vout v \<and> a_batch_id base = bid \<and> a_status base = str (vf_status v)
    \<and> add_anchor base (ix n) = Inr (c, ix n')"
proof -
  from run obtain batch where batch: "get_batch (ix n) bid = Some batch"
    by (auto simp: verify_bitcoin_anchor_def result_simps split: option.splits)
  define anchors where "anchors = list_anchors (ix n) (Some bid)"
  define txid' where "txid' = (case txid of None \<Rightarrow> a_txid (last anchors) | Some t \<Rightarrow> t)"
  define payload where "payload = text_of (dget batch ''payload_hex'')"
  note step = run [unfolded verify_bitcoin_anchor_def Let_def bindM_simps batch option.case,
      folded anchors_def, folded txid'_def payload_def]
  obtain bh ev k k' p tx vout n1 where found: "find_payload R (JStr txid') bh (Some payload) ev k
        = (Inr (Some (p, tx, vout)), k')" "ix n1 = ix n"
    and rest: "record_verification R now bid txid' payload anchors p tx vout n1 = (Inr v, n')"
  proof -
    from step obtain network n0 where s2: "bindM (rpcM (find_payload R (JStr txid') (opt_str (Option.bind (find (\<lambda>a. a_txid a = txid') anchors) a_block_hash))
          (Some payload) (map_option a_vout (find (\<lambda>a. a_txid a = txid') anchors)))) (\<lambda>result.
         case result of None \<Rightarrow> returnM None | Some (found_hex, tx, found_vout) \<Rightarrow>
             bindM (record_verification R now bid txid' payload anchors found_hex tx found_vout)
               (\<lambda>v. returnM (Some v))) n0 = (Inr (Some v), n')"
      and "\<not> (network \<noteq> dget batch ''network'')" and "ix n0 = ix n"
      unfolding if_raiseM(1) bindM_eq_Inr [of "rpcM (rpc_network R)"] rpcM_eq
      by (elim conjE exE) (rule that, assumption, assumption, simp)
    from s2 obtain result n1 where r: "rpcM (find_payload R (JStr txid') (opt_str (Option.bind (find (\<lambda>a. a_txid a = txid') anchors) a_block_hash))
          (Some payload) (map_option a_vout (find (\<lambda>a. a_txid a = txid') anchors))) n0 = (Inr result, n1)"
      "(case result of None \<Rightarrow> returnM None | Some (found_hex, tx, found_vout) \<Rightarrow>
             bindM (record_verification R now bid txid' payload anchors found_hex tx found_vout)
               (\<lambda>v. returnM (Some v))) n1 = (Inr (Some v), n')"
      unfolding bindM_eq_Inr [of "rpcM _"] by blast
    then obtain p tx vout where "result = Some (p, tx, vout)" by (cases result) (auto simp: liftM_def)
    with r \<open>ix n0 = ix n\<close> show thesis
      by (intro that [of "opt_str (Option.bind (find (\<lambda>a. a_txid a = txid') anchors) a_block_hash)"
            "map_option a_vout (find (\<lambda>a. a_txid a = txid') anchors)" "calls n0" p tx vout "calls n1" n1])
        (auto simp: rpcM_eq bindM_eq_Inr liftM_eq)
  qed
  obtain confs bhash m m' m'' ctxt base bh' height c s'
    where parts: "tx_confirmations tx = Inr confs" "dict_get tx ''blockhash'' JNull = Inr bhash"
    "context_of R bhash m = (Inr ctxt, m')" "ix m = ix n"
    "base_anchor R now bid txid' vout (find (\<lambda>a. a_txid a = txid' \<and> a_vout a = vout) anchors) m' = (Inr base, m'')"
    "add_anchor (base\<lparr>a_status := str (verified_status (p = payload) confs ctxt),
               a_block_hash := bh', a_block_height := height\<rparr>) (ix m'') = Inr (c, s')"
    "n' = m''\<lparr>ix := s'\<rparr>"
    "v = \<lparr>vf_verified = (verified_status (p = payload) confs ctxt = ''confirmed''), vf_payload_matches = (p = payload),
               vf_confirmations = confs, vf_txid = txid', vf_vout = vout,
               vf_payload_hex = p, vf_expected_payload_hex = payload, vf_context = ctxt,
               vf_status = verified_status (p = payload) confs ctxt\<rparr>"
    using rest found(2)
    unfolding record_verification_def Let_def bindM_eq_Inr liftM_eq storeM_eq_Inr sum.inject Pair_inject
    by (elim exE conjE) (rule that, (assumption | rule sym, assumption | simp)+)
  have bid: "bid \<noteq> []" using batch_id_nonempty [OF _ batch] ok by (auto simp: node_ok_def index_ok_def)
  have "\<forall>old. find (\<lambda>a. a_txid a = txid' \<and> a_vout a = vout) anchors = Some old \<longrightarrow>
      a_txid old = txid' \<and> a_vout old = vout \<and> a_batch_id old = bid"
    using list_anchors_batch [OF bid] by (auto simp: find_Some_iff anchors_def) (metis nth_mem)
  note base = base_anchor_run [OF parts(5) this] and ctx = context_of_run(1) [OF parts(3)]
  have "add_anchor (base\<lparr>a_status := str (verified_status (p = payload) confs ctxt),
               a_block_hash := bh', a_block_height := height\<rparr>) (ix n) = Inr (c, ix n')"
    using parts(4,6,7) base(1) ctx by simp
  note add = this
  have vf: "vf_txid v = txid'" "vf_vout v = vout" "vf_payload_hex v = p" "vf_expected_payload_hex v = payload"
    "vf_confirmations v = confs" "vf_context v = ctxt" "vf_payload_matches v = (p = payload)"
    "vf_status v = verified_status (p = payload) confs ctxt"
    "vf_verified v = (verified_status (p = payload) confs ctxt = ''confirmed'')"
    by (simp_all add: parts(8))
  show ?thesis
    unfolding vf
  proof (intro exI conjI)
    show "get_batch (ix n) bid = Some batch" by (rule batch)
    show "payload = text_of (dget batch ''payload_hex'')" by (rule payload_def)
    show "find_payload R (JStr txid') bh (Some payload) ev k = (Inr (Some (p, tx, vout)), k')" by (rule found(1))
    show "tx_confirmations tx = Inr confs" by (rule parts(1))
    show "dict_get tx ''blockhash'' JNull = Inr bhash" by (rule parts(2))
    show "context_of R bhash m = (Inr ctxt, m')" by (rule parts(3))
    show "add_anchor (base\<lparr>a_status := str (verified_status (p = payload) confs ctxt),
               a_block_hash := bh', a_block_height := height\<rparr>) (ix n) = Inr (c, ix n')" by (rule add)
  qed (use base in simp_all)
qed

text \<open>What stands behind a confirmation: the RPC gave a transaction that carries the payload, has
  confirmations, and is in a block of the active chain.\<close>

definition chain_evidence :: "rpc \<Rightarrow> ustr \<Rightarrow> int \<Rightarrow> ustr \<Rightarrow> bool" where
  "chain_evidence R txid vout payload \<longleftrightarrow> (\<exists>bh ev k k' tx confs bhash ctx j j'.
     find_payload R (JStr txid) bh (Some payload) ev k = (Inr (Some (payload, tx, vout)), k')
     \<and> tx_confirmations tx = Inr confs \<and> 0 < confs
     \<and> dict_get tx ''blockhash'' JNull = Inr bhash
     \<and> rpc_block_context R bhash j = (Inr ctx, j') \<and> in_active_chain ctx)"

lemma verified_status_confirmed:
  "verified_status m c ctx = ''confirmed'' \<longleftrightarrow> m \<and> 0 < c \<and> (\<exists>x. ctx = Some x \<and> in_active_chain x)"
  by (auto simp: verified_status_def split: option.splits)

lemma verify_anchor_sound:
  assumes run: "verify_bitcoin_anchor R now bid txid n = (Inr (Some v), n')" and ok: "node_ok E n"
  shows "vf_verified v \<longrightarrow> chain_evidence R (vf_txid v) (vf_vout v) (vf_expected_payload_hex v)"
    "\<exists>a. get_anchor (ix n') (vf_txid v) (vf_vout v) = Some a \<and> a_batch_id a = bid
       \<and> (is_confirmed a \<longleftrightarrow> vf_verified v)"
    "\<forall>t o1. (t, o1) \<noteq> (vf_txid v, vf_vout v) \<longrightarrow> get_anchor (ix n') t o1 = get_anchor (ix n) t o1"
    "\<exists>b. get_batch (ix n) bid = Some b \<and> dget b ''payload_hex'' = JStr (vf_expected_payload_hex v)"
proof -
  from verify_anchor_run [OF assms] obtain batch bh ev k k' tx bhash m m' base c
    where batch: "get_batch (ix n) bid = Some batch" "vf_expected_payload_hex v = text_of (dget batch ''payload_hex'')"
    and found: "find_payload R (JStr (vf_txid v)) bh (Some (vf_expected_payload_hex v)) ev k
        = (Inr (Some (vf_payload_hex v, tx, vf_vout v)), k')"
    and tx: "tx_confirmations tx = Inr (vf_confirmations v)" "dict_get tx ''blockhash'' JNull = Inr bhash"
    and ctx: "context_of R bhash m = (Inr (vf_context v), m')"
    and v: "vf_payload_matches v = (vf_payload_hex v = vf_expected_payload_hex v)"
      "vf_status v = verified_status (vf_payload_matches v) (vf_confirmations v) (vf_context v)"
      "vf_verified v = (vf_status v = ''confirmed'')"
    and base: "a_txid base = vf_txid v" "a_vout base = vf_vout v" "a_batch_id base = bid" "a_status base = str (vf_status v)"
    and add: "add_anchor base (ix n) = Inr (c, ix n')" by (elim exE conjE)
  have oks: "index_ok E (ix n)" "index_ok E (ix n')"
    using ok index_ok_add_anchor [OF _ add, of E] by (auto simp: node_ok_def)
  then have aok: "anchors_ok (ix n)" "anchors_ok (ix n')" "batches_ok E (ix n)" by (auto simp: index_ok_def)
  have "chain_evidence R (vf_txid v) (vf_vout v) (vf_expected_payload_hex v)" if "vf_verified v"
  proof -
    from that v obtain x where x: "vf_context v = Some x" "in_active_chain x" "0 < vf_confirmations v"
      "vf_payload_hex v = vf_expected_payload_hex v"
      by (auto simp: verified_status_confirmed)
    then obtain j j' where "rpc_block_context R bhash j = (Inr x, j')"
      using context_of_run(3) [OF ctx] by blast
    with found tx x show ?thesis unfolding chain_evidence_def by metis
  qed
  then show "vf_verified v \<longrightarrow> chain_evidence R (vf_txid v) (vf_vout v) (vf_expected_payload_hex v)" by blast
  have "a_point base = (vf_txid v, vf_vout v)" using base by (simp add: a_point_def)
  note get = add_anchor_get [OF aok(1,2) add, unfolded this]
  then show "\<forall>t o1. (t, o1) \<noteq> (vf_txid v, vf_vout v) \<longrightarrow> get_anchor (ix n') t o1 = get_anchor (ix n) t o1" by simp
  show "\<exists>a. get_anchor (ix n') (vf_txid v) (vf_vout v) = Some a \<and> a_batch_id a = bid
       \<and> (is_confirmed a \<longleftrightarrow> vf_verified v)"
    using get base v(3) by (auto simp: is_confirmed_def)
  show "\<exists>b. get_batch (ix n) bid = Some b \<and> dget b ''payload_hex'' = JStr (vf_expected_payload_hex v)"
    using batch get_batch_valid [OF aok(3) batch(1)] validate_batch_payload [of E batch "()"] by auto
qed

end
