(* ===== verification/Discovery.thy ===== *)
theory Discovery
  imports Anchoring
begin

text \<open>
  \<^verbatim>\<open>src/hap/discovery.py\<close>: the scan of the Bitcoin chain for commitments, with the rewind after a
  reorganisation, and the retrieval of the packages of scanned commitments from peers.

  \<open>httpx\<close> is a third-party client: a request is answered by an \<open>http\<close>, which also has the parser
  \<open>json.loads\<close> of response bodies; the answers may depend on the number of requests made before.
  The clock of the scan is a function of the number of commitments found so far.
\<close>

section \<open>Scanning\<close>

record scan_result =
  sr_network :: json
  sr_start :: int
  sr_end :: int
  sr_blocks :: int
  sr_found :: nat
  sr_rewind :: "int option"

text \<open>\<open>_find_common_ancestor\<close>, from the candidate below \<open>k\<close> down.\<close>

primrec find_ancestor :: "rpc \<Rightarrow> index \<Rightarrow> nat \<Rightarrow> int act" where
  "find_ancestor R s 0 = returnM (- 1)"
| "find_ancestor R s (Suc k) = (case scanned_block s (int k) of
     None \<Rightarrow> find_ancestor R s k
   | Some b \<Rightarrow> bindM (tryM (rpc_block_hash R (int k))) (\<lambda>r. case r of
       Inl _ \<Rightarrow> find_ancestor R s k
     | Inr active \<Rightarrow> if active = bl_hash b then returnM (int k) else find_ancestor R s k))"

definition find_common_ancestor :: "rpc \<Rightarrow> int \<Rightarrow> (node, int) op" where
  "find_common_ancestor R height =
     bindM (askM (\<lambda>s. s)) (\<lambda>s. rpcM (find_ancestor R s (nat (height + 1))))"

definition column_str :: "ustr \<Rightarrow> unit result" where
  "column_str s = bindE (encode_utf8 s) (\<lambda>_. Inr ())"

text \<open>One output of a transaction: an output with a payload is stored as a commitment, and as an anchor
  when the batch is already here. Gives back the number found.\<close>

definition scan_output ::
  "rpc \<Rightarrow> (nat \<Rightarrow> int) \<Rightarrow> json \<Rightarrow> int \<Rightarrow> ustr \<Rightarrow> int \<Rightarrow> ustr \<Rightarrow> int \<Rightarrow> json \<Rightarrow> nat \<Rightarrow> (node, nat) op" where
  "scan_output R clock network height bhash btime txid index output found =
     bindM (liftM (output_payload output)) (\<lambda>payload_hex.
     case payload_hex of
       None \<Rightarrow> returnM found
     | Some p \<Rightarrow>
         if p = [] then returnM found
         else (case decode_anchor_payload p of
           Inl _ \<Rightarrow> returnM found
         | Inr payload \<Rightarrow>
             bindM (liftM (bindE (dict_get output ''n'' (JInt index)) py_int)) (\<lambda>vout.
             bindM (liftM (bindE (forE column_str [txid, bhash]) (\<lambda>_. column_text R network))) (\<lambda>net.
             bindM (storeM (add_commitment \<lparr>c_txid = txid, c_vout = vout, c_batch_id = manifest_hash payload,
               c_payload_hex = p, c_network = net, c_block_height = height, c_block_hash = bhash,
               c_block_time = btime, c_status = str ''confirmed'', c_discovered_at = clock found,
               c_resolved = False\<rparr>)) (\<lambda>_.
             bindM (askM (\<lambda>s. get_batch s (manifest_hash payload))) (\<lambda>batch.
             bindM (if (case batch of None \<Rightarrow> False | Some b \<Rightarrow> dget b ''payload_hex'' = JStr p)
               then bindM (register_scanned_anchor (manifest_hash payload) txid vout) (\<lambda>_. returnM ())
               else returnM ()) (\<lambda>_.
             returnM (found + 1))))))))"

fun scan_outputs ::
  "rpc \<Rightarrow> (nat \<Rightarrow> int) \<Rightarrow> json \<Rightarrow> int \<Rightarrow> ustr \<Rightarrow> int \<Rightarrow> ustr \<Rightarrow> int \<Rightarrow> json list \<Rightarrow> nat \<Rightarrow> (node, nat) op" where
  "scan_outputs R clock network height bhash btime txid index [] found = returnM found"
| "scan_outputs R clock network height bhash btime txid index (output # outputs) found =
     bindM (scan_output R clock network height bhash btime txid index output found) (\<lambda>found.
       scan_outputs R clock network height bhash btime txid (index + 1) outputs found)"

fun scan_transactions ::
  "rpc \<Rightarrow> (nat \<Rightarrow> int) \<Rightarrow> json \<Rightarrow> int \<Rightarrow> ustr \<Rightarrow> int \<Rightarrow> json list \<Rightarrow> nat \<Rightarrow> (node, nat) op" where
  "scan_transactions R clock network height bhash btime [] found = returnM found"
| "scan_transactions R clock network height bhash btime (tx # txs) found =
     bindM (liftM (dict_get tx ''txid'' JNull)) (\<lambda>txid.
     case txid of
       JStr t \<Rightarrow>
         bindM (liftM (bindE (dict_get tx ''vout'' (JList [])) iterE)) (\<lambda>outputs.
         bindM (scan_outputs R clock network height bhash btime t 0 outputs found) (\<lambda>found.
         scan_transactions R clock network height bhash btime txs found))
     | _ \<Rightarrow> scan_transactions R clock network height bhash btime txs found)"

definition scan_block :: "rpc \<Rightarrow> (nat \<Rightarrow> int) \<Rightarrow> json \<Rightarrow> int \<Rightarrow> nat \<Rightarrow> (node, nat) op" where
  "scan_block R clock network height found =
     bindM (rpcM (rpc_block_hash R height)) (\<lambda>bhash.
     bindM (rpcM (rpc_block R bhash 2)) (\<lambda>blk.
     bindM (liftM (bindE (dict_get blk ''time'' (JInt 0)) (\<lambda>v. if truthy v then py_int v else Inr 0))) (\<lambda>btime.
     bindM (liftM (bindE (dict_get blk ''tx'' (JList [])) iterE)) (\<lambda>txs.
     bindM (scan_transactions R clock network height bhash btime txs found) (\<lambda>found.
     bindM (liftM (column_str bhash)) (\<lambda>_.
     bindM (storeM (\<lambda>s. bindE (add_scanned_block \<lparr>bl_height = height, bl_hash = bhash, bl_time = btime\<rparr> s)
       (\<lambda>s'. Inr ((), s')))) (\<lambda>_.
     returnM found)))))))"

text \<open>\<open>for height in range(next_height, end_height + 1)\<close>: as many heights from \<open>height\<close> on.\<close>

primrec scan_heights :: "rpc \<Rightarrow> (nat \<Rightarrow> int) \<Rightarrow> json \<Rightarrow> nat \<Rightarrow> int \<Rightarrow> nat \<Rightarrow> (node, nat) op" where
  "scan_heights R clock network 0 height found = returnM found"
| "scan_heights R clock network (Suc k) height found =
     bindM (scan_block R clock network height found) (\<lambda>found.
       scan_heights R clock network k (height + 1) found)"

text \<open>Rewind to the last stored block that is still in the chain: the height to go on with.\<close>

definition rewind_to_ancestor :: "rpc \<Rightarrow> int \<Rightarrow> int \<Rightarrow> (node, int option \<times> int) op" where
  "rewind_to_ancestor R start_height height =
     bindM (find_common_ancestor R height) (\<lambda>ancestor.
     bindM (storeM (\<lambda>s. Inr ((), rewind_bitcoin_scan ancestor s))) (\<lambda>_.
     returnM (Some ancestor, max start_height (ancestor + 1))))"

definition scan_start :: "rpc \<Rightarrow> int \<Rightarrow> int \<Rightarrow> (node, int option \<times> int) op" where
  "scan_start R start_height tip =
     bindM (askM latest_scanned_block) (\<lambda>stored_tip.
     case stored_tip of
       None \<Rightarrow> returnM (None, max 0 start_height)
     | Some b \<Rightarrow>
         if bl_height b \<le> tip
         then bindM (tryM (rpcM (rpc_block_hash R (bl_height b)))) (\<lambda>active.
           if active \<noteq> Inr (bl_hash b) then rewind_to_ancestor R start_height (bl_height b)
           else returnM (None, bl_height b + 1))
         else rewind_to_ancestor R start_height tip)"

definition scan_bitcoin :: "rpc \<Rightarrow> (nat \<Rightarrow> int) \<Rightarrow> int \<Rightarrow> int \<Rightarrow> (node, scan_result) op" where
  "scan_bitcoin R clock start_height max_blocks =
     bindM (rpcM (rpc_network R)) (\<lambda>network.
     bindM (rpcM (rpc_block_count R)) (\<lambda>tip.
     bindM (scan_start R start_height tip) (\<lambda>(rewind, next_height).
     if tip < next_height
     then returnM \<lparr>sr_network = network, sr_start = next_height, sr_end = tip, sr_blocks = 0, sr_found = 0,
       sr_rewind = rewind\<rparr>
     else let end_height = min tip (next_height + max 1 max_blocks - 1) in
     bindM (scan_heights R clock network (nat (end_height - next_height + 1)) next_height 0) (\<lambda>found.
     returnM \<lparr>sr_network = network, sr_start = next_height, sr_end = end_height,
       sr_blocks = end_height - next_height + 1, sr_found = found, sr_rewind = rewind\<rparr>))))"

section \<open>Retrieving packages\<close>

record response =
  rs_success :: bool
  rs_content_length :: "ustr option"
  rs_chunks :: "bytes list"

record http =
  http_answer :: "nat \<Rightarrow> ustr \<Rightarrow> (string \<times> int) list \<Rightarrow> response option"
  http_json :: "bytes \<Rightarrow> json option"

text \<open>\<open>client.stream("GET", url, params=params)\<close> and \<open>raise_for_status\<close>\<close>

definition http_get :: "http \<Rightarrow> ustr \<Rightarrow> (string \<times> int) list \<Rightarrow> (node, response) op" where
  "http_get H url params = rpcM (\<lambda>c. (case http_answer H (c + 1) url params of
       None \<Rightarrow> Inl (Exn OtherError ''httpx.RequestError'')
     | Some r \<Rightarrow> if rs_success r then Inr r else Inl (Exn OtherError ''httpx.HTTPStatusError''), c + 1))"

text \<open>The loop over the chunks of a body, with the limit on their total size.\<close>

fun read_body :: "exn \<Rightarrow> int \<Rightarrow> bytes list \<Rightarrow> bytes \<Rightarrow> bytes result" where
  "read_body too_large max_bytes [] content = Inr content"
| "read_body too_large max_bytes (chunk # chunks) content =
     (if max_bytes < int (length content + length chunk) then Inl too_large
      else read_body too_large max_bytes chunks (content @ chunk))"

definition parse_body :: "http \<Rightarrow> bytes \<Rightarrow> json result" where
  "parse_body H body = (case http_json H body of
     None \<Rightarrow> Inl (Exn ValueError ''JSONDecodeError'') | Some v \<Rightarrow> Inr v)"

text \<open>\<open>s.rstrip("/")\<close>\<close>

definition rstrip_slash :: "ustr \<Rightarrow> ustr" where
  "rstrip_slash s = rev (dropWhile (\<lambda>c. c = 47) (rev s))"

definition download_package :: "env \<Rightarrow> http \<Rightarrow> int \<Rightarrow> ustr \<Rightarrow> ustr \<Rightarrow> (node, json) op" where
  "download_package E H max_bytes peer batch_id =
     bindM (http_get H (rstrip_slash peer @ str ''/v1/packages/'' @ batch_id) []) (\<lambda>r.
     bindM (liftM (read_body (service_error ''peer package exceeds the configured response limit'')
       max_bytes (rs_chunks r) [])) (\<lambda>body.
     bindM (liftM (parse_body H body)) (\<lambda>v.
     if \<not> is_dict v then raiseM (service_error ''peer package response is not a JSON object'')
     else bindM (liftM (validate_package E v)) (\<lambda>_. returnM v))))"

text \<open>The loop over the peers: the first package of the batch, and the number of errors.\<close>

fun try_peers :: "env \<Rightarrow> http \<Rightarrow> int \<Rightarrow> ustr \<Rightarrow> ustr list \<Rightarrow> nat \<Rightarrow> (node, json option \<times> nat) op" where
  "try_peers E H max_bytes batch_id [] errors = returnM (None, errors)"
| "try_peers E H max_bytes batch_id (peer # peers) errors =
     bindM (tryM (bindM (download_package E H max_bytes peer batch_id) (\<lambda>candidate.
       if dget (dget candidate ''batch'') ''batch_id'' \<noteq> JStr batch_id
       then raiseM (service_error ''peer returned a package for the wrong Bitcoin commitment'')
       else returnM candidate))) (\<lambda>r. case r of
         Inl _ \<Rightarrow> try_peers E H max_bytes batch_id peers (errors + 1)
       | Inr candidate \<Rightarrow> returnM (Some candidate, errors))"

record resolution =
  re_examined :: nat
  re_resolved :: nat
  re_missing :: nat
  re_errors :: nat

fun resolve_loop :: "env \<Rightarrow> http \<Rightarrow> int \<Rightarrow> ustr list \<Rightarrow> commitment list \<Rightarrow> resolution \<Rightarrow> (node, resolution) op" where
  "resolve_loop E H max_bytes peers [] result = returnM result"
| "resolve_loop E H max_bytes peers (c # cs) result =
     bindM (try_peers E H max_bytes (c_batch_id c) peers (re_errors result)) (\<lambda>(package, errors).
     case package of
       None \<Rightarrow> resolve_loop E H max_bytes peers cs (result\<lparr>re_missing := re_missing result + 1, re_errors := errors\<rparr>)
     | Some p \<Rightarrow>
         bindM (import_package E p) (\<lambda>_.
         bindM (register_scanned_anchor (c_batch_id c) (c_txid c) (c_vout c)) (\<lambda>_.
         bindM (storeM (\<lambda>s. Inr ((), mark_commitment_resolved (c_txid c) (c_vout c) s))) (\<lambda>_.
         resolve_loop E H max_bytes peers cs
           (result\<lparr>re_resolved := re_resolved result + 1, re_errors := errors\<rparr>)))))"

definition resolve_commitments :: "env \<Rightarrow> http \<Rightarrow> ustr list \<Rightarrow> int \<Rightarrow> int \<Rightarrow> (node, resolution) op" where
  "resolve_commitments E H peers max_bytes limit =
     bindM (askM (\<lambda>s. list_commitments s True None limit)) (\<lambda>unresolved.
     resolve_loop E H max_bytes peers unresolved
       \<lparr>re_examined = length unresolved, re_resolved = 0, re_missing = 0, re_errors = 0\<rparr>)"

end
