(* ===== verification/ChainFacts.thy ===== *)
theory ChainFacts
  imports Discovery
begin

text \<open>
  What the node's picture of the chain rests on. \<open>chain_ok\<close> is the invariant: every commitment it
  stores was in a block that the RPC returned, and every anchor it calls confirmed has either such
  a commitment behind it or a transaction that the RPC placed in the active chain. Every operation
  keeps it; in particular nothing that peers or clients send can make an anchor confirmed.
\<close>

section \<open>Evidence\<close>

text \<open>The RPC returned a block with a transaction that carries the payload.\<close>

definition scanned_output :: "rpc \<Rightarrow> ustr \<Rightarrow> ustr \<Rightarrow> ustr \<Rightarrow> bool" where
  "scanned_output R bhash txid payload \<longleftrightarrow> (\<exists>k k' blk v txs tx w outputs out.
     rpc_block R bhash 2 k = (Inr blk, k')
     \<and> dict_get blk ''tx'' (JList []) = Inr v \<and> iterE v = Inr txs \<and> tx \<in> set txs
     \<and> dict_get tx ''txid'' JNull = Inr (JStr txid)
     \<and> dict_get tx ''vout'' (JList []) = Inr w \<and> iterE w = Inr outputs \<and> out \<in> set outputs
     \<and> carries payload out)"

definition commits_to :: "ustr \<Rightarrow> ustr \<Rightarrow> bool" where
  "commits_to payload batch_id \<longleftrightarrow> (\<exists>p. decode_anchor_payload payload = Inr p \<and> manifest_hash p = batch_id)"

definition commitment_scanned :: "rpc \<Rightarrow> commitment \<Rightarrow> bool" where
  "commitment_scanned R c \<longleftrightarrow> scanned_output R (c_block_hash c) (c_txid c) (c_payload_hex c)
     \<and> commits_to (c_payload_hex c) (c_batch_id c)"

definition justified :: "rpc \<Rightarrow> ustr \<Rightarrow> int \<Rightarrow> ustr \<Rightarrow> bool" where
  "justified R txid vout batch_id \<longleftrightarrow> (\<exists>payload. commits_to payload batch_id
     \<and> (chain_evidence R txid vout payload \<or> (\<exists>bhash. scanned_output R bhash txid payload)))"

definition chain_ok :: "env \<Rightarrow> rpc \<Rightarrow> node \<Rightarrow> bool" where
  "chain_ok E R n \<longleftrightarrow> node_ok E n
     \<and> (\<forall>c \<in> set (all_rows (commitments_t (ix n))). commitment_scanned R c)
     \<and> (\<forall>a \<in> set (all_rows (anchors_t (ix n))). is_confirmed a \<longrightarrow> justified R (a_txid a) (a_vout a) (a_batch_id a))"

text \<open>A fresh index holds its version and the identifier of the node, and nothing else.\<close>

lemma chain_ok_empty:
  assumes "(ix n)\<lparr>metadata := []\<rparr> = empty_index" "evidence_ok E (ev n)"
  shows "chain_ok E R n"
proof -
  have "index_ok E (ix n) = index_ok E ((ix n)\<lparr>metadata := []\<rparr>)" by (simp add: index_ok_defs)
  moreover have "commitments_t (ix n) = empty_table" "anchors_t (ix n) = empty_table"
    using arg_cong [OF assms(1), of commitments_t] arg_cong [OF assms(1), of anchors_t] by (simp_all add: empty_index_def)
  ultimately show ?thesis using assms by (simp add: chain_ok_def node_ok_def index_ok_empty)
qed

section \<open>Rules\<close>

text \<open>What the value says that an operation returned.\<close>

lemma preserves_bind_fact:
  assumes "preserves I m" "\<And>x s s'. I s \<Longrightarrow> m s = (Inr x, s') \<Longrightarrow> preserves I (k x)"
  shows "preserves I (bindM m k)"
proof (rule preservesI)
  fix s assume s: "I s"
  obtain r s' where m: "m s = (r, s')" by force
  then have s': "I s'" using preservesD [OF assms(1) _ s] by blast
  show "I (snd (bindM m k s))"
  proof (cases r)
    case (Inl e)
    with m s' show ?thesis by (simp add: bindM_def)
  next
    case (Inr x)
    with m assms(2) [OF s] s' show ?thesis by (simp add: bindM_def preserves_def)
  qed
qed

lemma preserves_rpc_bind:
  assumes "preserves I (rpcM m)" "\<And>x c c'. m c = (Inr x, c') \<Longrightarrow> preserves I (k x)"
  shows "preserves I (bindM (rpcM m) k)"
  by (rule preserves_bind_fact [OF assms(1)]) (auto simp: rpcM_eq intro: assms(2))

lemma chain_ok_calls [preserve]: "preserves (chain_ok E R) (rpcM m)"
  by (simp add: preserves_def rpcM_def chain_ok_def node_ok_def split: prod.splits)

lemma chain_ok_store:
  assumes "\<And>s x s'. index_ok E s \<Longrightarrow> f s = Inr (x, s') \<Longrightarrow>
      index_ok E s' \<and> anchors_t s' = anchors_t s \<and> commitments_t s' = commitments_t s"
  shows "preserves (chain_ok E R) (storeM f)"
proof (rule preservesI)
  fix n assume n: "chain_ok E R n"
  show "chain_ok E R (snd (storeM f n))"
  proof (cases "f (ix n)")
    case (Inl e)
    with n show ?thesis by (simp add: storeM_def updateM_def)
  next
    case (Inr y)
    obtain x s' where y: "y = (x, s')" by (cases y)
    then have "index_ok E s' \<and> anchors_t s' = anchors_t (ix n) \<and> commitments_t s' = commitments_t (ix n)"
      using assms [of "ix n" x s'] n Inr by (simp add: chain_ok_def node_ok_def)
    with n Inr y show ?thesis by (simp add: storeM_def updateM_def chain_ok_def node_ok_def)
  qed
qed

text \<open>An anchor may be stored when it is not confirmed or justified.\<close>

lemma chain_ok_insert_anchor:
  assumes n: "chain_ok E R n" and add: "add_anchor a (ix n) = Inr (c, s')"
    and a: "is_confirmed a \<Longrightarrow> justified R (a_txid a) (a_vout a) (a_batch_id a)"
  shows "chain_ok E R (n\<lparr>ix := s'\<rparr>)"
proof -
  have ok: "index_ok E (ix n)" "anchors_ok (ix n)" using n by (auto simp: chain_ok_def node_ok_def index_ok_def)
  have "commitments_t s' = commitments_t (ix n)" using add by (auto simp: add_anchor_eq_Inr)
  with n index_ok_add_anchor [OF ok(1) add] add_anchor_rows [OF add ok(2)] a show ?thesis
    by (auto simp: chain_ok_def node_ok_def)
qed

lemma chain_ok_add_anchor:
  assumes "is_confirmed a \<Longrightarrow> justified R (a_txid a) (a_vout a) (a_batch_id a)"
  shows "preserves (chain_ok E R) (storeM (add_anchor a))"
proof (rule preservesI)
  fix n assume n: "chain_ok E R n"
  show "chain_ok E R (snd (storeM (add_anchor a) n))"
    using chain_ok_insert_anchor [OF n _ assms] n
    by (cases "add_anchor a (ix n)") (auto simp: storeM_def updateM_def)
qed

section \<open>Records, batches, packages, snapshots\<close>

lemma chain_ok_submit [preserve]:
  assumes "wf_json r"
  shows "preserves (chain_ok E R) (submit_record E policy local r)"
  unfolding submit_record_def
proof (rule preserves_check_bind)
  fix u assume "reraise is_ValueError (service_error ''str(exc)'')
       (bindE (validate_record E r) (\<lambda>_. case policy of None \<Rightarrow> Inr () | Some policy \<Rightarrow> policy r)) = Inr u"
  then have v: "validate_record E r = Inr ()" by (auto simp: bindE_eq_Inr)
  have "anchors_t (snd (add_record r s)) = anchors_t s" "commitments_t (snd (add_record r s)) = commitments_t s" for s
    by (simp_all add: add_record_unfold)
  then have "preserves (chain_ok E R) (storeM (\<lambda>s. Inr (add_record r s)))"
    using index_ok_add_record [OF _ v assms] by (intro chain_ok_store) (metis Inr_inject snd_conv)
  then show "preserves (chain_ok E R) (bindM (askM (\<lambda>s. get_record s (rid_of r))) (\<lambda>existing.
     if existing \<noteq> None then returnM (rid_of r, ''already_exists'')
     else bindM (askM (\<lambda>s. case target_of r of None \<Rightarrow> False | Some t \<Rightarrow> get_record s t = None)) (\<lambda>no_target.
     if local \<and> no_target
     then raiseM (service_error ''target_record_id does not exist in this index'')
     else bindM (storeM (\<lambda>s. Inr (add_record r s))) (\<lambda>_. returnM (rid_of r, ''accepted'')))))"
    by (intro preserve)
qed

lemma chain_ok_add_batch:
  assumes "validate_batch E b = Inr u" "wf_json b"
  shows "preserves (chain_ok E R) (storeM (add_batch b))"
proof (rule chain_ok_store)
  fix s x s' assume "index_ok E s" "add_batch b s = Inr (x, s')"
  then show "index_ok E s' \<and> anchors_t s' = anchors_t s \<and> commitments_t s' = commitments_t s"
    using index_ok_add_batch(1) [of E s b x s'] assms by (auto simp: add_batch_eq_Inr)
qed

lemma chain_ok_create_batch [preserve]: "preserves (chain_ok E R) (create_batch E now network limit max_bytes)"
proof -
  have "preserves (chain_ok E R) (storeM (add_batch b))"
    if "fitting_batch E network now max_bytes records = Inr b" for b records
    using fitting_batch_facts [OF that] create_batch_manifest_valid create_batch_manifest_wf
    by (auto intro: chain_ok_add_batch)
  then show ?thesis
    unfolding create_batch_def by (intro preserve preserves_check_bind) auto
qed

lemma chain_ok_create_direct_batch [preserve]: "preserves (chain_ok E R) (create_direct_batch E now rid network)"
  unfolding create_direct_batch_def
  by (intro preserve preserves_check_bind)
    (auto intro: chain_ok_add_batch create_batch_manifest_valid create_batch_manifest_wf)

lemma chain_ok_import_batch [preserve]: "wf_json b \<Longrightarrow> preserves (chain_ok E R) (import_batch E b)"
  unfolding import_batch_def
  by (intro preserve preserves_check_bind) (auto intro: chain_ok_add_batch)

lemma chain_ok_import_anchor [preserve]: "preserves (chain_ok E R) (import_anchor_reference a)"
proof (rule preservesI)
  fix n assume n: "chain_ok E R n"
  from import_anchor_cases [of a n] show "chain_ok E R (snd (import_anchor_reference a n))"
  proof (elim disjE exE conjE)
    fix b ex c s'
    assume ex: "ex = get_anchor (ix n) (text_of (dget a ''txid'')) (int_of_json (dget a ''vout''))"
      "\<forall>old. ex = Some old \<longrightarrow> a_batch_id old = text_of (dget a ''batch_id'')"
      and add: "add_anchor (local_reference a ex) (ix n) = Inr (c, s')"
      and run: "import_anchor_reference a n
          = (Inr (text_of (dget a ''txid''), if c then ''accepted'' else ''updated''), n\<lparr>ix := s'\<rparr>)"
    have aok: "anchors_ok (ix n)" using n by (auto simp: chain_ok_def node_ok_def index_ok_def)
    have "justified R (a_txid (local_reference a ex)) (a_vout (local_reference a ex)) (a_batch_id (local_reference a ex))"
      if conf: "is_confirmed (local_reference a ex)"
    proof -
      obtain old where old: "ex = Some old" "is_confirmed old"
        using conf by (auto simp: local_reference_confirmed)
      then have "old \<in> set (all_rows (anchors_t (ix n)))"
        "a_point old = (text_of (dget a ''txid''), int_of_json (dget a ''vout''))"
        using ex(1) get_anchor_iff [OF aok] by auto
      with n old ex(2) show ?thesis by (auto simp: chain_ok_def a_point_def)
    qed
    from chain_ok_insert_anchor [OF n add this] show ?thesis by (simp add: run)
  qed (use n in simp)
qed

lemma chain_ok_import_records:
  assumes "\<forall>r \<in> set rs. wf_json r"
  shows "preserves (chain_ok E R) (import_pending unresolved has (submit_record E None False) (pending_of rs) 0)"
proof (rule preservesI, rule preserves_import_pending)
  fix k r assume "(k, r) \<in> set (pending_of rs)"
  then have "wf_json r" using assms pending_of_set [of rs] by auto
  then show "preserves (chain_ok E R) (submit_record E None False r)" by (rule chain_ok_submit)
qed

lemma chain_ok_import_package [preserve]: "wf_json p \<Longrightarrow> preserves (chain_ok E R) (import_package E p)"
  unfolding import_package_def
  by (intro preserve chain_ok_import_records) (auto intro: wf_records_of wf_dget)

lemma chain_ok_import_snapshot [preserve]: "wf_json s \<Longrightarrow> preserves (chain_ok E R) (import_snapshot E s)"
  unfolding import_snapshot_def
  by (intro preserve chain_ok_import_records) (auto intro: wf_list_field)

section \<open>Anchors\<close>

lemma status_not_confirmed [simp]: "a_status a = str ''broadcast'' \<Longrightarrow> \<not> is_confirmed a"
  by (simp add: is_confirmed_def)

lemma chain_ok_anchor_batch [preserve]: "preserves (chain_ok E R) (anchor_batch E R' now allow bid)"
  unfolding anchor_batch_def Let_def
  by (intro preserve chain_ok_add_anchor) simp

lemma chain_ok_direct_anchor [preserve]:
  "preserves (chain_ok E R) (direct_anchor_record E R' now now' allow rid network)"
  unfolding direct_anchor_record_def by (intro preserve)

lemma chain_ok_mark [preserve]:
  "preserves (chain_ok E R) (storeM (\<lambda>s. Inr ((), mark_commitment_resolved t v s)))"
proof (rule preservesI)
  fix n assume n: "chain_ok E R n"
  have "commitment_scanned R (c\<lparr>c_resolved := True\<rparr>) = commitment_scanned R c" for c
    by (simp add: commitment_scanned_def)
  then have "\<forall>c \<in> set (all_rows (commitments_t (mark_commitment_resolved t v (ix n)))). commitment_scanned R c"
    using n by (auto simp: chain_ok_def mark_commitment_resolved_def all_rows_update)
  moreover have "anchors_t (mark_commitment_resolved t v (ix n)) = anchors_t (ix n)"
    by (simp add: mark_commitment_resolved_def)
  ultimately show "chain_ok E R (snd (storeM (\<lambda>s. Inr ((), mark_commitment_resolved t v s)) n))"
    using n index_ok_mark_resolved by (auto simp: chain_ok_def node_ok_def storeM_def updateM_def)
qed

lemma register_justified:
  assumes s: "chain_ok E R s" and c: "c \<in> set (filter (\<lambda>c. c_txid c = txid \<and> c_vout c = vout)
      (list_commitments (ix s) False (Some bid) 10000))"
  shows "justified R (a_txid (anchor_of_commitment bid txid c)) (a_vout (anchor_of_commitment bid txid c))
      (a_batch_id (anchor_of_commitment bid txid c))"
proof -
  have c: "c_txid c = txid" "c_vout c = vout" "c_batch_id c = bid" "c \<in> set (all_rows (commitments_t (ix s)))"
    using c by (auto simp: list_commitments_def sql_limit_def dest!: in_set_takeD)
  then have "commitment_scanned R c" using s by (simp add: chain_ok_def)
  with c show ?thesis by (auto simp: justified_def commitment_scanned_def anchor_of_commitment_def)
qed

lemma chain_ok_register [preserve]: "preserves (chain_ok E R) (register_scanned_anchor bid txid vout)"
  unfolding register_scanned_anchor_def Let_def
  apply (rule preserves_read_bind, rule preserves_option)
   apply (rule preserve)
  apply (rule preserves_read_bind)
  subgoal premises p for x s0 batch xs s1
  proof -
    have "justified R (a_txid (anchor_of_commitment bid txid (hd xs))) (a_vout (anchor_of_commitment bid txid (hd xs)))
      (a_batch_id (anchor_of_commitment bid txid (hd xs)))" if "xs \<noteq> []"
    proof -
      from that p(5) have "hd xs \<in> set (filter (\<lambda>c. c_txid c = txid \<and> c_vout c = vout)
          (list_commitments (ix s1) False (Some bid) 10000))"
        by (metis hd_in_set)
      then show ?thesis by (rule register_justified [OF p(4)])
    qed
    then show ?thesis by (intro preserve chain_ok_add_anchor) simp
  qed
  done

lemma chain_ok_base_anchor [preserve]: "preserves (chain_ok E R) (base_anchor R' now bid txid vout ex)"
  unfolding base_anchor_def by (intro preserve)

lemma chain_ok_context [preserve]: "preserves (chain_ok E R) (context_of R' bhash)"
  unfolding context_of_def by (intro preserve)

lemma chain_ok_record_verification:
  assumes found: "find_payload R (JStr tx_id) bh (Some payload) ov k = (Inr (Some (p, tx, vout)), k')"
    and commits: "commits_to payload bid"
    and anchors: "\<forall>a \<in> set anchors. a_batch_id a = bid"
  shows "preserves (chain_ok E R) (record_verification R now bid tx_id payload anchors p tx vout)"
  unfolding record_verification_def Let_def
  apply (rule preserves_check_bind, rule preserves_check_bind, rule preserves_bind_fact [OF chain_ok_context],
      rule preserves_bind_fact [OF chain_ok_base_anchor])
  subgoal premises q for confs bhash ctxt n0 n1 base n2 n3
  proof -
    have "\<forall>old. find (\<lambda>a. a_txid a = tx_id \<and> a_vout a = vout) anchors = Some old \<longrightarrow>
        a_txid old = tx_id \<and> a_vout old = vout \<and> a_batch_id old = bid"
      using anchors by (auto simp: find_Some_iff)
    note base = base_anchor_run [OF q(6) this]
    have p: "p = payload" using find_payload_spec [OF found] by simp
    have "justified R tx_id vout bid" if conf: "verified_status (p = payload) confs ctxt = ''confirmed''"
    proof -
      from conf obtain x where x: "ctxt = Some x" "in_active_chain x" "0 < confs"
        by (auto simp: verified_status_confirmed)
      then obtain j j' where "rpc_block_context R bhash j = (Inr x, j')"
        using context_of_run(3) [OF q(4)] by blast
      then have "chain_evidence R tx_id vout payload"
        using found q(1,2) x p unfolding chain_evidence_def by blast
      with commits show ?thesis by (auto simp: justified_def)
    qed
    then show ?thesis using base by (intro preserve chain_ok_add_anchor) (simp add: is_confirmed_def)
  qed
  done

lemma chain_ok_verify [preserve]: "preserves (chain_ok E R) (verify_bitcoin_anchor R now bid txid)"
  unfolding verify_bitcoin_anchor_def Let_def
  apply (rule preserves_read_bind, rule preserves_option)
   apply (rule preserve)
  apply (rule preserves_read_bind)
  subgoal premises q for x s0 b anchors s1
  proof -
    have bok: "batches_ok E (ix s0)" using q(1) by (auto simp: chain_ok_def node_ok_def index_ok_def)
    have b: "get_batch (ix s0) bid = Some b" using q(2,3) by simp
    have commits: "commits_to (text_of (dget b ''payload_hex'')) bid"
      using get_batch_valid [OF bok b] validate_batch_payload [of E b "()"] by (auto simp: commits_to_def bid_of_def)
    have "\<forall>a \<in> set anchors. a_batch_id a = bid"
      using list_anchors_batch [OF batch_id_nonempty [OF bok b]] q(5) by simp
    note rec = chain_ok_record_verification [OF _ commits this]
    show ?thesis
      apply (rule preserves_if)
       apply (rule preserve)
      apply (rule preserves_bind [OF chain_ok_calls])
      apply (rule preserves_if)
       apply (rule preserve)
      apply (rule preserves_rpc_bind [OF chain_ok_calls])
      apply (rule preserves_option)
       apply (rule preserve)
      apply (rule preserves_prod, rule preserves_prod)
      apply (rule preserves_bind [OF rec preserves_lift])
      apply simp
      done
  qed
  done

section \<open>Scanning\<close>

lemma chain_ok_add_commitment:
  assumes "commitment_scanned R c"
  shows "preserves (chain_ok E R) (storeM (add_commitment c))"
proof (rule preservesI)
  fix n assume n: "chain_ok E R n"
  show "chain_ok E R (snd (storeM (add_commitment c) n))"
  proof (cases "add_commitment c (ix n)")
    case (Inl e)
    with n show ?thesis by (simp add: storeM_def updateM_def)
  next
    case (Inr y)
    obtain b s' where y: "y = (b, s')" by (cases y)
    with Inr have add: "add_commitment c (ix n) = Inr (b, s')" by simp
    have merge: "commitment_scanned R (merge_commitment old c)" for old
      using assms by (simp add: commitment_scanned_def merge_commitment_def)
    have "anchors_t s' = anchors_t (ix n)" "\<forall>c \<in> set (all_rows (commitments_t s')). commitment_scanned R c"
      using add n assms merge by (auto simp: add_commitment_eq_Inr all_rows_upsert chain_ok_def)
    moreover have "index_ok E s'"
      using index_ok_add_commitment [OF _ add] n by (simp add: chain_ok_def node_ok_def)
    ultimately show ?thesis using n Inr y by (simp add: storeM_def updateM_def chain_ok_def node_ok_def)
  qed
qed

lemma chain_ok_scan_output:
  assumes "\<And>p. output_payload output = Inr (Some p) \<Longrightarrow> scanned_output R bhash txid p"
  shows "preserves (chain_ok E R) (scan_output R clock network height bhash btime txid index output found)"
proof -
  have "commitment_scanned R \<lparr>c_txid = txid, c_vout = vout, c_batch_id = manifest_hash payload,
      c_payload_hex = p, c_network = net, c_block_height = height, c_block_hash = bhash,
      c_block_time = btime, c_status = str ''confirmed'', c_discovered_at = clock found, c_resolved = False\<rparr>"
    if "output_payload output = Inr (Some p)" "decode_anchor_payload p = Inr payload" for p payload vout net
    using assms that by (auto simp: commitment_scanned_def commits_to_def)
  then have *: "preserves (chain_ok E R) (storeM (add_commitment \<lparr>c_txid = txid, c_vout = vout, c_batch_id = manifest_hash payload,
      c_payload_hex = p, c_network = net, c_block_height = height, c_block_hash = bhash,
      c_block_time = btime, c_status = str ''confirmed'', c_discovered_at = clock found, c_resolved = False\<rparr>))"
    if "output_payload output = Inr (Some p)" "decode_anchor_payload p = Inr payload" for p payload vout net
    using that by (blast intro: chain_ok_add_commitment)
  show ?thesis
    unfolding scan_output_def
    apply (rule preserves_check_bind, rule preserves_option)
     apply (rule preserve)
    apply (rule preserves_if)
     apply (rule preserve)
    subgoal for x p
      by (cases "decode_anchor_payload p") (auto intro!: preserve *)
    done
qed

lemma chain_ok_scan_outputs:
  assumes "\<And>out p. out \<in> set outputs \<Longrightarrow> output_payload out = Inr (Some p) \<Longrightarrow> scanned_output R bhash txid p"
  shows "preserves (chain_ok E R) (scan_outputs R clock network height bhash btime txid index outputs found)"
  using assms
proof (induction outputs arbitrary: index found)
  case (Cons out outputs)
  show ?case
    unfolding scan_outputs.simps
    by (intro preserves_bind chain_ok_scan_output Cons.IH) (auto intro: Cons.prems)
qed (simp add: preserve)

lemma chain_ok_scan_transactions:
  assumes blk: "rpc_block R bhash 2 k = (Inr blk, k')" "dict_get blk ''tx'' (JList []) = Inr v" "iterE v = Inr all_txs"
    and sub: "set txs \<subseteq> set all_txs"
  shows "preserves (chain_ok E R) (scan_transactions R clock network height bhash btime txs found)"
  using sub
proof (induction txs arbitrary: found)
  case (Cons tx txs)
  have rest: "preserves (chain_ok E R) (scan_transactions R clock network height bhash btime txs found)" for found
    using Cons by simp
  have outs: "preserves (chain_ok E R) (scan_outputs R clock network height bhash btime t 0 outputs found)"
    if "dict_get tx ''txid'' JNull = Inr (JStr t)" "bindE (dict_get tx ''vout'' (JList [])) iterE = Inr outputs" for t outputs
  proof (rule chain_ok_scan_outputs)
    fix out p assume out: "out \<in> set outputs" "output_payload out = Inr (Some p)"
    from that(2) obtain w where "dict_get tx ''vout'' (JList []) = Inr w" "iterE w = Inr outputs"
      by (auto simp only: bindE_eq_Inr)
    moreover have "tx \<in> set all_txs" using Cons.prems by simp
    ultimately show "scanned_output R bhash t p"
      unfolding scanned_output_def carries_def using blk out that(1) by blast
  qed
  show ?case
    unfolding scan_transactions.simps
    apply (rule preserves_check_bind)
    subgoal for x
      by (cases x) (auto intro!: rest preserves_check_bind preserves_bind outs)
    done
qed (simp add: preserve)

lemma chain_ok_scan_block [preserve]: "preserves (chain_ok E R) (scan_block R clock network height found)"
  unfolding scan_block_def
  apply (rule preserves_bind [OF chain_ok_calls])
  apply (rule preserves_rpc_bind [OF chain_ok_calls])
  apply (rule preserves_check_bind, rule preserves_check_bind)
  subgoal premises q for bhash blk c c' btime txs
  proof -
    from q(3) obtain v where "dict_get blk ''tx'' (JList []) = Inr v" "iterE v = Inr txs"
      by (auto simp only: bindE_eq_Inr)
    note txs = chain_ok_scan_transactions [OF q(1) this subset_refl]
    have "preserves (chain_ok E R) (storeM (\<lambda>s. bindE (add_scanned_block b s) (\<lambda>s'. Inr ((), s'))))" for b
    proof (rule chain_ok_store)
      fix s s' :: index and x :: unit
      assume "index_ok E s" "bindE (add_scanned_block b s) (\<lambda>s'. Inr ((), s')) = Inr (x, s')"
      then show "index_ok E s' \<and> anchors_t s' = anchors_t s \<and> commitments_t s' = commitments_t s"
        using index_ok_add_block by (auto simp: bindE_eq_Inr add_scanned_block_def)
    qed
    then show ?thesis by (intro preserve txs)
  qed
  done

lemma chain_ok_scan_heights [preserve]: "preserves (chain_ok E R) (scan_heights R clock network k height found)"
  by (induction k arbitrary: height found) (auto intro!: preserve)

lemma chain_ok_rewind [preserve]:
  "preserves (chain_ok E R) (storeM (\<lambda>s. Inr ((), rewind_bitcoin_scan h s)))"
proof (rule preservesI)
  fix n assume n: "chain_ok E R n"
  have "\<forall>a \<in> set (all_rows (anchors_t (rewind_bitcoin_scan h (ix n)))). is_confirmed a \<longrightarrow>
      a \<in> set (all_rows (anchors_t (ix n)))"
    by (auto simp: rewind_rows is_confirmed_def)
  moreover have "set (all_rows (commitments_t (rewind_bitcoin_scan h (ix n)))) \<subseteq> set (all_rows (commitments_t (ix n)))"
    by (auto simp: rewind_rows)
  ultimately show "chain_ok E R (snd (storeM (\<lambda>s. Inr ((), rewind_bitcoin_scan h s)) n))"
    using n index_ok_rewind by (auto simp: chain_ok_def node_ok_def storeM_def updateM_def)
qed

lemma chain_ok_scan [preserve]: "preserves (chain_ok E R) (scan_bitcoin R clock start max_blocks)"
  unfolding scan_bitcoin_def scan_start_def rewind_to_ancestor_def find_common_ancestor_def Let_def
  by (intro preserve)

section \<open>Retrieval\<close>

text \<open>\<open>json.loads\<close> makes dictionaries with distinct keys.\<close>

definition parses_well :: "http \<Rightarrow> bool" where
  "parses_well H \<longleftrightarrow> (\<forall>b v. http_json H b = Some v \<longrightarrow> wf_json v)"

lemma chain_ok_http [preserve]: "preserves (chain_ok E R) (http_get H url params)"
  unfolding http_get_def by (rule preserve)

lemma chain_ok_download [preserve]: "preserves (chain_ok E R) (download_package E H m peer bid)"
  unfolding download_package_def by (intro preserve)

lemma download_wf:
  assumes "parses_well H" "download_package E H m peer bid n = (Inr p, n')"
  shows "wf_json p \<and> validate_package E p = Inr ()"
  using assms by (auto simp: download_package_def result_simps parse_body_def parses_well_def split: option.splits)

lemma chain_ok_try_peers [preserve]: "preserves (chain_ok E R) (try_peers E H m bid peers errors)"
proof (induction peers arbitrary: errors)
  case (Cons peer peers)
  have "preserves (chain_ok E R) (case r of Inl _ \<Rightarrow> try_peers E H m bid peers (errors + 1)
      | Inr candidate \<Rightarrow> returnM (Some candidate, errors))" for r :: "json result"
    using Cons.IH by (cases r) (auto intro: preserve)
  then show ?case unfolding try_peers.simps by (intro preserve)
qed (simp add: preserve)

lemma try_peers_wf:
  assumes "parses_well H" "try_peers E H m bid peers errors n = (Inr (Some p, errors'), n')"
  shows "wf_json p \<and> validate_package E p = Inr () \<and> dget (dget p ''batch'') ''batch_id'' = JStr bid"
  using assms(2)
proof (induction peers arbitrary: errors n)
  case (Cons peer peers)
  define attempt where "attempt = bindM (download_package E H m peer bid) (\<lambda>candidate.
       if dget (dget candidate ''batch'') ''batch_id'' \<noteq> JStr bid
       then raiseM (service_error ''peer returned a package for the wrong Bitcoin commitment'')
       else returnM candidate)"
  obtain r n1 where run: "attempt n = (r, n1)" by force
  show ?case
  proof (cases r)
    case (Inl e)
    with Cons.prems run have "try_peers E H m bid peers (errors + 1) n1 = (Inr (Some p, errors'), n')"
      by (simp add: attempt_def [symmetric] bindM_def tryM_def)
    then show ?thesis by (rule Cons.IH)
  next
    case (Inr q)
    with Cons.prems run have "q = p"
      by (simp add: attempt_def [symmetric] bindM_def tryM_def liftM_def)
    moreover from run Inr have "download_package E H m peer bid n = (Inr q, n1)
        \<and> dget (dget q ''batch'') ''batch_id'' = JStr bid"
      unfolding attempt_def by (auto simp: result_simps split: if_splits)
    ultimately show ?thesis using download_wf [OF assms(1)] by blast
  qed
qed (simp add: liftM_def)

lemma chain_ok_resolve_loop:
  assumes "parses_well H"
  shows "preserves (chain_ok E R) (resolve_loop E H m peers cs result)"
proof (induction cs arbitrary: result)
  case (Cons c cs)
  show ?case
    unfolding resolve_loop.simps
    apply (rule preserves_bind_fact [OF chain_ok_try_peers])
    apply (rule preserves_prod, rule preserves_option)
     apply (rule Cons.IH)
    using try_peers_wf [OF assms] by (intro preserve Cons.IH) blast
qed (simp add: preserve)

lemma chain_ok_resolve: "parses_well H \<Longrightarrow> preserves (chain_ok E R) (resolve_commitments E H peers m limit)"
  unfolding resolve_commitments_def by (intro preserve chain_ok_resolve_loop)

end
