(* ===== verification/Sync.thy ===== *)
theory Sync
  imports ChainFacts
begin

text \<open>
  \<^verbatim>\<open>src/hap/sync.py\<close>: the synchronisation with peers. A peer is an arbitrary \<open>http\<close>: whatever it
  answers, the node stays well-formed and gains no confirmed anchor.

  The state of a peer is typed (\<open>peer_state\<close>); \<open>json.dumps\<close> and \<open>json.loads\<close> are inverse on it.
\<close>

section \<open>Requests\<close>

record sync_result =
  sy_peer :: ustr
  sy_records :: nat
  sy_batches :: nat
  sy_anchors :: nat
  sy_errors :: nat
  sy_reset :: bool

abbreviation value_error :: "string \<Rightarrow> exn" where
  "value_error \<equiv> Exn ValueError"

definition peer_key :: "env \<Rightarrow> ustr \<Rightarrow> ustr result" where
  "peer_key E peer = bindE (encode_utf8 (rstrip_slash peer)) (\<lambda>bs. Inr (take 32 (sha256_hex E bs)))"

text \<open>\<open>needle in s\<close>\<close>

fun contains_text :: "ustr \<Rightarrow> ustr \<Rightarrow> bool" where
  "contains_text needle [] \<longleftrightarrow> needle = []"
| "contains_text needle (c # s) \<longleftrightarrow> starts_with (c # s) needle \<or> contains_text needle s"

text \<open>The declared length: one that is no integer is ignored, unless the message of the error, which
  quotes it, contains the word that the handler looks for.\<close>

definition check_declared :: "int \<Rightarrow> ustr option \<Rightarrow> unit result" where
  "check_declared max_bytes declared = (case declared of
     None \<Rightarrow> Inr ()
   | Some d \<Rightarrow> (case int_of_str d of
       Inr n \<Rightarrow> if max_bytes < n then Inl (value_error ''peer response exceeds the limit'') else Inr ()
     | Inl e \<Rightarrow> if contains_text (str ''exceeds'') d then Inl e else Inr ()))"

definition get_json :: "http \<Rightarrow> ustr \<Rightarrow> string \<Rightarrow> (string \<times> int) list \<Rightarrow> int \<Rightarrow> (node, json) op" where
  "get_json H peer path params max_bytes =
     bindM (http_get H (rstrip_slash peer @ str path) params) (\<lambda>r.
     bindM (liftM (check_declared max_bytes (rs_content_length r))) (\<lambda>_.
     bindM (liftM (read_body (value_error ''peer response exceeds the limit'') max_bytes (rs_chunks r) [])) (\<lambda>body.
     liftM (parse_body H body))))"

text \<open>\<open>isinstance(v, int)\<close> holds of booleans too.\<close>

definition is_int :: "json \<Rightarrow> bool" where
  "is_int v = (case v of JInt _ \<Rightarrow> True | JBool _ \<Rightarrow> True | _ \<Rightarrow> False)"

definition is_list :: "json \<Rightarrow> bool" where
  "is_list v = (case v of JList _ \<Rightarrow> True | _ \<Rightarrow> False)"

definition is_bool :: "json \<Rightarrow> bool" where
  "is_bool v = (case v of JBool _ \<Rightarrow> True | _ \<Rightarrow> False)"

definition get_page :: "http \<Rightarrow> ustr \<Rightarrow> string \<Rightarrow> (string \<times> int) list \<Rightarrow> int \<Rightarrow> (node, json) op" where
  "get_page H peer path params max_bytes =
     bindM (get_json H peer path params max_bytes) (\<lambda>v.
     if \<not> is_dict v \<or> \<not> is_list (dget v ''items'')
     then raiseM (value_error ''peer returned an invalid sync response'')
     else if \<not> is_dict (dget v ''cursor'') \<or> \<not> is_int (dget (dget v ''cursor'') ''seq'')
     then raiseM (value_error ''peer returned an invalid cursor'')
     else if \<not> is_bool (dget v ''has_more'')
     then raiseM (value_error ''peer returned an invalid has_more flag'')
     else returnM v)"

section \<open>Peer states\<close>

definition peer_sync_state :: "ustr \<Rightarrow> node \<Rightarrow> peer_state option" where
  "peer_sync_state key n = map_of (peer_states n) key"

definition set_peer_sync_state :: "ustr \<Rightarrow> peer_state \<Rightarrow> (node, unit) op" where
  "set_peer_sync_state key st = updateM (\<lambda>n. Inr ((), n\<lparr>peer_states := put_pair key st (peer_states n)\<rparr>))"

section \<open>One peer\<close>

datatype sync_kind = Records | Batches | Anchors

fun kind_path :: "sync_kind \<Rightarrow> string" where
  "kind_path Records = ''/v1/sync/records''"
| "kind_path Batches = ''/v1/sync/batches''"
| "kind_path Anchors = ''/v1/sync/anchors''"

fun kind_page_size :: "int \<Rightarrow> sync_kind \<Rightarrow> int" where
  "kind_page_size page_size Records = min page_size 25"
| "kind_page_size page_size Batches = 1"
| "kind_page_size page_size Anchors = min page_size 200"

fun import_item :: "env \<Rightarrow> sync_kind \<Rightarrow> json \<Rightarrow> (node, ustr \<times> string) op" where
  "import_item E Records item = submit_record E None False item"
| "import_item E Batches item = import_batch E item"
| "import_item E Anchors item = import_anchor_reference item"

fun kind_cursor :: "sync_kind \<Rightarrow> peer_state \<Rightarrow> int" where
  "kind_cursor Records st = ps_records st"
| "kind_cursor Batches st = ps_batches st"
| "kind_cursor Anchors st = ps_anchors st"

fun put_cursor :: "sync_kind \<Rightarrow> int \<Rightarrow> peer_state \<Rightarrow> peer_state" where
  "put_cursor Records c st = st\<lparr>ps_records := c\<rparr>"
| "put_cursor Batches c st = st\<lparr>ps_batches := c\<rparr>"
| "put_cursor Anchors c st = st\<lparr>ps_anchors := c\<rparr>"

fun count_import :: "sync_kind \<Rightarrow> sync_result \<Rightarrow> sync_result" where
  "count_import Records r = r\<lparr>sy_records := sy_records r + 1\<rparr>"
| "count_import Batches r = r\<lparr>sy_batches := sy_batches r + 1\<rparr>"
| "count_import Anchors r = r\<lparr>sy_anchors := sy_anchors r + 1\<rparr>"

text \<open>The loop over the items of a page: the result so far, and whether a dependency is missing.\<close>

fun import_items :: "env \<Rightarrow> sync_kind \<Rightarrow> json list \<Rightarrow> sync_result \<Rightarrow> (node, sync_result \<times> bool) op" where
  "import_items E kind [] result = returnM (result, False)"
| "import_items E kind (item # items) result =
     bindM (tryM (import_item E kind item)) (\<lambda>r. case r of
       Inr (_, status) \<Rightarrow> import_items E kind items (if status = ''accepted'' then count_import kind result else result)
     | Inl e \<Rightarrow>
         if exc_of e = MissingDependencyError then returnM (result, True)
         else if exc_of e = ServiceError
         then import_items E kind items (result\<lparr>sy_errors := sy_errors result + 1\<rparr>)
         else raiseM e)"

definition page_items :: "json \<Rightarrow> json list" where
  "page_items page = (case dget page ''items'' of JList items \<Rightarrow> items | _ \<Rightarrow> [])"

text \<open>\<open>for _ in range(max_pages)\<close> with its \<open>else\<close> branch.\<close>

fun sync_pages :: "env \<Rightarrow> http \<Rightarrow> int \<Rightarrow> int \<Rightarrow> ustr \<Rightarrow> ustr \<Rightarrow> sync_kind \<Rightarrow> nat \<Rightarrow> int \<Rightarrow> peer_state \<Rightarrow> sync_result
    \<Rightarrow> (node, peer_state \<times> sync_result) op" where
  "sync_pages E H page_size max_bytes peer key kind 0 current st result =
     raiseM (value_error ''peer exceeded the page sync ceiling'')"
| "sync_pages E H page_size max_bytes peer key kind (Suc pages) current st result =
     bindM (get_page H peer (kind_path kind)
       [(''after_seq'', current), (''limit'', kind_page_size page_size kind)] max_bytes) (\<lambda>page.
     bindM (liftM (py_int (dget (dget page ''cursor'') ''seq''))) (\<lambda>next_seq.
     if page_items page \<noteq> [] \<and> next_seq \<le> current
     then raiseM (value_error ''peer cursor failed to advance'')
     else bindM (import_items E kind (page_items page) result) (\<lambda>(result, missing).
     if missing then returnM (st, result)
     else let st = put_cursor kind next_seq st in
     bindM (set_peer_sync_state key st) (\<lambda>_.
     if dget page ''has_more'' \<noteq> JBool True then returnM (st, result)
     else sync_pages E H page_size max_bytes peer key kind pages next_seq st result))))"

fun sync_kinds :: "env \<Rightarrow> http \<Rightarrow> int \<Rightarrow> int \<Rightarrow> ustr \<Rightarrow> ustr \<Rightarrow> nat \<Rightarrow> sync_kind list \<Rightarrow> peer_state \<Rightarrow> sync_result
    \<Rightarrow> (node, sync_result) op" where
  "sync_kinds E H page_size max_bytes peer key max_pages [] st result = returnM result"
| "sync_kinds E H page_size max_bytes peer key max_pages (kind # kinds) st result =
     bindM (sync_pages E H page_size max_bytes peer key kind max_pages (kind_cursor kind st) st result) (\<lambda>(st, result).
     sync_kinds E H page_size max_bytes peer key max_pages kinds st result)"

definition sync_peer :: "env \<Rightarrow> http \<Rightarrow> int \<Rightarrow> int \<Rightarrow> int \<Rightarrow> ustr \<Rightarrow> (node, sync_result) op" where
  "sync_peer E H page_size max_bytes max_pages peer =
     bindM (liftM (peer_key E peer)) (\<lambda>key.
     bindM (get_json H peer ''/v1/info'' [] (min max_bytes 262144)) (\<lambda>info.
     if \<not> is_dict info then raiseM (value_error ''peer returned invalid node information'')
     else case dget info ''sync_epoch'' of
       JStr (c # cs) \<Rightarrow>
         let epoch = c # cs;
             fresh = \<lparr>ps_peer = rstrip_slash peer, ps_epoch = epoch, ps_records = 0, ps_batches = 0, ps_anchors = 0\<rparr>;
             result = \<lparr>sy_peer = peer, sy_records = 0, sy_batches = 0, sy_anchors = 0, sy_errors = 0, sy_reset = False\<rparr>
         in bindM (readM (peer_sync_state key)) (\<lambda>stored.
         let st = (case stored of None \<Rightarrow> fresh | Some st \<Rightarrow> st);
             reset = (ps_epoch st \<noteq> epoch \<or> ps_peer st \<noteq> rstrip_slash peer)
         in bindM (if reset then set_peer_sync_state key fresh else returnM ()) (\<lambda>_.
         sync_kinds E H page_size max_bytes peer key (nat max_pages) [Records, Batches, Anchors]
           (if reset then fresh else st) (result\<lparr>sy_reset := reset\<rparr>)))
     | _ \<Rightarrow> raiseM (value_error ''peer does not expose a sync epoch'')))"

fun sync_all_peers :: "env \<Rightarrow> http \<Rightarrow> int \<Rightarrow> int \<Rightarrow> int \<Rightarrow> ustr list \<Rightarrow> (node, (sync_result \<times> exn option) list) op" where
  "sync_all_peers E H page_size max_bytes max_pages [] = returnM []"
| "sync_all_peers E H page_size max_bytes max_pages (peer # peers) =
     bindM (tryM (sync_peer E H page_size max_bytes max_pages peer)) (\<lambda>r.
     bindM (sync_all_peers E H page_size max_bytes max_pages peers) (\<lambda>rest.
     returnM ((case r of
         Inr result \<Rightarrow> (result, None)
       | Inl e \<Rightarrow> (\<lparr>sy_peer = peer, sy_records = 0, sy_batches = 0, sy_anchors = 0, sy_errors = 1, sy_reset = False\<rparr>,
           Some e)) # rest)))"

end
