(* ===== verification/SyncFacts.thy ===== *)
theory SyncFacts
  imports Sync
begin

text \<open>
  What synchronisation does to a node (\<^verbatim>\<open>src/hap/sync.py\<close>). Any invariant that the imports keep is
  kept by \<open>sync_all_peers\<close> for every behaviour of the peers (locale \<open>sync_invariant\<close>); in particular
  no confirmation can come from a peer. A peer that serves the record pages of its index
  (\<^verbatim>\<open>src/hap/api.py\<close>, \<open>sync_records\<close>) has all its records copied.
\<close>

section \<open>Invariants\<close>

locale sync_invariant =
  fixes E :: env and I :: "node \<Rightarrow> bool"
  assumes submit: "wf_json r \<Longrightarrow> preserves I (submit_record E None False r)"
    and batches: "wf_json b \<Longrightarrow> preserves I (import_batch E b)"
    and anchors: "preserves I (import_anchor_reference a)"
    and requests: "preserves I (rpcM (m :: response act))"
    and states: "preserves I (set_peer_sync_state key st)"
begin

lemma get_json_keeps: "preserves I (get_json H peer path params max_bytes)"
  unfolding get_json_def http_get_def by (intro preserve requests)

lemma get_page_keeps: "preserves I (get_page H peer path params max_bytes)"
  unfolding get_page_def by (intro preserve get_json_keeps)

lemma import_item_keeps: "wf_json item \<Longrightarrow> preserves I (import_item E kind item)"
  by (cases kind) (simp_all add: submit batches anchors)

lemma import_items_keep: "\<forall>i \<in> set items. wf_json i \<Longrightarrow> preserves I (import_items E kind items result)"
proof (induction items arbitrary: result)
  case (Cons item items)
  have "preserves I (case r of Inr (_, status) \<Rightarrow> import_items E kind items
           (if status = ''accepted'' then count_import kind result else result)
       | Inl e \<Rightarrow> if exc_of e = MissingDependencyError then returnM (result, True)
         else if exc_of e = ServiceError
         then import_items E kind items (result\<lparr>sy_errors := sy_errors result + 1\<rparr>)
         else raiseM e)" for r :: "(ustr \<times> string) result"
    using Cons by (cases r) (auto intro!: preserve)
  with Cons.prems show ?case
    unfolding import_items.simps by (intro preserve import_item_keeps) simp_all
qed (simp add: preserve)

lemma page_wf:
  assumes "parses_well H" "get_page H peer path params max_bytes n = (Inr page, n')"
  shows "\<forall>i \<in> set (page_items page). wf_json i"
proof -
  from assms(2) obtain n1 where "get_json H peer path params max_bytes n = (Inr page, n1)"
    by (auto simp: get_page_def result_simps)
  with assms(1) have "wf_json page"
    by (auto simp: get_json_def result_simps parse_body_def parses_well_def split: option.splits)
  then show ?thesis by (cases "dget page ''items''") (auto simp: page_items_def intro: wf_dget_list)
qed

lemma sync_pages_keep:
  assumes "parses_well H"
  shows "preserves I (sync_pages E H page_size max_bytes peer key kind pages current st result)"
proof (induction pages arbitrary: current st result)
  case (Suc pages)
  show ?case
    unfolding sync_pages.simps Let_def
    apply (rule preserves_bind_fact [OF get_page_keeps])
    subgoal premises q for page s s'
      using page_wf [OF assms q(2)] by (intro preserve import_items_keep states Suc.IH) simp
    done
qed (simp add: preserve)

lemma sync_kinds_keep:
  assumes "parses_well H"
  shows "preserves I (sync_kinds E H page_size max_bytes peer key max_pages kinds st result)"
  by (induction kinds arbitrary: st result) (auto intro!: preserve sync_pages_keep assms)

lemma sync_peer_keeps:
  assumes "parses_well H"
  shows "preserves I (sync_peer E H page_size max_bytes max_pages peer)"
  unfolding sync_peer_def Let_def
  apply (rule preserves_bind [OF preserves_lift], rule preserves_bind [OF get_json_keeps], rule preserves_if)
   apply (rule preserve)
  apply (simp split: json.split list.split)
  apply (intro conjI allI impI preserves_lift)
  apply (intro preserve states sync_kinds_keep sync_pages_keep assms)
  done

lemma sync_all_keep:
  assumes "parses_well H"
  shows "preserves I (sync_all_peers E H page_size max_bytes max_pages peers)"
  by (induction peers) (auto intro!: preserve sync_peer_keeps assms)

end

lemma preserves_states [preserve]:
  "(\<And>n ps. I n \<Longrightarrow> I (n\<lparr>peer_states := ps\<rparr>)) \<Longrightarrow> preserves I (set_peer_sync_state key st)"
  unfolding set_peer_sync_state_def by (rule preserves_update) auto

lemma settled_calls [preserve]: "preserves (settled E C) (rpcM m)"
  by (simp add: preserves_def rpcM_def settled_def node_ok_def split: prod.splits)

interpretation settled: sync_invariant E "settled E C" for E C
  by unfold_locales (auto intro!: preserve simp: settled_def node_ok_def)

interpretation backed: sync_invariant E "chain_ok E R" for E R
  by unfold_locales (auto intro!: preserve simp: chain_ok_def node_ok_def)

section \<open>A peer that serves its records\<close>

text \<open>The answer of \<open>sync_records\<close>, \<open>sync_batches\<close> and \<open>sync_anchors\<close> to a page.\<close>

definition sync_response :: "json list \<times> nat option \<Rightarrow> int \<Rightarrow> int \<Rightarrow> json" where
  "sync_response page after_seq limit = (case page of (items, final_seq) \<Rightarrow>
     obj [(''items'', JList items),
       (''cursor'', obj [(''seq'', JInt (case final_seq of None \<Rightarrow> after_seq | Some n \<Rightarrow> int n))]),
       (''has_more'', JBool (int (length items) = limit))])"

text \<open>The HTTP client delivers these answers to the requests for pages of \<open>limit\<close> records after one of the
  cursors.\<close>

definition serves_records :: "http \<Rightarrow> ustr \<Rightarrow> index \<Rightarrow> int \<Rightarrow> int \<Rightarrow> int set \<Rightarrow> bool" where
  "serves_records H peer s max_bytes limit cursors \<longleftrightarrow> (\<forall>c. \<forall>after \<in> cursors. \<exists>r body.
     http_answer H c (rstrip_slash peer @ str ''/v1/sync/records'') [(''after_seq'', after), (''limit'', limit)] = Some r
     \<and> rs_success r \<and> check_declared max_bytes (rs_content_length r) = Inr ()
     \<and> (\<forall>e. read_body e max_bytes (rs_chunks r) [] = Inr body)
     \<and> http_json H body = Some (sync_response (record_sync_page s after limit) after limit))"

lemma get_page_served:
  assumes "serves_records H peer s max_bytes limit cursors" "after \<in> cursors"
  shows "\<exists>n'. get_page H peer ''/v1/sync/records'' [(''after_seq'', after), (''limit'', limit)] max_bytes n
      = (Inr (sync_response (record_sync_page s after limit) after limit), n') \<and> ix n' = ix n \<and> ev n' = ev n"
proof -
  obtain r body where r: "http_answer H (calls n + 1) (rstrip_slash peer @ str ''/v1/sync/records'')
        [(''after_seq'', after), (''limit'', limit)] = Some r"
     "rs_success r" "check_declared max_bytes (rs_content_length r) = Inr ()"
     "\<forall>e. read_body e max_bytes (rs_chunks r) [] = Inr body"
     "http_json H body = Some (sync_response (record_sync_page s after limit) after limit)"
    using assms unfolding serves_records_def by blast
  define v where "v = sync_response (record_sync_page s after limit) after limit"
  have "get_json H peer ''/v1/sync/records'' [(''after_seq'', after), (''limit'', limit)] max_bytes n
      = (Inr v, n\<lparr>calls := calls n + 1\<rparr>)"
    using r by (simp add: get_json_def http_get_def bindM_def rpcM_def liftM_def parse_body_def v_def)
  moreover have "is_dict v" "is_list (dget v ''items'')" "is_dict (dget v ''cursor'')"
    "is_int (dget (dget v ''cursor'') ''seq'')" "is_bool (dget v ''has_more'')"
    by (simp_all add: v_def sync_response_def is_list_def is_int_def is_bool_def split: prod.split)
  ultimately have "get_page H peer ''/v1/sync/records'' [(''after_seq'', after), (''limit'', limit)] max_bytes n
      = (Inr v, n\<lparr>calls := calls n + 1\<rparr>)"
    by (simp add: get_page_def bindM_def liftM_def)
  then show ?thesis by (simp add: v_def)
qed

text \<open>A page of valid records is stored completely.\<close>

lemma import_records_page:
  assumes "node_ok E n" "\<forall>r \<in> set items. validate_record E r = Inr () \<and> wf_json r"
  shows "\<exists>result' n'. import_items E Records items result n = (Inr (result', False), n') \<and> node_ok E n'
    \<and> (\<forall>k. get_record (ix n) k \<noteq> None \<longrightarrow> get_record (ix n') k = get_record (ix n) k)
    \<and> (\<forall>r \<in> set items. get_record (ix n') (rid_of r) \<noteq> None)"
  using assms
proof (induction items arbitrary: n result)
  case (Cons r items)
  then obtain st n1 where run: "submit_record E None False r n = (Inr (rid_of r, st), n1)" "node_ok E n1"
    and get: "\<forall>k. get_record (ix n1) k = (if get_record (ix n) k = None \<and> k = rid_of r then Some r else get_record (ix n) k)"
    using importer.submit_stores [of E n r] by auto
  define res where "res = (if st = ''accepted'' then count_import Records result else result)"
  from Cons.IH [OF run(2), of res] Cons.prems(2) obtain result' n' where
    rest: "import_items E Records items res n1 = (Inr (result', False), n')" "node_ok E n'"
      "\<forall>k. get_record (ix n1) k \<noteq> None \<longrightarrow> get_record (ix n') k = get_record (ix n1) k"
      "\<forall>r \<in> set items. get_record (ix n') (rid_of r) \<noteq> None" by auto
  have "import_items E Records (r # items) result n = (Inr (result', False), n')"
    using run(1) rest(1) by (simp add: bindM_def tryM_def res_def)
  moreover have "\<forall>k. get_record (ix n) k \<noteq> None \<longrightarrow> get_record (ix n') k = get_record (ix n) k"
    using rest(3) get by auto
  moreover have "get_record (ix n') (rid_of r) \<noteq> None"
    using rest(3) get by (cases "get_record (ix n) (rid_of r)") auto
  ultimately show ?case using rest(2,4) by auto
qed (auto simp: liftM_def)

text \<open>The rows of the peer after a cursor.\<close>

definition rows_after :: "int \<Rightarrow> 'r table \<Rightarrow> (nat \<times> 'r) list" where
  "rows_after after t = filter (\<lambda>(n, _). after < int n) (rows t)"

lemma sync_page_cursor:
  assumes "sync_page after limit t = (items, Some c)"
  shows "c \<in> fst ` set (rows t)"
proof -
  define page where "page = sql_limit limit (filter (\<lambda>(n, _). after < int n) (rows t))"
  have "c = fst (last page)" "page \<noteq> []"
    using assms by (simp_all add: sync_page_def Let_def page_def split: if_splits)
  moreover have "set page \<subseteq> set (rows t)" by (auto simp: page_def sql_limit_def split: if_splits dest!: in_set_takeD)
  ultimately show ?thesis using last_in_set by blast
qed

lemma record_page_rows:
  assumes "table_ok r_id (records_t s)" "record_sync_page s after limit = (items, nxt)" "0 < limit"
  shows "items = take (nat limit) (map (r_body \<circ> snd) (rows_after after (records_t s)))"
    "case nxt of None \<Rightarrow> items = [] \<and> rows_after after (records_t s) = []
     | Some c \<Rightarrow> after < int c \<and> items \<noteq> [] \<and> c \<in> fst ` set (rows (records_t s))
        \<and> map (r_body \<circ> snd) (rows_after after (records_t s))
            = items @ map (r_body \<circ> snd) (rows_after (int c) (records_t s))"
proof -
  obtain rs where page: "sync_page after limit (records_t s) = (rs, nxt)" "items = map r_body rs"
    using assms(2) by (cases "sync_page after limit (records_t s)") (simp add: record_sync_page_def)
  then show "items = take (nat limit) (map (r_body \<circ> snd) (rows_after after (records_t s)))"
    using assms(3) by (auto simp: sync_page_def Let_def sql_limit_def rows_after_def take_map)
  have comp: "map (r_body \<circ> snd) xs = map r_body (map snd xs)" for xs :: "(nat \<times> record_row) list" by simp
  show "case nxt of None \<Rightarrow> items = [] \<and> rows_after after (records_t s) = []
     | Some c \<Rightarrow> after < int c \<and> items \<noteq> [] \<and> c \<in> fst ` set (rows (records_t s))
        \<and> map (r_body \<circ> snd) (rows_after after (records_t s))
            = items @ map (r_body \<circ> snd) (rows_after (int c) (records_t s))"
  proof (cases nxt)
    case None
    then show ?thesis
      using sync_page_rows [OF assms(1) page(1) assms(3)] page(2) by (simp add: rows_after_def)
  next
    case (Some c)
    with sync_page_rows [OF assms(1) page(1) assms(3)] sync_page_cursor [of after limit "records_t s" rs c] page(1)
    have rs: "c \<in> fst ` set (rows (records_t s))" "after < int c" "rs \<noteq> []"
      "map snd (rows_after after (records_t s)) = rs @ map snd (rows_after (int c) (records_t s))"
      by (simp_all add: rows_after_def)
    then have "map r_body (map snd (rows_after after (records_t s)))
        = map r_body rs @ map r_body (map snd (rows_after (int c) (records_t s)))"
      by (simp only: map_append)
    with rs Some page(2) show ?thesis unfolding comp by simp
  qed
qed

text \<open>The pass over the record pages ends, and leaves no record of the peer after the cursor missing.\<close>

lemma sync_records_total:
  assumes peer: "serves_records H peer s max_bytes (min page_size 25) cursors" "records_ok E s" and size: "0 < page_size"
    and seqs: "int ` fst ` set (rows (records_t s)) \<subseteq> cursors"
  shows "node_ok E n \<Longrightarrow> current \<in> cursors \<Longrightarrow> length (rows_after current (records_t s)) < pages \<Longrightarrow>
    \<exists>st' result' n'. sync_pages E H page_size max_bytes peer key Records pages current st result n = (Inr (st', result'), n')
      \<and> node_ok E n'
      \<and> (\<forall>k. get_record (ix n) k \<noteq> None \<longrightarrow> get_record (ix n') k = get_record (ix n) k)
      \<and> (\<forall>(_, row) \<in> set (rows_after current (records_t s)). get_record (ix n') (r_id row) \<noteq> None)"
proof (induction pages arbitrary: n current st result)
  case (Suc pages)
  define limit where "limit = min page_size 25"
  have limit: "0 < limit" using size by (simp add: limit_def)
  obtain items nxt where page: "record_sync_page s current limit = (items, nxt)" by force
  define v where "v = sync_response (items, nxt) current limit"
  define c where "c = (case nxt of None \<Rightarrow> current | Some m \<Rightarrow> int m)"
  have fields: "page_items v = items" "py_int (dget (dget v ''cursor'') ''seq'') = Inr c"
    "dget v ''has_more'' = JBool (int (length items) = limit)"
    by (simp_all add: v_def sync_response_def page_items_def py_int_def c_def)
  obtain n1 where n1: "get_page H peer ''/v1/sync/records'' [(''after_seq'', current), (''limit'', limit)] max_bytes n
      = (Inr v, n1)" "ix n1 = ix n" "ev n1 = ev n"
    using get_page_served [OF peer(1) Suc.prems(2), of n] page by (auto simp: v_def limit_def)
  have table: "table_ok r_id (records_t s)" using peer(2) by (simp add: records_ok_def)
  note rows = record_page_rows [OF table page limit]
  have mem: "(m, row) \<in> set (rows_after current (records_t s)) \<Longrightarrow> row \<in> set (all_rows (records_t s))" for m row
    by (force simp: rows_after_def all_rows_set)
  have valid: "\<forall>r \<in> set items. validate_record E r = Inr () \<and> wf_json r"
    using rows(1) mem peer(2) by (auto simp: records_ok_def dest!: in_set_takeD)
  have ok1: "node_ok E n1" using Suc.prems(1) n1 by (simp add: node_ok_def)
  obtain result' n2 where n2: "import_items E Records items result n1 = (Inr (result', False), n2)" "node_ok E n2"
    "\<forall>k. get_record (ix n1) k \<noteq> None \<longrightarrow> get_record (ix n2) k = get_record (ix n1) k"
    "\<forall>r \<in> set items. get_record (ix n2) (rid_of r) \<noteq> None"
    using import_records_page [OF ok1 valid] by blast
  define st' n3 where "st' = put_cursor Records c st" and "n3 = n2\<lparr>peer_states := put_pair key st' (peer_states n2)\<rparr>"
  have ok3: "node_ok E n3" "ix n3 = ix n2" using n2(2) by (simp_all add: n3_def node_ok_def)
  have advance: "(items \<noteq> [] \<and> c \<le> current) = False"
    using rows(2) by (auto simp: c_def split: option.splits)
  have run: "sync_pages E H page_size max_bytes peer key Records (Suc pages) current st result n =
      (if int (length items) \<noteq> limit then (Inr (st', result'), n3)
       else sync_pages E H page_size max_bytes peer key Records pages c st' result' n3)"
    using n1(1) n2(1) unfolding limit_def
    by (simp add: advance fields bindM_def liftM_def set_peer_sync_state_def updateM_def Let_def st'_def n3_def flip: limit_def)
  have row_id: "(m, row) \<in> set (rows_after current (records_t s)) \<Longrightarrow> r_id row = rid_of (r_body row)" for m row
    using mem peer(2) row_of_record_simps(1) unfolding records_ok_def by metis
  show ?case
  proof (cases "int (length items) = limit")
    case False
    then have "length (take (nat limit) (map (r_body \<circ> snd) (rows_after current (records_t s)))) < nat limit"
      using rows(1) limit by simp
    then have "items = map (r_body \<circ> snd) (rows_after current (records_t s))" using rows(1) by simp
    with n2(4) row_id have "\<forall>(_, row) \<in> set (rows_after current (records_t s)). get_record (ix n3) (r_id row) \<noteq> None"
      using ok3(2) by fastforce
    then show ?thesis using run False ok3 n1(2) n2(3) by auto
  next
    case True
    with limit have "items \<noteq> []" by auto
    with rows(2) obtain m where m: "nxt = Some m" "current < int m"
      "map (r_body \<circ> snd) (rows_after current (records_t s)) = items @ map (r_body \<circ> snd) (rows_after (int m) (records_t s))"
      and seq: "m \<in> fst ` set (rows (records_t s))"
      by (auto split: option.splits)
    then have c: "c = int m" "c \<in> cursors" using seqs by (auto simp: c_def)
    from m(3) have "length (rows_after current (records_t s)) = length items + length (rows_after c (records_t s))"
      unfolding c(1) by (metis length_append length_map)
    with \<open>items \<noteq> []\<close> Suc.prems(3) have "length (rows_after c (records_t s)) < pages" by (cases items) auto
    from Suc.IH [OF ok3(1) c(2) this, of st' result'] obtain st2 res2 n4 where
      n4: "sync_pages E H page_size max_bytes peer key Records pages c st' result' n3 = (Inr (st2, res2), n4)" "node_ok E n4"
        "\<forall>k. get_record (ix n3) k \<noteq> None \<longrightarrow> get_record (ix n4) k = get_record (ix n3) k"
        "\<forall>(_, row) \<in> set (rows_after c (records_t s)). get_record (ix n4) (r_id row) \<noteq> None" by blast
    have "get_record (ix n4) (r_id row) \<noteq> None" if row: "(k, row) \<in> set (rows_after current (records_t s))" for k row
    proof -
      have "r_body row \<in> set (items @ map (r_body \<circ> snd) (rows_after c (records_t s)))"
        using m(3) row unfolding c(1) by (metis (no_types, lifting) comp_apply image_eqI list.set_map snd_conv)
      then consider "r_body row \<in> set items" | k' row' where "(k', row') \<in> set (rows_after c (records_t s))" "r_body row = r_body row'"
        by auto
      then show ?thesis
      proof cases
        case 1
        with n2(4) row_id [OF row] n4(3) ok3(2) show ?thesis by metis
      next
        case 2
        have "(k', row') \<in> set (rows_after current (records_t s))" using 2(1) m(2) by (auto simp: rows_after_def c)
        with row_id [OF row] row_id [of k' row'] 2 have "r_id row = r_id row'" by simp
        with n4(4) 2(1) show ?thesis by auto
      qed
    qed
    moreover have "\<forall>k. get_record (ix n) k \<noteq> None \<longrightarrow> get_record (ix n4) k = get_record (ix n) k"
      using n4(3) n2(3) n1(2) ok3(2) by metis
    ultimately show ?thesis using run True n4(1,2) by auto
  qed
qed simp

end
