(* ===== verification/NodeProofs.thy ===== *)
theory NodeProofs
  imports Service Bitcoin
begin

text \<open>
  \<^verbatim>\<open>src/hap/service.py\<close>: the proofs that a node gives out, \<open>proofs_for_record\<close>, \<open>proof_for_record\<close> and
  \<open>proof_bundle_for_record\<close>, and the checks of documents from elsewhere, \<open>verify_package\<close>,
  \<open>verify_proof_bundle\<close> and \<open>verify_proof_bundle_against_bitcoin\<close>.

  The dictionaries of check results are HOL records; an error text \<open>str(exc)\<close> is the exception. What a
  node gives out passes the checks, and the checks are sound.
\<close>

section \<open>Proofs of a record\<close>

text \<open>\<open>xs.index(x)\<close>; a \<open>ValueError\<close> is \<open>None\<close>.\<close>

fun index_of :: "ustr \<Rightarrow> ustr list \<Rightarrow> nat option" where
  "index_of x [] = None"
| "index_of x (y # ys) = (if y = x then Some 0 else map_option Suc (index_of x ys))"

definition proof_entry :: "env \<Rightarrow> index \<Rightarrow> ustr \<Rightarrow> json \<Rightarrow> nat \<Rightarrow> json result" where
  "proof_entry E s rid batch i =
     bindE (merkle_proof (sha256 E) (record_ids_of batch) (int i)) (\<lambda>path.
     Inr (obj [(''schema'', JStr (str ''hap.proof'')), (''version'', JInt 3), (''record_id'', JStr rid),
       (''batch'', batch), (''index'', JInt (int i)), (''path'', path),
       (''anchors'', JList (map anchor_as_dict (list_anchors s (Some (bid_of batch)))))]))"

fun proofs_loop :: "env \<Rightarrow> index \<Rightarrow> ustr \<Rightarrow> json list \<Rightarrow> json list result" where
  "proofs_loop E s rid [] = Inr []"
| "proofs_loop E s rid (batch # batches) = (case index_of rid (record_ids_of batch) of
     None \<Rightarrow> proofs_loop E s rid batches
   | Some i \<Rightarrow> bindE (proof_entry E s rid batch i) (\<lambda>p.
       bindE (proofs_loop E s rid batches) (\<lambda>ps. Inr (p # ps))))"

definition proofs_for_record :: "env \<Rightarrow> index \<Rightarrow> ustr \<Rightarrow> json list result" where
  "proofs_for_record E s rid = proofs_loop E s rid (batches_for_record s rid)"

definition proof_for_record :: "env \<Rightarrow> index \<Rightarrow> ustr \<Rightarrow> json option result" where
  "proof_for_record E s rid = bindE (proofs_for_record E s rid) (\<lambda>ps.
     Inr (case ps of [] \<Rightarrow> None | p # _ \<Rightarrow> Some p))"

definition proof_bundle_for_record :: "env \<Rightarrow> index \<Rightarrow> ustr \<Rightarrow> json option result" where
  "proof_bundle_for_record E s rid = (case get_record s rid of
     None \<Rightarrow> Inr None
   | Some r \<Rightarrow> bindE (proofs_for_record E s rid) (\<lambda>ps.
       bindE (create_proof_bundle E r ps) (\<lambda>b. Inr (Some b))))"

section \<open>Checking a record and a proof\<close>

record checks =
  ck_signature :: bool
  ck_record_id :: bool
  ck_batch :: "bool option"
  ck_membership :: "bool option"
  ck_payload :: "bool option"
  ck_record_error :: "exn option"
  ck_proof_error :: "exn option"

record package_report =
  pr_valid :: bool
  pr_checks :: checks

text \<open>The first \<open>try\<close> block: \<open>record_signature\<close>, \<open>record_id\<close> and \<open>record_error\<close>.\<close>

definition check_record :: "env \<Rightarrow> json \<Rightarrow> (bool \<times> bool \<times> exn option) result" where
  "check_record E r = (case bindE (validate_record E r) (\<lambda>_. bindE (calculate_record_id E r) (\<lambda>i.
       Inr (dget r ''record_id'' = JStr i))) of
     Inr same \<Rightarrow> Inr (True, same, None)
   | Inl e \<Rightarrow> if exc_of e = RecordValidationError then Inr (False, False, Some e) else Inl e)"

text \<open>The second \<open>try\<close> block: membership and payload of a valid manifest.\<close>

definition check_proof :: "env \<Rightarrow> json \<Rightarrow> json \<Rightarrow> json \<Rightarrow> (bool \<times> bool) result" where
  "check_proof E r p batch =
     (if \<not> is_dict batch then Inl (batch_error ''proof batch is required'')
      else bindE (validate_batch E batch) (\<lambda>_.
      bindE (dict_get r ''record_id'' (JStr [])) (\<lambda>rid.
      bindE (dict_get p ''path'' (JList [])) (\<lambda>path.
      bindE (decode_anchor_payload (text_of (dget batch ''payload_hex''))) (\<lambda>payload.
      Inr (verify_merkle_proof (sha256 E) rid path (dget batch ''merkle_root''),
           dget batch ''batch_id'' = JStr (manifest_hash payload)))))))"

definition verify_package :: "env \<Rightarrow> json \<Rightarrow> json option \<Rightarrow> package_report result" where
  "verify_package E r opt_proof =
     bindE (check_record E r) (\<lambda>(sig, rid_ok, record_error).
     bindE (case opt_proof of
         None \<Rightarrow> Inr (None, None, None, None)
       | Some p \<Rightarrow> bindE (dict_get p ''batch'' JNull) (\<lambda>batch. Inr (case check_proof E r p batch of
           Inr (membership, payload) \<Rightarrow> (Some True, Some membership, Some payload, None)
         | Inl e \<Rightarrow> (Some False, Some False, Some False, Some e))))
       (\<lambda>(batch, membership, payload, proof_error).
     let boolean_checks = sig # rid_ok # List.map_filter (\<lambda>c. c) [batch, membership, payload] in
     Inr \<lparr>pr_valid = list_all (\<lambda>b. b) boolean_checks,
          pr_checks = \<lparr>ck_signature = sig, ck_record_id = rid_ok, ck_batch = batch, ck_membership = membership,
            ck_payload = payload, ck_record_error = record_error, ck_proof_error = proof_error\<rparr>\<rparr>))"

section \<open>Checking a bundle\<close>

record bundle_report =
  br_bundle_id :: json
  br_record_valid :: bool
  br_results :: "package_report list"
  br_all_valid :: bool

definition verify_proof_bundle :: "env \<Rightarrow> json \<Rightarrow> bundle_report result" where
  "verify_proof_bundle E b =
     bindE (validate_proof_bundle_shape E b) (\<lambda>_.
     bindE (mapE (\<lambda>p. verify_package E (dget b ''record'') (Some p)) (list_field b ''proofs'')) (\<lambda>results.
     bindE (verify_package E (dget b ''record'') None) (\<lambda>record_only.
     Inr \<lparr>br_bundle_id = dget b ''bundle_id'', br_record_valid = pr_valid record_only, br_results = results,
          br_all_valid = (results \<noteq> [] \<and> list_all pr_valid results)\<rparr>)))"

text \<open>What the check against Bitcoin says of an anchor: no transaction identifier, no such output, what
  was found, or the exception that ended the anchors of a proof.\<close>

datatype anchor_result =
    Missing_txid
  | Payload_not_found ustr
  | Anchor_checked (ar_txid: ustr) (ar_vout: int) (ar_verified: bool) (ar_matches: bool) (ar_confirmations: int)
      (ar_context: "block_context option") (ar_expected: ustr) (ar_payload: ustr)
  | Check_failed exn

text \<open>The output that was found: the context of its block, of the one that the anchor names when the
  transaction names none, and its confirmations.\<close>

definition context_in :: "rpc \<Rightarrow> json \<Rightarrow> block_context option act" where
  "context_in R bhash = (if truthy bhash then bindA (rpc_block_context R bhash) (\<lambda>x. liftA (Inr (Some x)))
     else liftA (Inr None))"

definition confirmations_of :: "json \<Rightarrow> int result" where
  "confirmations_of tx = bindE (dict_get tx ''confirmations'' (JInt 0)) (\<lambda>v.
     if truthy v then py_int v else Inr 0)"

definition is_active :: "block_context option \<Rightarrow> bool" where
  "is_active ctx = (case ctx of None \<Rightarrow> False | Some x \<Rightarrow> in_active_chain x)"

definition check_output :: "rpc \<Rightarrow> ustr \<Rightarrow> json \<Rightarrow> ustr \<Rightarrow> ustr \<Rightarrow> json \<Rightarrow> int \<Rightarrow> anchor_result act" where
  "check_output R payload known tx_id p tx vout =
     bindA (liftA (dict_get tx ''blockhash'' JNull)) (\<lambda>own.
     bindA (context_in R (if truthy own then own else known)) (\<lambda>ctx.
     bindA (liftA (confirmations_of tx)) (\<lambda>confs.
     let matches = (p = payload)
     in liftA (Inr (Anchor_checked tx_id vout (matches \<and> 0 < confs \<and> is_active ctx) matches confs ctx payload p)))))"

text \<open>One turn of the loop over the anchors of a proof; \<open>payload\<close> is \<open>batch["payload_hex"]\<close>.\<close>

definition check_anchor :: "rpc \<Rightarrow> ustr \<Rightarrow> json \<Rightarrow> anchor_result act" where
  "check_anchor R payload anchor =
     bindA (liftA (dict_get anchor ''txid'' JNull)) (\<lambda>v.
     let tx_id = text_of v; known = dget anchor ''block_hash'' in
     if v \<noteq> JStr tx_id \<or> tx_id = [] then liftA (Inr Missing_txid)
     else bindA (find_payload R v known (Some payload) (opt_number (dget anchor ''vout''))) (\<lambda>found.
     case found of
       None \<Rightarrow> liftA (Inr (Payload_not_found tx_id))
     | Some (p, tx, vout) \<Rightarrow> check_output R payload known tx_id p tx vout))"

fun check_anchors :: "rpc \<Rightarrow> ustr \<Rightarrow> json list \<Rightarrow> nat \<Rightarrow> anchor_result list \<times> nat" where
  "check_anchors R payload [] n = ([], n)"
| "check_anchors R payload (a # as) n = (case check_anchor R payload a n of
     (Inl e, n') \<Rightarrow> ([Check_failed e], n')
   | (Inr x, n') \<Rightarrow> (case check_anchors R payload as n' of (xs, n'') \<Rightarrow> (x # xs, n'')))"

text \<open>The \<open>try\<close> block of a proof: the payload and the anchors to check.\<close>

definition anchors_of_proof :: "env \<Rightarrow> rpc \<Rightarrow> json \<Rightarrow> (ustr \<times> json list) act" where
  "anchors_of_proof E R p =
     (let batch = dget p ''batch'' in
      if \<not> is_dict batch then liftA (Inl (service_error ''proof batch is required''))
      else bindA (liftA (validate_batch E batch)) (\<lambda>_.
      bindA (rpc_network R) (\<lambda>network.
      if network \<noteq> dget batch ''network''
      then liftA (Inl (service_error ''Bitcoin RPC network does not match proof batch''))
      else liftA (bindE (bindE (dict_get p ''anchors'' (JList [])) iterE)
        (\<lambda>anchors. Inr (text_of (dget batch ''payload_hex''), anchors))))))"

fun check_proofs :: "env \<Rightarrow> rpc \<Rightarrow> json list \<Rightarrow> nat \<Rightarrow> anchor_result list \<times> nat" where
  "check_proofs E R [] n = ([], n)"
| "check_proofs E R (p # ps) n =
     (case (case anchors_of_proof E R p n of
         (Inl e, n') \<Rightarrow> ([Check_failed e], n')
       | (Inr (payload, anchors), n') \<Rightarrow> check_anchors R payload anchors n') of
       (xs, n') \<Rightarrow> (case check_proofs E R ps n' of (ys, n'') \<Rightarrow> (xs @ ys, n'')))"

record bitcoin_report =
  bi_structural :: bundle_report
  bi_network :: json
  bi_results :: "anchor_result list"
  bi_any_match :: bool
  bi_any_verified :: bool

fun reports_match :: "anchor_result \<Rightarrow> bool" where
  "reports_match (Anchor_checked _ _ _ matches _ _ _ _) = matches"
| "reports_match _ = False"

fun reports_verified :: "anchor_result \<Rightarrow> bool" where
  "reports_verified (Anchor_checked _ _ verified _ _ _ _ _) = verified"
| "reports_verified _ = False"

definition verify_proof_bundle_against_bitcoin :: "env \<Rightarrow> rpc \<Rightarrow> json \<Rightarrow> bitcoin_report act" where
  "verify_proof_bundle_against_bitcoin E R b =
     bindA (liftA (validate_proof_bundle_shape E b)) (\<lambda>_.
     bindA (liftA (verify_proof_bundle E b)) (\<lambda>structural.
     bindA (\<lambda>n. case check_proofs E R (list_field b ''proofs'') n of (xs, n') \<Rightarrow> (Inr xs, n')) (\<lambda>results.
     bindA (rpc_network R) (\<lambda>network.
     liftA (Inr \<lparr>bi_structural = structural, bi_network = network, bi_results = results,
       bi_any_match = list_ex reports_match results, bi_any_verified = list_ex reports_verified results\<rparr>)))))"

section \<open>What a node gives out passes the checks\<close>

lemma index_of_Some: "index_of x xs = Some i \<Longrightarrow> i < length xs \<and> xs ! i = x"
  by (induction xs arbitrary: i) (auto split: if_splits)

lemma index_of_None: "index_of x xs = None \<longleftrightarrow> x \<notin> set xs"
  by (induction xs) auto

lemma tree_depth_le: "n \<le> 2 ^ k \<Longrightarrow> tree_depth n \<le> k"
proof (induction k arbitrary: n)
  case 0
  then show ?case by (subst tree_depth.simps) simp
next
  case (Suc k)
  then have "(n + 1) div 2 \<le> 2 ^ k" by simp
  from Suc.IH [OF this] show ?case by (subst tree_depth.simps) simp
qed

lemma proof_loop_steps:
  "st \<in> set (proof_loop H level i) \<Longrightarrow> (\<exists>bs. sibling st = bytes_hex bs) \<and> side st \<in> {''left'', ''right''}"
proof (induction H level i rule: proof_loop.induct)
  case (1 H level i)
  show ?case
  proof (cases "1 < length level")
    case True
    from "1.IH" [OF True refl refl refl] "1.prems" True show ?thesis
      by (subst (asm) (2) proof_loop.simps) (auto simp: Let_def split: if_splits)
  next
    case False
    with "1.prems" show ?thesis by (subst (asm) proof_loop.simps) simp
  qed
qed

lemma verify_steps_siblings:
  "verify_steps H v steps = Some w \<Longrightarrow> st \<in> set steps \<Longrightarrow> \<exists>bs. hex32 (dget st ''sibling'') = Some bs"
  by (induction H v steps rule: verify_steps.induct) (auto split: option.splits if_splits)

lemma validate_step_dict:
  assumes "st \<in> set (proof_loop H level i)" "hex32 (JStr (sibling st)) = Some bs"
  shows "validate_step (step_as_dict st) = Inr ()" "encodable_json (step_as_dict st)"
    "in_range (step_as_dict st)" "json_depth (step_as_dict st) \<le> 1"
proof -
  from proof_loop_steps [OF assms(1)] obtain x where x: "sibling st = bytes_hex x" "side st \<in> {''left'', ''right''}"
    by auto
  with assms(2) have "length x = 32" by (auto simp: hex32_eq_Some)
  with x(1) have "is_hex_digest (JStr (sibling st))" by (simp add: is_hex_digest_def)
  then show "validate_step (step_as_dict st) = Inr ()"
    unfolding validate_step_def using x(2)
    by (auto simp: result_simps step_as_dict_def has_fields_obj PROOF_STEP_FIELDS_def)
  show "encodable_json (step_as_dict st)" "in_range (step_as_dict st)" "json_depth (step_as_dict st) \<le> 1"
    using x by (auto simp: step_as_dict_def obj_def)
qed

text \<open>An anchor that can leave the node: its reference is valid and has canonical bytes.\<close>

definition publishable :: "anchor \<Rightarrow> bool" where
  "publishable a \<longleftrightarrow> validate_anchor_reference (anchor_as_dict a) = Inr ()
     \<and> in_range (anchor_as_dict a) \<and> encodable_json (anchor_as_dict a)"

lemma anchor_dict_depth: "json_depth (anchor_as_dict a) \<le> 1"
  by (auto simp: anchor_as_dict_def obj_def opt_str_def opt_int_def split: option.splits)

lemma check_record_valid:
  assumes "validate_record E r = Inr ()"
  shows "check_record E r = Inr (True, True, None)"
proof -
  have "\<exists>i. calculate_record_id E r = Inr i \<and> dget r ''record_id'' = JStr i"
    using assms by (auto simp: validate_record_eq_Inr calculate_record_id_def result_simps dest!: validate_signature_facts(1))
  then show ?thesis by (auto simp: check_record_def assms)
qed

lemma verify_package_of_proof:
  assumes r: "validate_record E r = Inr ()" "rid_of r = rid"
    and batch: "validate_batch E b = Inr ()" and p: "is_dict p" "dget p ''batch'' = b" "dget p ''path'' = JList steps"
    and v: "verify_merkle_proof (sha256 E) (JStr rid) (JList steps) (dget b ''merkle_root'')"
  shows "\<exists>rep. verify_package E r (Some p) = Inr rep \<and> pr_valid rep"
proof -
  have dicts: "is_dict b" "is_dict r" using batch r(1) has_fields_is_dict
    by (auto simp: validate_batch_eq_Inr validate_record_eq_Inr dest: validate_head_facts(1))
  have rid: "dget r ''record_id'' = JStr rid"
    using r by (auto simp: validate_record_eq_Inr rid_of_def dest!: validate_signature_facts(1))
  note chk = check_record_valid [OF r(1)]
  obtain bid sp pl where pl: "dget b ''batch_id'' = JStr bid" "dget b ''payload_hex'' = JStr sp"
    "decode_anchor_payload sp = Inr pl" "manifest_hash pl = bid"
    using validate_batch_payload [OF batch] by auto
  have gets: "dict_get r ''record_id'' (JStr []) = Inr (JStr rid)" "dict_get p ''path'' (JList []) = Inr (JList steps)"
    "dict_get p ''batch'' JNull = Inr b"
    using dicts p rid
    by (auto simp: is_dict_def dict_get_def assoc_get_def split: json.splits option.splits)
  have "check_proof E r p b = Inr (True, True)"
    using batch dicts gets pl v by (simp add: check_proof_def)
  with chk gets show ?thesis by (simp add: verify_package_def List.map_filter_simps)
qed

text \<open>What is true of an entry of \<open>proofs_for_record\<close>.\<close>

definition good_proof :: "env \<Rightarrow> json \<Rightarrow> json \<Rightarrow> bool" where
  "good_proof E r p \<longleftrightarrow> validate_bundle_proof E r p = Inr () \<and> is_dict p
     \<and> in_range p \<and> encodable_json p \<and> json_depth p \<le> 3
     \<and> (\<exists>rep. verify_package E r (Some p) = Inr rep \<and> pr_valid rep)"

lemma proof_entry_good:
  assumes E: "digests_32 E" and r: "validate_record E r = Inr ()" "wf_json r" "rid_of r = rid"
    and batch: "validate_batch E b = Inr ()" "wf_json b" and i: "index_of rid (record_ids_of b) = Some i"
    and anchors: "\<forall>a \<in> set (list_anchors s (Some (bid_of b))). publishable a"
  shows "\<exists>p. proof_entry E s rid b i = Inr p \<and> good_proof E r p"
proof -
  define as where "as = map anchor_as_dict (list_anchors s (Some (bid_of b)))"
  have idx: "i < length (record_ids_of b)" "record_ids_of b ! i = rid" using index_of_Some [OF i] by auto
  note ids = validate_batch_ids [OF batch(1)]
  obtain level where "mapE leaf (record_ids_of b) = Inr level" using mapE_leaf_total [OF ids(4)] by blast
  from merkle_proof_complete [OF _ idx(1) this, of "sha256 E"] E idx(2) ids(8)
  obtain steps where path: "merkle_proof (sha256 E) (record_ids_of b) (int i) = Inr (JList steps)"
    and ver: "verify_merkle_proof (sha256 E) (JStr rid) (JList steps) (dget b ''merkle_root'')"
    and len: "length steps = tree_depth (length (record_ids_of b))"
    by (auto simp: digests_32_def)
  have small: "length steps \<le> 64"
    using len tree_depth_le [of "length (record_ids_of b)" 64] ids(3) by simp
  have steps: "\<forall>x \<in> set steps. validate_step x = Inr () \<and> encodable_json x \<and> in_range x \<and> json_depth x \<le> 1"
  proof
    fix x assume x: "x \<in> set steps"
    from path obtain lv st where "steps = map step_as_dict (proof_loop (sha256 E) lv i)"
      by (auto simp: merkle_proof_def result_simps split: if_splits)
    with x obtain st where st: "x = step_as_dict st" "st \<in> set (proof_loop (sha256 E) lv i)" by auto
    from ver obtain v w where "verify_steps (sha256 E) v steps = Some w"
      by (auto simp: verify_merkle_proof_def py_iter_def split: option.splits)
    from verify_steps_siblings [OF this x] st(1) obtain bs where "hex32 (JStr (sibling st)) = Some bs" by auto
    from validate_step_dict [OF st(2) this] st(1)
    show "validate_step x = Inr () \<and> encodable_json x \<and> in_range x \<and> json_depth x \<le> 1" by simp
  qed
  have as: "\<forall>a \<in> set as. validate_anchor_reference a = Inr () \<and> in_range a \<and> encodable_json a \<and> json_depth a \<le> 1"
    using anchors anchor_dict_depth by (auto simp: as_def publishable_def)
  define p where "p = obj [(''schema'', JStr (str ''hap.proof'')), (''version'', JInt 3), (''record_id'', JStr rid),
       (''batch'', b), (''index'', JInt (int i)), (''path'', JList steps), (''anchors'', JList as)]"
  have rid: "dget r ''record_id'' = JStr rid" "encodable rid"
    using r ids(4) idx by (auto simp: validate_record_eq_Inr rid_of_def is_hex_digest_def encodable_fromhex
        dest!: validate_signature_facts(1))
  have "proof_entry E s rid b i = Inr p" using path by (simp add: proof_entry_def p_def as_def)
  moreover have "\<exists>rep. verify_package E r (Some p) = Inr rep \<and> pr_valid rep"
    by (rule verify_package_of_proof [OF r(1,3) batch(1) _ _ _ ver]) (simp_all add: p_def)
  moreover have "validate_bundle_proof E r p = Inr ()"
    unfolding validate_bundle_proof_def using batch steps as small rid idx(1)
    by (simp add: p_def has_fields_obj PROOF_FIELDS_def forE_eq_Inr [of _ _ "()", THEN iffD2])
  moreover have "in_range b" "encodable_json b" "json_depth b \<le> 2"
    using validate_batch_encodable [OF batch] validate_batch_depth [OF batch] by auto
  moreover have "int i \<le> MAX_SAFE_JSON_INTEGER"
    using idx(1) ids(3) by (simp add: MAX_SAFE_JSON_INTEGER_def)
  ultimately show ?thesis
    using steps as rid by (auto simp: good_proof_def p_def obj_def MAX_SAFE_JSON_INTEGER_def)
qed

lemma proofs_loop_good:
  assumes E: "digests_32 E" and r: "validate_record E r = Inr ()" "wf_json r" "rid_of r = rid"
    and batches: "\<forall>b \<in> set bs. validate_batch E b = Inr () \<and> wf_json b"
    and anchors: "\<forall>b \<in> set bs. rid \<in> set (record_ids_of b) \<longrightarrow> (\<forall>a \<in> set (list_anchors s (Some (bid_of b))). publishable a)"
  shows "\<exists>ps. proofs_loop E s rid bs = Inr ps \<and> (\<forall>p \<in> set ps. good_proof E r p)
    \<and> (ps = [] \<longleftrightarrow> (\<forall>b \<in> set bs. rid \<notin> set (record_ids_of b)))"
  using batches anchors
proof (induction bs)
  case (Cons b bs)
  then obtain ps where ps: "proofs_loop E s rid bs = Inr ps" "\<forall>p \<in> set ps. good_proof E r p"
    "ps = [] \<longleftrightarrow> (\<forall>b \<in> set bs. rid \<notin> set (record_ids_of b))" by auto
  show ?case
  proof (cases "index_of rid (record_ids_of b)")
    case None
    then have "rid \<notin> set (record_ids_of b)" by (simp add: index_of_None)
    with None ps show ?thesis by auto
  next
    case (Some i)
    then have "rid \<in> set (record_ids_of b)" using index_of_None [of rid "record_ids_of b"] by auto
    moreover obtain p where "proof_entry E s rid b i = Inr p" "good_proof E r p"
      using proof_entry_good [OF E r _ _ Some, of s] Cons.prems \<open>rid \<in> set (record_ids_of b)\<close> by auto
    ultimately show ?thesis using Some ps by auto
  qed
qed simp

text \<open>The anchors that the bundle of a record would contain.\<close>

definition record_anchors :: "index \<Rightarrow> ustr \<Rightarrow> anchor list" where
  "record_anchors s rid = concat (map (\<lambda>b. list_anchors s (Some (bid_of b)))
     (filter (\<lambda>b. rid \<in> set (record_ids_of b)) (batches_for_record s rid)))"

lemma bundle_of_node_verifies:
  assumes E: "digests_32 E" and ok: "index_ok E s" and r: "get_record s rid = Some r"
    and anchors: "\<forall>a \<in> set (record_anchors s rid). publishable a"
  shows "\<exists>b rep. proof_bundle_for_record E s rid = Inr (Some b) \<and> validate_proof_bundle_shape E b = Inr ()
    \<and> dget b ''record'' = r \<and> verify_proof_bundle E b = Inr rep \<and> br_record_valid rep
    \<and> (br_all_valid rep \<longleftrightarrow> (\<exists>row \<in> set (all_rows (batches_t s)). rid \<in> set (record_ids_of (bt_body row))))"
proof -
  have r: "get_record s rid = Some r" "validate_record E r = Inr ()" "wf_json r" "rid_of r = rid"
    using get_record_valid [OF _ assms(3)] ok r by (auto simp: index_ok_def)
  have batches: "\<forall>b \<in> set (batches_for_record s rid). validate_batch E b = Inr () \<and> wf_json b"
    using ok by (auto simp: index_ok_def batches_ok_def batches_for_record_def)
  have "\<forall>b \<in> set (batches_for_record s rid). rid \<in> set (record_ids_of b) \<longrightarrow>
      (\<forall>a \<in> set (list_anchors s (Some (bid_of b))). publishable a)"
    using anchors by (auto simp: record_anchors_def)
  from proofs_loop_good [OF E r(2-4) batches this] obtain ps
    where ps: "proofs_for_record E s rid = Inr ps" "\<forall>p \<in> set ps. good_proof E r p"
      "ps = [] \<longleftrightarrow> (\<forall>b \<in> set (batches_for_record s rid). rid \<notin> set (record_ids_of b))"
    by (auto simp: proofs_for_record_def)
  have linked: "(\<exists>b \<in> set (batches_for_record s rid). rid \<in> set (record_ids_of b))
      \<longleftrightarrow> (\<exists>row \<in> set (all_rows (batches_t s)). rid \<in> set (record_ids_of (bt_body row)))"
  proof -
    have "list_ex (\<lambda>(r, b', _). r = rid \<and> b' = bt_id row) (record_batches s)"
      if row: "row \<in> set (all_rows (batches_t s))" "rid \<in> set (record_ids_of (bt_body row))" for row
    proof -
      from row(2) obtain j where "j < length (record_ids_of (bt_body row))" "record_ids_of (bt_body row) ! j = rid"
        by (auto simp: in_set_conv_nth)
      then have "(rid, bt_id row, j) \<in> set (record_batches s)"
        using ok row(1) unfolding index_ok_def links_ok_def by blast
      then show ?thesis by (auto simp: list_ex_iff)
    qed
    then show ?thesis by (auto simp: batches_for_record_def)
  qed
  define fs where "fs = [(''schema'', JStr (str ''hap.proof-bundle'')), (''version'', JInt 1),
        (''record'', r), (''proofs'', JList ps)]"
  have size: "in_range r" "encodable_json r" "json_depth r \<le> 3"
    using validate_record_encodable [OF r(2,3)] validate_record_depth [OF r(2,3)] by auto
  with ps(2) have "in_range (obj fs) \<and> json_depth (obj fs) \<le> 32 \<and> encodable_json (obj fs)"
    by (auto simp: fs_def obj_def good_proof_def MAX_SAFE_JSON_INTEGER_def)
  then obtain body where body: "canonical_json_bytes (obj fs) = Inr body"
    using canonical_json_bytes_iff by blast
  define i where "i = sha256_hex E body"
  define b where "b = obj (fs @ [(''bundle_id'', JStr i)])"
  have puts: "dput ''bundle_id'' (JStr i) (obj fs) = b" "proof_bundle_body b = obj fs" "proof_bundle_body (obj fs) = obj fs"
    by (simp_all add: b_def fs_def proof_bundle_body_def dput_obj dpop_obj)
  have made: "proof_bundle_for_record E s rid = Inr (Some b)"
    using r(1) ps(1) body puts
    by (simp add: proof_bundle_for_record_def create_proof_bundle_def Let_def calculate_proof_bundle_id_def
        flip: fs_def i_def)
  have fields: "dget b ''record'' = r" "list_field b ''proofs'' = ps" "dget b ''proofs'' = JList ps"
    by (simp_all add: b_def fs_def list_field_def)
  have "is_dict r" using r(2) has_fields_is_dict by (auto simp: validate_record_eq_Inr dest: validate_head_facts(1))
  then have shape: "validate_proof_bundle_shape E b = Inr ()"
    unfolding validate_proof_bundle_eq_Inr fields using r ps(2) puts body
    by (simp add: b_def fs_def has_fields_obj PROOF_BUNDLE_FIELDS_def calculate_proof_bundle_id_def i_def
        good_proof_def)
  obtain reps where reps: "mapE (\<lambda>p. verify_package E r (Some p)) ps = Inr reps" "list_all pr_valid reps"
    "length reps = length ps"
    using mapE_total [of ps "\<lambda>p. verify_package E r (Some p)" pr_valid] ps(2)
    by (auto simp: good_proof_def)
  obtain ro where ro: "verify_package E r None = Inr ro" "pr_valid ro"
    by (simp add: verify_package_def check_record_valid [OF r(2)] List.map_filter_def)
  have run: "verify_proof_bundle E b = Inr \<lparr>br_bundle_id = dget b ''bundle_id'', br_record_valid = pr_valid ro,
      br_results = reps, br_all_valid = (reps \<noteq> [] \<and> list_all pr_valid reps)\<rparr>"
    unfolding verify_proof_bundle_def fields shape bindE_simps reps(1) ro(1) by (rule refl)
  have "reps \<noteq> [] \<and> list_all pr_valid reps \<longleftrightarrow> ps \<noteq> []" using reps(2,3) by auto
  then have "\<exists>rep. verify_proof_bundle E b = Inr rep \<and> br_record_valid rep \<and> (br_all_valid rep \<longleftrightarrow> ps \<noteq> [])"
    unfolding run using ro(2) by (intro exI [of _ "\<lparr>br_bundle_id = dget b ''bundle_id'', br_record_valid = pr_valid ro,
      br_results = reps, br_all_valid = (reps \<noteq> [] \<and> list_all pr_valid reps)\<rparr>"]) simp
  then show ?thesis using made shape fields(1) ps(3) linked by blast
qed

text \<open>And conversely: with an anchor that is not publishable the bundle is refused by its own validation, and
  when the numbers of the anchor are out of range it is not even made.\<close>

lemma proofs_loop_anchors:
  "proofs_loop E s rid bs = Inr ps \<Longrightarrow> b \<in> set bs \<Longrightarrow> rid \<in> set (record_ids_of b) \<Longrightarrow>
   \<exists>p \<in> set ps. dget p ''anchors'' = JList (map anchor_as_dict (list_anchors s (Some (bid_of b))))
     \<and> (\<exists>items. p = obj items \<and> (''anchors'', dget p ''anchors'') \<in> set items)"
proof (induction bs arbitrary: ps)
  case (Cons b' bs)
  show ?case
  proof (cases "b = b'")
    case True
    with Cons.prems(3) obtain i where i: "index_of rid (record_ids_of b') = Some i"
      using index_of_None [of rid "record_ids_of b'"] by (cases "index_of rid (record_ids_of b')") auto
    with Cons.prems(1) obtain p where p: "p \<in> set ps" "proof_entry E s rid b' i = Inr p"
      by (auto simp: bindE_eq_Inr)
    then show ?thesis using True by (intro bexI [OF _ p(1)]) (auto simp: proof_entry_def bindE_eq_Inr)
  next
    case False
    with Cons.prems(2) have b: "b \<in> set bs" by simp
    from Cons.prems(1) obtain ps' where ps': "proofs_loop E s rid bs = Inr ps'" "set ps' \<subseteq> set ps"
      by (auto simp: bindE_eq_Inr subset_insertI split: option.splits)
    from Cons.IH [OF ps'(1) b Cons.prems(3)] ps'(2) show ?thesis by blast
  qed
qed simp

lemma obj_member:
  "in_range (obj items) \<Longrightarrow> (k, v) \<in> set items \<Longrightarrow> in_range v"
  "encodable_json (obj items) \<Longrightarrow> (k, v) \<in> set items \<Longrightarrow> encodable_json v"
  by (induction items) (auto simp: obj_def)

lemma bundle_anchors:
  assumes r: "get_record s rid = Some r" and b: "proof_bundle_for_record E s rid = Inr made"
    and a: "a \<in> set (record_anchors s rid)"
  shows "in_range (anchor_as_dict a) \<and> encodable_json (anchor_as_dict a)"
    and "\<exists>p. made = Some p \<and> (validate_proof_bundle_shape E p = Inr () \<longrightarrow> validate_anchor_reference (anchor_as_dict a) = Inr ())"
proof -
  from b r obtain ps p where ps: "proofs_for_record E s rid = Inr ps" "create_proof_bundle E r ps = Inr p" "made = Some p"
    by (auto simp: proof_bundle_for_record_def bindE_eq_Inr)
  from a obtain c where "c \<in> set (batches_for_record s rid)" "rid \<in> set (record_ids_of c)" "a \<in> set (list_anchors s (Some (bid_of c)))"
    by (auto simp: record_anchors_def)
  with proofs_loop_anchors [OF ps(1) [unfolded proofs_for_record_def]]
  obtain q items as where q: "q \<in> set ps" "dget q ''anchors'' = JList as" "anchor_as_dict a \<in> set as" "q = obj items"
    "(''anchors'', JList as) \<in> set items"
    by fastforce
  define fs where "fs = [(''schema'', JStr (str ''hap.proof-bundle'')), (''version'', JInt 1),
        (''record'', r), (''proofs'', JList ps)]"
  have made: "calculate_proof_bundle_id E (obj fs) \<noteq> Inl e" "\<exists>i. p = dput ''bundle_id'' (JStr i) (obj fs)" for e
    using ps(2) by (auto simp: create_proof_bundle_def Let_def bindE_eq_Inr fs_def)
  have "proof_bundle_body (obj fs) = obj fs" by (simp add: fs_def proof_bundle_body_def dpop_obj)
  with made(1) obtain bs where "canonical_json_bytes (obj fs) = Inr bs"
    by (cases "canonical_json_bytes (obj fs)") (auto simp: calculate_proof_bundle_id_def)
  then have range: "in_range (obj fs)" "encodable_json (obj fs)" using canonical_json_bytes_iff by blast+
  have "(''proofs'', JList ps) \<in> set fs" by (simp add: fs_def)
  with obj_member range have "in_range q" "encodable_json q" using q(1) by fastforce+
  with obj_member q(4,5) have "in_range (JList as)" "encodable_json (JList as)" by metis+
  with q(3) show "in_range (anchor_as_dict a) \<and> encodable_json (anchor_as_dict a)" by auto
  have "dget p ''proofs'' = JList ps" using made(2) by (auto simp: fs_def)
  moreover have "validate_bundle_proof E R q = Inr () \<longrightarrow> validate_anchor_reference (anchor_as_dict a) = Inr ()" for R
    using q(2,3) by (auto simp: validate_bundle_proof_def bindE_eq_Inr forE_eq_Inr split: json.splits if_splits)
  ultimately show "\<exists>p. made = Some p \<and> (validate_proof_bundle_shape E p = Inr () \<longrightarrow> validate_anchor_reference (anchor_as_dict a) = Inr ())"
    using ps(3) q(1) by (auto simp: validate_proof_bundle_eq_Inr)
qed

lemma bundle_exact:
  assumes "digests_32 E" "index_ok E s" "get_record s rid = Some r"
  shows "(if \<forall>a \<in> set (record_anchors s rid). publishable a
     then \<exists>b rep. proof_bundle_for_record E s rid = Inr (Some b) \<and> validate_proof_bundle_shape E b = Inr ()
        \<and> dget b ''record'' = r \<and> verify_proof_bundle E b = Inr rep \<and> br_record_valid rep
        \<and> (br_all_valid rep \<longleftrightarrow> (\<exists>row \<in> set (all_rows (batches_t s)). rid \<in> set (record_ids_of (bt_body row))))
     else \<forall>b. proof_bundle_for_record E s rid = Inr b \<longrightarrow> (\<exists>p e. b = Some p \<and> validate_proof_bundle_shape E p = Inl e))"
    and "(\<exists>b. proof_bundle_for_record E s rid = Inr b) \<longrightarrow> (\<forall>a \<in> set (record_anchors s rid). in_range (anchor_as_dict a))"
proof -
  have "\<exists>p e. b = Some p \<and> validate_proof_bundle_shape E p = Inl e"
    if "proof_bundle_for_record E s rid = Inr b" "a \<in> set (record_anchors s rid)" "\<not> publishable a" for a b
  proof -
    from bundle_anchors [OF assms(3) that(1,2)] that(3) obtain p where "b = Some p" "validate_proof_bundle_shape E p \<noteq> Inr ()"
      by (auto simp: publishable_def)
    then show ?thesis by (cases "validate_proof_bundle_shape E p") auto
  qed
  with bundle_of_node_verifies [OF assms] show "if \<forall>a \<in> set (record_anchors s rid). publishable a
     then \<exists>b rep. proof_bundle_for_record E s rid = Inr (Some b) \<and> validate_proof_bundle_shape E b = Inr ()
        \<and> dget b ''record'' = r \<and> verify_proof_bundle E b = Inr rep \<and> br_record_valid rep
        \<and> (br_all_valid rep \<longleftrightarrow> (\<exists>row \<in> set (all_rows (batches_t s)). rid \<in> set (record_ids_of (bt_body row))))
     else \<forall>b. proof_bundle_for_record E s rid = Inr b \<longrightarrow> (\<exists>p e. b = Some p \<and> validate_proof_bundle_shape E p = Inl e)"
    by auto
  show "(\<exists>b. proof_bundle_for_record E s rid = Inr b) \<longrightarrow> (\<forall>a \<in> set (record_anchors s rid). in_range (anchor_as_dict a))"
    using bundle_anchors(1) [OF assms(3)] by blast
qed

text \<open>For an anchor whose reference is valid, as that of every imported one is, being publishable is a matter of
  its numbers.\<close>

lemma publishable_numbers:
  assumes "validate_anchor_reference (anchor_as_dict a) = Inr ()"
  shows "publishable a \<longleftrightarrow> a_vout a \<le> MAX_SAFE_JSON_INTEGER \<and> a_anchored_at a \<le> MAX_SAFE_JSON_INTEGER
    \<and> (\<forall>h. a_block_height a = Some h \<longrightarrow> h \<le> MAX_SAFE_JSON_INTEGER)"
proof -
  have enc: "encodable s" if "is_hex_digest (JStr s)" for s
    using that by (auto simp: is_hex_digest_def intro: encodable_fromhex)
  have v: "is_hex_digest (JStr (a_txid a))" "is_hex_digest (JStr (a_batch_id a))"
    "0 \<le> a_vout a" "0 \<le> a_anchored_at a"
    "\<exists>n. a_network a = str n" "\<exists>n. a_status a = str n"
    "\<And>h. a_block_hash a = Some h \<Longrightarrow> is_hex_digest (JStr h)" "\<And>h. a_block_height a = Some h \<Longrightarrow> 0 \<le> h"
    using assms
    by (auto simp: validate_anchor_eq_Inr anchor_as_dict_def is_nonneg_int_def opt_str_def opt_int_def is_hex_digest_def
        split: option.splits)
  have "encodable_json (anchor_as_dict a)"
    using v(5,6) enc [OF v(1)] enc [OF v(2)] enc [OF v(7)]
    by (auto simp: anchor_as_dict_def obj_def opt_str_def opt_int_def split: option.splits)
  moreover have "in_range (anchor_as_dict a) \<longleftrightarrow> a_vout a \<le> MAX_SAFE_JSON_INTEGER \<and> a_anchored_at a \<le> MAX_SAFE_JSON_INTEGER
    \<and> (\<forall>h. a_block_height a = Some h \<longrightarrow> h \<le> MAX_SAFE_JSON_INTEGER)"
    using v(3,4,8) by (auto simp: anchor_as_dict_def obj_def opt_str_def opt_int_def split: option.splits)
  ultimately show ?thesis using assms by (simp add: publishable_def)
qed

section \<open>The check against Bitcoin\<close>

text \<open>What stands behind a verified anchor: the RPC gave a transaction with the payload and confirmations,
  and a header of the active chain for its block, or for the block that the anchor names when the
  transaction names none.\<close>

definition bitcoin_evidence :: "rpc \<Rightarrow> ustr \<Rightarrow> json \<Rightarrow> bool" where
  "bitcoin_evidence R payload anchor \<longleftrightarrow> (\<exists>vout k k' tx own confs ctx j j'.
     find_payload R (dget anchor ''txid'') (dget anchor ''block_hash'') (Some payload) (opt_number (dget anchor ''vout'')) k
         = (Inr (Some (payload, tx, vout)), k')
     \<and> dict_get tx ''blockhash'' JNull = Inr own
     \<and> rpc_block_context R (if truthy own then own else dget anchor ''block_hash'') j = (Inr ctx, j')
     \<and> in_active_chain ctx \<and> confirmations_of tx = Inr confs \<and> 0 < confs)"

lemma check_output_run:
  assumes "check_output R payload known tx_id p tx vout n = (Inr x, n')" "reports_verified x"
  shows "p = payload \<and> (\<exists>own confs ctx j j'. dict_get tx ''blockhash'' JNull = Inr own
     \<and> rpc_block_context R (if truthy own then own else known) j = (Inr ctx, j')
     \<and> in_active_chain ctx \<and> confirmations_of tx = Inr confs \<and> 0 < confs)"
proof -
  from assms(1) obtain own ctx n1 confs where parts: "dict_get tx ''blockhash'' JNull = Inr own"
    "context_in R (if truthy own then own else known) n = (Inr ctx, n1)" "confirmations_of tx = Inr confs"
    and x: "x = Anchor_checked tx_id vout (p = payload \<and> 0 < confs \<and> is_active ctx) (p = payload) confs ctx payload p"
    unfolding check_output_def Let_def bindA_eq_Inr liftA_eq by (elim exE conjE) simp
  from assms(2) x obtain z where z: "ctx = Some z" "in_active_chain z" "p = payload" "0 < confs"
    by (auto simp: is_active_def split: option.splits)
  with parts(2) have "rpc_block_context R (if truthy own then own else known) n = (Inr z, n1)"
    by (auto simp: context_in_def bindA_eq_Inr liftA_eq split: if_splits)
  with parts(1,3) z show ?thesis by blast
qed

lemma check_anchor_evidence:
  assumes "check_anchor R payload anchor n = (Inr x, n')" "reports_verified x"
  shows "bitcoin_evidence R payload anchor"
proof -
  from assms(1) obtain v where v: "dict_get anchor ''txid'' JNull = Inr v"
    unfolding check_anchor_def bindA_eq_Inr liftA_eq by blast
  then have txid: "dget anchor ''txid'' = v"
    by (auto simp: dict_get_eq_Inr assoc_get_def split: option.splits)
  with assms v obtain found n1 where found: "find_payload R v (dget anchor ''block_hash'')
      (Some payload) (opt_number (dget anchor ''vout'')) n = (Inr found, n1)"
    and rest: "(case found of None \<Rightarrow> liftA (Inr (Payload_not_found (text_of v)))
      | Some (p, tx, vout) \<Rightarrow> check_output R payload (dget anchor ''block_hash'') (text_of v) p tx vout) n1 = (Inr x, n')"
    unfolding check_anchor_def bindA_eq_Inr liftA_eq Let_def
    by (auto split: if_splits simp: bindA_eq_Inr liftA_eq simp del: dict_get_eq_Inr)
  show ?thesis
  proof (cases found)
    case None
    with rest assms(2) show ?thesis by (auto simp: liftA_def)
  next
    case (Some y)
    obtain p tx vout where y: "y = (p, tx, vout)" by (cases y)
    with rest Some have "check_output R payload (dget anchor ''block_hash'') (text_of v) p tx vout n1 = (Inr x, n')"
      by simp
    from check_output_run [OF this assms(2)] found Some y txid show ?thesis
      unfolding bitcoin_evidence_def by blast
  qed
qed

lemma check_anchors_evidence:
  "check_anchors R payload anchors n = (xs, n') \<Longrightarrow> x \<in> set xs \<Longrightarrow> reports_verified x \<Longrightarrow>
   \<exists>a \<in> set anchors. bitcoin_evidence R payload a"
proof (induction anchors arbitrary: n xs n')
  case (Cons a anchors)
  obtain r n1 where run: "check_anchor R payload a n = (r, n1)" by force
  show ?case
  proof (cases r)
    case (Inl e)
    with Cons.prems run show ?thesis by auto
  next
    case (Inr y)
    obtain ys n2 where ys: "check_anchors R payload anchors n1 = (ys, n2)" by force
    with Cons.prems(1) run Inr have "xs = y # ys" by simp
    with Cons.prems(2,3) Cons.IH [OF ys] check_anchor_evidence [OF run [unfolded Inr]] show ?thesis by auto
  qed
qed simp

text \<open>An anchor of a proof that the chain backs: its manifest is valid, and the payload that it commits to
  is the one found.\<close>

definition backed_by_bitcoin :: "env \<Rightarrow> rpc \<Rightarrow> json \<Rightarrow> bool" where
  "backed_by_bitcoin E R p \<longleftrightarrow> validate_batch E (dget p ''batch'') = Inr ()
     \<and> (\<exists>a \<in> set (list_field p ''anchors''). bitcoin_evidence R (text_of (dget (dget p ''batch'') ''payload_hex'')) a)"

lemma check_proofs_evidence:
  assumes "\<forall>p \<in> set ps. \<exists>as. dget p ''anchors'' = JList as"
  shows "check_proofs E R ps n = (xs, n') \<Longrightarrow> x \<in> set xs \<Longrightarrow> reports_verified x \<Longrightarrow>
    \<exists>p \<in> set ps. backed_by_bitcoin E R p"
  using assms
proof (induction ps arbitrary: n xs n')
  case (Cons p ps)
  obtain r n1 where run: "anchors_of_proof E R p n = (r, n1)" by force
  obtain ys n2 where ys: "(case (r, n1) of (Inl e, n') \<Rightarrow> ([Check_failed e], n')
       | (Inr (payload, anchors), n') \<Rightarrow> check_anchors R payload anchors n') = (ys, n2)" by force
  obtain zs n3 where zs: "check_proofs E R ps n2 = (zs, n3)" by force
  have "xs = ys @ zs" using Cons.prems(1) run ys zs by simp
  with Cons.prems(2) consider "x \<in> set ys" | "x \<in> set zs" by auto
  then show ?case
  proof cases
    case 1
    with ys Cons.prems(3) obtain payload anchors where r: "r = Inr (payload, anchors)"
      and as: "check_anchors R payload anchors n1 = (ys, n2)"
      by (auto split: sum.splits prod.splits)
    from Cons.prems(4) obtain js where "dget p ''anchors'' = JList js" by auto
    with run r have "validate_batch E (dget p ''batch'') = Inr ()" "anchors = list_field p ''anchors''"
      "payload = text_of (dget (dget p ''batch'') ''payload_hex'')"
      by (auto simp: anchors_of_proof_def Let_def bindA_eq_Inr liftA_eq result_simps iterE_def py_iter_def
          list_field_def assoc_get_def split: if_splits option.splits)
    with check_anchors_evidence [OF as 1 Cons.prems(3)] show ?thesis by (auto simp: backed_by_bitcoin_def)
  next
    case 2
    with Cons.IH [OF zs] Cons.prems(3,4) show ?thesis by auto
  qed
qed simp

lemma verified_against_bitcoin:
  assumes "verify_proof_bundle_against_bitcoin E R b n = (Inr rep, n')" "bi_any_verified rep"
  shows "\<exists>p \<in> set (list_field b ''proofs''). backed_by_bitcoin E R p"
proof -
  from assms(1) have shape: "validate_proof_bundle_shape E b = Inr ()"
    unfolding verify_proof_bundle_against_bitcoin_def bindA_eq_Inr liftA_eq by auto
  from assms(1) obtain n1 xs n2 where xs: "check_proofs E R (list_field b ''proofs'') n1 = (xs, n2)" "bi_results rep = xs"
    "bi_any_verified rep = list_ex reports_verified xs"
    unfolding verify_proof_bundle_against_bitcoin_def bindA_eq_Inr liftA_eq
    by (auto split: prod.splits)
  have "\<forall>p \<in> set (list_field b ''proofs''). \<exists>as. dget p ''anchors'' = JList as"
    using shape by (fastforce simp: validate_proof_bundle_eq_Inr list_field_def dest: validate_bundle_proof_facts(5))
  from check_proofs_evidence [OF this xs(1)] assms(2) xs(3) show ?thesis by (auto simp: list_ex_iff)
qed

section \<open>What a valid report means\<close>

lemma verify_package_valid:
  assumes "verify_package E r (Some p) = Inr rep" "pr_valid rep"
  shows "validate_record E r = Inr ()" "validate_batch E (dget p ''batch'') = Inr ()"
    "\<exists>path. dict_get p ''path'' (JList []) = Inr path
       \<and> verify_merkle_proof (sha256 E) (dget r ''record_id'') path (dget (dget p ''batch'') ''merkle_root'')"
proof -
  from assms(1) obtain sig same err batch where c: "check_record E r = Inr (sig, same, err)"
    and dict: "dict_get p ''batch'' JNull = Inr batch"
    unfolding verify_package_def by (auto simp: bindE_eq_Inr simp del: dict_get_eq_Inr)
  have "sig \<and> same \<and> check_proof E r p batch = Inr (True, True)"
  proof (cases "check_proof E r p batch")
    case (Inl e)
    with assms c dict show ?thesis by (auto simp: verify_package_def List.map_filter_simps)
  next
    case (Inr y)
    with assms c dict show ?thesis by (cases y) (auto simp: verify_package_def List.map_filter_simps)
  qed
  then have chk: "check_record E r = Inr (True, True, err)" and checked: "check_proof E r p batch = Inr (True, True)"
    using c by simp_all
  from chk show rec: "validate_record E r = Inr ()"
    by (auto simp: check_record_def bindE_eq_Inr split: sum.splits if_splits)
  have batch: "batch = dget p ''batch''" using dict
    by (auto simp: dict_get_eq_Inr assoc_get_def split: option.splits)
  from checked show "validate_batch E (dget p ''batch'') = Inr ()"
    by (auto simp: check_proof_def result_simps batch)
  from checked obtain rid path where v: "dict_get r ''record_id'' (JStr []) = Inr rid" "dict_get p ''path'' (JList []) = Inr path"
    "verify_merkle_proof (sha256 E) rid path (dget batch ''merkle_root'')"
    by (auto simp: check_proof_def bindE_eq_Inr if_raise_eq_Inr simp del: dict_get_eq_Inr)
  have "rid = dget r ''record_id''"
    using v(1) rec by (auto simp: dict_get_eq_Inr assoc_get_def validate_record_eq_Inr split: option.splits
        dest!: validate_signature_facts(1))
  with v batch show "\<exists>path. dict_get p ''path'' (JList []) = Inr path
       \<and> verify_merkle_proof (sha256 E) (dget r ''record_id'') path (dget (dget p ''batch'') ''merkle_root'')"
    by blast
qed

text \<open>Membership is checked against the root alone: a batch that lists the hash of two other values as its
  only record identifier yields a valid report for the records behind them.\<close>

lemma unlisted_record_accepted:
  assumes E: "digests_32 E" and r: "validate_record E r = Inr ()" "rid_of r = bytes_hex x"
    and batch: "validate_batch E b = Inr ()" "record_ids_of b = [bytes_hex (sha256 E (x @ sib))]"
    and len: "length x = 32" "length sib = 32"
  shows "\<exists>rep. verify_package E r (Some (obj [(''batch'', b),
      (''path'', JList [step_as_dict \<lparr>sibling = bytes_hex sib, side = ''right''\<rparr>])])) = Inr rep \<and> pr_valid rep"
proof (rule verify_package_of_proof [OF r batch(1)])
  from batch(2) validate_batch_ids(8) [OF batch(1)]
  obtain root where root: "merkle_root (sha256 E) [bytes_hex (sha256 E (x @ sib))] = Inr root" "dget b ''merkle_root'' = JStr root"
    by auto
  moreover have "leaf (bytes_hex (sha256 E (x @ sib))) = Inr (sha256 E (x @ sib))"
    using E by (simp add: leaf_def digests_32_def)
  ultimately have "root = bytes_hex (sha256 E (x @ sib))"
    by (simp add: merkle_root_def fold_levels_stop)
  then show "verify_merkle_proof (sha256 E) (JStr (bytes_hex x))
      (JList [step_as_dict \<lparr>sibling = bytes_hex sib, side = ''right''\<rparr>]) (dget b ''merkle_root'')"
    using len root(2) by (simp add: verify_merkle_proof_def py_iter_def)
qed simp_all

end
