(* ===== verification/Views.thy ===== *)
theory Views
  imports Packages "HOL-Library.Multiset"
begin

text \<open>
  The pure functions that summarise a stored record: \<^verbatim>\<open>src/hap/assessment.py\<close>,
  \<^verbatim>\<open>src/hap/provenance.py\<close> and \<^verbatim>\<open>src/hap/responsible.py\<close>.

  They are applied to records that the index stores, which are valid: the identifier, the kind,
  the author and the texts are strings. The lists are read with \<open>record.get(field, [])\<close>, and
  the schema allows them to be null, for which iterating raises; that is a branch of the model.
  Of the dictionaries that the functions return, the model keeps the entries that vary.
\<close>

section \<open>Reading a stored record\<close>

definition kind_of :: "json \<Rightarrow> ustr" where "kind_of r = text_of (dget r ''kind'')"
definition author_of :: "json \<Rightarrow> ustr" where "author_of r = text_of (dget r ''author_id'')"

definition has_kind :: "string \<Rightarrow> json \<Rightarrow> bool" where
  "has_kind k r \<longleftrightarrow> kind_of r = str k"

text \<open>\<open>for x in record.get(field, [])\<close>, and \<open>set(record.get(field, []))\<close>.\<close>

definition get_list :: "json \<Rightarrow> string \<Rightarrow> json list result" where
  "get_list r f = bindE (dict_get r f (JList [])) iterE"

definition hashable :: "json \<Rightarrow> bool" where
  "hashable v = (case v of JList _ \<Rightarrow> False | JDict _ \<Rightarrow> False | _ \<Rightarrow> True)"

definition get_set :: "json \<Rightarrow> string \<Rightarrow> json list result" where
  "get_set r f = bindE (get_list r f) (\<lambda>xs.
     if list_all hashable xs then Inr xs else Inl (Exn TypeError ''unhashable type''))"

text \<open>\<open>sorted(set(...))\<close> on strings.\<close>

definition sorted_set :: "ustr list \<Rightarrow> ustr list" where
  "sorted_set xs = sort (remdups xs)"

lemma set_sorted_set [simp]: "set (sorted_set xs) = set xs"
  by (simp add: sorted_set_def)

lemma sorted_set_eqI: "set xs = set ys \<Longrightarrow> sorted_set xs = sorted_set ys"
  unfolding sorted_set_def
  by (rule sorted_distinct_set_unique) auto

lemma get_list_null: "dget r f = JNull \<Longrightarrow> has_fields r fs \<Longrightarrow> f \<in> set fs \<Longrightarrow>
    get_list r f = Inl (Exn TypeError ''object is not iterable'')"
proof -
  assume a: "dget r f = JNull" "has_fields r fs" "f \<in> set fs"
  obtain d where d: "r = JDict d" using a(2) by (cases r) auto
  have "KStr (str f) \<in> set (map fst d)" using a(2,3) d by simp
  then obtain v where "map_of d (KStr (str f)) = Some v"
    by (metis map_of_eq_None_iff not_None_eq set_map)
  with a(1) d have "dict_get r f (JList []) = Inr JNull"
    by (simp add: dict_get_def assoc_get_def)
  then show ?thesis by (simp add: get_list_def iterE_def py_iter_def)
qed

lemma get_list_list: "dget r f = JList xs \<Longrightarrow> is_dict r \<Longrightarrow> get_list r f = Inr xs"
  by (cases r) (auto simp: get_list_def dict_get_def assoc_get_def iterE_def py_iter_def is_dict_def
      split: option.splits)

section \<open>Assessment\<close>

record assessment =
  as_record_id :: ustr
  as_classification :: string
  as_anchored :: bool
  as_evidence_committed :: nat
  as_verified_evidence :: "ustr list"
  as_attestations :: nat
  as_attesters :: "ustr list"
  as_disputes :: nat
  as_corrections :: nat

definition sha_of :: "json \<Rightarrow> ustr" where
  "sha_of item = text_of (dget item ''sha256'')"

definition assess_record :: "json \<Rightarrow> json list \<Rightarrow> ustr set \<Rightarrow> ustr set \<Rightarrow> assessment result" where
  "assess_record r linked anchored_ids available =
     (let anchored = (rid_of r \<in> anchored_ids);
          links = filter (\<lambda>i. rid_of i \<in> anchored_ids) linked;
          attestations = filter (has_kind ''attestation'') links;
          disputes = filter (has_kind ''dispute'') links;
          corrections = filter (has_kind ''correction'') links;
          attesters = sorted_set (map author_of (filter (\<lambda>i. author_of i \<noteq> author_of r) attestations))
      in bindE (get_list r ''evidence'') (\<lambda>evidence.
         let verified = sorted_set (map sha_of (filter (\<lambda>i. sha_of i \<in> available) evidence));
             classification =
               (if \<not> anchored then ''unpublished''
                else if disputes \<noteq> [] then ''contested''
                else if corrections \<noteq> [] then ''corrected''
                else if 2 \<le> length attesters then ''multi-attested''
                else if length attesters = 1 then ''attested''
                else ''bitcoin-anchored-claim'')
         in Inr \<lparr>as_record_id = rid_of r, as_classification = classification, as_anchored = anchored,
              as_evidence_committed = length evidence, as_verified_evidence = verified,
              as_attestations = length attestations, as_attesters = attesters,
              as_disputes = length disputes, as_corrections = length corrections\<rparr>))"

lemma filter_anchored: "filter (\<lambda>i. rid_of i \<in> A) (filter (\<lambda>i. rid_of i \<in> A) xs) = filter (\<lambda>i. rid_of i \<in> A) xs"
  by simp

text \<open>Only anchored links count, and only as a multiset.\<close>

lemma assess_record_anchored_links:
  "assess_record r linked A avail = assess_record r (filter (\<lambda>i. rid_of i \<in> A) linked) A avail"
  by (simp add: assess_record_def)

lemma assess_record_mset:
  assumes "mset linked = mset linked'"
  shows "assess_record r linked A avail = assess_record r linked' A avail"
proof -
  have "mset (filter P linked) = mset (filter P linked')" for P
    using assms by (simp add: mset_filter)
  then have len: "length (filter P linked) = length (filter P linked')" for P
    by (metis size_mset)
  then have nil: "(filter P linked = []) = (filter P linked' = [])" for P
    by (metis length_0_conv)
  have att: "sorted_set (map author_of (filter P linked)) = sorted_set (map author_of (filter P linked'))" for P
    using mset_eq_setD [OF assms] by (intro sorted_set_eqI) auto
  show ?thesis
    unfolding assess_record_def filter_filter Let_def
    by (simp only: len [of "\<lambda>x. rid_of x \<in> A \<and> has_kind _ x"] nil att)
qed

section \<open>Provenance\<close>

definition RULESET_PREFIX :: ustr where "RULESET_PREFIX = str ''hap:analysis-ruleset:''"
definition CONFIDENCE_PREFIX :: ustr where "CONFIDENCE_PREFIX = str ''hap:analysis-confidence:''"

definition prefixed :: "ustr \<Rightarrow> json \<Rightarrow> bool" where
  "prefixed p tag = (case tag of JStr s \<Rightarrow> starts_with s p | _ \<Rightarrow> False)"

definition ruleset :: "json \<Rightarrow> ustr option result" where
  "ruleset r = bindE (get_list r ''tags'') (\<lambda>tags. Inr (case find (prefixed RULESET_PREFIX) tags of
     None \<Rightarrow> None
   | Some tag \<Rightarrow> let v = remove_prefix (text_of tag) RULESET_PREFIX in if v = [] then None else Some v))"

definition confidence :: "json \<Rightarrow> int option result" where
  "confidence r = bindE (get_list r ''tags'') (\<lambda>tags. Inr (case find (prefixed CONFIDENCE_PREFIX) tags of
     None \<Rightarrow> None
   | Some tag \<Rightarrow> (case int_of_str (remove_prefix (text_of tag) CONFIDENCE_PREFIX) of
        Inl _ \<Rightarrow> None
      | Inr v \<Rightarrow> if 0 \<le> v \<and> v \<le> 100 then Some v else None)))"

record source_declaration =
  de_uri :: json
  de_label :: json

record overlay =
  ov_record_id :: ustr
  ov_author_id :: ustr
  ov_anchored :: bool
  ov_ruleset :: ustr
  ov_confidence :: "int option"
  ov_statement :: ustr
  ov_related :: "ustr list"

record provenance =
  pv_record_id :: ustr
  pv_author_id :: ustr
  pv_anchored :: bool
  pv_target :: json
  pv_evidence :: "ustr list"
  pv_matches :: "(ustr \<times> ustr list) list"
  pv_declarations :: "source_declaration list"
  pv_overlays :: "overlay list"

text \<open>\<open>any(item.get("sha256") == digest for item in candidate.get("evidence", []))\<close>: evaluated only
  for the other records.\<close>

definition has_evidence :: "ustr \<Rightarrow> json \<Rightarrow> bool result" where
  "has_evidence digest candidate = bindE (get_list candidate ''evidence'') (\<lambda>items.
     Inr (list_ex (\<lambda>i. dget i ''sha256'' = JStr digest) items))"

fun matching_records :: "ustr \<Rightarrow> ustr \<Rightarrow> json list \<Rightarrow> ustr list result" where
  "matching_records rid digest [] = Inr []"
| "matching_records rid digest (c # cs) =
     (if rid_of c = rid then matching_records rid digest cs
      else bindE (has_evidence digest c) (\<lambda>m.
        bindE (matching_records rid digest cs) (\<lambda>ms. Inr (if m then rid_of c # ms else ms))))"

definition provenance_overlay :: "ustr set \<Rightarrow> json \<Rightarrow> overlay result" where
  "provenance_overlay anchored_ids item =
     bindE (ruleset item) (\<lambda>rs. bindE (confidence item) (\<lambda>conf.
     bindE (get_list item ''sources'') (\<lambda>sources.
     Inr \<lparr>ov_record_id = rid_of item, ov_author_id = author_of item,
          ov_anchored = (rid_of item \<in> anchored_ids),
          ov_ruleset = (case rs of None \<Rightarrow> str ''unspecified'' | Some v \<Rightarrow> v), ov_confidence = conf,
          ov_statement = text_of (dget item ''statement''),
          ov_related = filter (\<lambda>u. starts_with u (str ''hap:record:''))
            (map (\<lambda>s. text_of (dget s ''uri'')) sources)\<rparr>)))"

definition build_provenance_graph :: "json \<Rightarrow> json list \<Rightarrow> json list \<Rightarrow> ustr set \<Rightarrow> provenance result" where
  "build_provenance_graph r all_records linked anchored_ids =
     bindE (get_list r ''evidence'') (\<lambda>evidence.
     let digests = sorted_set (map sha_of evidence) in
     bindE (mapE (\<lambda>d. bindE (matching_records (rid_of r) d all_records)
       (\<lambda>ms. Inr (d, sorted_set ms))) digests) (\<lambda>matches.
     bindE (get_list r ''sources'') (\<lambda>sources.
     bindE (mapE (provenance_overlay anchored_ids)
       (filter (has_kind ''provenance_assertion'') linked)) (\<lambda>overlays.
     Inr \<lparr>pv_record_id = rid_of r, pv_author_id = author_of r, pv_anchored = (rid_of r \<in> anchored_ids),
          pv_target = dget r ''target_record_id'', pv_evidence = digests, pv_matches = matches,
          pv_declarations = map (\<lambda>s. \<lparr>de_uri = dget s ''uri'', de_label = dget s ''label''\<rparr>) sources,
          pv_overlays = overlays\<rparr>))))"

text \<open>An exact match is another record that commits to the same digest, and every such record is
  listed once, whatever the order of the index.\<close>

lemma matching_records_spec:
  "matching_records rid digest cs = Inr ms \<Longrightarrow>
   set ms = {rid_of c | c. c \<in> set cs \<and> rid_of c \<noteq> rid \<and> has_evidence digest c = Inr True}"
proof (induction cs arbitrary: ms)
  case (Cons c cs)
  show ?case
  proof (cases "rid_of c = rid")
    case True
    with Cons show ?thesis by auto
  next
    case False
    with Cons.prems obtain m ms' where m: "has_evidence digest c = Inr m"
      "matching_records rid digest cs = Inr ms'" "ms = (if m then rid_of c # ms' else ms')"
      by (auto simp: bindE_eq_Inr)
    from Cons.IH [OF m(2)] m(1,3) False show ?thesis by auto
  qed
qed simp

lemma provenance_matches:
  assumes "build_provenance_graph r cs linked A = Inr g"
  shows "map fst (pv_matches g) = pv_evidence g"
    "(d, ms) \<in> set (pv_matches g) \<Longrightarrow> sorted ms \<and> distinct ms \<and>
       set ms = {rid_of c | c. c \<in> set cs \<and> rid_of c \<noteq> rid_of r \<and> has_evidence d c = Inr True}"
proof -
  from assms obtain evidence matches where g: "pv_evidence g = sorted_set (map sha_of evidence)"
    "pv_matches g = matches"
    "mapE (\<lambda>d. bindE (matching_records (rid_of r) d cs) (\<lambda>ms. Inr (d, sorted_set ms)))
       (sorted_set (map sha_of evidence)) = Inr matches"
    by (auto simp: build_provenance_graph_def bindE_eq_Inr Let_def)
  then have all2: "list_all2 (\<lambda>d m. bindE (matching_records (rid_of r) d cs) (\<lambda>ms. Inr (d, sorted_set ms)) = Inr m)
      (sorted_set (map sha_of evidence)) matches"
    by (simp add: mapE_eq_Inr)
  then have "map fst matches = sorted_set (map sha_of evidence)"
    by (induction rule: list_all2_induct) (auto simp: bindE_eq_Inr)
  with g show "map fst (pv_matches g) = pv_evidence g" by simp
  have "\<exists>ms0. matching_records (rid_of r) d cs = Inr ms0 \<and> ms = sorted_set ms0"
    if "(d, ms) \<in> set matches"
    using all2 that by (induction rule: list_all2_induct) (auto simp: bindE_eq_Inr)
  with g(2) show "(d, ms) \<in> set (pv_matches g) \<Longrightarrow> sorted ms \<and> distinct ms \<and>
       set ms = {rid_of c | c. c \<in> set cs \<and> rid_of c \<noteq> rid_of r \<and> has_evidence d c = Inr True}"
    using matching_records_spec [of "rid_of r" d cs] by (auto simp: sorted_set_def)
qed

end
