(* ===== verification/Responsible.thy ===== *)
theory Responsible
  imports Views
begin

text \<open>
  \<^verbatim>\<open>src/hap/responsible.py\<close>: the reference responsible-publication profile. \<open>declared_person_impact\<close>
  and \<open>validate_responsible_record\<close> judge a record; \<open>assess_responsible_publication\<close> decides whether
  a record is listed in the reference feed from the record, the records linked to it, the set of
  anchored identifiers, the heights of their anchors and the height of the chain.

  The dictionaries that the function returns are records here; the entries that are the same
  constants in every result are left out.
\<close>

section \<open>Constants\<close>

definition PERSON_IMPACT_PREFIX :: ustr where "PERSON_IMPACT_PREFIX = str ''hap:person-impact:''"

definition PERSON_IMPACT_VALUES :: "string list" where
  "PERSON_IMPACT_VALUES = [''none'', ''direct'', ''indirect-or-mosaic'', ''uncertain'']"

definition VIEW_ENABLE_TAG :: string where "VIEW_ENABLE_TAG = ''hap:view:enable-discovery''"
definition VIEW_RESTRICT_TAG :: string where "VIEW_RESTRICT_TAG = ''hap:view:restrict-discovery''"

definition CONTEXT_KINDS :: "string list" where
  "CONTEXT_KINDS = [''subject_response'', ''person_impact_notice'', ''restriction_notice'',
     ''withdrawal_notice'', ''legal_adjudication'', ''public_interest_justification'',
     ''view_decision'', ''dispute'', ''correction'', ''attestation'']"

section \<open>Declarations\<close>

definition impact_values :: "json list \<Rightarrow> string list" where
  "impact_values tags = filter (\<lambda>v. JStr (PERSON_IMPACT_PREFIX @ str v) \<in> set tags) PERSON_IMPACT_VALUES"

definition declared_person_impact :: "json \<Rightarrow> string option result" where
  "declared_person_impact r = bindE (get_list r ''tags'') (\<lambda>tags.
     Inr (let vs = impact_values tags in
       if 1 < length vs then Some ''uncertain'' else if vs = [] then None else Some (hd vs)))"

definition responsible_error :: "string \<Rightarrow> 'a result" where
  "responsible_error m = Inl (Exn ResponsibleProfileError m)"

definition validate_responsible_record :: "json \<Rightarrow> unit result" where
  "validate_responsible_record r =
     bindE (dict_get r ''kind'' JNull) (\<lambda>kind.
     bindE (get_set r ''tags'') (\<lambda>tags.
     bindE (declared_person_impact r) (\<lambda>impact.
     let actions = filter (\<lambda>t. JStr (str t) \<in> set tags) [VIEW_ENABLE_TAG, VIEW_RESTRICT_TAG] in
     if kind = JStr (str ''claim'') \<and> impact = None
     then responsible_error ''responsible-profile relays require one person-impact declaration: none, direct, indirect-or-mosaic, or uncertain''
     else if kind = JStr (str ''person_impact_notice'')
       \<and> impact \<notin> {Some ''direct'', Some ''indirect-or-mosaic'', Some ''uncertain''}
     then responsible_error ''person_impact_notice requires a non-none person-impact tag''
     else if kind = JStr (str ''view_decision'')
     then (if length actions \<noteq> 1
       then responsible_error ''view_decision requires exactly one view action tag'' else Inr ())
     else if actions \<noteq> []
     then responsible_error ''view action tags are reserved for view_decision records''
     else Inr ())))"

section \<open>Results\<close>

record summary =
  su_record_id :: ustr
  su_kind :: ustr
  su_author_id :: ustr
  su_title :: json
  su_statement :: json
  su_created_at :: json
  su_anchored :: bool
  su_tags :: json

definition record_summary :: "ustr set \<Rightarrow> json \<Rightarrow> summary" where
  "record_summary anchored_ids r =
     \<lparr>su_record_id = rid_of r, su_kind = kind_of r, su_author_id = author_of r,
      su_title = dget r ''title'', su_statement = dget r ''statement'',
      su_created_at = dget r ''created_at'', su_anchored = (rid_of r \<in> anchored_ids),
      su_tags = dget r ''tags''\<rparr>"

record evaluation =
  ev_summary :: summary
  ev_action :: string
  ev_accountable :: bool
  ev_eligible :: bool

record responsible_view =
  rv_record_id :: ustr
  rv_declared :: string
  rv_protective :: bool
  rv_reasons :: "string list"
  rv_cooling_required :: int
  rv_original_height :: "int option"
  rv_chain_height :: "int option"
  rv_blocks_elapsed :: "int option"
  rv_cooling_complete :: bool
  rv_window_required :: int
  rv_first_notice :: "int option"
  rv_window_ends :: "int option"
  rv_window_active :: bool
  rv_flags :: "string list"
  rv_state :: string
  rv_listed :: bool
  rv_context :: "(string \<times> summary list) list"
  rv_decisions :: "evaluation list"

section \<open>The steps of the assessment\<close>

text \<open>The heights of the anchored notices and restrictions, sorted.\<close>

definition notice_heights :: "json list \<Rightarrow> ustr set \<Rightarrow> (ustr \<times> int) list \<Rightarrow> int list" where
  "notice_heights items anchored_ids heights = sort (List.map_filter
     (\<lambda>i. if rid_of i \<in> anchored_ids then map_of heights (rid_of i) else None) items)"

text \<open>The end of the challenge window and whether it is active.\<close>

definition challenge_window :: "int list \<Rightarrow> int option \<Rightarrow> int \<Rightarrow> int option \<times> bool" where
  "challenge_window hs chain_height blocks = (case chain_height of
     Some c \<Rightarrow> if hs \<noteq> [] then (let ends = hd hs + max 0 blocks in (Some ends, c < ends)) else (None, False)
   | None \<Rightarrow> (None, False))"

definition cooling :: "int option \<Rightarrow> int option \<Rightarrow> int \<Rightarrow> int option \<times> bool" where
  "cooling chain_height original_height blocks = (case (chain_height, original_height) of
     (Some c, Some h) \<Rightarrow> (let elapsed = max 0 (c - h) in (Some elapsed, max 0 blocks \<le> elapsed))
   | _ \<Rightarrow> (None, False))"

definition decision_action :: "json list \<Rightarrow> string" where
  "decision_action tags =
     (if JStr (str VIEW_ENABLE_TAG) \<in> set tags then ''enable-discovery''
      else if JStr (str VIEW_RESTRICT_TAG) \<in> set tags then ''restrict-discovery'' else ''invalid'')"

text \<open>The loop over the decisions: the accepted enabling one, the accepted restricting one and the
  evaluations.\<close>

fun decisions_loop :: "ustr set \<Rightarrow> ustr set \<Rightarrow> bool \<Rightarrow> json list \<Rightarrow> evaluation option \<Rightarrow> evaluation option
    \<Rightarrow> evaluation list \<Rightarrow> (evaluation option \<times> evaluation option \<times> evaluation list) result" where
  "decisions_loop anchored_ids recognised cooled [] enable restrict evs = Inr (enable, restrict, evs)"
| "decisions_loop anchored_ids recognised cooled (d # ds) enable restrict evs =
     bindE (get_set d ''tags'') (\<lambda>tags.
     let action = decision_action tags;
         accountable = (author_of d \<in> recognised);
         eligible = (rid_of d \<in> anchored_ids \<and> accountable);
         ev = \<lparr>ev_summary = record_summary anchored_ids d, ev_action = action,
               ev_accountable = accountable, ev_eligible = eligible\<rparr>
     in decisions_loop anchored_ids recognised cooled ds
          (if eligible \<and> action = ''enable-discovery'' \<and> cooled then Some ev else enable)
          (if eligible \<and> action = ''restrict-discovery'' then Some ev else restrict)
          (evs @ [ev]))"

definition publication_state :: "bool \<Rightarrow> bool \<Rightarrow> string option \<Rightarrow> string" where
  "publication_state published protected impact =
     (if \<not> published then ''unpublished''
      else if \<not> protected \<and> impact = Some ''none'' then ''discoverable''
      else if \<not> protected then ''discoverable-by-accountable-decision''
      else ''protected'')"

text \<open>The linked records of a kind, among those of a context kind.\<close>

definition of_kind :: "json list \<Rightarrow> string \<Rightarrow> json list" where
  "of_kind linked k =
     (let context = filter (\<lambda>i. list_ex (\<lambda>k. has_kind k i) CONTEXT_KINDS) linked
      in filter (has_kind k) context)"

definition recognised_restrictions :: "json list \<Rightarrow> ustr set \<Rightarrow> ustr set \<Rightarrow> json list" where
  "recognised_restrictions linked anchored_ids recognised =
     filter (\<lambda>i. rid_of i \<in> anchored_ids \<and> author_of i \<in> recognised) (of_kind linked ''restriction_notice'')"

definition protection_reasons :: "bool \<Rightarrow> string option \<Rightarrow> bool \<Rightarrow> bool \<Rightarrow> string list" where
  "protection_reasons published impact active restricted =
     (if \<not> published then [''record is not canonically published in Bitcoin''] else [])
     @ (case impact of None \<Rightarrow> [''person impact was not declared'']
        | Some v \<Rightarrow> if v \<noteq> ''none'' then [''publisher declared person impact: '' @ v] else [])
     @ (if active then [''the fixed non-renewable challenge window is active''] else [])
     @ (if restricted then [''a recognised accountable restriction notice exists''] else [])"

text \<open>Whether the record is protected, and the reasons reported.\<close>

definition protection :: "string list \<Rightarrow> bool \<Rightarrow> bool \<Rightarrow> bool \<Rightarrow> bool \<Rightarrow> bool \<times> string list" where
  "protection reasons enable restrict restricted active =
     (if restrict then (True, reasons @ [''a recognised accountable view decision restricts discovery''])
      else if reasons \<noteq> [] \<and> enable \<and> \<not> restricted \<and> \<not> active
      then (False, [''a recognised accountable view decision enabled discovery after the cooling period''])
      else (reasons \<noteq> [], reasons))"

definition review_flags :: "json list \<Rightarrow> string list" where
  "review_flags linked =
     (if of_kind linked ''person_impact_notice'' \<noteq> [] then [''one or more person-impact notices exist''] else [])
     @ (if of_kind linked ''subject_response'' \<noteq> [] then [''one or more subject responses exist''] else [])
     @ (if of_kind linked ''restriction_notice'' \<noteq> [] then [''one or more restriction notices exist''] else [])
     @ (if of_kind linked ''dispute'' \<noteq> [] then [''the record is disputed''] else [])"

definition assess_responsible_publication :: "json \<Rightarrow> json list \<Rightarrow> ustr set \<Rightarrow> (ustr \<times> int) list \<Rightarrow> int option
    \<Rightarrow> ustr set \<Rightarrow> int \<Rightarrow> int \<Rightarrow> responsible_view result" where
  "assess_responsible_publication r linked anchored_ids heights chain_height recognised cooling_blocks notice_blocks =
     bindE (declared_person_impact r) (\<lambda>impact.
     let published = (rid_of r \<in> anchored_ids);
         hs = notice_heights (of_kind linked ''person_impact_notice'' @ of_kind linked ''restriction_notice'')
                anchored_ids heights;
         (ends, active) = challenge_window hs chain_height notice_blocks;
         restricted = (recognised_restrictions linked anchored_ids recognised \<noteq> []);
         reasons = protection_reasons published impact active restricted;
         original_height = map_of heights (rid_of r);
         (elapsed, cool) = cooling chain_height original_height cooling_blocks
     in bindE (decisions_loop anchored_ids recognised cool (of_kind linked ''view_decision'') None None [])
         (\<lambda>(enable, restrict, evs).
     let (protected, reasons) = protection reasons (enable \<noteq> None) (restrict \<noteq> None) restricted active;
         state = publication_state published protected impact
     in Inr \<lparr>rv_record_id = rid_of r,
          rv_declared = (case impact of None \<Rightarrow> ''missing'' | Some v \<Rightarrow> v),
          rv_protective = (state = ''protected''), rv_reasons = reasons,
          rv_cooling_required = max 0 cooling_blocks, rv_original_height = original_height,
          rv_chain_height = chain_height, rv_blocks_elapsed = elapsed, rv_cooling_complete = cool,
          rv_window_required = max 0 notice_blocks,
          rv_first_notice = (if hs = [] then None else Some (hd hs)),
          rv_window_ends = ends, rv_window_active = active, rv_flags = review_flags linked, rv_state = state,
          rv_listed = (state \<in> {''discoverable'', ''discoverable-by-accountable-decision''}),
          rv_context = map (\<lambda>(name, k). (name, map (record_summary anchored_ids) (of_kind linked k)))
            [(''subject_responses'', ''subject_response''), (''person_impact_notices'', ''person_impact_notice''),
             (''restriction_notices'', ''restriction_notice''), (''withdrawal_notices'', ''withdrawal_notice''),
             (''legal_adjudications'', ''legal_adjudication''),
             (''public_interest_justifications'', ''public_interest_justification''),
             (''disputes'', ''dispute''), (''corrections'', ''correction'')],
          rv_decisions = evs\<rparr>))"

section \<open>What the decisions amount to\<close>

definition action_of :: "json \<Rightarrow> string" where
  "action_of d = (case get_set d ''tags'' of Inl _ \<Rightarrow> ''invalid'' | Inr tags \<Rightarrow> decision_action tags)"

text \<open>A decision that counts: anchored, by a recognised author.\<close>

definition eligible :: "ustr set \<Rightarrow> ustr set \<Rightarrow> json \<Rightarrow> bool" where
  "eligible anchored_ids recognised d \<longleftrightarrow> rid_of d \<in> anchored_ids \<and> author_of d \<in> recognised"

lemma decisions_loop_accepted:
  "decisions_loop A R cooled ds en re evs = Inr (en', re', evs') \<Longrightarrow>
     (en' \<noteq> None \<longleftrightarrow> en \<noteq> None \<or> cooled \<and> (\<exists>d \<in> set ds. eligible A R d \<and> action_of d = ''enable-discovery''))
   \<and> (re' \<noteq> None \<longleftrightarrow> re \<noteq> None \<or> (\<exists>d \<in> set ds. eligible A R d \<and> action_of d = ''restrict-discovery''))
   \<and> length evs' = length evs + length ds"
proof (induction ds arbitrary: en re evs)
  case (Cons d ds)
  from Cons.prems obtain tags where tags: "get_set d ''tags'' = Inr tags"
    by (auto simp: bindE_eq_Inr)
  then have act: "action_of d = decision_action tags" by (simp add: action_of_def)
  from Cons.IH [OF Cons.prems [simplified decisions_loop.simps tags bindE_simps Let_def]]
  show ?case using act by (auto simp: eligible_def)
qed simp

lemma of_kind_eq: "k \<in> set CONTEXT_KINDS \<Longrightarrow> of_kind linked k = filter (has_kind k) linked"
  by (auto simp: of_kind_def list_ex_iff filter_filter intro!: filter_cong)

lemma of_kind_simps:
  "of_kind linked ''view_decision'' = filter (has_kind ''view_decision'') linked"
  "of_kind linked ''person_impact_notice'' = filter (has_kind ''person_impact_notice'') linked"
  "of_kind linked ''restriction_notice'' = filter (has_kind ''restriction_notice'') linked"
  by (rule of_kind_eq, simp add: CONTEXT_KINDS_def)+

text \<open>The active challenge window, of the first anchored notice or restriction.\<close>

definition window_active :: "json list \<Rightarrow> ustr set \<Rightarrow> (ustr \<times> int) list \<Rightarrow> int option \<Rightarrow> int \<Rightarrow> bool" where
  "window_active linked anchored_ids heights chain_height blocks \<longleftrightarrow> (\<exists>c. chain_height = Some c \<and>
     (let hs = {h. \<exists>i \<in> set linked. (has_kind ''person_impact_notice'' i \<or> has_kind ''restriction_notice'' i)
                 \<and> rid_of i \<in> anchored_ids \<and> map_of heights (rid_of i) = Some h}
      in hs \<noteq> {} \<and> c < Min hs + max 0 blocks))"

definition cooled :: "json \<Rightarrow> (ustr \<times> int) list \<Rightarrow> int option \<Rightarrow> int \<Rightarrow> bool" where
  "cooled r heights chain_height blocks \<longleftrightarrow> (\<exists>c h. chain_height = Some c \<and> map_of heights (rid_of r) = Some h
     \<and> max 0 blocks \<le> max 0 (c - h))"

text \<open>What the profile promises about listing, without the order of the loop or the reasons.\<close>

definition listing_rule :: "json \<Rightarrow> string option \<Rightarrow> json list \<Rightarrow> ustr set \<Rightarrow> (ustr \<times> int) list \<Rightarrow> int option
    \<Rightarrow> ustr set \<Rightarrow> int \<Rightarrow> int \<Rightarrow> bool" where
  "listing_rule r impact linked A heights chain R cooling_blocks notice_blocks \<longleftrightarrow>
     rid_of r \<in> A
     \<and> \<not> window_active linked A heights chain notice_blocks
     \<and> \<not> (\<exists>i \<in> set linked. has_kind ''restriction_notice'' i \<and> eligible A R i)
     \<and> \<not> (\<exists>d \<in> set linked. has_kind ''view_decision'' d \<and> eligible A R d \<and> action_of d = ''restrict-discovery'')
     \<and> (impact = Some ''none''
        \<or> cooled r heights chain cooling_blocks
          \<and> (\<exists>d \<in> set linked. has_kind ''view_decision'' d \<and> eligible A R d \<and> action_of d = ''enable-discovery''))"

lemma hd_sort_Min: "xs \<noteq> [] \<Longrightarrow> hd (sort xs) = Min (set (xs :: int list))"
proof -
  assume "xs \<noteq> []"
  then obtain y ys where s: "sort xs = y # ys"
    by (metis length_0_conv length_sort list.exhaust)
  then have "set xs = insert y (set ys)" by (metis list.simps(15) set_sort)
  moreover have "\<forall>z \<in> set ys. y \<le> z" using s sorted_sort [of xs] by simp
  ultimately show ?thesis using s by (simp add: Min_insert2)
qed

lemma challenge_window_active:
  "snd (challenge_window (notice_heights (of_kind linked ''person_impact_notice''
      @ of_kind linked ''restriction_notice'') A heights) chain blocks)
   = window_active linked A heights chain blocks" (is "snd (challenge_window ?hs chain blocks) = _")
proof -
  let ?H = "{h. \<exists>i \<in> set linked. (has_kind ''person_impact_notice'' i \<or> has_kind ''restriction_notice'' i)
                 \<and> rid_of i \<in> A \<and> map_of heights (rid_of i) = Some h}"
  define xs where "xs = List.map_filter (\<lambda>i. if rid_of i \<in> A then map_of heights (rid_of i) else None)
     (of_kind linked ''person_impact_notice'' @ of_kind linked ''restriction_notice'')"
  have H: "set xs = ?H"
    by (force simp: xs_def List.map_filter_def of_kind_simps split: if_splits)
  have w: "window_active linked A heights chain blocks \<longleftrightarrow>
      (\<exists>c. chain = Some c \<and> xs \<noteq> [] \<and> c < Min (set xs) + max 0 blocks)"
    unfolding window_active_def Let_def H [symmetric] by simp
  have hs: "?hs = sort xs" by (simp add: notice_heights_def xs_def)
  have nil: "sort xs = [] \<longleftrightarrow> xs = []" by (metis length_0_conv length_sort)
  show ?thesis unfolding w hs
    by (cases chain; cases "xs = []") (simp_all add: challenge_window_def nil Let_def hd_sort_Min)
qed

lemma cooling_cooled: "snd (cooling chain (map_of heights (rid_of r)) blocks) = cooled r heights chain blocks"
  by (auto simp: cooling_def cooled_def Let_def split: option.splits)

lemma protection_reasons_Nil:
  "protection_reasons published impact active restricted = [] \<longleftrightarrow>
     published \<and> impact = Some ''none'' \<and> \<not> active \<and> \<not> restricted"
  by (auto simp: protection_reasons_def split: option.splits)

lemma recognised_restrictions_Nil:
  "recognised_restrictions linked A R = [] \<longleftrightarrow>
     \<not> (\<exists>i \<in> set linked. has_kind ''restriction_notice'' i \<and> eligible A R i)"
  by (auto simp: recognised_restrictions_def of_kind_simps filter_empty_conv eligible_def)

lemma assess_responsible_eq_Inr:
  assumes "assess_responsible_publication r linked A heights chain R cb nb = Inr v"
    and "declared_person_impact r = Inr impact"
  defines "restricted \<equiv> recognised_restrictions linked A R \<noteq> []"
    and "active \<equiv> window_active linked A heights chain nb"
  shows "\<exists>en re evs. decisions_loop A R (cooled r heights chain cb) (of_kind linked ''view_decision'') None None []
        = Inr (en, re, evs)
    \<and> rv_state v = publication_state (rid_of r \<in> A) (fst (protection
        (protection_reasons (rid_of r \<in> A) impact active restricted) (en \<noteq> None) (re \<noteq> None) restricted active)) impact
    \<and> rv_listed v = (rv_state v \<in> {''discoverable'', ''discoverable-by-accountable-decision''})
    \<and> rv_record_id v = rid_of r \<and> rv_window_active v = active"
proof -
  have cool: "snd (cooling chain (map_of heights (rid_of r)) cb) = cooled r heights chain cb" by (rule cooling_cooled)
  obtain x where x:
    "decisions_loop A R (cooled r heights chain cb) (of_kind linked ''view_decision'') None None [] = Inr x"
    using assms(1,2) unfolding assess_responsible_publication_def Let_def case_prod_unfold cool
    by (cases "decisions_loop A R (cooled r heights chain cb) (of_kind linked ''view_decision'') None None []")
      simp_all
  obtain en re evs where xs: "x = (en, re, evs)" by (cases x)
  from assms(1) have
    "rv_state v = publication_state (rid_of r \<in> A) (fst (protection
        (protection_reasons (rid_of r \<in> A) impact active restricted) (en \<noteq> None) (re \<noteq> None) restricted active)) impact
    \<and> rv_listed v = (rv_state v \<in> {''discoverable'', ''discoverable-by-accountable-decision''})
    \<and> rv_record_id v = rid_of r \<and> rv_window_active v = active"
    unfolding assess_responsible_publication_def Let_def case_prod_unfold cool restricted_def active_def
      challenge_window_active assms(2) x xs bindE_simps fst_conv snd_conv sum.inject
    by (drule_tac sym) (simp only: responsible_view.simps simp_thms)
  with x xs show ?thesis by blast
qed

lemma responsible_listed_iff:
  assumes "assess_responsible_publication r linked A heights chain R cb nb = Inr v"
    and "declared_person_impact r = Inr impact"
  shows "rv_listed v \<longleftrightarrow> listing_rule r impact linked A heights chain R cb nb"
proof -
  define restricted where "restricted = (recognised_restrictions linked A R \<noteq> [])"
  define active where "active = window_active linked A heights chain nb"
  from assess_responsible_eq_Inr [OF assms] obtain en re evs
    where loop: "decisions_loop A R (cooled r heights chain cb) (of_kind linked ''view_decision'') None None []
        = Inr (en, re, evs)"
    and v: "rv_listed v = (publication_state (rid_of r \<in> A)
       (fst (protection (protection_reasons (rid_of r \<in> A) impact active restricted) (en \<noteq> None) (re \<noteq> None)
          restricted active)) impact \<in> {''discoverable'', ''discoverable-by-accountable-decision''})"
    unfolding restricted_def active_def by metis
  have "rv_listed v \<longleftrightarrow> rid_of r \<in> A \<and> re = None \<and> \<not> restricted \<and> \<not> active \<and> (impact = Some ''none'' \<or> en \<noteq> None)"
    unfolding v by (auto simp add: publication_state_def protection_def protection_reasons_Nil)
  then show ?thesis
    using decisions_loop_accepted [OF loop]
    by (auto simp: listing_rule_def restricted_def active_def recognised_restrictions_Nil of_kind_simps)
qed

text \<open>A notice or restriction no earlier than the first one does not extend the window.\<close>

lemma window_not_extended:
  assumes "window_active (i # linked) A heights chain nb"
    and "j \<in> set linked" "has_kind ''person_impact_notice'' j \<or> has_kind ''restriction_notice'' j" "rid_of j \<in> A"
    and "map_of heights (rid_of j) = Some h0" "\<And>h. map_of heights (rid_of i) = Some h \<Longrightarrow> h0 \<le> h"
  shows "window_active linked A heights chain nb"
proof -
  let ?H = "\<lambda>l. {h. \<exists>i \<in> set l. (has_kind ''person_impact_notice'' i \<or> has_kind ''restriction_notice'' i)
                 \<and> rid_of i \<in> A \<and> map_of heights (rid_of i) = Some h}"
  have fin: "finite (?H l)" for l
    by (rule finite_subset [of _ "the ` (map_of heights \<circ> rid_of) ` set l"]) (force simp: image_iff)+
  have h0: "h0 \<in> ?H linked" using assms(2-5) by blast
  have sub: "?H (i # linked) \<subseteq> insert_h ` ?H linked \<union> {h. map_of heights (rid_of i) = Some h} \<union> ?H linked" for insert_h
    by auto
  have "Min (?H (i # linked)) = Min (?H linked)"
  proof (rule antisym)
    show "Min (?H (i # linked)) \<le> Min (?H linked)"
      using h0 fin [of "i # linked"] by (intro Min_antimono) auto
    show "Min (?H linked) \<le> Min (?H (i # linked))"
    proof (subst Min_ge_iff [OF fin])
      show "?H (i # linked) \<noteq> {}" using h0 by auto
      show "\<forall>h \<in> ?H (i # linked). Min (?H linked) \<le> h"
      proof
        fix h assume h: "h \<in> ?H (i # linked)"
        show "Min (?H linked) \<le> h"
        proof (cases "h \<in> ?H linked")
          case True then show ?thesis by (rule Min_le [OF fin])
        next
          case False
          with h have "map_of heights (rid_of i) = Some h" by auto
          with assms(6) have "h0 \<le> h" by blast
          with Min_le [OF fin h0] show ?thesis by simp
        qed
      qed
    qed
  qed
  with assms(1) h0 show ?thesis by (auto simp: window_active_def Let_def)
qed

end
