(* ===== verification/NodeViews.thy ===== *)
theory NodeViews
  imports NodeProofs Responsible
begin

text \<open>
  \<^verbatim>\<open>src/hap/service.py\<close>: what a node shows of its records, \<open>record_assessment\<close>, \<open>provenance_graph\<close>,
  \<open>responsible_publication_view\<close>, \<open>record_view\<close> and \<open>reference_feed\<close>. These operations only read the
  node. The feed lists exactly the claims that the responsible-publication profile lists.
\<close>

section \<open>Views of a record\<close>

text \<open>\<open>{item["sha256"] for item in evidence if store.has(...) and store.verify(...)}\<close>\<close>

fun available_evidence :: "env \<Rightarrow> evidence_store \<Rightarrow> json list \<Rightarrow> ustr list result" where
  "available_evidence E st [] = Inr []"
| "available_evidence E st (item # items) =
     bindE (dict_item item ''sha256'') (\<lambda>digest.
     bindE (has_evidence_file st digest) (\<lambda>present.
     bindE (if present then verify_evidence E st digest else Inr False) (\<lambda>verified.
     bindE (available_evidence E st items) (\<lambda>rest.
     Inr (if verified then text_of digest # rest else rest)))))"

definition record_assessment :: "env \<Rightarrow> node \<Rightarrow> ustr \<Rightarrow> assessment option result" where
  "record_assessment E n rid = (case get_record (ix n) rid of
     None \<Rightarrow> Inr None
   | Some r \<Rightarrow>
       bindE (get_list r ''evidence'') (\<lambda>items.
       bindE (available_evidence E (ev n) items) (\<lambda>available.
       bindE (assess_record r (linked_records (ix n) rid) (anchored_record_ids (ix n)) (set available)) (\<lambda>a.
       Inr (Some a)))))"

definition provenance_graph :: "node \<Rightarrow> ustr \<Rightarrow> provenance option result" where
  "provenance_graph n rid = (case get_record (ix n) rid of
     None \<Rightarrow> Inr None
   | Some r \<Rightarrow> bindE (build_provenance_graph r (list_records (ix n) 10000000 False) (linked_records (ix n) rid)
       (anchored_record_ids (ix n))) (\<lambda>g. Inr (Some g)))"

text \<open>The settings of the profile.\<close>

record profile =
  recognised_authors :: "ustr set"
  cooling_blocks :: int
  notice_blocks :: int

definition responsible_publication_view :: "profile \<Rightarrow> node \<Rightarrow> ustr \<Rightarrow> responsible_view option result" where
  "responsible_publication_view P n rid = (case get_record (ix n) rid of
     None \<Rightarrow> Inr None
   | Some r \<Rightarrow>
       let linked = linked_records (ix n) rid;
           heights = confirmed_anchor_heights (ix n) (rid # map rid_of linked)
       in bindE (assess_responsible_publication r linked (anchored_record_ids (ix n)) heights
            (map_option bl_height (latest_scanned_block (ix n))) (recognised_authors P) (cooling_blocks P)
            (notice_blocks P)) (\<lambda>v. Inr (Some v)))"

record full_view =
  fv_record :: json
  fv_classification :: string
  fv_assessment :: "assessment option"
  fv_provenance :: "provenance option"
  fv_responsible :: "responsible_view option"
  fv_linked :: "json list"
  fv_proofs :: "json list"

definition record_view :: "env \<Rightarrow> profile \<Rightarrow> node \<Rightarrow> ustr \<Rightarrow> full_view option result" where
  "record_view E P n rid = (case get_record (ix n) rid of
     None \<Rightarrow> Inr None
   | Some r \<Rightarrow>
       bindE (record_assessment E n rid) (\<lambda>assessed.
       bindE (responsible_publication_view P n rid) (\<lambda>responsible.
       bindE (provenance_graph n rid) (\<lambda>graph.
       bindE (proofs_for_record E (ix n) rid) (\<lambda>proofs.
       Inr (Some \<lparr>fv_record = r,
         fv_classification = (case assessed of None \<Rightarrow> ''unpublished'' | Some a \<Rightarrow> as_classification a),
         fv_assessment = assessed, fv_provenance = graph, fv_responsible = responsible,
         fv_linked = linked_records (ix n) rid, fv_proofs = proofs\<rparr>))))))"

definition view_listed :: "full_view \<Rightarrow> bool" where
  "view_listed w = (case fv_responsible w of None \<Rightarrow> False | Some v \<Rightarrow> rv_listed v)"

section \<open>The reference feed\<close>

fun feed_loop :: "(ustr \<Rightarrow> full_view option result) \<Rightarrow> int \<Rightarrow> json list \<Rightarrow> full_view list \<Rightarrow> full_view list result" where
  "feed_loop view limit [] acc = Inr acc"
| "feed_loop view limit (r # rs) acc =
     (if dget r ''kind'' \<noteq> JStr (str ''claim'') then feed_loop view limit rs acc
      else bindE (view (rid_of r)) (\<lambda>v. case v of
        None \<Rightarrow> feed_loop view limit rs acc
      | Some w \<Rightarrow>
          let acc = (if view_listed w then acc @ [w] else acc)
          in if limit \<le> int (length acc) then Inr acc else feed_loop view limit rs acc))"

definition reference_feed :: "env \<Rightarrow> profile \<Rightarrow> node \<Rightarrow> int \<Rightarrow> full_view list result" where
  "reference_feed E P n limit =
     feed_loop (record_view E P n) limit (latest_records (ix n) (max (limit * 10) 100)) []"

section \<open>What the feed shows\<close>

text \<open>The claims that the profile lists, in order.\<close>

definition lists_claim :: "(ustr \<Rightarrow> full_view option result) \<Rightarrow> json \<Rightarrow> full_view option" where
  "lists_claim view r = (if dget r ''kind'' = JStr (str ''claim'') then
     case view (rid_of r) of Inr (Some w) \<Rightarrow> if view_listed w then Some w else None | _ \<Rightarrow> None else None)"

lemma map_filter_append: "List.map_filter f (xs @ ys) = List.map_filter f xs @ List.map_filter f ys"
  by (simp add: List.map_filter_def)

lemma feed_loop_run:
  "feed_loop view limit rs acc = Inr result \<Longrightarrow> int (length acc) < max 1 limit \<Longrightarrow>
   (\<exists>done rest. rs = done @ rest \<and> result = acc @ List.map_filter (lists_claim view) done
      \<and> (rest = [] \<or> limit \<le> int (length result)))
   \<and> int (length result) \<le> max 1 limit"
proof (induction rs arbitrary: acc)
  case (Cons r rs)
  show ?case
  proof (cases "dget r ''kind'' = JStr (str ''claim'')")
    case False
    then have "lists_claim view r = None" by (simp add: lists_claim_def)
    moreover have run: "feed_loop view limit rs acc = Inr result" using Cons.prems(1) False by simp
    from Cons.IH [OF run Cons.prems(2)] obtain dn rest where "rs = dn @ rest"
      "result = acc @ List.map_filter (lists_claim view) dn"
      "rest = [] \<or> limit \<le> int (length result)" "int (length result) \<le> max 1 limit" by (elim exE conjE)
    ultimately show ?thesis
      by (intro conjI exI [of _ "r # dn"] exI [of _ rest]) (auto simp: List.map_filter_simps)
  next
    case True
    with Cons.prems(1) obtain v where v: "view (rid_of r) = Inr v" by (auto simp: bindE_eq_Inr)
    show ?thesis
    proof (cases v)
      case None
      with True v have "lists_claim view r = None" by (simp add: lists_claim_def)
      moreover have run: "feed_loop view limit rs acc = Inr result" using Cons.prems(1) True v None by simp
      from Cons.IH [OF run Cons.prems(2)] obtain dn rest where "rs = dn @ rest"
        "result = acc @ List.map_filter (lists_claim view) dn"
        "rest = [] \<or> limit \<le> int (length result)" "int (length result) \<le> max 1 limit" by (elim exE conjE)
      ultimately show ?thesis
        by (intro conjI exI [of _ "r # dn"] exI [of _ rest]) (auto simp: List.map_filter_simps)
    next
      case (Some w)
      define out where "out = (if view_listed w then acc @ [w] else acc)"
      have out: "out = acc @ List.map_filter (lists_claim view) [r]"
        using True v Some by (simp add: out_def lists_claim_def List.map_filter_simps)
      have run: "(if limit \<le> int (length out) then Inr out else feed_loop view limit rs out) = Inr result"
        using Cons.prems(1) True v Some unfolding out_def by (simp add: Let_def split del: if_split)
      show ?thesis
      proof (cases "limit \<le> int (length out)")
        case True
        with run have "result = out" by simp
        moreover have "int (length out) \<le> max 1 limit" using Cons.prems(2) by (simp add: out_def)
        ultimately show ?thesis using True out
          by (intro conjI exI [of _ "[r]"] exI [of _ rs]) auto
      next
        case False
        then have "int (length out) < max 1 limit" by simp
        from Cons.IH [OF _ this] run False obtain dn rest where "rs = dn @ rest"
          "result = out @ List.map_filter (lists_claim view) dn"
          "rest = [] \<or> limit \<le> int (length result)" "int (length result) \<le> max 1 limit"
          by (elim exE conjE meta_impE) simp_all
        then show ?thesis using out map_filter_append [of "lists_claim view" "[r]" dn]
          by (intro conjI exI [of _ "r # dn"] exI [of _ rest]) auto
      qed
    qed
  qed
qed (auto simp: List.map_filter_simps)

text \<open>A view belongs to a stored record, and says what the profile's rule says.\<close>

lemma record_view_listed:
  assumes "record_view E P n rid = Inr (Some w)"
  shows "get_record (ix n) rid = Some (fv_record w)"
    "\<exists>impact. declared_person_impact (fv_record w) = Inr impact \<and>
      (view_listed w \<longleftrightarrow> listing_rule (fv_record w) impact (linked_records (ix n) rid) (anchored_record_ids (ix n))
         (confirmed_anchor_heights (ix n) (rid # map rid_of (linked_records (ix n) rid)))
         (map_option bl_height (latest_scanned_block (ix n))) (recognised_authors P) (cooling_blocks P) (notice_blocks P))"
proof -
  from assms obtain r where r: "get_record (ix n) rid = Some r"
    by (auto simp: record_view_def split: option.splits)
  with assms obtain v where v: "responsible_publication_view P n rid = Inr v" and w: "fv_record w = r" "fv_responsible w = v"
    unfolding record_view_def r option.case bindE_eq_Inr by (elim exE conjE) (auto simp del: dict_get_eq_Inr)
  from v r obtain rv where rv: "v = Some rv" "assess_responsible_publication r (linked_records (ix n) rid)
      (anchored_record_ids (ix n)) (confirmed_anchor_heights (ix n) (rid # map rid_of (linked_records (ix n) rid)))
      (map_option bl_height (latest_scanned_block (ix n))) (recognised_authors P) (cooling_blocks P) (notice_blocks P) = Inr rv"
    by (auto simp: responsible_publication_view_def Let_def bindE_eq_Inr)
  then obtain impact where "declared_person_impact r = Inr impact"
    unfolding assess_responsible_publication_def bindE_eq_Inr by blast
  with responsible_listed_iff [OF rv(2) this] rv(1) w r
  show "get_record (ix n) rid = Some (fv_record w)"
    "\<exists>impact. declared_person_impact (fv_record w) = Inr impact \<and>
      (view_listed w \<longleftrightarrow> listing_rule (fv_record w) impact (linked_records (ix n) rid) (anchored_record_ids (ix n))
         (confirmed_anchor_heights (ix n) (rid # map rid_of (linked_records (ix n) rid)))
         (map_option bl_height (latest_scanned_block (ix n))) (recognised_authors P) (cooling_blocks P) (notice_blocks P))"
    by (auto simp: view_listed_def)
qed

lemma reference_feed_run:
  assumes "reference_feed E P n limit = Inr ws"
  shows "\<exists>done rest. latest_records (ix n) (max (limit * 10) 100) = done @ rest
      \<and> ws = List.map_filter (lists_claim (record_view E P n)) done
      \<and> (rest = [] \<or> limit \<le> int (length ws))"
    "int (length ws) \<le> max 1 limit"
proof -
  have "int (length ([] :: full_view list)) < max 1 limit" by (simp add: less_max_iff_disj)
  from feed_loop_run [OF assms [unfolded reference_feed_def] this]
  show "\<exists>done rest. latest_records (ix n) (max (limit * 10) 100) = done @ rest
      \<and> ws = List.map_filter (lists_claim (record_view E P n)) done
      \<and> (rest = [] \<or> limit \<le> int (length ws))"
    "int (length ws) \<le> max 1 limit" by simp_all
qed

lemma lists_claim_Some:
  assumes "records_ok E (ix n)" "r \<in> r_body ` set (all_rows (records_t (ix n)))" "lists_claim (record_view E P n) r = Some w"
  shows "fv_record w = r" "dget r ''kind'' = JStr (str ''claim'')" "view_listed w"
    "record_view E P n (rid_of r) = Inr (Some w)"
proof -
  have w: "record_view E P n (rid_of r) = Inr (Some w) \<and> view_listed w \<and> dget r ''kind'' = JStr (str ''claim'')"
    using assms(3) by (auto simp: lists_claim_def split: if_splits sum.splits option.splits)
  then show "dget r ''kind'' = JStr (str ''claim'')" "view_listed w" "record_view E P n (rid_of r) = Inr (Some w)"
    by simp_all
  have "get_record (ix n) (rid_of r) = Some r" using get_record_Some [OF assms(1)] assms(2) by blast
  with record_view_listed(1) [of E P n "rid_of r" w] w show "fv_record w = r" by simp
qed

lemma feed_items:
  assumes ok: "records_ok E (ix n)" and run: "reference_feed E P n limit = Inr ws" and w: "w \<in> set ws"
  shows "dget (fv_record w) ''kind'' = JStr (str ''claim'')" "view_listed w"
    "record_view E P n (rid_of (fv_record w)) = Inr (Some w)"
proof -
  from reference_feed_run(1) [OF run] obtain dn rest where
    dn: "latest_records (ix n) (max (limit * 10) 100) = dn @ rest"
      "ws = List.map_filter (lists_claim (record_view E P n)) dn" by blast
  with w obtain r where r: "r \<in> set dn" "lists_claim (record_view E P n) r = Some w"
    by (auto simp: List.map_filter_def)
  have "set dn \<subseteq> set (latest_records (ix n) (max (limit * 10) 100))" using dn(1) by simp
  also have "\<dots> \<subseteq> r_body ` set (all_rows (records_t (ix n)))"
    by (auto simp: latest_records_def sql_limit_def dest!: in_set_takeD split: if_splits)
  finally have "r \<in> r_body ` set (all_rows (records_t (ix n)))" using r(1) by blast
  from lists_claim_Some [OF ok this r(2)]
  show "dget (fv_record w) ''kind'' = JStr (str ''claim'')" "view_listed w"
    "record_view E P n (rid_of (fv_record w)) = Inr (Some w)" by simp_all
qed

text \<open>A feed that is not full misses no listed claim among the latest records.\<close>

lemma feed_complete:
  assumes run: "reference_feed E P n limit = Inr ws" and "int (length ws) < limit"
    and "r \<in> set (latest_records (ix n) (max (limit * 10) 100))" "lists_claim (record_view E P n) r = Some w"
  shows "w \<in> set ws"
  using reference_feed_run(1) [OF run] assms(2-4) by (auto simp: List.map_filter_def image_iff)

text \<open>One stored claim whose evidence is null stops every view and the whole feed: the schema allows the
  null, the views iterate it.\<close>

lemma null_evidence_view:
  assumes "get_record (ix n) rid = Some r" "validate_record E r = Inr ()" "dget r ''evidence'' = JNull"
  shows "record_view E P n rid = Inl (Exn TypeError ''object is not iterable'')"
proof -
  have "has_fields r RECORD_FIELDS"
    using assms(2) by (auto simp: validate_record_eq_Inr dest: validate_head_facts(1))
  from get_list_null [OF assms(3) this]
  have "get_list r ''evidence'' = Inl (Exn TypeError ''object is not iterable'')" by (simp add: RECORD_FIELDS_def)
  then show ?thesis using assms(1) by (simp add: record_view_def record_assessment_def)
qed

lemma null_evidence_feed:
  assumes ok: "records_ok E (ix n)" and r: "latest_records (ix n) 100 = r # rs" "dget r ''kind'' = JStr (str ''claim'')"
    "dget r ''evidence'' = JNull"
  shows "reference_feed E P n limit = Inl (Exn TypeError ''object is not iterable'')"
proof -
  have mem: "r \<in> r_body ` set (all_rows (records_t (ix n)))"
  proof -
    have "r \<in> set (latest_records (ix n) 100)" using r(1) by simp
    then show ?thesis by (auto simp: latest_records_def sql_limit_def dest!: in_set_takeD)
  qed
  have rec: "get_record (ix n) (rid_of r) = Some r" using get_record_Some [OF ok] mem by blast
  have "record_view E P n (rid_of r) = Inl (Exn TypeError ''object is not iterable'')"
    using null_evidence_view [OF rec _ r(3)] get_record_valid [OF ok rec] by blast
  moreover have "\<exists>rs'. latest_records (ix n) (max (limit * 10) 100) = r # rs'"
  proof -
    obtain y ys where rows: "rev (all_rows (records_t (ix n))) = y # ys" "r = r_body y"
      using r(1) by (cases "rev (all_rows (records_t (ix n)))") (auto simp: latest_records_def sql_limit_def)
    have "nat (max (limit * 10) 100) = Suc (nat (max (limit * 10) 100) - 1)" by simp
    then show ?thesis using rows by (simp add: latest_records_def sql_limit_def take_Cons')
  qed
  ultimately show ?thesis using r(2) by (auto simp: reference_feed_def)
qed

end
