(* ===== verification/Config.thy ===== *)
theory Config
  imports PyValue
begin

text \<open>
  \<^verbatim>\<open>src/hap/config.py\<close>: the settings of a node, read from the process environment. The environment
  is an \<open>environ\<close>: the variables, and the content of the files that secrets may be kept in (which
  may fail to be read). Lower-casing is that of ASCII: the results are only compared with words of
  ASCII letters, none of which a letter outside ASCII is lowered to.
\<close>

section \<open>Text\<close>

text \<open>\<open>s.split(c)\<close> for a single character.\<close>

fun split_on :: "nat \<Rightarrow> ustr \<Rightarrow> ustr list" where
  "split_on c [] = [[]]"
| "split_on c (d # s) = (if d = c then [] # split_on c s
     else (case split_on c s of [] \<Rightarrow> [[d]] | w # ws \<Rightarrow> (d # w) # ws))"

text \<open>The line boundaries of \<open>splitlines\<close>; a pair of carriage return and line feed is two of them, with
  an empty line between that is dropped like any empty line.\<close>

definition is_line_break :: "nat \<Rightarrow> bool" where
  "is_line_break c \<longleftrightarrow> c \<in> {10, 11, 12, 13, 28, 29, 30, 133, 8232, 8233}"

fun split_lines :: "ustr \<Rightarrow> ustr list" where
  "split_lines [] = [[]]"
| "split_lines (d # s) = (if is_line_break d then [] # split_lines s
     else (case split_lines s of [] \<Rightarrow> [[d]] | w # ws \<Rightarrow> (d # w) # ws))"

abbreviation lower :: "ustr \<Rightarrow> ustr" where
  "lower s \<equiv> map ascii_lower s"

section \<open>The environment\<close>

record environ =
  env_var :: "string \<Rightarrow> ustr option"
  read_text :: "ustr \<Rightarrow> ustr result"

definition env_get :: "environ \<Rightarrow> string \<Rightarrow> string \<Rightarrow> ustr" where
  "env_get V name dflt = (case env_var V name of None \<Rightarrow> str dflt | Some v \<Rightarrow> v)"

definition env_bool :: "environ \<Rightarrow> string \<Rightarrow> bool \<Rightarrow> bool" where
  "env_bool V name dflt = (case env_var V name of
     None \<Rightarrow> dflt
   | Some v \<Rightarrow> lower (py_strip v) \<in> {str ''1'', str ''true'', str ''yes'', str ''on''})"

definition env_int :: "environ \<Rightarrow> string \<Rightarrow> int \<Rightarrow> int \<Rightarrow> int \<Rightarrow> int result" where
  "env_int V name dflt minimum maximum =
     bindE (case env_var V name of None \<Rightarrow> Inr dflt | Some v \<Rightarrow> int_of_str v) (\<lambda>v.
     Inr (max minimum (min v maximum)))"

definition read_secret :: "environ \<Rightarrow> string \<Rightarrow> string \<Rightarrow> ustr option result" where
  "read_secret V name file_name =
     (let given = (\<lambda>s. let v = py_strip s in if v = [] then None else Some v) in
      case env_var V name of
        Some direct \<Rightarrow> Inr (given direct)
      | None \<Rightarrow> (case env_var V file_name of
          None \<Rightarrow> Inr None
        | Some path \<Rightarrow> if path = [] then Inr None
            else bindE (read_text V path) (\<lambda>t. Inr (given t))))"

definition read_tokens :: "environ \<Rightarrow> string \<Rightarrow> string \<Rightarrow> ustr list result" where
  "read_tokens V name file_name = bindE (read_secret V name file_name) (\<lambda>raw. Inr (case raw of
     None \<Rightarrow> []
   | Some s \<Rightarrow> foldl (\<lambda>vs line. let v = py_strip line in if v \<noteq> [] \<and> v \<notin> set vs then vs @ [v] else vs) []
       (split_lines (map (\<lambda>c. if c = 44 then 10 else c) s))))"

definition env_csv :: "environ \<Rightarrow> string \<Rightarrow> ustr list" where
  "env_csv V name = filter (\<lambda>v. v \<noteq> []) (map py_strip (split_on 44 (env_get V name '''')))"

section \<open>Settings\<close>

record settings =
  data_dir :: ustr
  role :: ustr
  node_name :: ustr
  max_request_bytes :: int
  max_record_bytes :: int
  max_statement_chars :: int
  write_requests_per_minute :: int
  relay_pow_bits :: int
  allow_mainnet :: bool
  allow_snapshot_import :: bool
  expose_docs :: bool
  allow_snapshot_export :: bool
  submission_token_required :: bool
  submission_tokens :: "ustr list"
  admin_token :: "ustr option"
  trusted_proxy_cidrs :: "ustr list"
  peers :: "ustr list"
  sync_interval_seconds :: int
  sync_page_size :: int
  max_sync_response_bytes :: int
  max_sync_pages :: int
  max_batch_records :: int
  max_package_bytes :: int
  bitcoin_required_for_readiness :: bool
  bitcoin_expected_network :: ustr
  bitcoin_scan_interval_seconds :: int
  bitcoin_scan_start_height :: int
  bitcoin_scan_max_blocks :: int
  resolve_interval_seconds :: int
  serve_evidence :: bool
  max_evidence_bytes :: int
  deployment_profile :: ustr
  responsible_publication_profile :: bool
  responsible_cooling_blocks :: int
  responsible_notice_protection_blocks :: int
  recognised_accountable_authors :: "ustr list"

definition VALID_ROLES :: "string list" where
  "VALID_ROLES = [''observer'', ''relay'', ''coordinator'', ''archive'']"

definition can_relay :: "settings \<Rightarrow> bool" where
  "can_relay S \<longleftrightarrow> role S \<in> {str ''relay'', str ''coordinator''}"

definition can_coordinate :: "settings \<Rightarrow> bool" where
  "can_coordinate S \<longleftrightarrow> role S = str ''coordinator''"

definition can_archive :: "settings \<Rightarrow> bool" where
  "can_archive S \<longleftrightarrow> role S = str ''archive'' \<or> serve_evidence S"

definition no_token :: "ustr option \<Rightarrow> bool" where
  "no_token t \<longleftrightarrow> t = None \<or> t = Some []"

definition setting_error :: "string \<Rightarrow> 'a result" where
  "setting_error m = Inl (Exn ValueError m)"

definition validate_settings :: "settings \<Rightarrow> unit result" where
  "validate_settings S =
     (if role S \<notin> str ` set VALID_ROLES then setting_error ''HAP_ROLE must be one of the roles''
      else if can_coordinate S \<and> no_token (admin_token S)
      then setting_error ''coordinator nodes require HAP_ADMIN_TOKEN or HAP_ADMIN_TOKEN_FILE''
      else if submission_token_required S \<and> submission_tokens S = []
      then setting_error ''HAP_REQUIRE_SUBMISSION_TOKEN=1 requires HAP_SUBMISSION_TOKENS or HAP_SUBMISSION_TOKENS_FILE''
      else if bitcoin_expected_network S \<notin> {str ''signet'', str ''regtest'', str ''mainnet''}
      then setting_error ''HAP_BITCOIN_EXPECTED_NETWORK must be signet, regtest, or mainnet''
      else if bitcoin_expected_network S = str ''mainnet'' \<and> \<not> allow_mainnet S
      then setting_error ''mainnet cannot be the expected Bitcoin network while HAP_ALLOW_MAINNET=0''
      else forE (\<lambda>peer. if starts_with peer (str ''http://'') \<or> starts_with peer (str ''https://'') then Inr ()
        else setting_error ''HAP_PEERS entries must begin with http:// or https://'') (peers S))"

definition settings_from_environment :: "environ \<Rightarrow> settings result" where
  "settings_from_environment V =
     bindE (env_int V ''HAP_MAX_REQUEST_BYTES'' 65536 16384 1048576) (\<lambda>request_bytes.
     bindE (env_int V ''HAP_MAX_RECORD_BYTES'' 49152 8192 262144) (\<lambda>record_bytes.
     bindE (env_int V ''HAP_MAX_STATEMENT_CHARS'' 10000 256 100000) (\<lambda>statement_chars.
     bindE (env_int V ''HAP_WRITE_REQUESTS_PER_MINUTE'' 10 1 10000) (\<lambda>writes.
     bindE (env_int V ''HAP_RELAY_POW_BITS'' 0 0 30) (\<lambda>pow_bits.
     bindE (read_tokens V ''HAP_SUBMISSION_TOKENS'' ''HAP_SUBMISSION_TOKENS_FILE'') (\<lambda>tokens.
     bindE (read_secret V ''HAP_ADMIN_TOKEN'' ''HAP_ADMIN_TOKEN_FILE'') (\<lambda>admin.
     bindE (env_int V ''HAP_SYNC_INTERVAL_SECONDS'' 0 0 86400) (\<lambda>sync_interval.
     bindE (env_int V ''HAP_SYNC_PAGE_SIZE'' 100 1 5000) (\<lambda>page_size.
     bindE (env_int V ''HAP_MAX_SYNC_RESPONSE_BYTES'' 67108864 65536 268435456) (\<lambda>sync_bytes.
     bindE (env_int V ''HAP_MAX_SYNC_PAGES'' 10000 1 1000000) (\<lambda>sync_pages.
     bindE (env_int V ''HAP_MAX_BATCH_RECORDS'' 1000 1 50000) (\<lambda>batch_records.
     bindE (env_int V ''HAP_MAX_PACKAGE_BYTES'' 67108864 65536 268435456) (\<lambda>package_bytes.
     bindE (env_int V ''HAP_BITCOIN_SCAN_INTERVAL_SECONDS'' 0 0 86400) (\<lambda>scan_interval.
     bindE (env_int V ''HAP_BITCOIN_SCAN_START_HEIGHT'' 0 0 10000000) (\<lambda>scan_start.
     bindE (env_int V ''HAP_BITCOIN_SCAN_MAX_BLOCKS'' 500 1 100000) (\<lambda>scan_blocks.
     bindE (env_int V ''HAP_RESOLVE_INTERVAL_SECONDS'' 0 0 86400) (\<lambda>resolve_interval.
     bindE (env_int V ''HAP_MAX_EVIDENCE_BYTES'' 2147483648 1048576 1099511627776) (\<lambda>evidence_bytes.
     bindE (env_int V ''HAP_RESPONSIBLE_COOLING_BLOCKS'' 6 0 100000) (\<lambda>cooling.
     bindE (env_int V ''HAP_RESPONSIBLE_NOTICE_PROTECTION_BLOCKS'' 6 0 100000) (\<lambda>notice.
     let S = \<lparr>data_dir = env_get V ''HAP_DATA_DIR'' ''.history-anchor'',
       role = lower (py_strip (env_get V ''HAP_ROLE'' ''observer'')),
       node_name = take 120 (env_get V ''HAP_NODE_NAME'' ''unnamed-hap-node''),
       max_request_bytes = request_bytes, max_record_bytes = record_bytes, max_statement_chars = statement_chars,
       write_requests_per_minute = writes, relay_pow_bits = pow_bits,
       allow_mainnet = env_bool V ''HAP_ALLOW_MAINNET'' False,
       allow_snapshot_import = env_bool V ''HAP_ALLOW_SNAPSHOT_IMPORT'' False,
       expose_docs = env_bool V ''HAP_EXPOSE_DOCS'' False,
       allow_snapshot_export = env_bool V ''HAP_ALLOW_SNAPSHOT_EXPORT'' False,
       submission_token_required = env_bool V ''HAP_REQUIRE_SUBMISSION_TOKEN'' False,
       submission_tokens = tokens, admin_token = admin,
       trusted_proxy_cidrs = env_csv V ''HAP_TRUSTED_PROXY_CIDRS'', peers = env_csv V ''HAP_PEERS'',
       sync_interval_seconds = sync_interval, sync_page_size = page_size, max_sync_response_bytes = sync_bytes,
       max_sync_pages = sync_pages, max_batch_records = batch_records, max_package_bytes = package_bytes,
       bitcoin_required_for_readiness = env_bool V ''HAP_BITCOIN_REQUIRED_FOR_READINESS'' False,
       bitcoin_expected_network = lower (py_strip (env_get V ''HAP_BITCOIN_EXPECTED_NETWORK'' ''signet'')),
       bitcoin_scan_interval_seconds = scan_interval, bitcoin_scan_start_height = scan_start,
       bitcoin_scan_max_blocks = scan_blocks, resolve_interval_seconds = resolve_interval,
       serve_evidence = env_bool V ''HAP_SERVE_EVIDENCE'' False, max_evidence_bytes = evidence_bytes,
       deployment_profile = take 80 (env_get V ''HAP_DEPLOYMENT_PROFILE'' ''production''),
       responsible_publication_profile = env_bool V ''HAP_RESPONSIBLE_PUBLICATION_PROFILE'' True,
       responsible_cooling_blocks = cooling, responsible_notice_protection_blocks = notice,
       recognised_accountable_authors = env_csv V ''HAP_RECOGNISED_ACCOUNTABLE_AUTHORS''\<rparr>
     in bindE (validate_settings S) (\<lambda>_. Inr S)))))))))))))))))))))"

section \<open>What valid settings promise\<close>

lemma env_int_bounds: "env_int V name d lo hi = Inr v \<Longrightarrow> lo \<le> hi \<Longrightarrow> lo \<le> v \<and> v \<le> hi"
  by (auto simp: env_int_def bindE_eq_Inr)

lemma validate_settings_eq_Inr:
  "validate_settings S = Inr u \<longleftrightarrow> role S \<in> str ` set VALID_ROLES
     \<and> (can_coordinate S \<longrightarrow> \<not> no_token (admin_token S))
     \<and> (submission_token_required S \<longrightarrow> submission_tokens S \<noteq> [])
     \<and> bitcoin_expected_network S \<in> {str ''signet'', str ''regtest'', str ''mainnet''}
     \<and> (bitcoin_expected_network S = str ''mainnet'' \<longrightarrow> allow_mainnet S)
     \<and> (\<forall>p \<in> set (peers S). starts_with p (str ''http://'') \<or> starts_with p (str ''https://''))"
  unfolding validate_settings_def setting_error_def by (auto simp: result_simps)

lemma tokens_clean:
  assumes "read_tokens V n f = Inr ts"
  shows "distinct ts" "[] \<notin> set ts"
proof -
  have "distinct (foldl (\<lambda>vs line. let v = py_strip line in if v \<noteq> [] \<and> v \<notin> set vs then vs @ [v] else vs) ts ls)
      \<and> [] \<notin> set (foldl (\<lambda>vs line. let v = py_strip line in if v \<noteq> [] \<and> v \<notin> set vs then vs @ [v] else vs) ts ls)"
    if "distinct ts" "[] \<notin> set ts" for ts ls
    using that by (induction ls arbitrary: ts) (auto simp: Let_def)
  with assms show "distinct ts" "[] \<notin> set ts"
    by (auto simp: read_tokens_def bindE_eq_Inr split: option.splits)
qed

text \<open>The numeric settings of a node are within the limits that the code gives.\<close>

definition settings_in_bounds :: "settings \<Rightarrow> bool" where
  "settings_in_bounds S \<longleftrightarrow>
     max_request_bytes S \<in> {16384..1048576} \<and> max_record_bytes S \<in> {8192..262144}
     \<and> max_statement_chars S \<in> {256..100000} \<and> write_requests_per_minute S \<in> {1..10000}
     \<and> relay_pow_bits S \<in> {0..30} \<and> sync_interval_seconds S \<in> {0..86400} \<and> sync_page_size S \<in> {1..5000}
     \<and> max_sync_response_bytes S \<in> {65536..268435456} \<and> max_sync_pages S \<in> {1..1000000}
     \<and> max_batch_records S \<in> {1..50000} \<and> max_package_bytes S \<in> {65536..268435456}
     \<and> bitcoin_scan_interval_seconds S \<in> {0..86400} \<and> bitcoin_scan_start_height S \<in> {0..10000000}
     \<and> bitcoin_scan_max_blocks S \<in> {1..100000} \<and> resolve_interval_seconds S \<in> {0..86400}
     \<and> max_evidence_bytes S \<in> {1048576..1099511627776}
     \<and> responsible_cooling_blocks S \<in> {0..100000} \<and> responsible_notice_protection_blocks S \<in> {0..100000}
     \<and> length (node_name S) \<le> 120 \<and> length (deployment_profile S) \<le> 80"

lemma bind_env_intE:
  assumes "bindE (env_int V n d lo hi) k = Inr S" and "lo \<le> hi"
  obtains v where "lo \<le> v" "v \<le> hi" "k v = Inr S"
  using assms by (auto simp: bindE_eq_Inr dest: env_int_bounds)

lemma bind_tokensE:
  assumes "bindE (read_tokens V n f) k = Inr S"
  obtains ts where "distinct ts" "[] \<notin> set ts" "k ts = Inr S"
  using assms by (auto simp: bindE_eq_Inr dest: tokens_clean)

lemma bind_anyE:
  assumes "bindE m k = Inr S" obtains v where "k v = Inr S"
  using assms by (auto simp: bindE_eq_Inr)

text \<open>Reading the settings: every number within its limits, the list of tokens without repetitions or
  empty ones, and the rules of \<open>validate\<close>.\<close>

lemma settings_sound:
  assumes "settings_from_environment V = Inr S"
  shows "settings_in_bounds S \<and> distinct (submission_tokens S) \<and> [] \<notin> set (submission_tokens S)
    \<and> validate_settings S = Inr ()"
  using assms unfolding settings_from_environment_def
  apply -
  apply ((erule bind_env_intE, simp) | erule bind_tokensE | (erule bind_anyE [of "read_secret V n f" for n f]))+
  apply (unfold Let_def bindE_eq_Inr)
  apply (elim exE conjE)
  apply (drule Inr_inject)
  apply hypsubst
  unfolding settings_in_bounds_def settings.simps
  apply (intro conjI)
  apply (simp_all only: atLeastAtMost_iff simp_thms length_take min.cobounded2)
  by (simp (no_asm))

end
