(* ===== verification/Policy.thy ===== *)
theory Policy
  imports Responsible Config
begin

text \<open>
  \<^verbatim>\<open>src/hap/policy.py\<close>: what a relay accepts beyond the validity of a record, and the relay proof
  of work.

  \<open>urllib.parse.urlsplit\<close> is modelled as far as the policy reads its result: the scheme, and the host
  and the user of the network location. The argument \<open>netloc_check\<close> of the definitions that split a
  URI is the part of it that depends on the tables of Unicode normalisation and on the syntax of
  addresses in brackets: it raises where \<open>_checknetloc\<close> or \<open>_check_bracketed_host\<close> does.
\<close>

section \<open>Constants\<close>

definition RELAY_POW_DOMAIN :: bytes where
  "RELAY_POW_DOMAIN = map word_of_nat (str ''HAP-RELAY-POW-V1'') @ [0]"

definition ALLOWED_SOURCE_SCHEMES :: "string list" where
  "ALLOWED_SOURCE_SCHEMES = [''https'', ''hap'']"

definition MAX_DECLARED_EVIDENCE_BYTES :: int where
  "MAX_DECLARED_EVIDENCE_BYTES = 100 * 1024 * 1024 * 1024"

definition policy_error :: "string \<Rightarrow> 'a result" where
  "policy_error m = Inl (Exn PolicyError m)"

section \<open>Texts\<close>

definition contains_forbidden_controls :: "ustr \<Rightarrow> bool" where
  "contains_forbidden_controls s \<longleftrightarrow> list_ex (\<lambda>c. c < 32 \<and> c \<notin> {9, 10, 13}) s"

definition validate_plain_text :: "json \<Rightarrow> bool \<Rightarrow> unit result" where
  "validate_plain_text v allow_newlines = (case v of
     JStr s \<Rightarrow> if 0 \<in> set s \<or> contains_forbidden_controls s
       then policy_error ''contains forbidden control characters''
       else if \<not> allow_newlines \<and> (13 \<in> set s \<or> 10 \<in> set s)
       then policy_error ''must be a single line''
       else Inr ()
   | _ \<Rightarrow> policy_error ''must be text'')"

section \<open>Source URIs\<close>

definition is_alpha :: "nat \<Rightarrow> bool" where
  "is_alpha c \<longleftrightarrow> (65 \<le> c \<and> c \<le> 90) \<or> (97 \<le> c \<and> c \<le> 122)"

definition is_scheme_char :: "nat \<Rightarrow> bool" where
  "is_scheme_char c \<longleftrightarrow> is_alpha c \<or> is_digit c \<or> c \<in> {43, 45, 46}"

text \<open>What stands before the first colon, when it is a scheme, and what follows.\<close>

definition split_scheme :: "ustr \<Rightarrow> ustr \<times> ustr" where
  "split_scheme url = (let s = takeWhile (\<lambda>c. c \<noteq> 58) url in
     if s \<noteq> [] \<and> length s < length url \<and> is_alpha (hd s) \<and> list_all is_scheme_char s
     then (lower s, drop (length s + 1) url) else ([], url))"

text \<open>\<open>urlsplit\<close>: the scheme and the network location.\<close>

definition urlsplit :: "(ustr \<Rightarrow> unit result) \<Rightarrow> ustr \<Rightarrow> (ustr \<times> ustr) result" where
  "urlsplit netloc_check uri =
     (let url = filter (\<lambda>c. c \<notin> {9, 10, 13}) (dropWhile (\<lambda>c. c \<le> 32) uri);
          parts = split_scheme url;
          netloc = (if take 2 (snd parts) = str ''//''
            then takeWhile (\<lambda>c. c \<notin> {47, 63, 35}) (drop 2 (snd parts)) else []) in
      if (91 \<in> set netloc) \<noteq> (93 \<in> set netloc) then Inl (Exn ValueError ''Invalid IPv6 URL'')
      else bindE (netloc_check netloc) (\<lambda>_. Inr (fst parts, netloc)))"

text \<open>The host, before it is lowered: \<open>hostname\<close> is \<open>None\<close> when it is empty. The user is present when
  there is an at sign.\<close>

definition host_of :: "ustr \<Rightarrow> ustr" where
  "host_of netloc = (let hostinfo = rev (takeWhile (\<lambda>c. c \<noteq> 64) (rev netloc)) in
     if 91 \<in> set hostinfo then takeWhile (\<lambda>c. c \<noteq> 93) (drop 1 (dropWhile (\<lambda>c. c \<noteq> 91) hostinfo))
     else takeWhile (\<lambda>c. c \<noteq> 58) hostinfo)"

definition has_user :: "ustr \<Rightarrow> bool" where
  "has_user netloc \<longleftrightarrow> 64 \<in> set netloc"

definition hap_reference :: "ustr \<Rightarrow> unit result" where
  "hap_reference uri =
     (let prefix = str ''hap:record:'';
          digest = (if starts_with uri prefix then drop (length prefix) uri else []) in
      case bytes_fromhex digest of
        Inl _ \<Rightarrow> policy_error ''HAP source references must be hap:record:<32-byte-hex-id>''
      | Inr raw \<Rightarrow> if length raw \<noteq> 32
          then policy_error ''HAP source references must be hap:record:<32-byte-hex-id>'' else Inr ())"

text \<open>An argument that is not a string: a list or a dictionary cannot be a key of the cache of
  \<open>urlsplit\<close>; a false value is split as the empty string; another has no \<open>decode\<close>.\<close>

definition validate_source_uri :: "(ustr \<Rightarrow> unit result) \<Rightarrow> json \<Rightarrow> unit result" where
  "validate_source_uri netloc_check uri = (case uri of
     JStr u \<Rightarrow>
       bindE (urlsplit netloc_check u) (\<lambda>(scheme, netloc).
       if scheme \<notin> str ` set ALLOWED_SOURCE_SCHEMES
       then policy_error ''safe relay source URIs must use https or a strict hap:record reference''
       else if scheme = str ''hap'' then hap_reference u
       else if host_of netloc = [] then policy_error ''source URI requires a hostname''
       else if has_user netloc then policy_error ''source URI must not contain embedded credentials''
       else Inr ())
   | JList _ \<Rightarrow> Inl (Exn TypeError ''unhashable type'')
   | JDict _ \<Rightarrow> Inl (Exn TypeError ''unhashable type'')
   | _ \<Rightarrow> if truthy uri then attribute_error
       else policy_error ''safe relay source URIs must use https or a strict hap:record reference'')"

text \<open>Leading control characters and blanks, and white space between the digits of a reference, pass:
  the first are stripped before the URI is split, the second is skipped by \<open>bytes.fromhex\<close>.\<close>

lemma control_characters_in_uri:
  "netloc_check (str ''host'') = Inr () \<Longrightarrow>
     validate_source_uri netloc_check (JStr ([1, 27] @ str ''https://host'')) = Inr ()"
  by (simp add: validate_source_uri_def urlsplit_def split_scheme_def host_of_def has_user_def str_def
      is_alpha_def is_scheme_char_def ALLOWED_SOURCE_SCHEMES_def ascii_lower_def)

section \<open>The policy of the safe relay\<close>

text \<open>\<open>v > n\<close> for an integer \<open>n\<close>\<close>

definition greater_than :: "json \<Rightarrow> int \<Rightarrow> bool result" where
  "greater_than v n = (case v of
     JInt i \<Rightarrow> Inr (n < i)
   | JBool b \<Rightarrow> Inr (n < (if b then 1 else 0))
   | JFloat f \<Rightarrow> Inr (float_less (Dyadic n 0) f)
   | _ \<Rightarrow> Inl (Exn TypeError ''comparison not supported''))"

definition relay_tags :: "json \<Rightarrow> unit result" where
  "relay_tags r = bindE (dict_get r ''tags'' (JList [])) (\<lambda>v. bindE (iterE v)
     (forE (\<lambda>tag. validate_plain_text tag False)))"

definition relay_source :: "(ustr \<Rightarrow> unit result) \<Rightarrow> json \<Rightarrow> unit result" where
  "relay_source netloc_check source =
     bindE (dict_item source ''uri'') (\<lambda>uri.
     bindE (validate_source_uri netloc_check uri) (\<lambda>_.
     bindE (dict_get source ''label'' JNull) (\<lambda>label.
     if label \<noteq> JNull then validate_plain_text label False else Inr ())))"

definition relay_filename :: "ustr \<Rightarrow> bool" where
  "relay_filename s \<longleftrightarrow> s \<noteq> str ''.'' \<and> 47 \<notin> set s \<and> 92 \<notin> set s"

definition relay_evidence :: "json \<Rightarrow> unit result" where
  "relay_evidence item =
     bindE (dict_item item ''filename'') (\<lambda>filename.
     bindE (validate_plain_text filename False) (\<lambda>_.
     if \<not> relay_filename (text_of filename) then policy_error ''evidence filename must not contain a path''
     else bindE (dict_item item ''size'') (\<lambda>size.
     condE (greater_than size MAX_DECLARED_EVIDENCE_BYTES)
       (policy_error ''declared evidence size exceeds the safe relay ceiling'')
     (bindE (dict_get item ''cid'' JNull) (\<lambda>cid.
     if cid \<noteq> JNull \<and> cid \<noteq> JStr []
     then policy_error ''safe relay nodes accept evidence hashes and metadata only; retrieval locators are disabled''
     else Inr ())))))"

definition validate_safe_relay_record :: "(ustr \<Rightarrow> unit result) \<Rightarrow> settings \<Rightarrow> json \<Rightarrow> unit result" where
  "validate_safe_relay_record netloc_check S r =
     bindE (canonical_json_bytes r) (\<lambda>encoded.
     if max_record_bytes S < int (length encoded)
     then policy_error ''record exceeds this node's relay limit''
     else bindE (dict_get r ''title'' JNull) (\<lambda>title.
     bindE (validate_plain_text title False) (\<lambda>_.
     bindE (dict_get r ''statement'' JNull) (\<lambda>statement.
     bindE (validate_plain_text statement True) (\<lambda>_.
     if max_statement_chars S < int (length (text_of statement))
     then policy_error ''statement exceeds this node's safe relay limit''
     else bindE (dict_get r ''event_time'' JNull) (\<lambda>event_time.
     bindE (if event_time \<noteq> JNull then validate_plain_text event_time True else Inr ()) (\<lambda>_.
     bindE (relay_tags r) (\<lambda>_.
     bindE (dict_get r ''sources'' (JList [])) (\<lambda>v. bindE (iterE v) (\<lambda>sources.
     bindE (forE (relay_source netloc_check) sources) (\<lambda>_.
     bindE (if responsible_publication_profile S then validate_responsible_record r else Inr ()) (\<lambda>_.
     bindE (dict_get r ''evidence'' (JList [])) (\<lambda>w. bindE (iterE w)
     (forE relay_evidence))))))))))))))"

section \<open>Relay proof of work\<close>

fun leading_zero_bits :: "bytes \<Rightarrow> nat" where
  "leading_zero_bits [] = 0"
| "leading_zero_bits (b # bs) = (if b = 0 then 8 + leading_zero_bits bs else 8 - bit_length (unat b))"

definition relay_pow_digest :: "env \<Rightarrow> ustr \<Rightarrow> ustr \<Rightarrow> bytes result" where
  "relay_pow_digest E rid nonce =
     (if nonce = [] \<or> 64 < length nonce \<or> \<not> list_all uni_isdigit nonce
      then policy_error ''relay proof nonce must be a decimal integer of 64 digits or fewer''
      else bindE (encode_ascii rid) (\<lambda>r. bindE (encode_ascii nonce) (\<lambda>n.
        Inr (sha256 E (RELAY_POW_DOMAIN @ r @ [0] @ n)))))"

definition verify_relay_pow :: "env \<Rightarrow> ustr \<Rightarrow> ustr option \<Rightarrow> int \<Rightarrow> bool result" where
  "verify_relay_pow E rid nonce required_bits =
     (if required_bits \<le> 0 then Inr True
      else case nonce of None \<Rightarrow> Inr False
      | Some n \<Rightarrow> (case relay_pow_digest E rid n of
          Inr d \<Rightarrow> Inr (required_bits \<le> int (leading_zero_bits d))
        | Inl e \<Rightarrow> if exc_of e = PolicyError then Inr False else Inl e))"

text \<open>The loop of \<open>mine_relay_pow\<close>, which nothing in its text bounds when no number of attempts is
  given; \<open>None\<close> would be a loop that does not end.\<close>

partial_function (option) mine_loop ::
  "env \<Rightarrow> ustr \<Rightarrow> int \<Rightarrow> int option \<Rightarrow> int \<Rightarrow> int \<Rightarrow> ustr result option" where
  "mine_loop E rid required_bits max_attempts nonce attempts =
     (if (case max_attempts of None \<Rightarrow> True | Some m \<Rightarrow> attempts < m) then
        (case relay_pow_digest E rid (py_str_int nonce) of
           Inl e \<Rightarrow> Some (Inl e)
         | Inr d \<Rightarrow> if required_bits \<le> int (leading_zero_bits d) then Some (Inr (py_str_int nonce))
             else mine_loop E rid required_bits max_attempts (nonce + 1) (attempts + 1))
      else Some (policy_error ''relay proof was not found within max_attempts''))"

definition mine_relay_pow :: "env \<Rightarrow> ustr \<Rightarrow> int \<Rightarrow> int \<Rightarrow> int option \<Rightarrow> ustr result option" where
  "mine_relay_pow E rid required_bits start max_attempts =
     (if required_bits \<le> 0 then Some (Inr (str ''0''))
      else mine_loop E rid required_bits max_attempts (max 0 start) 0)"

section \<open>The number of leading zero bits\<close>

text \<open>A digest has \<open>k\<close> leading zero bits exactly when the number it spells, most significant byte
  first, is below the target that a difficulty of \<open>k\<close> bits stands for.\<close>

fun bytes_value :: "bytes \<Rightarrow> nat" where
  "bytes_value [] = 0"
| "bytes_value (b # bs) = unat b * 2 ^ (8 * length bs) + bytes_value bs"

lemma bytes_value_less: "bytes_value bs < 2 ^ (8 * length bs)"
proof (induction bs)
  case (Cons b bs)
  have "unat b * 2 ^ (8 * length bs) + bytes_value bs < (unat b + 1) * 2 ^ (8 * length bs)"
    using Cons by simp
  also have "\<dots> \<le> 256 * 2 ^ (8 * length bs)"
    using unat_byte_less [of b] by (intro mult_right_mono) linarith+
  finally show ?case by (simp add: power_add)
qed simp

lemma bit_length_le: "bit_length n \<le> k \<longleftrightarrow> n < 2 ^ k"
proof (induction n arbitrary: k rule: bit_length.induct)
  case (1 n)
  show ?case
  proof (cases "n = 0")
    case True
    then show ?thesis by (simp add: bit_length.simps)
  next
    case False
    then have "bit_length n \<le> k \<longleftrightarrow> (\<exists>j. k = Suc j \<and> bit_length (n div 2) \<le> j)"
      by (cases k) (simp_all add: bit_length.simps [of n])
    also have "\<dots> \<longleftrightarrow> (\<exists>j. k = Suc j \<and> n div 2 < 2 ^ j)" using 1 [OF False] by simp
    also have "\<dots> \<longleftrightarrow> n < 2 ^ k" using False by (cases k) auto
    finally show ?thesis .
  qed
qed

lemma leading_zero_bits_le: "leading_zero_bits d \<le> 8 * length d"
  by (induction d) auto

lemma leading_zero_bits_iff:
  assumes "k \<le> 8 * length d"
  shows "k \<le> leading_zero_bits d \<longleftrightarrow> bytes_value d < 2 ^ (8 * length d - k)"
  using assms
proof (induction d arbitrary: k)
  case (Cons b bs)
  show ?case
  proof (cases "b = 0")
    case True
    show ?thesis
    proof (cases "k \<le> 8")
      case True
      have "bytes_value bs < 2 ^ (8 * length bs)" by (rule bytes_value_less)
      also have "\<dots> \<le> 2 ^ (8 + 8 * length bs - k)" using True by (intro power_increasing) simp_all
      finally show ?thesis using True \<open>b = 0\<close> by simp
    next
      case False
      then have "k - 8 \<le> 8 * length bs" using Cons.prems by simp
      moreover have "8 + 8 * length bs - k = 8 * length bs - (k - 8)" using False by simp
      ultimately show ?thesis using Cons.IH [of "k - 8"] False \<open>b = 0\<close> by auto
    qed
  next
    case False
    then have b: "0 < unat b" by (simp add: unat_gt_0)
    let ?n = "8 * length bs"
    show ?thesis
    proof (cases "k \<le> 8")
      case True
      have "k \<le> 8 - bit_length (unat b) \<longleftrightarrow> bit_length (unat b) \<le> 8 - k"
        using True bit_length_le [of "unat b" 8] unat_byte_less [of b] by auto
      also have "\<dots> \<longleftrightarrow> unat b < 2 ^ (8 - k)" by (rule bit_length_le)
      also have "\<dots> \<longleftrightarrow> unat b * 2 ^ ?n + bytes_value bs < 2 ^ (8 - k) * 2 ^ ?n"
      proof
        assume "unat b < 2 ^ (8 - k)"
        then have "(unat b + 1) * 2 ^ ?n \<le> 2 ^ (8 - k) * 2 ^ ?n" by (intro mult_right_mono) simp_all
        with bytes_value_less [of bs] show "unat b * 2 ^ ?n + bytes_value bs < 2 ^ (8 - k) * 2 ^ ?n" by simp
      next
        assume "unat b * 2 ^ ?n + bytes_value bs < 2 ^ (8 - k) * 2 ^ ?n"
        then have "unat b * 2 ^ ?n < 2 ^ (8 - k) * 2 ^ ?n" by linarith
        then show "unat b < 2 ^ (8 - k)" by simp
      qed
      also have "(2 :: nat) ^ (8 - k) * 2 ^ ?n = 2 ^ (8 + ?n - k)" using True by (simp flip: power_add)
      finally show ?thesis using False by simp
    next
      case False
      have "2 ^ (8 + ?n - k) \<le> (2 :: nat) ^ ?n" using False by (intro power_increasing) simp_all
      also have "\<dots> \<le> unat b * 2 ^ ?n" using b by simp
      finally show ?thesis using False \<open>b \<noteq> 0\<close> by simp
    qed
  qed
qed simp

section \<open>Mining\<close>

lemma dec_length: "n < 10 ^ k \<Longrightarrow> 0 < k \<Longrightarrow> length (dec n) \<le> k"
proof (induction n arbitrary: k rule: dec.induct)
  case (1 n)
  show ?case
  proof (cases "n < 10")
    case False
    with 1(2) obtain j where k: "k = Suc j" "0 < j" by (cases k; cases "k - 1") auto
    with 1(1) [OF False, of j] 1(2) False show ?thesis
      by (subst dec.simps) (simp add: less_mult_imp_div_less mult.commute)
  qed (use 1 in \<open>simp add: dec.simps [of n]\<close>)
qed

lemma dec_length_more: "10 ^ k \<le> n \<Longrightarrow> k < length (dec n)"
proof (induction n arbitrary: k rule: dec.induct)
  case (1 n)
  show ?case
  proof (cases "n < 10")
    case True
    have "10 \<le> (10 :: nat) ^ k" if "0 < k" using that by (cases k) simp_all
    with True 1(2) have "k = 0" by fastforce
    then show ?thesis by simp
  next
    case False
    show ?thesis
    proof (cases k)
      case (Suc j)
      with 1(2) have "10 ^ j \<le> n div 10" by simp
      with 1(1) [OF False, of j] Suc False show ?thesis by (subst dec.simps) simp
    qed simp
  qed
qed

definition ascii_text :: "ustr \<Rightarrow> bool" where
  "ascii_text s \<longleftrightarrow> list_all (\<lambda>c. c < 128) s"

definition pow_hash :: "env \<Rightarrow> ustr \<Rightarrow> int \<Rightarrow> bytes" where
  "pow_hash E rid n = sha256 E (RELAY_POW_DOMAIN @ map word_of_nat rid @ [0] @ map word_of_nat (py_str_int n))"

definition meets :: "env \<Rightarrow> ustr \<Rightarrow> int \<Rightarrow> int \<Rightarrow> bool" where
  "meets E rid required_bits n \<longleftrightarrow> required_bits \<le> int (leading_zero_bits (pow_hash E rid n))"

lemma digit_isdigit: "is_digit c \<Longrightarrow> uni_isdigit c"
  by (simp add: is_digit_def uni_isdigit_def digit_ranges_def)

lemma numeral_chars: "0 \<le> n \<Longrightarrow> list_all is_digit (py_str_int n)"
  using dec_digits by (simp add: py_str_int_def)

lemma relay_pow_digest_numeral:
  assumes "ascii_text rid" "0 \<le> n"
  shows "relay_pow_digest E rid (py_str_int n) = (if n < 10 ^ 64 then Inr (pow_hash E rid n)
    else policy_error ''relay proof nonce must be a decimal integer of 64 digits or fewer'')"
proof -
  have digits: "list_all uni_isdigit (py_str_int n)" "list_all (\<lambda>c. c < 128) (py_str_int n)"
    using numeral_chars [OF assms(2)] digit_isdigit by (auto simp: list_all_iff is_digit_def)
  have len: "64 < length (py_str_int n) \<longleftrightarrow> \<not> n < 10 ^ 64"
  proof
    assume "64 < length (py_str_int n)"
    then have "\<not> nat n < 10 ^ 64" using dec_length [of "nat n" 64] assms(2) by (auto simp: py_str_int_def)
    then show "\<not> n < 10 ^ 64" by (simp add: nat_less_iff assms(2))
  next
    assume "\<not> n < 10 ^ 64"
    then have "10 ^ 64 \<le> nat n" by (simp add: le_nat_iff assms(2))
    then show "64 < length (py_str_int n)" using dec_length_more assms(2) by (simp add: py_str_int_def)
  qed
  have "py_str_int n \<noteq> []" by (simp add: py_str_int_def)
  with digits len assms(1) show ?thesis
    by (simp add: relay_pow_digest_def encode_ascii_def ascii_text_def pow_hash_def)
qed

lemma relay_pow_digest_not_ascii: "\<not> ascii_text rid \<Longrightarrow> \<exists>e. relay_pow_digest E rid nonce = Inl e"
  by (simp add: relay_pow_digest_def encode_ascii_def ascii_text_def policy_error_def)

text \<open>The loop ends, because a nonce of more than 64 digits is refused; it gives back the first nonce
  that meets the difficulty, and fails only when none of those that it may try does.\<close>

definition mining_result :: "env \<Rightarrow> ustr \<Rightarrow> int \<Rightarrow> int option \<Rightarrow> int \<Rightarrow> int \<Rightarrow> ustr result \<Rightarrow> bool" where
  "mining_result E rid required_bits max_attempts nonce attempts r = (case r of
     Inr t \<Rightarrow> \<exists>n. nonce \<le> n \<and> n < 10 ^ 64 \<and> t = py_str_int n \<and> meets E rid required_bits n
       \<and> (\<forall>m. nonce \<le> m \<and> m < n \<longrightarrow> \<not> meets E rid required_bits m)
   | Inl e \<Rightarrow> exc_of e = PolicyError \<and> (\<forall>n. nonce \<le> n \<and> n < 10 ^ 64
       \<and> (\<forall>k. max_attempts = Some k \<longrightarrow> attempts + (n - nonce) < k) \<longrightarrow> \<not> meets E rid required_bits n))"

lemma mine_loop_run:
  assumes rid: "ascii_text rid" and n: "0 \<le> nonce"
  shows "\<exists>r. mine_loop E rid required_bits max_attempts nonce attempts = Some r
    \<and> mining_result E rid required_bits max_attempts nonce attempts r"
  using n
proof (induction "nat (10 ^ 64 - nonce)" arbitrary: nonce attempts rule: less_induct)
  case less
  note unfold = mine_loop.simps [of E rid required_bits max_attempts nonce attempts]
  show ?case
  proof (cases "(case max_attempts of None \<Rightarrow> True | Some m \<Rightarrow> attempts < m) \<and> nonce < 10 ^ 64")
    case stop: False
    then show ?thesis
      using unfold relay_pow_digest_numeral [OF rid less.prems, of E]
      by (auto simp: mining_result_def policy_error_def split: option.splits if_splits)
  next
    case go: True
    show ?thesis
    proof (cases "meets E rid required_bits nonce")
      case True
      with go show ?thesis using unfold relay_pow_digest_numeral [OF rid less.prems, of E]
        by (force simp: mining_result_def meets_def)
    next
      case False
      have "\<exists>r. mine_loop E rid required_bits max_attempts (nonce + 1) (attempts + 1) = Some r
          \<and> mining_result E rid required_bits max_attempts (nonce + 1) (attempts + 1) r"
        using go less.prems by (intro less.hyps) auto
      moreover have "mine_loop E rid required_bits max_attempts nonce attempts
          = mine_loop E rid required_bits max_attempts (nonce + 1) (attempts + 1)"
        using go False unfold relay_pow_digest_numeral [OF rid less.prems, of E] by (simp add: meets_def)
      moreover have "mining_result E rid required_bits max_attempts nonce attempts r"
        if r: "mining_result E rid required_bits max_attempts (nonce + 1) (attempts + 1) r" for r
      proof (cases r)
        case (Inl e)
        have "\<not> meets E rid required_bits n" if "nonce \<le> n" "n < 10 ^ 64"
          "\<forall>k. max_attempts = Some k \<longrightarrow> attempts + (n - nonce) < k" for n
          using r that False Inl by (cases "n = nonce") (auto simp: mining_result_def algebra_simps)
        with r Inl show ?thesis by (simp add: mining_result_def)
      next
        case (Inr t)
        with r obtain n where "nonce + 1 \<le> n" "n < 10 ^ 64" "t = py_str_int n" "meets E rid required_bits n"
          "\<forall>m. nonce + 1 \<le> m \<and> m < n \<longrightarrow> \<not> meets E rid required_bits m"
          by (auto simp: mining_result_def)
        moreover from this False have "\<forall>m. nonce \<le> m \<and> m < n \<longrightarrow> \<not> meets E rid required_bits m"
          by (metis add_le_cancel_right order_le_less zless_imp_add1_zle)
        ultimately show ?thesis using Inr by (auto simp: mining_result_def intro!: exI [of _ n])
      qed
      ultimately show ?thesis by auto
    qed
  qed
qed

lemma mine_relay_pow_total: "\<exists>r. mine_relay_pow E rid required_bits start max_attempts = Some r"
proof (cases "ascii_text rid")
  case True
  from mine_loop_run [OF this, of "max 0 start" E required_bits max_attempts 0]
  show ?thesis unfolding mine_relay_pow_def by auto
next
  case False
  from relay_pow_digest_not_ascii [OF False]
  obtain e where "relay_pow_digest E rid (py_str_int (max 0 start)) = Inl e" by blast
  then show ?thesis unfolding mine_relay_pow_def by (subst mine_loop.simps) (auto split: option.split)
qed

lemma mined_nonce_verifies:
  assumes "ascii_text rid" "mine_relay_pow E rid required_bits start max_attempts = Some (Inr t)"
  shows "verify_relay_pow E rid (Some t) required_bits = Inr True"
proof (cases "required_bits \<le> 0")
  case False
  with assms mine_loop_run [OF assms(1), of "max 0 start" E required_bits max_attempts 0]
  obtain n where "0 \<le> n" "n < 10 ^ 64" "t = py_str_int n" "meets E rid required_bits n"
    by (auto simp: mine_relay_pow_def mining_result_def)
  with relay_pow_digest_numeral [OF assms(1), of n E] False show ?thesis
    by (simp add: verify_relay_pow_def meets_def)
qed (simp add: verify_relay_pow_def)

lemma mining_complete:
  assumes "ascii_text rid" "0 < required_bits" "max 0 start \<le> n" "n < 10 ^ 64"
    and "\<forall>k. max_attempts = Some k \<longrightarrow> n - max 0 start < k" and "meets E rid required_bits n"
  shows "\<exists>t. mine_relay_pow E rid required_bits start max_attempts = Some (Inr t)"
proof -
  obtain r where r: "mine_relay_pow E rid required_bits start max_attempts = Some r"
      "mining_result E rid required_bits max_attempts (max 0 start) 0 r"
    using mine_loop_run [OF assms(1), of "max 0 start" E required_bits max_attempts 0] assms(2)
    by (auto simp: mine_relay_pow_def)
  with assms show ?thesis by (cases r) (auto simp: mining_result_def)
qed

end
