(* ===== verification/Auth.thy ===== *)
theory Auth
  imports Config Crypto
begin

text \<open>
  \<^verbatim>\<open>src/hap/auth.py\<close>: tokens and client addresses. A request is the part of it that is read: its
  headers, by lower-case name, and the host of the connection. \<open>ipaddress\<close> of the standard library is
  the argument \<open>ip_library\<close>: \<open>ip_text s\<close> is \<open>str(ip_address(s))\<close>, and \<open>ip_within a cidr\<close> is
  \<open>ip_address(a) in ip_network(cidr, strict=False)\<close>, \<open>None\<close> where they raise \<open>ValueError\<close>.
  An \<open>HTTPException\<close> has its status code in front of its text.
\<close>

section \<open>Requests\<close>

record request =
  header :: "string \<Rightarrow> ustr option"
  client_host :: "ustr option"

record ip_library =
  ip_text :: "ustr \<Rightarrow> ustr option"
  ip_within :: "ustr \<Rightarrow> ustr \<Rightarrow> bool option"

definition http_error :: "string \<Rightarrow> 'a result" where
  "http_error m = Inl (Exn HTTPException m)"

section \<open>Tokens\<close>

text \<open>\<open>hmac.compare_digest\<close> on strings: only ASCII is allowed.\<close>

definition compare_digest :: "ustr \<Rightarrow> ustr \<Rightarrow> bool result" where
  "compare_digest a b = (if list_all (\<lambda>c. c < 128) a \<and> list_all (\<lambda>c. c < 128) b then Inr (a = b)
     else Inl (Exn TypeError ''comparing strings with non-ASCII characters is not supported''))"

fun constant_time_member :: "ustr \<Rightarrow> ustr list \<Rightarrow> bool result" where
  "constant_time_member v [] = Inr False"
| "constant_time_member v (c # cs) =
     bindE (compare_digest v c) (\<lambda>same. if same then Inr True else constant_time_member v cs)"

definition require_submission_token :: "request \<Rightarrow> bool \<Rightarrow> ustr list \<Rightarrow> ustr option result" where
  "require_submission_token q required tokens =
     (let supplied = header q ''x-hap-submission-token'' in
      if \<not> required then
        (case supplied of
           Some (c # s) \<Rightarrow> bindE (constant_time_member (c # s) tokens) (\<lambda>m. Inr (if m then supplied else None))
         | _ \<Rightarrow> Inr None)
      else
        (case supplied of
           Some (c # s) \<Rightarrow> bindE (constant_time_member (c # s) tokens) (\<lambda>m.
             if m then Inr supplied else http_error ''401 valid submission token required'')
         | _ \<Rightarrow> http_error ''401 valid submission token required''))"

text \<open>\<open>authorization.partition(" ")\<close>\<close>

definition partition_space :: "ustr \<Rightarrow> ustr \<times> ustr" where
  "partition_space s = (takeWhile (\<lambda>c. c \<noteq> 32) s, drop 1 (dropWhile (\<lambda>c. c \<noteq> 32) s))"

definition require_admin_token :: "request \<Rightarrow> ustr option \<Rightarrow> unit result" where
  "require_admin_token q expected =
     (if no_token expected then http_error ''503 coordinator administration is not configured''
      else let parts = partition_space (case header q ''authorization'' of None \<Rightarrow> [] | Some s \<Rightarrow> s);
          refused = http_error ''401 valid coordinator bearer token required'' in
        if lower (fst parts) \<noteq> str ''bearer'' \<or> snd parts = [] then refused
        else bindE (compare_digest (snd parts) (the expected)) (\<lambda>same. if same then Inr () else refused))"

definition token_rate_key :: "env \<Rightarrow> ustr option \<Rightarrow> ustr option result" where
  "token_rate_key E token =
     (if no_token token then Inr None
      else bindE (encode_utf8 (the token)) (\<lambda>bs. Inr (Some (str ''token:'' @ take 24 (sha256_hex E bs)))))"

section \<open>Client addresses\<close>

text \<open>\<open>any\<close> stops at the first network that contains the address; a network that does not parse
  before that raises \<open>ValueError\<close>, which counts as not trusted.\<close>

fun within_any :: "ip_library \<Rightarrow> ustr \<Rightarrow> ustr list \<Rightarrow> bool option" where
  "within_any L a [] = Some False"
| "within_any L a (cidr # cidrs) = (case ip_within L a cidr of
     None \<Rightarrow> None | Some True \<Rightarrow> Some True | Some False \<Rightarrow> within_any L a cidrs)"

definition trusted_client_ip :: "ip_library \<Rightarrow> request \<Rightarrow> ustr list \<Rightarrow> ustr" where
  "trusted_client_ip L q cidrs =
     (let peer = (case client_host q of Some h \<Rightarrow> h | None \<Rightarrow> str ''unknown'') in
      if cidrs = [] \<or> peer = str ''unknown'' then peer
      else if \<not> (ip_text L peer \<noteq> None \<and> within_any L peer cidrs = Some True) then peer
      else let forwarded = (case header q ''x-forwarded-for'' of Some s \<Rightarrow> s | None \<Rightarrow> []);
          candidate = py_strip (takeWhile (\<lambda>c. c \<noteq> 44) forwarded) in
        if candidate = [] then peer
        else case ip_text L candidate of Some a \<Rightarrow> a | None \<Rightarrow> peer)"

section \<open>What the checks grant\<close>

lemma compare_digest_True [result_simps]:
  "compare_digest a b = Inr True \<longleftrightarrow> a = b \<and> list_all (\<lambda>c. c < 128) a"
  by (auto simp: compare_digest_def)

lemma constant_time_member_True: "constant_time_member v cs = Inr True \<Longrightarrow> v \<in> set cs"
  by (induction cs) (auto simp: bindE_eq_Inr result_simps split: if_splits)

lemma constant_time_member_ascii:
  "list_all (\<lambda>c. c < 128) v \<Longrightarrow> \<forall>c \<in> set cs. list_all (\<lambda>c. c < 128) c \<Longrightarrow>
     constant_time_member v cs = Inr (v \<in> set cs)"
  by (induction cs) (auto simp: compare_digest_def)

lemma require_admin_token_eq_Inr:
  "require_admin_token q expected = Inr u \<longleftrightarrow> (\<exists>t a. expected = Some t \<and> t \<noteq> [] \<and> list_all (\<lambda>c. c < 128) t
     \<and> header q ''authorization'' = Some a \<and> lower (fst (partition_space a)) = str ''bearer''
     \<and> snd (partition_space a) = t)"
  by (cases "header q ''authorization''"; cases expected)
    (auto simp: require_admin_token_def no_token_def http_error_def Let_def partition_space_def bindE_eq_Inr
      compare_digest_def split: if_splits)

lemma require_submission_token_required:
  assumes "require_submission_token q True tokens = Inr t"
  shows "\<exists>s. t = Some s \<and> header q ''x-hap-submission-token'' = Some s \<and> s \<noteq> [] \<and> s \<in> set tokens"
  using assms constant_time_member_True
  by (auto simp: require_submission_token_def http_error_def Let_def bindE_eq_Inr result_simps
      split: option.splits list.splits if_splits)

text \<open>A client that does not connect through a trusted proxy cannot choose its address.\<close>

lemma untrusted_address_kept:
  assumes "client_host q = Some h" "\<not> (ip_text L h \<noteq> None \<and> within_any L h cidrs = Some True)"
  shows "trusted_client_ip L q cidrs = h"
  using assms by (auto simp: trusted_client_ip_def Let_def)

end
