(* ===== verification/Middleware.thy ===== *)
theory Middleware
  imports PyValue
begin

text \<open>
  \<^verbatim>\<open>src/hap/middleware.py\<close>: the body limit, the security headers and the rate limiter. The application
  behind the body limit is a program that awaits messages and answers; what it sends while it still
  reads is not seen. The clock of the rate limiter is an
  argument, and its times are integers (ticks of the clock), so that the rounding of the subtraction of
  two floats is not modelled. The lock makes \<open>allow\<close> one step.
\<close>

section \<open>Body limit\<close>

text \<open>\<open>int\<close> of a byte string: as of the string (with its limit of digits), but white space is ASCII only.\<close>

definition int_of_bytes :: "bytes \<Rightarrow> int result" where
  "int_of_bytes bs = (let s = map unat bs in
     if list_ex (\<lambda>c. 128 \<le> c \<or> c \<in> {28, 29, 30, 31}) s
     then Inl (Exn ValueError ''invalid literal for int() with base 10'') else int_of_str s)"

text \<open>A message that the application receives: the body of a part of a request, or another event.\<close>

datatype asgi_message = Body "bytes option" | OtherMessage

fun body_bytes :: "asgi_message \<Rightarrow> nat" where
  "body_bytes (Body (Some bs)) = length bs"
| "body_bytes _ = 0"

definition body_size :: "asgi_message list \<Rightarrow> nat" where
  "body_size ms = sum_list (map body_bytes ms)"

text \<open>The application behind the limit: it answers, lets \<open>RequestTooLarge\<close> through, or awaits a message, which
  may raise \<open>RequestTooLarge\<close> there (\<open>None\<close>), and goes on. Any other result of it is an answer.\<close>

datatype 'r application =
  Answer 'r
| LetThrough
| Receive "asgi_message option \<Rightarrow> 'r application"

datatype 'r outcome = Returned 'r | TooLargeRaised | Awaiting

text \<open>\<open>limited_receive\<close>: the message, or \<open>None\<close> where it raises; the total has grown in both cases.\<close>

definition limited_receive :: "int \<Rightarrow> int \<Rightarrow> asgi_message \<Rightarrow> asgi_message option \<times> int" where
  "limited_receive max_bytes sofar m = (case m of
     OtherMessage \<Rightarrow> (Some m, sofar)
   | Body b \<Rightarrow> (let sofar = sofar + int (length (case b of Some bs \<Rightarrow> bs | None \<Rightarrow> [])) in
       (if max_bytes < sofar then None else Some m, sofar)))"

definition plain_receive :: "unit \<Rightarrow> asgi_message \<Rightarrow> asgi_message option \<times> unit" where
  "plain_receive sofar m = (Some m, sofar)"

text \<open>The application on the messages that arrive, through a \<open>receive\<close> with a state: what becomes of it, and
  the messages that it has been given. It may answer before it has read everything, and it may go on
  waiting after the last message.\<close>

primrec run_app ::
  "('t \<Rightarrow> asgi_message \<Rightarrow> asgi_message option \<times> 't) \<Rightarrow> 'r application \<Rightarrow> 't \<Rightarrow> asgi_message list
    \<Rightarrow> 'r outcome \<times> asgi_message list" where
  "run_app receive (Answer r) sofar ms = (Returned r, [])"
| "run_app receive LetThrough sofar ms = (TooLargeRaised, [])"
| "run_app receive (Receive k) sofar ms = (case ms of
     [] \<Rightarrow> (Awaiting, [])
   | m # ms' \<Rightarrow> (case receive sofar m of
       (None, sofar') \<Rightarrow> run_app receive (k None) sofar' ms'
     | (Some m', sofar') \<Rightarrow> (case run_app receive (k (Some m')) sofar' ms' of (out, seen) \<Rightarrow> (out, m' # seen))))"

text \<open>\<open>__call__\<close>: the declared length is checked before the application is called; what the application does
  is passed on, except \<open>RequestTooLarge\<close>. Scopes that are not HTTP are not limited.\<close>

datatype 'r limited = Passed "'r outcome" | Rejected string

definition body_limit ::
  "bool \<Rightarrow> int \<Rightarrow> (bytes \<times> bytes) list \<Rightarrow> 'r application \<Rightarrow> asgi_message list \<Rightarrow> 'r limited \<times> asgi_message list" where
  "body_limit http max_bytes headers app ms =
     (if \<not> http then (case run_app plain_receive app () ms of (out, seen) \<Rightarrow> (Passed out, seen))
      else let serve = (case run_app (limited_receive max_bytes) app 0 ms of
            (TooLargeRaised, seen) \<Rightarrow> (Rejected ''request body is too large'', seen)
          | (out, seen) \<Rightarrow> (Passed out, seen)) in
        case map_of headers (map word_of_nat (str ''content-length'')) of
          None \<Rightarrow> serve
        | Some v \<Rightarrow> (case int_of_bytes v of
            Inl _ \<Rightarrow> (Rejected ''invalid Content-Length'', [])
          | Inr n \<Rightarrow> if max_bytes < n then (Rejected ''request body is too large'', []) else serve))"

text \<open>What is to be shown refers to the run without the limit, and to applications that do not catch
  \<open>RequestTooLarge\<close>.\<close>

definition length_accepted :: "int \<Rightarrow> (bytes \<times> bytes) list \<Rightarrow> bool" where
  "length_accepted max_bytes headers \<longleftrightarrow> (case map_of headers (map word_of_nat (str ''content-length'')) of
     None \<Rightarrow> True | Some v \<Rightarrow> (case int_of_bytes v of Inl _ \<Rightarrow> False | Inr n \<Rightarrow> n \<le> max_bytes))"

primrec lets_through :: "'r application \<Rightarrow> bool" where
  "lets_through (Answer r) = True"
| "lets_through LetThrough = False"
| "lets_through (Receive k) = (k None = LetThrough \<and> (\<forall>m. lets_through (k (Some m))))"

lemma limited_receive_eq:
  "limited_receive max_bytes sofar m =
    (if m \<noteq> OtherMessage \<and> max_bytes < sofar + int (body_bytes m) then None else Some m, sofar + int (body_bytes m))"
  by (cases m rule: body_bytes.cases) (auto simp: limited_receive_def Let_def)

lemma run_limited_Receive:
  "run_app (limited_receive max_bytes) (Receive k) sofar (m # ms) =
    (if m \<noteq> OtherMessage \<and> max_bytes < sofar + int (body_bytes m)
     then run_app (limited_receive max_bytes) (k None) (sofar + int (body_bytes m)) ms
     else case run_app (limited_receive max_bytes) (k (Some m)) (sofar + int (body_bytes m)) ms of
       (out, seen) \<Rightarrow> (out, m # seen))"
  using limited_receive_eq [of max_bytes sofar m] by simp

lemma run_plain_Receive:
  "run_app plain_receive (Receive k) () (m # ms) =
    (case run_app plain_receive (k (Some m)) () ms of (out, seen) \<Rightarrow> (out, m # seen))"
  using plain_receive_def [of "()" m] by simp

lemma body_size_simps [simp]: "body_size [] = 0" "body_size (m # ms) = body_bytes m + body_size ms"
    "body_size (ms @ ns) = body_size ms + body_size ns"
  by (simp_all add: body_size_def)

lemma body_bytes_other: "body_bytes m \<noteq> 0 \<Longrightarrow> m \<noteq> OtherMessage" by auto

text \<open>Whatever the application does with the exception, it is never given more than the limit.\<close>

lemma run_limited_bound:
  "run_app (limited_receive max_bytes) app sofar ms = (out, seen) \<Longrightarrow>
   int (body_size seen) \<le> max 0 (max_bytes - sofar)"
proof (induction app arbitrary: sofar ms seen)
  case (Receive k)
  show ?case
  proof (cases ms)
    case (Cons m ms')
    note run = Receive.prems [unfolded Cons]
    show ?thesis
    proof (cases "m \<noteq> OtherMessage \<and> max_bytes < sofar + int (body_bytes m)")
      case True
      with run have "run_app (limited_receive max_bytes) (k None) (sofar + int (body_bytes m)) ms' = (out, seen)"
        by (simp add: run_limited_Receive del: run_app.simps(3))
      from Receive.IH [OF rangeI this] show ?thesis by simp
    next
      case False
      with run obtain seen' where r: "run_app (limited_receive max_bytes) (k (Some m)) (sofar + int (body_bytes m)) ms' = (out, seen')"
        "seen = m # seen'"
        by (auto simp: run_limited_Receive simp del: run_app.simps split: prod.splits)
      from Receive.IH [OF rangeI r(1)] False body_bytes_other [of m] r(2) show ?thesis
        by (cases "body_bytes m = 0") auto
    qed
  qed (use Receive.prems in simp)
qed simp_all

text \<open>A run that stays within the limit is as if there were none.\<close>

lemma run_limited_within:
  "run_app plain_receive app () ms = (out, got) \<Longrightarrow> sofar + int (body_size got) \<le> max_bytes \<Longrightarrow>
   run_app (limited_receive max_bytes) app sofar ms = (out, got)"
proof (induction app arbitrary: sofar ms got)
  case (Receive k)
  show ?case
  proof (cases ms)
    case (Cons m ms')
    with Receive.prems(1) obtain got' where r: "run_app plain_receive (k (Some m)) () ms' = (out, got')" "got = m # got'"
      by (auto simp: run_plain_Receive simp del: run_app.simps split: prod.splits)
    from Receive.IH [OF rangeI r(1), of "sofar + int (body_bytes m)"] Receive.prems(2) r(2) Cons
    show ?thesis by (simp add: run_limited_Receive del: run_app.simps(3))
  qed (use Receive.prems in simp)
qed simp_all

text \<open>A run that would be given more ends at the message that exceeds the limit.\<close>

lemma run_limited_beyond:
  "lets_through app \<Longrightarrow> run_app plain_receive app () ms = (out, got) \<Longrightarrow> sofar \<le> max_bytes \<Longrightarrow>
   max_bytes < sofar + int (body_size got) \<Longrightarrow>
   \<exists>seen m rest. run_app (limited_receive max_bytes) app sofar ms = (TooLargeRaised, seen)
     \<and> got = seen @ m # rest \<and> max_bytes < sofar + int (body_size (seen @ [m]))"
proof (induction app arbitrary: sofar ms got)
  case (Receive k)
  from Receive.prems obtain m ms' where ms: "ms = m # ms'" by (cases ms) auto
  with Receive.prems(2) obtain got' where r: "run_app plain_receive (k (Some m)) () ms' = (out, got')" "got = m # got'"
    by (auto simp: run_plain_Receive simp del: run_app.simps split: prod.splits)
  show ?case
  proof (cases "max_bytes < sofar + int (body_bytes m)")
    case True
    with Receive.prems(3) have "m \<noteq> OtherMessage" by (auto intro!: body_bytes_other)
    with True Receive.prems(1) ms
    have "run_app (limited_receive max_bytes) (Receive k) sofar ms = (TooLargeRaised, [])"
      by (simp add: run_limited_Receive del: run_app.simps(3))
    with True r(2) show ?thesis by auto
  next
    case False
    from Receive.IH [OF rangeI _ r(1), of "sofar + int (body_bytes m)"] False Receive.prems r(2)
    obtain seen m' rest where s: "run_app (limited_receive max_bytes) (k (Some m)) (sofar + int (body_bytes m)) ms' = (TooLargeRaised, seen)"
      "got' = seen @ m' # rest" "max_bytes < sofar + int (body_bytes m) + int (body_size (seen @ [m']))"
      by auto
    from False s(1) ms have "run_app (limited_receive max_bytes) (Receive k) sofar ms = (TooLargeRaised, m # seen)"
      by (simp add: run_limited_Receive del: run_app.simps(3))
    with s r(2) show ?thesis
      by (intro exI [of _ "m # seen"] exI [of _ m'] exI [of _ rest]) simp
  qed
qed simp_all

lemma plain_no_exception:
  "lets_through app \<Longrightarrow> run_app plain_receive app () ms = (out, got) \<Longrightarrow> out \<noteq> TooLargeRaised"
proof (induction app arbitrary: ms got)
  case (Receive k)
  show ?case
  proof (cases ms)
    case (Cons m ms')
    with Receive.prems(2) obtain got' where r: "run_app plain_receive (k (Some m)) () ms' = (out, got')"
      by (auto simp: run_plain_Receive simp del: run_app.simps split: prod.splits)
    show ?thesis using Receive.IH [OF rangeI _ r] Receive.prems(1) by simp
  qed (use Receive.prems(2) in auto)
qed auto

text \<open>What is passed on, and what is rejected.\<close>

lemma body_limit_cases:
  assumes limit: "body_limit True max_bytes headers app ms = (result, seen)"
    and plain: "run_app plain_receive app () ms = (out, got)" and m: "0 \<le> max_bytes"
  shows "int (body_size seen) \<le> max_bytes"
    and "\<not> length_accepted max_bytes headers \<Longrightarrow> seen = [] \<and> (\<exists>why. result = Rejected why)"
    and "length_accepted max_bytes headers \<Longrightarrow> out \<noteq> TooLargeRaised \<Longrightarrow> int (body_size got) \<le> max_bytes \<Longrightarrow>
      result = Passed out \<and> seen = got"
    and "length_accepted max_bytes headers \<Longrightarrow> lets_through app \<Longrightarrow> max_bytes < int (body_size got) \<Longrightarrow>
      result = Rejected ''request body is too large''
      \<and> (\<exists>m rest. got = seen @ m # rest \<and> max_bytes < int (body_size (seen @ [m])))"
proof -
  obtain lout lseen where l: "run_app (limited_receive max_bytes) app 0 ms = (lout, lseen)" by force
  have b: "int (body_size lseen) \<le> max_bytes" using run_limited_bound [OF l] m by simp
  have eq: "(result, seen) = (if length_accepted max_bytes headers
      then (case lout of TooLargeRaised \<Rightarrow> Rejected ''request body is too large'' | _ \<Rightarrow> Passed lout, lseen) else (result, []))"
    and refused: "\<not> length_accepted max_bytes headers \<Longrightarrow> seen = [] \<and> (\<exists>why. result = Rejected why)"
    using limit by (auto simp: body_limit_def length_accepted_def l split: option.splits sum.splits outcome.splits if_splits)
  show "int (body_size seen) \<le> max_bytes" using eq b m by (auto split: if_splits)
  show "\<not> length_accepted max_bytes headers \<Longrightarrow> seen = [] \<and> (\<exists>why. result = Rejected why)" by (rule refused)
  show "result = Passed out \<and> seen = got"
    if "length_accepted max_bytes headers" "out \<noteq> TooLargeRaised" "int (body_size got) \<le> max_bytes"
    using that eq run_limited_within [OF plain, of 0 max_bytes] l by (cases out) auto
  show "result = Rejected ''request body is too large''
      \<and> (\<exists>m rest. got = seen @ m # rest \<and> max_bytes < int (body_size (seen @ [m])))"
    if "length_accepted max_bytes headers" "lets_through app" "max_bytes < int (body_size got)"
    using that eq run_limited_beyond [OF that(2) plain m, of] l by auto
qed

section \<open>Security headers\<close>

definition SELF :: string where "SELF = [CHR 0x27] @ ''self'' @ [CHR 0x27]"
definition NONE :: string where "NONE = [CHR 0x27] @ ''none'' @ [CHR 0x27]"

definition security_headers :: "(string \<times> string) list" where
  "security_headers =
     [(''x-content-type-options'', ''nosniff''), (''x-frame-options'', ''DENY''),
      (''referrer-policy'', ''no-referrer''),
      (''permissions-policy'', ''camera=(), microphone=(), geolocation=()''),
      (''content-security-policy'', concat [''default-src '', SELF, ''; script-src '', SELF, ''; style-src '', SELF,
        ''; img-src '', SELF, '' data:; connect-src '', SELF, ''; frame-ancestors '', NONE, ''; base-uri '', NONE,
        ''; form-action '', SELF])]"

text \<open>\<open>secure_send\<close> on a message that starts a response: its headers with these after them.\<close>

definition secure_send :: "(string \<times> string) list option \<Rightarrow> (string \<times> string) list" where
  "secure_send headers = (case headers of None \<Rightarrow> [] | Some hs \<Rightarrow> hs) @ security_headers"

section \<open>Rate limiter\<close>

record limiter =
  lm_requests :: int
  lm_window :: int
  lm_max_keys :: int
  lm_events :: "(ustr \<times> int list) list"
  lm_operations :: nat

definition drop_expired :: "int \<Rightarrow> int list \<Rightarrow> int list" where
  "drop_expired cutoff queue = dropWhile (\<lambda>t. t \<le> cutoff) queue"

definition prune :: "int \<Rightarrow> (ustr \<times> int list) list \<Rightarrow> (ustr \<times> int list) list" where
  "prune cutoff events = filter (\<lambda>(k, q). q \<noteq> []) (map (\<lambda>(k, q). (k, drop_expired cutoff q)) events)"

definition put_queue :: "ustr \<Rightarrow> int list \<Rightarrow> (ustr \<times> int list) list \<Rightarrow> (ustr \<times> int list) list" where
  "put_queue key q events = map (\<lambda>(k, q'). if k = key then (k, q) else (k, q')) events"

text \<open>The queue of a key that is in the dictionary: expired events are dropped, and the call is an event
  when there is room.\<close>

definition grant :: "limiter \<Rightarrow> int \<Rightarrow> ustr \<Rightarrow> int list \<Rightarrow> bool \<times> limiter" where
  "grant L now key queue =
     (let q = drop_expired (now - lm_window L) queue in
      if lm_requests L \<le> int (length q) then (False, L\<lparr>lm_events := put_queue key q (lm_events L)\<rparr>)
      else (True, L\<lparr>lm_events := put_queue key (q @ [now]) (lm_events L)\<rparr>))"

definition allow :: "int \<Rightarrow> ustr \<Rightarrow> limiter \<Rightarrow> bool \<times> limiter" where
  "allow now key L =
     (let cutoff = now - lm_window L;
          n = lm_operations L + 1;
          events = (if n mod 1000 = 0 then prune cutoff (lm_events L) else lm_events L);
          L1 = L\<lparr>lm_operations := n, lm_events := events\<rparr> in
      case map_of events key of
        Some queue \<Rightarrow> grant L1 now key queue
      | None \<Rightarrow>
          if lm_max_keys L \<le> int (length events) then
            (let pruned = prune cutoff events; L2 = L1\<lparr>lm_events := pruned\<rparr> in
             if lm_max_keys L \<le> int (length pruned) then (False, L2)
             else grant (L2\<lparr>lm_events := pruned @ [(key, [])]\<rparr>) now key [])
          else grant (L1\<lparr>lm_events := events @ [(key, [])]\<rparr>) now key [])"

section \<open>The rate limiter against a sliding window\<close>

text \<open>The specification keeps every granted call; the limiter keeps the calls of the last window.\<close>

definition queue_of :: "(ustr \<times> int list) list \<Rightarrow> ustr \<Rightarrow> int list" where
  "queue_of events k = (case map_of events k of None \<Rightarrow> [] | Some q \<Rightarrow> q)"

definition recent :: "int \<Rightarrow> int list \<Rightarrow> int list" where
  "recent cutoff ts = filter (\<lambda>t. cutoff < t) ts"

definition events_ok :: "int \<Rightarrow> (ustr \<times> int list) list \<Rightarrow> bool" where
  "events_ok now events \<longleftrightarrow> distinct (map fst events)
     \<and> (\<forall>(k, q) \<in> set events. sorted q \<and> (\<forall>t \<in> set q. t \<le> now))"

lemma drop_expired_recent: "sorted q \<Longrightarrow> drop_expired c q = recent c q"
proof (induction q)
  case (Cons t q)
  have "filter (\<lambda>t. c < t) (t # q) = t # q" if "\<not> t \<le> c"
    using that Cons.prems by (auto simp: filter_id_conv)
  with Cons show ?case by (auto simp: drop_expired_def recent_def)
qed (simp add: drop_expired_def recent_def)

lemma recent_recent: "c \<le> c' \<Longrightarrow> recent c' (recent c ts) = recent c' ts"
  by (auto simp: recent_def intro: filter_cong)

lemma recent_append [simp]: "recent c (xs @ ys) = recent c xs @ recent c ys"
  by (simp add: recent_def)

lemma queue_ok: "events_ok now es \<Longrightarrow> sorted (queue_of es k) \<and> (\<forall>t \<in> set (queue_of es k). t \<le> now)"
  by (auto simp: queue_of_def events_ok_def split: option.split dest!: map_of_SomeD)

lemma events_ok_later: "events_ok now es \<Longrightarrow> now \<le> now' \<Longrightarrow> events_ok now' es"
  by (fastforce simp: events_ok_def)

lemma map_of_map_value: "map_of (map (\<lambda>(k, q). (k, f q)) es) k = map_option f (map_of es k)"
  by (induction es) auto

lemma map_of_filter_value:
  "distinct (map fst es) \<Longrightarrow>
   map_of (filter (\<lambda>(k, q). P q) es) k = (case map_of es k of Some q \<Rightarrow> if P q then Some q else None | None \<Rightarrow> None)"
  by (induction es) (auto simp: map_of_eq_None_iff split: option.splits)

lemma queue_of_prune:
  assumes "events_ok now es"
  shows "queue_of (prune c es) k = recent c (queue_of es k)" "events_ok now (prune c es)"
proof -
  let ?m = "map (\<lambda>(k, q). (k, drop_expired c q)) es"
  have d: "distinct (map fst ?m)"
    using assms by (simp add: events_ok_def case_prod_unfold comp_def)
  have "queue_of (prune c es) k = drop_expired c (queue_of es k)"
    unfolding queue_of_def prune_def map_of_filter_value [OF d] map_of_map_value
    by (auto simp: drop_expired_def split: option.split) (metis dropWhile_eq_Nil_conv)
  also have "\<dots> = recent c (queue_of es k)" using queue_ok [OF assms] by (simp add: drop_expired_recent)
  finally show "queue_of (prune c es) k = recent c (queue_of es k)" .
  have "sorted (drop_expired c q) \<and> set (drop_expired c q) \<subseteq> set q" if "sorted q" for q
    using that by (simp add: drop_expired_recent recent_def sorted_wrt_filter)
  with assms d show "events_ok now (prune c es)"
    by (fastforce simp: events_ok_def prune_def distinct_map_filter_fst)
qed

lemma map_of_put:
  "map_of (put_queue key q es) k = (if k = key then map_option (\<lambda>_. q) (map_of es key) else map_of es k)"
  by (induction es) (auto simp: put_queue_def)

lemma queue_of_put:
  "map_of es key \<noteq> None \<Longrightarrow> queue_of (put_queue key q es) k = (if k = key then q else queue_of es k)"
  by (auto simp: queue_of_def map_of_put split: option.split)

lemma put_queue_keys: "map fst (put_queue key q es) = map fst es"
  by (simp add: put_queue_def case_prod_unfold comp_def if_distrib cong: if_cong)

lemma events_ok_put:
  "events_ok now es \<Longrightarrow> sorted q \<Longrightarrow> \<forall>t \<in> set q. t \<le> now \<Longrightarrow> events_ok now (put_queue key q es)"
  unfolding events_ok_def put_queue_keys by (auto simp: put_queue_def split: if_splits)

lemma queue_of_new: "map_of es key = None \<Longrightarrow> queue_of (es @ [(key, [])]) k = queue_of es k"
  by (simp add: queue_of_def map_add_def split: option.split)

lemma events_ok_new: "events_ok now es \<Longrightarrow> map_of es key = None \<Longrightarrow> events_ok now (es @ [(key, [])])"
  by (auto simp: events_ok_def map_of_eq_None_iff)

text \<open>What one call does: it grants when fewer than the allowed number of events are in the window, and
  records it; it refuses when the window is full, or when there is no room for another key.\<close>

lemma grant_step:
  assumes ok: "events_ok now (lm_events L)" and key: "map_of (lm_events L) key \<noteq> None"
    and queue: "queue_of (lm_events L) key = queue" and g: "grant L now key queue = (g, L')"
  defines "c \<equiv> now - lm_window L"
  shows "events_ok now (lm_events L')"
    and "recent c (queue_of (lm_events L') k) = recent c (queue_of (lm_events L) k) @ (if g \<and> k = key \<and> 0 < lm_window L then [now] else [])"
    and "g \<longleftrightarrow> int (length (recent c (queue_of (lm_events L) key))) < lm_requests L"
    and "lm_requests L' = lm_requests L \<and> lm_window L' = lm_window L \<and> lm_max_keys L' = lm_max_keys L"
proof -
  have q: "sorted queue" "\<forall>t \<in> set queue. t \<le> now" using queue_ok [OF ok, of key] queue by auto
  then have d: "drop_expired c queue = recent c queue" by (simp add: drop_expired_recent)
  have "sorted (recent c queue)" "\<forall>t \<in> set (recent c queue). t \<le> now"
    using q by (auto simp: recent_def sorted_wrt_filter)
  then show "events_ok now (lm_events L')"
    using g d [unfolded c_def] events_ok_put [OF ok] unfolding c_def
    by (auto simp: grant_def Let_def sorted_append split: if_splits)
  show "recent c (queue_of (lm_events L') k) = recent c (queue_of (lm_events L) k) @ (if g \<and> k = key \<and> 0 < lm_window L then [now] else [])"
    using g d [unfolded c_def] queue queue_of_put [OF key] recent_recent unfolding c_def
    by (auto simp: grant_def Let_def split: if_splits) (auto simp: recent_def)
  show "g \<longleftrightarrow> int (length (recent c (queue_of (lm_events L) key))) < lm_requests L"
    using g d [unfolded c_def] queue unfolding c_def by (auto simp: grant_def Let_def split: if_splits)
  show "lm_requests L' = lm_requests L \<and> lm_window L' = lm_window L \<and> lm_max_keys L' = lm_max_keys L"
    using g by (auto simp: grant_def Let_def split: if_splits)
qed

definition window_step :: "int \<Rightarrow> ustr \<Rightarrow> limiter \<Rightarrow> bool \<Rightarrow> limiter \<Rightarrow> bool" where
  "window_step now key L g L' \<longleftrightarrow> (let c = now - lm_window L in
     events_ok now (lm_events L')
     \<and> (\<forall>k. recent c (queue_of (lm_events L') k) = recent c (queue_of (lm_events L) k) @ (if g \<and> k = key then [now] else []))
     \<and> (g \<longrightarrow> int (length (recent c (queue_of (lm_events L) key))) < lm_requests L)
     \<and> (\<not> g \<longrightarrow> lm_requests L \<le> int (length (recent c (queue_of (lm_events L) key)))
          \<or> lm_max_keys L \<le> int (length (lm_events L')))
     \<and> lm_requests L' = lm_requests L \<and> lm_window L' = lm_window L \<and> lm_max_keys L' = lm_max_keys L)"

text \<open>The limiter seen as a sliding window: the times of the granted calls after a cutoff, by key.\<close>

definition window_view :: "int \<Rightarrow> limiter \<Rightarrow> ustr \<Rightarrow> int list" where
  "window_view cutoff L k = recent cutoff (queue_of (lm_events L) k)"

lemma allow_step:
  assumes ok: "events_ok now (lm_events L)" and w: "0 < lm_window L" and a: "allow now key L = (g, L')"
  shows "window_step now key L g L'"
proof -
  define c where "c = now - lm_window L"
  define es where "es = (if (lm_operations L + 1) mod 1000 = 0 then prune c (lm_events L) else lm_events L)"
  define L1 where "L1 = L\<lparr>lm_operations := lm_operations L + 1, lm_events := es\<rparr>"
  have a: "(case map_of es key of Some queue \<Rightarrow> grant L1 now key queue
    | None \<Rightarrow> if lm_max_keys L \<le> int (length es) then
        (if lm_max_keys L \<le> int (length (prune c es)) then (False, L1\<lparr>lm_events := prune c es\<rparr>)
         else grant ((L1\<lparr>lm_events := prune c es\<rparr>)\<lparr>lm_events := prune c es @ [(key, [])]\<rparr>) now key [])
      else grant (L1\<lparr>lm_events := es @ [(key, [])]\<rparr>) now key []) = (g, L')"
    using a unfolding allow_def Let_def c_def [symmetric] es_def [symmetric] L1_def [symmetric] by simp
  have es: "events_ok now es" "\<And>k. recent c (queue_of es k) = recent c (queue_of (lm_events L) k)"
    using ok queue_of_prune [OF ok, of c] by (auto simp: es_def recent_recent)
  have pr: "events_ok now (prune c es)" "\<And>k. recent c (queue_of (prune c es) k) = recent c (queue_of es k)"
    using queue_of_prune [OF es(1), of c] by (auto simp: recent_recent)
  have L1: "lm_requests L1 = lm_requests L" "lm_window L1 = lm_window L" "lm_max_keys L1 = lm_max_keys L" "lm_events L1 = es"
    by (simp_all add: L1_def)
  have granted: ?thesis if L2: "grant L2 now key queue = (g, L')" "events_ok now (lm_events L2)"
      "map_of (lm_events L2) key \<noteq> None" "queue_of (lm_events L2) key = queue"
      "\<And>k. recent c (queue_of (lm_events L2) k) = recent c (queue_of (lm_events L) k)"
      "lm_requests L2 = lm_requests L" "lm_window L2 = lm_window L" "lm_max_keys L2 = lm_max_keys L" for L2 queue
    using grant_step [OF L2(2-4) L2(1)] L2(5-8) w unfolding c_def window_step_def Let_def by auto
  have new: ?thesis if "grant (L2\<lparr>lm_events := es' @ [(key, [])]\<rparr>) now key [] = (g, L')" "events_ok now es'" "map_of es' key = None"
      "\<And>k. recent c (queue_of es' k) = recent c (queue_of (lm_events L) k)"
      "lm_requests L2 = lm_requests L" "lm_window L2 = lm_window L" "lm_max_keys L2 = lm_max_keys L" for L2 es'
    by (rule granted [OF that(1)])
      (use that events_ok_new in \<open>auto simp: queue_of_new queue_of_def [of es' key] queue_of_def [of _ key] map_add_def\<close>)
  show ?thesis
  proof (cases "map_of es key")
    case (Some queue)
    with a have "grant L1 now key queue = (g, L')" by simp
    then show ?thesis by (rule granted) (use Some es L1 in \<open>auto simp: queue_of_def [of es key]\<close>)
  next
    case None
    show ?thesis
    proof (cases "lm_max_keys L \<le> int (length es)")
      case False
      with a None have "grant (L1\<lparr>lm_events := es @ [(key, [])]\<rparr>) now key [] = (g, L')"
        by simp
      then show ?thesis by (rule new) (use None es L1 in auto)
    next
      case full: True
      show ?thesis
      proof (cases "lm_max_keys L \<le> int (length (prune c es))")
        case True
        with a None full have "g = False" "L' = L1\<lparr>lm_events := prune c es\<rparr>"
          by simp_all
        with pr es True L1 show ?thesis by (auto simp: window_step_def Let_def simp flip: c_def)
      next
        case False
        have n: "map_of (prune c es) key = None"
        proof -
          have "fst ` set (prune c es) \<subseteq> fst ` set es" by (force simp: prune_def)
          with None show ?thesis by (auto simp: map_of_eq_None_iff)
        qed
        from a None full False have "grant ((L1\<lparr>lm_events := prune c es\<rparr>)\<lparr>lm_events := prune c es @ [(key, [])]\<rparr>) now key [] = (g, L')"
          by simp
        then show ?thesis by (rule new) (use n pr es L1 in auto)
      qed
    qed
  qed
qed

text \<open>A sequence of calls and the grants among them.\<close>

fun granted_calls :: "(int \<times> ustr) list \<Rightarrow> limiter \<Rightarrow> (int \<times> ustr) list" where
  "granted_calls [] L = []"
| "granted_calls ((now, key) # cs) L = (case allow now key L of
     (g, L') \<Rightarrow> (if g then [(now, key)] else []) @ granted_calls cs L')"

definition grants_of :: "ustr \<Rightarrow> (int \<times> ustr) list \<Rightarrow> int list" where
  "grants_of k gs = map fst (filter (\<lambda>(t, k'). k' = k) gs)"

definition in_window :: "int \<Rightarrow> int \<Rightarrow> int list \<Rightarrow> int list" where
  "in_window w t ts = filter (\<lambda>u. t - w < u \<and> u \<le> t) ts"

definition window_inv :: "(ustr \<Rightarrow> int list) \<Rightarrow> limiter \<Rightarrow> int \<Rightarrow> bool" where
  "window_inv h L now \<longleftrightarrow> events_ok now (lm_events L) \<and> 0 < lm_window L
     \<and> (\<forall>k. recent (now - lm_window L) (h k) = recent (now - lm_window L) (queue_of (lm_events L) k))
     \<and> (\<forall>k. \<forall>u \<in> set (h k). u \<le> now)
     \<and> (\<forall>k t. int (length (in_window (lm_window L) t (h k))) \<le> lm_requests L)"

lemma in_window_recent: "now \<le> t \<Longrightarrow> length (in_window w t ts) \<le> length (recent (now - w) ts)"
  unfolding in_window_def recent_def
  by (induction ts) auto

lemma window_inv_later:
  assumes "window_inv h L now" "now \<le> now'"
  shows "window_inv h L now'"
proof -
  have r: "recent (now' - w) xs = recent (now' - w) ys" if "recent (now - w) xs = recent (now - w) ys" for w xs ys
    using arg_cong [OF that, of "recent (now' - w)"] assms(2) by (simp add: recent_recent)
  from assms have "u \<le> now'" if "u \<in> set (h k)" for k u
    using that unfolding window_inv_def by (meson order_trans)
  moreover have "events_ok now' (lm_events L)"
    using assms events_ok_later unfolding window_inv_def by blast
  ultimately show ?thesis using assms(1) unfolding window_inv_def by (intro conjI) (auto intro!: r)
qed

lemma window_inv_allow:
  assumes inv: "window_inv h L now" and a: "allow now key L = (g, L')"
  defines "h' \<equiv> \<lambda>k. h k @ (if g \<and> k = key then [now] else [])"
  shows "window_inv h' L' now"
proof -
  have ws: "window_step now key L g L'"
    using inv a by (intro allow_step) (auto simp: window_inv_def)
  have "int (length (in_window (lm_window L) t (h' k))) \<le> lm_requests L" for k t
  proof (cases "g \<and> k = key \<and> now \<le> t \<and> t - lm_window L < now")
    case True
    have "length (in_window (lm_window L) t (h k)) \<le> length (recent (now - lm_window L) (h k))"
      using True by (intro in_window_recent) simp
    also have "\<dots> = length (recent (now - lm_window L) (queue_of (lm_events L) key))"
      using inv True by (simp add: window_inv_def)
    finally have "int (length (in_window (lm_window L) t (h k))) < lm_requests L"
      using ws True by (auto simp: window_step_def Let_def)
    then show ?thesis using True by (simp add: h'_def in_window_def)
  next
    case False
    then have "in_window (lm_window L) t (h' k) = in_window (lm_window L) t (h k)"
      by (auto simp: h'_def in_window_def)
    then show ?thesis using inv by (simp add: window_inv_def)
  qed
  with ws inv show ?thesis
    by (auto simp: window_inv_def window_step_def Let_def h'_def) (auto simp: recent_def)
qed

lemma granted_calls_window:
  assumes "window_inv h L now" "sorted (now # map fst cs)"
  shows "int (length (in_window (lm_window L) t (h k @ grants_of k (granted_calls cs L)))) \<le> lm_requests L"
  using assms
proof (induction cs arbitrary: h L now)
  case Nil
  then show ?case by (simp add: grants_of_def window_inv_def)
next
  case (Cons c cs)
  obtain now' key where c: "c = (now', key)" by (cases c)
  obtain g L' where a: "allow now' key L = (g, L')" by (cases "allow now' key L")
  from Cons.prems c have "window_inv h L now'" by (intro window_inv_later [OF Cons.prems(1)]) simp
  from window_inv_allow [OF this a]
  have inv: "window_inv (\<lambda>k. h k @ (if g \<and> k = key then [now'] else [])) L' now'" .
  have same: "lm_window L' = lm_window L" "lm_requests L' = lm_requests L"
    using allow_step [OF _ _ a] \<open>window_inv h L now'\<close> by (auto simp: window_inv_def window_step_def Let_def)
  from Cons.IH [OF inv] Cons.prems(2) c
  have "int (length (in_window (lm_window L') t
      (h k @ (if g \<and> k = key then [now'] else []) @ grants_of k (granted_calls cs L')))) \<le> lm_requests L'"
    by simp
  moreover have "grants_of k (granted_calls (c # cs) L)
      = (if g \<and> k = key then [now'] else []) @ grants_of k (granted_calls cs L')"
    by (auto simp: c a grants_of_def)
  ultimately show ?case by (simp only: same)
qed

lemma rate_limited:
  assumes "lm_events L = []" "0 \<le> lm_requests L" "0 < lm_window L" "sorted (map fst cs)"
  shows "int (length (in_window (lm_window L) t (grants_of k (granted_calls cs L)))) \<le> lm_requests L"
proof (cases cs)
  case Nil
  with assms show ?thesis by (simp add: grants_of_def in_window_def)
next
  case (Cons c cs')
  have "window_inv (\<lambda>_. []) L (fst c)"
    using assms by (auto simp: window_inv_def events_ok_def queue_of_def in_window_def)
  from granted_calls_window [OF this, of cs t k] assms(4) Cons show ?thesis by simp
qed

text \<open>Another key does not use up the quota of this one, unless the table of keys is full.\<close>

lemma allow_granted:
  assumes "events_ok now (lm_events L)" "0 < lm_window L" "allow now key L = (g, L')"
    and "int (length (recent (now - lm_window L) (queue_of (lm_events L) key))) < lm_requests L"
    and "int (length (lm_events L')) < lm_max_keys L"
  shows "g"
  using allow_step [OF assms(1-3)] assms(4,5) by (auto simp: window_step_def Let_def)

end
