(* ===== verification/Manifests.thy ===== *)
theory Manifests
  imports Records
begin

text \<open>
  The two self-describing documents of a node: \<^verbatim>\<open>src/hap/view_manifest.py\<close>, which says how the reference
  view of this node selects records, and \<^verbatim>\<open>src/hap/funding.py\<close>, the donation address of a release.
  Both carry an identifier, the digest of the rest.
\<close>

section \<open>View manifest\<close>

definition view_manifest_body :: "ustr \<Rightarrow> bool \<Rightarrow> int \<Rightarrow> int \<Rightarrow> ustr list \<Rightarrow> json" where
  "view_manifest_body node_name profile_enabled cooling_blocks notice_blocks authors =
     obj [(''schema'', JStr (str ''hap.view-manifest'')), (''version'', JInt 1), (''node_name'', JStr node_name),
       (''responsible_publication_profile'',
          if profile_enabled then JStr (str ''hap-responsible-publication-v1'') else JNull),
       (''profile_enabled'', JBool profile_enabled),
       (''bitcoin_confirmation_required_for_feed'', JBool True),
       (''cooling_blocks'', JInt cooling_blocks),
       (''notice_protection_blocks'', JInt notice_blocks),
       (''later_unrecognised_notices_extend_window'', JBool False),
       (''recognised_accountable_authors'', JList (map JStr (sort (remdups authors)))),
       (''public_interest_declaration_automatically_enables_discovery'', JBool False),
       (''unilateral_emergency_override'', JBool False),
       (''subject_responses_receive_context_prominence'', JBool True),
       (''subject_response_automatically_suppresses_discovery'', JBool False),
       (''raw_protocol_endpoint_is_editorial_feed'', JBool False),
       (''reference_feed_endpoint'', JStr (str ''/v1/feed'')),
       (''raw_protocol_endpoint'', JStr (str ''/v1/records'')),
       (''exact_id_context_endpoint'', JStr (str ''/v1/records/{record_id}'')),
       (''base_protocol_validity_unchanged'', JBool True),
       (''good_faith_infrastructure_only'', JBool True)]"

definition create_view_manifest :: "env \<Rightarrow> ustr \<Rightarrow> bool \<Rightarrow> int \<Rightarrow> int \<Rightarrow> ustr list \<Rightarrow> json result" where
  "create_view_manifest E node_name profile_enabled cooling_blocks notice_blocks authors =
     (let manifest = view_manifest_body node_name profile_enabled cooling_blocks notice_blocks authors in
      bindE (canonical_json_bytes manifest) (\<lambda>bs.
      Inr (dput ''manifest_id'' (JStr (sha256_hex E bs)) manifest)))"

text \<open>The manifest depends on the set of recognised authors, not on how it was listed.\<close>

lemma view_manifest_author_set:
  "set authors = set authors' \<Longrightarrow>
   create_view_manifest E name enabled cooling_blocks notice_blocks authors
     = create_view_manifest E name enabled cooling_blocks notice_blocks authors'"
  unfolding create_view_manifest_def view_manifest_body_def
  by (simp only: sorted_list_of_set_sort_remdups [symmetric])

section \<open>Funding manifest\<close>

definition GENESIS_DONATION_ADDRESS :: ustr where
  "GENESIS_DONATION_ADDRESS = str ''bc1pughulyqcqtxjz7xsa3lgd7pmkfd3ptper3z55n7gh4ffjjk2xrxsj6lqds''"

definition RELEASE_VERSION :: ustr where "RELEASE_VERSION = str ''1.0.0''"

definition canonical_funding_manifest :: json where
  "canonical_funding_manifest =
     obj [(''schema'', JStr (str ''hap.funding'')), (''version'', JInt 1),
       (''release_version'', JStr RELEASE_VERSION), (''bitcoin_network'', JStr (str ''mainnet'')),
       (''genesis_donation_address'', JStr GENESIS_DONATION_ADDRESS),
       (''purpose'', JStr (str ''voluntary support for open-source HAP development'')),
       (''consensus_effect'', JBool False), (''governance_rights'', JBool False),
       (''protocol_dependency'', JBool False)]"

text \<open>\<open>json.dumps\<close> with the arguments that the codec uses, without its validation.\<close>

definition funding_manifest_id :: "env \<Rightarrow> ustr result" where
  "funding_manifest_id E = bindE (encode_utf8 (dumps canonical_funding_manifest)) (\<lambda>bs. Inr (sha256_hex E bs))"

definition funding_info :: "env \<Rightarrow> json result" where
  "funding_info E = bindE (funding_manifest_id E) (\<lambda>i.
     Inr (dput ''notice'' (JStr (str ''Voluntary support only. This address has no role in protocol validity, governance, ranking, publication, or node operation.''))
       (dput ''manifest_id'' (JStr i) canonical_funding_manifest)))"

end
