(* ===== verification/Api.thy ===== *)
theory Api
  imports SyncFacts NodeViews Policy Auth Middleware Manifests
begin

text \<open>
  \<^verbatim>\<open>src/hap/api.py\<close>: the HTTP interface of a node. A node that serves requests is an \<open>app\<close>, the node and
  the rate limiter; a \<open>world\<close> is everything that a request or a background task meets: the settings, the
  libraries, the RPC client, the peers, and the clock. Every route is a definition: a function of the node
  when it only reads, an operation of the app otherwise. Routing, the parsing of bodies and
  query parameters, and the serving of static files are FastAPI's; a constraint that a parameter declares
  (\<open>Query(0, ge=0)\<close>) is a check with status 422. What a route answers is its result or the exception,
  whose status is \<open>status_of\<close>.
\<close>

section \<open>Apps and worlds\<close>

record app =
  app_node :: node
  app_limiter :: limiter

record world =
  w_settings :: settings
  w_env :: env
  w_ip :: ip_library
  w_netloc :: "ustr \<Rightarrow> unit result"
  w_rpc :: rpc
  w_http :: http
  w_clock :: "nat \<Rightarrow> int"
  w_tick :: int
  w_database_ok :: bool

definition API_VERSION :: ustr where "API_VERSION = str ''1.0.0''"

definition new_app :: "settings \<Rightarrow> node \<Rightarrow> app" where
  "new_app S n = \<lparr>app_node = n, app_limiter = \<lparr>lm_requests = write_requests_per_minute S, lm_window = 60,
     lm_max_keys = 100000, lm_events = [], lm_operations = 0\<rparr>\<rparr>"

definition on_node :: "(node, 'a) op \<Rightarrow> (app, 'a) op" where
  "on_node m a = (case m (app_node a) of (r, n) \<Rightarrow> (r, a\<lparr>app_node := n\<rparr>))"

definition ask_node :: "(node \<Rightarrow> 'a result) \<Rightarrow> (app, 'a) op" where
  "ask_node f = bindM (readM (\<lambda>a. f (app_node a))) liftM"

definition allow_call :: "world \<Rightarrow> ustr \<Rightarrow> (app, bool) op" where
  "allow_call W key a = (case allow (w_tick W) key (app_limiter a) of
     (g, l) \<Rightarrow> (Inr g, a\<lparr>app_limiter := l\<rparr>))"

text \<open>\<open>service_error_handler\<close>, and the framework's answers to the other exceptions. The number of an
  \<open>HTTPException\<close> is in front of its text.\<close>

definition status_of :: "exn \<Rightarrow> nat" where
  "status_of e = (if is_ServiceError (exc_of e) then 400
     else if exc_of e = HTTPException then undec (takeWhile is_digit (str (message e)))
     else 500)"

section \<open>Background work\<close>

definition run_sync :: "world \<Rightarrow> (node, (sync_result \<times> exn option) list) op" where
  "run_sync W = (let S = w_settings W in
     sync_all_peers (w_env W) (w_http W) (sync_page_size S) (max_sync_response_bytes S) (max_sync_pages S) (peers S))"

definition run_scan :: "world \<Rightarrow> (node, scan_result) op" where
  "run_scan W = (let S = w_settings W in
     scan_bitcoin (w_rpc W) (w_clock W) (bitcoin_scan_start_height S) (bitcoin_scan_max_blocks S))"

definition run_resolve :: "world \<Rightarrow> (node, resolution) op" where
  "run_resolve W = (let S = w_settings W in
     resolve_commitments (w_env W) (w_http W) (peers S) (max_sync_response_bytes S) 100)"

section \<open>Checks on requests\<close>

definition client_key :: "world \<Rightarrow> request \<Rightarrow> ustr option \<Rightarrow> ustr result" where
  "client_key W q token = bindE (token_rate_key (w_env W) token) (\<lambda>k. Inr (case k of
     Some key \<Rightarrow> key
   | None \<Rightarrow> str ''ip:'' @ trusted_client_ip (w_ip W) q (trusted_proxy_cidrs (w_settings W))))"

definition require_record_write :: "world \<Rightarrow> request \<Rightarrow> (app, unit) op" where
  "require_record_write W q = (let S = w_settings W in
     if \<not> can_relay S then liftM (http_error ''403 this node role does not accept records'')
     else bindM (liftM (require_submission_token q (submission_token_required S) (submission_tokens S))) (\<lambda>token.
     bindM (liftM (client_key W q token)) (\<lambda>key.
     bindM (allow_call W key) (\<lambda>granted.
     if granted then returnM () else liftM (http_error ''429 write rate limit exceeded'')))))"

definition admin_key :: "world \<Rightarrow> request \<Rightarrow> ustr" where
  "admin_key W q = str ''admin:'' @ trusted_client_ip (w_ip W) q (trusted_proxy_cidrs (w_settings W))"

definition require_node_admin :: "world \<Rightarrow> request \<Rightarrow> (app, unit) op" where
  "require_node_admin W q =
     bindM (liftM (require_admin_token q (admin_token (w_settings W)))) (\<lambda>_.
     bindM (allow_call W (admin_key W q)) (\<lambda>granted.
     if granted then returnM () else liftM (http_error ''429 administrative rate limit exceeded'')))"

definition require_coordinator_admin :: "world \<Rightarrow> request \<Rightarrow> (app, unit) op" where
  "require_coordinator_admin W q =
     (if \<not> can_coordinate (w_settings W)
      then liftM (http_error ''403 this node role does not coordinate batches'')
      else require_node_admin W q)"

text \<open>\<open>if not result: raise HTTPException(404, ...)\<close>\<close>

definition found_or :: "string \<Rightarrow> 'a option result \<Rightarrow> 'a result" where
  "found_or m r = bindE r (\<lambda>v. case v of None \<Rightarrow> http_error m | Some x \<Rightarrow> Inr x)"

section \<open>Routes about the node\<close>

definition health :: "world \<Rightarrow> json" where
  "health W = obj [(''status'', JStr (str ''ok'')), (''version'', JStr API_VERSION), (''role'', JStr (role (w_settings W)))]"

record readiness_report =
  rd_status :: nat
  rd_bitcoin :: "(string \<times> json option) option"

definition readiness :: "world \<Rightarrow> (app, readiness_report) op" where
  "readiness W = (let S = w_settings W; answer = (\<lambda>ok b. returnM \<lparr>rd_status = (if ok then 200 else 503), rd_bitcoin = b\<rparr>) in
     if \<not> bitcoin_required_for_readiness S then answer (w_database_ok W) None
     else bindM (tryM (on_node (rpcM (rpc_network (w_rpc W))))) (\<lambda>r. case r of
       Inl _ \<Rightarrow> answer False (Some (''unavailable'', None))
     | Inr network \<Rightarrow>
         if network \<noteq> JStr (bitcoin_expected_network S) then answer False (Some (''wrong-network'', Some network))
         else answer (w_database_ok W) (Some (''ok'', Some network))))"

definition view_manifest_route :: "world \<Rightarrow> json result" where
  "view_manifest_route W = (let S = w_settings W in
     create_view_manifest (w_env W) (node_name S) (responsible_publication_profile S) (responsible_cooling_blocks S)
       (responsible_notice_protection_blocks S) (recognised_accountable_authors S))"

definition block_as_dict :: "block option \<Rightarrow> json" where
  "block_as_dict b = (case b of None \<Rightarrow> JNull
   | Some b \<Rightarrow> obj [(''height'', JInt (bl_height b)), (''block_hash'', JStr (bl_hash b)), (''block_time'', JInt (bl_time b))])"

definition info :: "world \<Rightarrow> node \<Rightarrow> json result" where
  "info W n = (let S = w_settings W in
     bindE (node_instance_id (ix n)) (\<lambda>epoch.
     Inr (obj [(''name'', JStr (str ''History Anchor Protocol'')), (''version'', JStr API_VERSION),
       (''architecture'', JStr (str ''bitcoin-first-client-side-validation'')),
       (''bitcoin_is_canonical_publication_layer'', JBool True),
       (''has_independent_consensus_or_token'', JBool False),
       (''network_profile'', JStr (deployment_profile S)), (''node_name'', JStr (node_name S)),
       (''role'', JStr (role S)),
       (''counts'', obj (map (\<lambda>(k, c). (k, JInt (int c))) (counts (ix n))
          @ [(''evidence_files'', JInt (int (evidence_count (ev n))))])),
       (''relay_policy'', obj [(''accepts_records'', JBool (can_relay S)),
          (''submission_token_required'', JBool (submission_token_required S)),
          (''max_request_bytes'', JInt (max_request_bytes S)), (''max_record_bytes'', JInt (max_record_bytes S)),
          (''max_statement_chars'', JInt (max_statement_chars S)),
          (''requests_per_minute'', JInt (write_requests_per_minute S)),
          (''proof_of_work_bits'', JInt (relay_pow_bits S)), (''evidence_uploads'', JBool False)]),
       (''bitcoin_discovery'', obj [(''enabled'', JBool (0 < bitcoin_scan_interval_seconds S)),
          (''start_height'', JInt (bitcoin_scan_start_height S)),
          (''expected_network'', JStr (bitcoin_expected_network S)),
          (''last_scanned_block'', block_as_dict (latest_scanned_block (ix n)))]),
       (''archive'', obj [(''serves_verified_evidence'', JBool (can_archive S))]),
       (''responsible_publication'', obj [(''enabled'', JBool (responsible_publication_profile S)),
          (''profile'', JStr (str ''hap-responsible-publication-v1'')),
          (''cooling_blocks'', JInt (responsible_cooling_blocks S)),
          (''notice_protection_blocks'', JInt (responsible_notice_protection_blocks S)),
          (''recognised_accountable_authors'', JInt (int (length (recognised_accountable_authors S)))),
          (''base_protocol_validity_unchanged'', JBool True), (''unilateral_emergency_override'', JBool False)]),
       (''sync_epoch'', JStr epoch), (''peers'', obj [(''configured'', JInt (int (length (peers S))))])])))"

section \<open>Routes about records\<close>

definition relay_policy :: "world \<Rightarrow> json \<Rightarrow> unit result" where
  "relay_policy W = validate_safe_relay_record (w_netloc W) (w_settings W)"

definition post_record :: "world \<Rightarrow> request \<Rightarrow> json \<Rightarrow> (app, ustr \<times> string) op" where
  "post_record W q r =
     bindM (require_record_write W q) (\<lambda>_.
     bindM (liftM (reraise (\<lambda>_. True) (Exn HTTPException ''400 str(exc)'')
       (bindE (validate_record (w_env W) r) (\<lambda>_. relay_policy W r)))) (\<lambda>_.
     bindM (liftM (verify_relay_pow (w_env W) (rid_of r) (header q ''x-hap-relay-nonce'')
       (relay_pow_bits (w_settings W)))) (\<lambda>ok.
     if \<not> ok then liftM (http_error ''400 relay proof-of-work does not meet this node's policy'')
     else on_node (submit_record (w_env W) (Some (relay_policy W)) True r))))"

definition profile_of :: "settings \<Rightarrow> profile" where
  "profile_of S = \<lparr>recognised_authors = set (recognised_accountable_authors S),
     cooling_blocks = responsible_cooling_blocks S, notice_blocks = responsible_notice_protection_blocks S\<rparr>"

definition get_feed :: "world \<Rightarrow> int \<Rightarrow> node \<Rightarrow> full_view list result" where
  "get_feed W limit n =
     (if \<not> responsible_publication_profile (w_settings W)
      then http_error ''404 the responsible-publication reference feed is disabled''
      else reference_feed (w_env W) (profile_of (w_settings W)) n (max 1 (min limit 100)))"

definition get_records :: "int \<Rightarrow> node \<Rightarrow> json list" where
  "get_records limit n = latest_records (ix n) (max 1 (min limit 100))"

definition get_record_view :: "world \<Rightarrow> ustr \<Rightarrow> node \<Rightarrow> full_view result" where
  "get_record_view W rid n =
     found_or ''404 record not found'' (record_view (w_env W) (profile_of (w_settings W)) n rid)"

definition get_assessment :: "world \<Rightarrow> ustr \<Rightarrow> node \<Rightarrow> assessment result" where
  "get_assessment W rid n = found_or ''404 record not found'' (record_assessment (w_env W) n rid)"

definition get_provenance :: "ustr \<Rightarrow> node \<Rightarrow> provenance result" where
  "get_provenance rid n = found_or ''404 record not found'' (provenance_graph n rid)"

definition get_responsible :: "world \<Rightarrow> ustr \<Rightarrow> node \<Rightarrow> responsible_view result" where
  "get_responsible W rid n =
     found_or ''404 record not found'' (responsible_publication_view (profile_of (w_settings W)) n rid)"

definition get_proof :: "world \<Rightarrow> ustr \<Rightarrow> node \<Rightarrow> json result" where
  "get_proof W rid n = found_or ''404 record has not been batched'' (proof_for_record (w_env W) (ix n) rid)"

definition get_proof_bundle :: "world \<Rightarrow> ustr \<Rightarrow> node \<Rightarrow> json result" where
  "get_proof_bundle W rid n = found_or ''404 record not found'' (proof_bundle_for_record (w_env W) (ix n) rid)"

definition post_verify :: "world \<Rightarrow> json \<Rightarrow> package_report result" where
  "post_verify W body =
     bindE (dict_get body ''record'' JNull) (\<lambda>r.
     if \<not> is_dict r then http_error ''400 record is required''
     else bindE (dict_get body ''proof'' JNull) (\<lambda>p.
     if p \<noteq> JNull \<and> \<not> is_dict p then http_error ''400 proof must be an object''
     else verify_package (w_env W) r (if p = JNull then None else Some p)))"

definition post_verify_bundle :: "world \<Rightarrow> json \<Rightarrow> bundle_report result" where
  "post_verify_bundle W bundle =
     reraise (\<lambda>_. True) (Exn HTTPException ''400 str(exc)'') (verify_proof_bundle (w_env W) bundle)"

section \<open>Routes about batches\<close>

definition ALLOWED_BATCH_NETWORKS :: "string list" where
  "ALLOWED_BATCH_NETWORKS = [''signet'', ''regtest'', ''mainnet'']"

definition post_batch :: "world \<Rightarrow> request \<Rightarrow> json \<Rightarrow> (app, json) op" where
  "post_batch W q body = (let S = w_settings W in
     bindM (require_coordinator_admin W q) (\<lambda>_.
     bindM (liftM (dict_get body ''network'' (JStr (bitcoin_expected_network S)))) (\<lambda>network.
     if network = JStr (str ''mainnet'') \<and> \<not> allow_mainnet S
     then liftM (http_error ''403 mainnet anchoring is disabled'')
     else bindM (liftM (condE (in_str_set network ALLOWED_BATCH_NETWORKS) (Inr ())
       (http_error ''400 network must be signet, regtest, or mainnet''))) (\<lambda>_.
     bindM (liftM (bindE (dict_get body ''limit'' (JInt (max_batch_records S))) py_int)) (\<lambda>requested.
     on_node (create_batch (w_env W) (w_clock W 0) (text_of network) (max 1 (min requested (max_batch_records S)))
       (max_package_bytes S)))))))"

definition get_batches :: "int \<Rightarrow> node \<Rightarrow> json list" where
  "get_batches limit n = list_batches (ix n) (max 1 (min limit 20))"

definition get_batch_route :: "ustr \<Rightarrow> node \<Rightarrow> json result" where
  "get_batch_route batch_id n = (case get_batch (ix n) batch_id of
     None \<Rightarrow> http_error ''404 batch not found''
   | Some b \<Rightarrow> Inr (dput ''anchors'' (JList (map anchor_as_dict (list_anchors (ix n) (Some batch_id)))) b))"

definition get_package :: "world \<Rightarrow> ustr \<Rightarrow> node \<Rightarrow> json result" where
  "get_package W batch_id n = found_or ''404 package not found'' (package_for_batch (w_env W) (ix n) batch_id)"

definition post_anchor :: "world \<Rightarrow> request \<Rightarrow> ustr \<Rightarrow> (app, anchor \<times> pyfloat) op" where
  "post_anchor W q batch_id = (let S = w_settings W in
     bindM (require_coordinator_admin W q) (\<lambda>_.
     bindM (readM (\<lambda>a. get_batch (ix (app_node a)) batch_id)) (\<lambda>batch.
     if (case batch of None \<Rightarrow> False | Some b \<Rightarrow> dget b ''network'' = JStr (str ''mainnet'')) \<and> \<not> allow_mainnet S
     then liftM (http_error ''403 mainnet anchoring is disabled'')
     else on_node (anchor_batch (w_env W) (w_rpc W) (w_clock W 0) (allow_mainnet S) batch_id))))"

definition post_direct_anchor :: "world \<Rightarrow> request \<Rightarrow> ustr \<Rightarrow> ustr option \<Rightarrow> (app, json \<times> json \<times> anchor) op" where
  "post_direct_anchor W q rid network = (let S = w_settings W;
       target = (case network of Some (c # cs) \<Rightarrow> c # cs | _ \<Rightarrow> bitcoin_expected_network S) in
     bindM (require_coordinator_admin W q) (\<lambda>_.
     if target = str ''mainnet'' \<and> \<not> allow_mainnet S
     then liftM (http_error ''403 mainnet anchoring is disabled'')
     else on_node (direct_anchor_record (w_env W) (w_rpc W) (w_clock W 0) (w_clock W 1) (allow_mainnet S) rid target)))"

definition post_verify_anchor :: "world \<Rightarrow> request \<Rightarrow> ustr \<Rightarrow> (app, verification option) op" where
  "post_verify_anchor W q batch_id =
     bindM (require_coordinator_admin W q) (\<lambda>_.
     on_node (verify_bitcoin_anchor (w_rpc W) (w_clock W 0) batch_id None))"

definition get_commitments :: "int \<Rightarrow> bool \<Rightarrow> node \<Rightarrow> commitment list" where
  "get_commitments limit unresolved_only n =
     list_commitments (ix n) unresolved_only None (max 1 (min limit 1000))"

text \<open>The bytes that the \<open>FileResponse\<close> sends.\<close>

definition get_evidence :: "world \<Rightarrow> ustr \<Rightarrow> node \<Rightarrow> bytes result" where
  "get_evidence W digest n =
     (if \<not> can_archive (w_settings W) then http_error ''404 this node does not serve evidence''
      else reraise is_ValueError (Exn HTTPException ''400 str(exc)'')
        (bindE (evidence_digest (JStr digest)) (\<lambda>k.
         bindE (verify_evidence (w_env W) (ev n) (JStr digest)) (\<lambda>ok.
         if \<not> ok then http_error ''404 verified evidence is not available''
         else Inr (case file_at (ev n) k of Some content \<Rightarrow> content | None \<Rightarrow> [])))))"

section \<open>Routes for peers\<close>

definition page_parameters :: "int \<Rightarrow> int \<Rightarrow> int \<Rightarrow> unit result" where
  "page_parameters after_seq limit largest =
     (if after_seq < 0 \<or> limit < 1 \<or> largest < limit then http_error ''422 parameter out of range'' else Inr ())"

definition get_sync_records :: "int \<Rightarrow> int \<Rightarrow> node \<Rightarrow> json result" where
  "get_sync_records after_seq limit n = bindE (page_parameters after_seq limit 25) (\<lambda>_.
     Inr (sync_response (record_sync_page (ix n) after_seq limit) after_seq limit))"

definition get_sync_batches :: "int \<Rightarrow> int \<Rightarrow> node \<Rightarrow> json result" where
  "get_sync_batches after_seq limit n = bindE (page_parameters after_seq limit 1) (\<lambda>_.
     Inr (sync_response (batch_sync_page (ix n) after_seq limit) after_seq limit))"

definition get_sync_anchors :: "int \<Rightarrow> int \<Rightarrow> node \<Rightarrow> json result" where
  "get_sync_anchors after_seq limit n = bindE (page_parameters after_seq limit 200) (\<lambda>_.
     let page = anchor_sync_page (ix n) after_seq limit in
     Inr (sync_response (map anchor_as_dict (fst page), snd page) after_seq limit))"

section \<open>Administrative routes\<close>

definition post_sync :: "world \<Rightarrow> request \<Rightarrow> (app, (sync_result \<times> exn option) list) op" where
  "post_sync W q = bindM (require_node_admin W q) (\<lambda>_.
     if peers (w_settings W) \<noteq> [] then on_node (run_sync W) else returnM [])"

definition post_scan :: "world \<Rightarrow> request \<Rightarrow> (app, scan_result) op" where
  "post_scan W q = bindM (require_node_admin W q) (\<lambda>_. on_node (run_scan W))"

definition post_resolve :: "world \<Rightarrow> request \<Rightarrow> (app, resolution) op" where
  "post_resolve W q = bindM (require_node_admin W q) (\<lambda>_. on_node (run_resolve W))"

definition get_snapshot :: "world \<Rightarrow> request \<Rightarrow> (app, json) op" where
  "get_snapshot W q = bindM (require_node_admin W q) (\<lambda>_.
     if \<not> allow_snapshot_export (w_settings W)
     then liftM (http_error ''403 remote snapshot export is disabled; use the local backup command'')
     else ask_node (\<lambda>n. export_snapshot (w_env W) (w_clock W 0) (ix n)))"

definition post_snapshot :: "world \<Rightarrow> request \<Rightarrow> json \<Rightarrow> (app, nat \<times> nat \<times> nat) op" where
  "post_snapshot W q snapshot = bindM (require_node_admin W q) (\<lambda>_.
     if \<not> allow_snapshot_import (w_settings W)
     then liftM (http_error ''403 remote snapshot import is disabled; use the local CLI'')
     else on_node (import_snapshot (w_env W) snapshot))"

section \<open>Requests that may change the node\<close>

datatype api_call =
    PostRecord json | PostBatch json | PostAnchor ustr | PostDirectAnchor ustr "ustr option"
  | PostVerifyAnchor ustr | PostSync | PostScan | PostResolve | GetSnapshot | PostSnapshot json | GetReadiness

definition ignore :: "('s, 'a) op \<Rightarrow> ('s, unit) op" where
  "ignore m = bindM m (\<lambda>_. returnM ())"

fun handle :: "world \<Rightarrow> request \<Rightarrow> api_call \<Rightarrow> (app, unit) op" where
  "handle W q (PostRecord r) = ignore (post_record W q r)"
| "handle W q (PostBatch body) = ignore (post_batch W q body)"
| "handle W q (PostAnchor bid) = ignore (post_anchor W q bid)"
| "handle W q (PostDirectAnchor rid network) = ignore (post_direct_anchor W q rid network)"
| "handle W q (PostVerifyAnchor bid) = ignore (post_verify_anchor W q bid)"
| "handle W q PostSync = ignore (post_sync W q)"
| "handle W q PostScan = ignore (post_scan W q)"
| "handle W q PostResolve = ignore (post_resolve W q)"
| "handle W q GetSnapshot = ignore (get_snapshot W q)"
| "handle W q (PostSnapshot s) = ignore (post_snapshot W q s)"
| "handle W q GetReadiness = ignore (readiness W)"

fun needs_admin :: "api_call \<Rightarrow> bool" where
  "needs_admin (PostRecord _) = False"
| "needs_admin GetReadiness = False"
| "needs_admin _ = True"

fun needs_coordinator :: "api_call \<Rightarrow> bool" where
  "needs_coordinator (PostBatch _) = True"
| "needs_coordinator (PostAnchor _) = True"
| "needs_coordinator (PostDirectAnchor _ _) = True"
| "needs_coordinator (PostVerifyAnchor _) = True"
| "needs_coordinator _ = False"

end
