(* ===== verification/ApiFacts.thy ===== *)
theory ApiFacts
  imports Api
begin

text \<open>
  What the HTTP interface guarantees: who may change a node, what a relay accepts and how fast, and, for
  every state that requests and background work can reach, the invariant of \<open>ChainFacts\<close>.
\<close>

section \<open>Access\<close>

text \<open>The operation raises without touching the app.\<close>

definition denied :: "app \<Rightarrow> (app, 'a) op \<Rightarrow> bool" where
  "denied a m \<longleftrightarrow> (\<exists>e. m a = (Inl e, a))"

lemma denied_bind: "denied a m \<Longrightarrow> denied a (bindM m k)"
  by (auto simp: denied_def bindM_def)

definition bears_admin_token :: "settings \<Rightarrow> request \<Rightarrow> bool" where
  "bears_admin_token S q \<longleftrightarrow> (\<exists>t h. admin_token S = Some t \<and> t \<noteq> []
     \<and> header q ''authorization'' = Some h \<and> lower (fst (partition_space h)) = str ''bearer''
     \<and> snd (partition_space h) = t)"

definition may_administer :: "settings \<Rightarrow> request \<Rightarrow> api_call \<Rightarrow> bool" where
  "may_administer S q c \<longleftrightarrow> bears_admin_token S q \<and> (needs_coordinator c \<longrightarrow> can_coordinate S)"

lemma require_node_admin_denied:
  assumes "\<not> bears_admin_token (w_settings W) q"
  shows "\<exists>e. require_node_admin W q a = (Inl e, a)"
proof -
  have "require_admin_token q (admin_token (w_settings W)) \<noteq> Inr u" for u
    using assms by (auto simp: require_admin_token_eq_Inr bears_admin_token_def)
  then obtain e where "require_admin_token q (admin_token (w_settings W)) = Inl e"
    by (cases "require_admin_token q (admin_token (w_settings W))") auto
  then show ?thesis by (simp add: require_node_admin_def)
qed

lemma require_coordinator_denied:
  assumes "\<not> (bears_admin_token (w_settings W) q \<and> can_coordinate (w_settings W))"
  shows "\<exists>e. require_coordinator_admin W q a = (Inl e, a)"
  using assms require_node_admin_denied [of W q a]
  by (auto simp: require_coordinator_admin_def http_error_def liftM_def)

lemma handle_denied:
  assumes "needs_admin c" "\<not> may_administer (w_settings W) q c"
  shows "\<exists>e. handle W q c a = (Inl e, a)"
proof -
  have node: "denied a (require_node_admin W q)" if "\<not> bears_admin_token (w_settings W) q"
    using require_node_admin_denied [OF that, of a] by (simp add: denied_def)
  have coord: "denied a (require_coordinator_admin W q)"
    if "\<not> (bears_admin_token (w_settings W) q \<and> can_coordinate (w_settings W))"
    using require_coordinator_denied [OF that, of a] by (simp add: denied_def)
  have "denied a (handle W q c)"
    using assms node coord unfolding may_administer_def
    by (cases c) (auto simp: ignore_def post_batch_def post_anchor_def post_direct_anchor_def
        post_verify_anchor_def post_sync_def post_scan_def post_resolve_def get_snapshot_def post_snapshot_def Let_def
        intro: denied_bind)
  then show ?thesis by (simp add: denied_def)
qed

section \<open>Records that a relay accepts\<close>

lemma allow_call_run: "allow_call W key a = (Inr g, a') \<longleftrightarrow>
    (\<exists>l. allow (w_tick W) key (app_limiter a) = (g, l) \<and> a' = a\<lparr>app_limiter := l\<rparr>)"
  by (auto simp: allow_call_def split: prod.splits)

lemma on_node_run: "on_node m a = (r, a') \<longleftrightarrow> (\<exists>n. m (app_node a) = (r, n) \<and> a' = a\<lparr>app_node := n\<rparr>)"
  by (auto simp: on_node_def split: prod.splits)

text \<open>The outcome of the check of a write, and what it does to the limiter.\<close>

definition write_key :: "world \<Rightarrow> request \<Rightarrow> ustr result" where
  "write_key W q = (let S = w_settings W in
     if \<not> can_relay S then http_error ''403 this node role does not accept records''
     else bindE (require_submission_token q (submission_token_required S) (submission_tokens S)) (client_key W q))"

lemma require_record_write_run:
  "require_record_write W q a = (case write_key W q of
     Inl e \<Rightarrow> (Inl e, a)
   | Inr key \<Rightarrow> (case allow (w_tick W) key (app_limiter a) of
       (g, l) \<Rightarrow> (if g then Inr () else http_error ''429 write rate limit exceeded'', a\<lparr>app_limiter := l\<rparr>)))"
  by (auto simp: require_record_write_def write_key_def bindM_def liftM_def allow_call_def http_error_def Let_def
      bindE_def split: sum.split prod.split)

lemma add_record_facts:
  assumes "add_record r s = (c, s')"
  shows "get_record s' (rid_of r) \<noteq> None \<and> anchors_t s' = anchors_t s \<and> batches_t s' = batches_t s"
proof -
  from assms have "s' = snd (add_record r s)" by simp
  then show ?thesis using add_record_get [of r s "rid_of r"] by (auto simp: add_record_unfold split: if_splits)
qed

lemma submit_record_outcome:
  assumes "submit_record E policy True r n = (res, n')"
  shows "case res of Inl _ \<Rightarrow> n' = n
    | Inr _ \<Rightarrow> get_record (ix n') (rid_of r) \<noteq> None \<and> ev n' = ev n \<and> anchors_t (ix n') = anchors_t (ix n)
        \<and> batches_t (ix n') = batches_t (ix n)"
  using assms
  by (auto simp: submit_record_def storeM_def updateM_def bindM_def liftM_def readM_def
      bindE_def split: prod.splits sum.splits if_splits option.splits dest!: add_record_facts)

lemma post_record_refused:
  assumes "post_record W q r a = (Inl e, a')"
  shows "app_node a' = app_node a"
proof -
  have writes: "require_record_write W q a = (r', b) \<Longrightarrow> app_node b = app_node a" for r' b
    by (auto simp: require_record_write_run split: sum.splits prod.splits)
  show ?thesis
  proof (cases "require_record_write W q a")
    case (Pair w b)
    from writes [OF Pair] have b: "app_node b = app_node a" .
    show ?thesis
      using assms submit_record_outcome b Pair
      by (fastforce simp: post_record_def bindM_def liftM_def on_node_def http_error_def split: sum.splits prod.splits if_splits)
  qed
qed

lemma post_record_accepted:
  assumes "post_record W q r a = (Inr res, a')"
  shows "validate_record (w_env W) r = Inr () \<and> relay_policy W r = Inr ()
    \<and> verify_relay_pow (w_env W) (rid_of r) (header q ''x-hap-relay-nonce'') (relay_pow_bits (w_settings W)) = Inr True
    \<and> can_relay (w_settings W)
    \<and> (submission_token_required (w_settings W) \<longrightarrow>
        (\<exists>s \<in> set (submission_tokens (w_settings W)). header q ''x-hap-submission-token'' = Some s))
    \<and> get_record (ix (app_node a')) (rid_of r) \<noteq> None"
proof -
  from assms obtain b where w: "require_record_write W q a = (Inr (), b)"
    and checks: "validate_record (w_env W) r = Inr ()" "relay_policy W r = Inr ()"
      "verify_relay_pow (w_env W) (rid_of r) (header q ''x-hap-relay-nonce'') (relay_pow_bits (w_settings W)) = Inr True"
    and s: "on_node (submit_record (w_env W) (Some (relay_policy W)) True r) b = (Inr res, a')"
    by (auto simp: post_record_def result_simps http_error_def split: if_splits)
  from w obtain key where key: "write_key W q = Inr key"
    by (auto simp: require_record_write_run split: sum.splits)
  then have "can_relay (w_settings W)"
    by (auto simp: write_key_def http_error_def Let_def split: if_splits)
  moreover have "\<exists>s \<in> set (submission_tokens (w_settings W)). header q ''x-hap-submission-token'' = Some s"
    if "submission_token_required (w_settings W)"
    using key that require_submission_token_required [of q "submission_tokens (w_settings W)"]
    by (fastforce simp: write_key_def http_error_def Let_def bindE_eq_Inr split: if_splits)
  moreover have "get_record (ix (app_node a')) (rid_of r) \<noteq> None"
    using s submit_record_outcome by (fastforce simp: on_node_run)
  ultimately show ?thesis using checks by blast
qed

section \<open>How fast a relay accepts records\<close>

text \<open>One request is at most one call of the limiter, with the time of the request.\<close>

definition limited :: "world \<Rightarrow> (app, 'a) op \<Rightarrow> bool" where
  "limited W m \<longleftrightarrow> (\<forall>a r a'. m a = (r, a') \<longrightarrow> app_limiter a' = app_limiter a
     \<or> (\<exists>key g. allow (w_tick W) key (app_limiter a) = (g, app_limiter a')))"

definition unlimited :: "(app, 'a) op \<Rightarrow> bool" where
  "unlimited m \<longleftrightarrow> (\<forall>a. app_limiter (snd (m a)) = app_limiter a)"

lemma unlimitedD: "unlimited m \<Longrightarrow> m a = (r, a') \<Longrightarrow> app_limiter a' = app_limiter a"
  unfolding unlimited_def by (metis snd_conv)

lemma unlimited_basic [intro]: "unlimited (liftM r)" "unlimited (readM f)" "unlimited (on_node n)"
  by (simp_all add: unlimited_def liftM_def readM_def on_node_def split: prod.splits)

lemma unlimited_bind [intro]:
  assumes "unlimited m" "\<And>x. unlimited (k x)"
  shows "unlimited (bindM m k)"
  unfolding unlimited_def
proof
  fix a
  show "app_limiter (snd (bindM m k a)) = app_limiter a"
  proof (cases "m a")
    case (Pair r b)
    have "app_limiter b = app_limiter a" using unlimitedD [OF assms(1) Pair] .
    with Pair assms(2) show ?thesis by (cases r) (simp_all add: bindM_def unlimited_def)
  qed
qed

lemma unlimited_if [intro]:
  "(c \<Longrightarrow> unlimited m) \<Longrightarrow> (\<not> c \<Longrightarrow> unlimited m') \<Longrightarrow> unlimited (if c then m else m')"
  by simp

lemma unlimited_try [intro]: "unlimited m \<Longrightarrow> unlimited (tryM m)"
  by (auto simp: unlimited_def tryM_def split: prod.splits) (metis snd_conv)

lemma unlimited_case [intro]:
  "(\<And>e. unlimited (f e)) \<Longrightarrow> (\<And>y. unlimited (g y)) \<Longrightarrow> unlimited (case r of Inl e \<Rightarrow> f e | Inr y \<Rightarrow> g y)"
  by (cases r) simp_all

lemma limited_bind:
  assumes "limited W m" "\<And>x. unlimited (k x)"
  shows "limited W (bindM m k)"
  unfolding limited_def
proof (intro allI impI)
  fix a r a'
  assume run: "bindM m k a = (r, a')"
  obtain r1 a1 where m: "m a = (r1, a1)" by (cases "m a")
  have "app_limiter a' = app_limiter a1"
  proof (cases r1)
    case (Inr x)
    with run m have "k x a1 = (r, a')" by (simp add: bindM_def)
    then have "a' = snd (k x a1)" by simp
    with assms(2) [of x] show ?thesis by (simp add: unlimited_def)
  qed (use run m in \<open>simp add: bindM_def\<close>)
  with assms(1) m show "app_limiter a' = app_limiter a \<or> (\<exists>key g. allow (w_tick W) key (app_limiter a) = (g, app_limiter a'))"
    unfolding limited_def by metis
qed

lemma unlimited_limited: "unlimited m \<Longrightarrow> limited W m"
  by (auto simp: unlimited_def limited_def) (metis snd_conv)

lemma require_limited:
  "limited W (require_record_write W q)" "limited W (require_node_admin W q)" "limited W (require_coordinator_admin W q)"
proof -
  show "limited W (require_record_write W q)"
    by (auto simp: limited_def require_record_write_run split: sum.splits prod.splits)
  show n: "limited W (require_node_admin W q)"
    by (auto simp: limited_def require_node_admin_def bindM_def liftM_def allow_call_def split: sum.splits prod.splits if_splits)
  show "limited W (require_coordinator_admin W q)"
    using n by (auto simp: require_coordinator_admin_def intro: unlimited_limited)
qed

lemma handle_limited: "limited W (handle W q c)"
proof -
  have i: "limited W m \<Longrightarrow> limited W (ignore m)" for m :: "(app, 'x) op"
    unfolding ignore_def by (rule limited_bind) auto
  show ?thesis
  proof (cases c)
    case GetReadiness
    have "unlimited (readiness W)" unfolding readiness_def Let_def by (intro unlimited_if unlimited_bind unlimited_case unlimited_try unlimited_basic)
    with GetReadiness show ?thesis by (auto intro: i unlimited_limited)
  qed (simp_all only: handle.simps post_record_def post_batch_def post_anchor_def post_direct_anchor_def
      post_verify_anchor_def post_sync_def post_scan_def post_resolve_def get_snapshot_def post_snapshot_def Let_def
      ask_node_def, (intro i limited_bind require_limited unlimited_if unlimited_bind unlimited_basic)+)
qed

text \<open>The times and the keys of the records that a sequence of requests has accepted.\<close>

fun accepted_records :: "(world \<times> request \<times> api_call) list \<Rightarrow> app \<Rightarrow> (int \<times> ustr) list" where
  "accepted_records [] a = []"
| "accepted_records ((W, q, c) # cs) a = (case handle W q c a of (r, a') \<Rightarrow>
     (case (r, c, write_key W q) of (Inr _, PostRecord _, Inr key) \<Rightarrow> [(w_tick W, key)] | _ \<Rightarrow> [])
     @ accepted_records cs a')"

lemma post_record_granted:
  assumes "post_record W q r a = (Inr res, a')"
  shows "\<exists>key. write_key W q = Inr key \<and> allow (w_tick W) key (app_limiter a) = (True, app_limiter a')"
proof -
  from assms obtain b where w: "require_record_write W q a = (Inr (), b)"
    and s: "on_node (submit_record (w_env W) (Some (relay_policy W)) True r) b = (Inr res, a')"
    by (auto simp: post_record_def result_simps http_error_def split: if_splits)
  from s have "app_limiter a' = app_limiter b" by (auto simp: on_node_run)
  with w show ?thesis
    by (auto simp: require_record_write_run http_error_def split: sum.splits prod.splits if_splits)
qed

lemma in_window_more: "length (in_window w t (xs @ zs)) \<le> length (in_window w t (xs @ ys @ zs))"
  by (simp add: in_window_def)

lemma accepted_records_window:
  assumes "window_inv h (app_limiter a) now" "sorted (now # map (w_tick \<circ> fst) cs)"
  shows "int (length (in_window (lm_window (app_limiter a)) t (h k @ grants_of k (accepted_records cs a))))
    \<le> lm_requests (app_limiter a)"
  using assms
proof (induction cs arbitrary: h a now)
  case Nil
  then show ?case by (simp add: grants_of_def window_inv_def)
next
  case (Cons call cs)
  obtain W q c where call: "call = (W, q, c)" by (cases call)
  obtain r a' where run: "handle W q c a = (r, a')" by (cases "handle W q c a")
  define new where "new = (case (r, c, write_key W q) of (Inr _, PostRecord _, Inr key) \<Rightarrow> [(w_tick W, key)] | _ \<Rightarrow> [])"
  have acc: "accepted_records (call # cs) a = new @ accepted_records cs a'"
    by (simp add: call run new_def)
  have inv: "window_inv h (app_limiter a) (w_tick W)"
    using Cons.prems call by (intro window_inv_later [OF Cons.prems(1)]) simp
  have sorted: "sorted (w_tick W # map (w_tick \<circ> fst) cs)" using Cons.prems(2) call by (simp add: comp_def)
  have same: "lm_window L' = lm_window (app_limiter a) \<and> lm_requests L' = lm_requests (app_limiter a)"
    if "allow (w_tick W) key (app_limiter a) = (g, L')" for key g L'
    using allow_step [OF _ _ that] inv by (auto simp: window_inv_def window_step_def Let_def)
  show ?case
  proof (cases "new = []")
    case False
    then obtain x rec key where new: "r = Inr x" "c = PostRecord rec" "write_key W q = Inr key" "new = [(w_tick W, key)]"
      by (auto simp: new_def split: sum.splits api_call.splits)
    with run obtain res where "post_record W q rec a = (Inr res, a')"
      by (auto simp: ignore_def result_simps)
    from post_record_granted [OF this] new(3) have g: "allow (w_tick W) key (app_limiter a) = (True, app_limiter a')" by auto
    from Cons.IH [OF window_inv_allow [OF inv g] sorted] same [OF g] show ?thesis
      unfolding acc new(4) by (simp add: grants_of_def split: if_splits)
  next
    case True
    from handle_limited run consider "app_limiter a' = app_limiter a"
      | key g where "allow (w_tick W) key (app_limiter a) = (g, app_limiter a')"
      unfolding limited_def by blast
    then show ?thesis
    proof cases
      case 1
      from Cons.IH [OF inv [folded 1] sorted] show ?thesis unfolding acc True by (simp add: 1)
    next
      case 2
      from Cons.IH [OF window_inv_allow [OF inv 2] sorted] same [OF 2] 
      have "int (length (in_window (lm_window (app_limiter a)) t (h k @ (if g \<and> k = key then [w_tick W] else [])
          @ grants_of k (accepted_records cs a')))) \<le> lm_requests (app_limiter a)" by simp
      then show ?thesis unfolding acc True
        using in_window_more [of "lm_window (app_limiter a)" t "h k" "grants_of k (accepted_records cs a')"
            "if g \<and> k = key then [w_tick W] else []"] by simp
    qed
  qed
qed

lemma records_rate_limited:
  assumes "0 \<le> write_requests_per_minute S" "sorted (map (w_tick \<circ> fst) cs)"
  shows "int (length (in_window 60 t (grants_of k (accepted_records cs (new_app S n))))) \<le> write_requests_per_minute S"
proof (cases cs)
  case Nil
  with assms(1) show ?thesis by (simp add: grants_of_def in_window_def)
next
  case (Cons c cs')
  have "window_inv (\<lambda>_. []) (app_limiter (new_app S n)) (w_tick (fst c))"
    using assms(1) by (auto simp: window_inv_def events_ok_def queue_of_def in_window_def new_app_def)
  from accepted_records_window [OF this, of cs t k] assms(2) Cons show ?thesis
    by (simp add: new_app_def)
qed

section \<open>Everything that can happen to a node\<close>

text \<open>Requests and background work, with any peers, any answers, any clients, one chain and one
  configuration. Documents arrive through \<open>json.loads\<close>: their dictionaries have distinct keys.\<close>

definition same_world :: "env \<Rightarrow> rpc \<Rightarrow> settings \<Rightarrow> world \<Rightarrow> bool" where
  "same_world E R S W \<longleftrightarrow> w_env W = E \<and> w_rpc W = R \<and> w_settings W = S \<and> parses_well (w_http W)"

fun wf_call :: "api_call \<Rightarrow> bool" where
  "wf_call (PostRecord r) = wf_json r"
| "wf_call (PostSnapshot s) = wf_json s"
| "wf_call _ = True"

inductive app_step :: "env \<Rightarrow> rpc \<Rightarrow> settings \<Rightarrow> app \<Rightarrow> app \<Rightarrow> bool" for E R S where
  request: "same_world E R S W \<Longrightarrow> wf_call c \<Longrightarrow> handle W q c a = (r, a') \<Longrightarrow> app_step E R S a a'"
| sync: "same_world E R S W \<Longrightarrow> on_node (run_sync W) a = (r, a') \<Longrightarrow> app_step E R S a a'"
| scan: "same_world E R S W \<Longrightarrow> on_node (run_scan W) a = (r, a') \<Longrightarrow> app_step E R S a a'"
| resolve: "same_world E R S W \<Longrightarrow> on_node (run_resolve W) a = (r, a') \<Longrightarrow> app_step E R S a a'"

inductive reachable :: "env \<Rightarrow> rpc \<Rightarrow> settings \<Rightarrow> app \<Rightarrow> bool" for E R S where
  start: "(ix n)\<lparr>metadata := []\<rparr> = empty_index \<Longrightarrow> evidence_ok E (ev n) \<Longrightarrow> reachable E R S (new_app S n)"
| step: "reachable E R S a \<Longrightarrow> app_step E R S a a' \<Longrightarrow> reachable E R S a'"

inductive_cases app_stepE: "app_step E R S a a'"

lemma preserves_on_node: "preserves I m \<Longrightarrow> preserves (\<lambda>a. I (app_node a)) (on_node m)"
  by (auto simp: preserves_def on_node_def split: prod.splits)

lemma preserves_allow: "preserves (\<lambda>a. I (app_node a)) (allow_call W key)"
  by (simp add: preserves_def allow_call_def split: prod.splits)

lemma preserves_sum [preserve]:
  "(\<And>e. r = Inl e \<Longrightarrow> preserves I (f e)) \<Longrightarrow> (\<And>x. r = Inr x \<Longrightarrow> preserves I (g x)) \<Longrightarrow>
   preserves I (case r of Inl e \<Rightarrow> f e | Inr x \<Rightarrow> g x)"
  by (cases r) simp_all

lemma chain_ok_sync: "parses_well H \<Longrightarrow> preserves (chain_ok E R) (sync_all_peers E H page_size max_bytes max_pages ps)"
  by (rule backed.sync_all_keep)

lemma requirements_keep [preserve]:
  "preserves (\<lambda>a. I (app_node a)) (require_record_write W q)"
  "preserves (\<lambda>a. I (app_node a)) (require_node_admin W q)"
  "preserves (\<lambda>a. I (app_node a)) (require_coordinator_admin W q)"
  unfolding require_record_write_def require_coordinator_admin_def require_node_admin_def Let_def
  by (intro preserve preserves_allow)+

lemma handle_keeps_chain_ok:
  assumes W: "same_world E R S W" and c: "wf_call c"
  shows "preserves (\<lambda>a. chain_ok E R (app_node a)) (handle W q c)"
proof -
  have W': "w_env W = E" "w_rpc W = R" "parses_well (w_http W)" using W by (simp_all add: same_world_def)
  have "preserves (\<lambda>a. chain_ok E R (app_node a)) (post_record W q r)" if "wf_json r" for r
    unfolding post_record_def W' by (intro preserve preserves_on_node that)
  moreover have "preserves (\<lambda>a. chain_ok E R (app_node a)) (post_batch W q b)" for b
    unfolding post_batch_def W' Let_def by (intro preserve preserves_on_node)
  moreover have "preserves (\<lambda>a. chain_ok E R (app_node a)) (post_anchor W q bid)" for bid
    unfolding post_anchor_def W' Let_def by (intro preserve preserves_on_node)
  moreover have "preserves (\<lambda>a. chain_ok E R (app_node a)) (post_direct_anchor W q rid network)" for rid network
    unfolding post_direct_anchor_def W' Let_def by (intro preserve preserves_on_node)
  moreover have "preserves (\<lambda>a. chain_ok E R (app_node a)) (post_verify_anchor W q bid)" for bid
    unfolding post_verify_anchor_def W' by (intro preserve preserves_on_node)
  moreover have "preserves (\<lambda>a. chain_ok E R (app_node a)) (post_sync W q)"
    unfolding post_sync_def run_sync_def W' Let_def by (intro preserve preserves_on_node chain_ok_sync W')
  moreover have "preserves (\<lambda>a. chain_ok E R (app_node a)) (post_scan W q)"
    unfolding post_scan_def run_scan_def W' Let_def by (intro preserve preserves_on_node)
  moreover have "preserves (\<lambda>a. chain_ok E R (app_node a)) (post_resolve W q)"
    unfolding post_resolve_def run_resolve_def W' Let_def by (intro preserve preserves_on_node chain_ok_resolve W')
  moreover have "preserves (\<lambda>a. chain_ok E R (app_node a)) (get_snapshot W q)"
    unfolding get_snapshot_def ask_node_def by (intro preserve)
  moreover have "preserves (\<lambda>a. chain_ok E R (app_node a)) (post_snapshot W q s)" if "wf_json s" for s
    unfolding post_snapshot_def W' by (intro preserve preserves_on_node that)
  moreover have "preserves (\<lambda>a. chain_ok E R (app_node a)) (readiness W)"
    unfolding readiness_def W' Let_def by (intro preserve preserves_on_node)
  ultimately show ?thesis
    using c by (cases c) (simp_all only: handle.simps ignore_def wf_call.simps, (intro preserve, assumption?)+)
qed

lemma app_step_chain_ok:
  assumes "app_step E R S a a'" "chain_ok E R (app_node a)"
  shows "chain_ok E R (app_node a')"
  using assms(1)
proof cases
  case (request W c q r)
  from preservesD [OF handle_keeps_chain_ok [OF request(1,2)] request(3)] assms(2) show ?thesis by simp
next
  case (sync W r)
  have "preserves (\<lambda>a. chain_ok E R (app_node a)) (on_node (run_sync W))"
    using sync(1) unfolding run_sync_def same_world_def Let_def by (auto intro!: preserves_on_node chain_ok_sync)
  from preservesD [OF this sync(2)] assms(2) show ?thesis by simp
next
  case (scan W r)
  have "preserves (\<lambda>a. chain_ok E R (app_node a)) (on_node (run_scan W))"
    using scan(1) unfolding run_scan_def same_world_def Let_def by (auto intro!: preserves_on_node preserve)
  from preservesD [OF this scan(2)] assms(2) show ?thesis by simp
next
  case (resolve W r)
  have "preserves (\<lambda>a. chain_ok E R (app_node a)) (on_node (run_resolve W))"
    using resolve(1) unfolding run_resolve_def same_world_def Let_def by (auto intro!: preserves_on_node chain_ok_resolve)
  from preservesD [OF this resolve(2)] assms(2) show ?thesis by simp
qed

lemma reachable_chain_ok: "reachable E R S a \<Longrightarrow> chain_ok E R (app_node a)"
  by (induction rule: reachable.induct) (auto simp: new_app_def chain_ok_empty intro: app_step_chain_ok)

end
