(* ===== verification/ScanFacts.thy ===== *)
theory ScanFacts
  imports ChainFacts
begin

text \<open>
  What a scan of the chain (\<^verbatim>\<open>src/hap/discovery.py\<close>, \<open>scan_bitcoin\<close>) leaves behind, when the Bitcoin
  daemon serves one chain while it runs: the stored blocks and commitments are those of that
  chain, also when the last scan followed another one, and an anchor whose commitment was
  lost with its block is not confirmed any more.
\<close>

section \<open>What the operations of a scan keep\<close>

lemma preserves_index_calls: "preserves (\<lambda>n. I (ix n)) (rpcM m)"
  by (simp add: preserves_def rpcM_def split: prod.splits)

lemma preserves_index_store: "(\<And>s x s'. I s \<Longrightarrow> f s = Inr (x, s') \<Longrightarrow> I s') \<Longrightarrow> preserves (\<lambda>n. I (ix n)) (storeM f)"
  unfolding storeM_def by (rule preserves_update) (auto simp: bindE_eq_Inr)

text \<open>An invariant of the index that the storage of an admissible commitment, and of an anchor for a
  stored commitment, keep: the operations between two blocks.\<close>

locale scan_invariant =
  fixes I :: "index \<Rightarrow> bool" and admissible :: "commitment \<Rightarrow> bool"
  assumes commit: "I s \<Longrightarrow> admissible c \<Longrightarrow> add_commitment c s = Inr (b, s') \<Longrightarrow> I s'"
    and anchor: "I s \<Longrightarrow> c \<in> set (all_rows (commitments_t s)) \<Longrightarrow> a_point a = c_point c \<Longrightarrow>
      add_anchor a s = Inr (b, s') \<Longrightarrow> I s'"
    and mark: "I s \<Longrightarrow> I (mark_commitment_resolved t v s)"
begin

lemma keep_register: "preserves (\<lambda>n. I (ix n)) (register_scanned_anchor bid txid vout)"
proof (rule preservesI)
  fix n :: node assume n: "I (ix n)"
  define xs where "xs = filter (\<lambda>c. c_txid c = txid \<and> c_vout c = vout) (list_commitments (ix n) False (Some bid) 10000)"
  define a where "a = anchor_of_commitment bid txid (hd xs)"
  have marks: "preserves (\<lambda>n. I (ix n)) (bindM (mapM (\<lambda>item. storeM (\<lambda>s. Inr ((),
      mark_commitment_resolved (c_txid item) (c_vout item) s))) xs) (\<lambda>_. returnM a))"
    by (intro preserves_bind preserves_mapM preserves_index_store preserves_lift) (auto intro: mark)
  have "I s'" if "xs \<noteq> []" "add_anchor a (ix n) = Inr (b, s')" for b s'
  proof -
    have "hd xs \<in> set xs" using that(1) by simp
    then have "hd xs \<in> set (all_rows (commitments_t (ix n)))" "a_point a = c_point (hd xs)"
      by (auto simp: xs_def list_commitments_def sql_limit_def a_def anchor_of_commitment_def a_point_def c_point_def
          dest!: in_set_takeD)
    then show ?thesis by (rule anchor [OF n _ _ that(2)])
  qed
  then have "I (ix (snd (bindM (storeM (add_anchor a)) (\<lambda>_. bindM (mapM (\<lambda>item. storeM (\<lambda>s. Inr ((),
      mark_commitment_resolved (c_txid item) (c_vout item) s))) xs) (\<lambda>_. returnM a)) n)))" if "xs \<noteq> []"
    using that n marks by (auto simp: bind_store preserves_def split: sum.split)
  then show "I (ix (snd (register_scanned_anchor bid txid vout n)))"
    using n by (auto simp: register_scanned_anchor_def Let_def liftM_def simp flip: xs_def a_def split: option.split)
qed

lemma keep_output:
  assumes "\<And>c. c_block_height c = height \<Longrightarrow> c_block_hash c = bhash \<Longrightarrow> admissible c"
  shows "preserves (\<lambda>n. I (ix n)) (scan_output R clock network height bhash btime txid index output found)"
proof -
  have "preserves (\<lambda>n. I (ix n)) (storeM (add_commitment c))"
    if "c_block_height c = height" "c_block_hash c = bhash" for c
    using assms that by (intro preserves_index_store) (blast intro: commit)
  then show ?thesis
    unfolding scan_output_def
    by (intro preserve preserves_check_bind preserves_if preserves_option keep_register)
      (auto split: sum.split intro!: preserve keep_register)
qed

lemma keep_outputs:
  assumes "\<And>c. c_block_height c = height \<Longrightarrow> c_block_hash c = bhash \<Longrightarrow> admissible c"
  shows "preserves (\<lambda>n. I (ix n)) (scan_outputs R clock network height bhash btime txid index outputs found)"
  by (induction outputs arbitrary: index found) (auto intro!: preserve keep_output assms)

lemma keep_transactions:
  assumes "\<And>c. c_block_height c = height \<Longrightarrow> c_block_hash c = bhash \<Longrightarrow> admissible c"
  shows "preserves (\<lambda>n. I (ix n)) (scan_transactions R clock network height bhash btime txs found)"
proof (induction txs arbitrary: found)
  case (Cons tx txs)
  show ?case
    unfolding scan_transactions.simps
    apply (rule preserves_check_bind)
    subgoal for x
      by (cases x) (auto intro!: preserve keep_outputs Cons.IH assms)
    done
qed (simp add: preserve)

end

section \<open>Blocks and commitments of one chain\<close>

text \<open>The stored blocks and commitments belong to the chain \<open>C\<close> up to the height \<open>h\<close>.\<close>

definition on_chain :: "(int \<Rightarrow> ustr) \<Rightarrow> int \<Rightarrow> index \<Rightarrow> bool" where
  "on_chain C h s \<longleftrightarrow> blocks_ok s
     \<and> (\<forall>b \<in> set (bitcoin_blocks s). 0 \<le> bl_height b \<and> bl_height b \<le> h \<and> bl_hash b = C (bl_height b))
     \<and> (\<forall>c \<in> set (all_rows (commitments_t s)). 0 \<le> c_block_height c \<and> c_block_height c \<le> h
          \<and> c_block_hash c = C (c_block_height c))"

definition scanned_height :: "index \<Rightarrow> int" where
  "scanned_height s = (case latest_scanned_block s of None \<Rightarrow> - 1 | Some b \<Rightarrow> bl_height b)"

text \<open>While a scan runs, the daemon serves the chain \<open>C\<close> of height \<open>tip\<close>.\<close>

definition serves_chain :: "rpc \<Rightarrow> (int \<Rightarrow> ustr) \<Rightarrow> int \<Rightarrow> bool" where
  "serves_chain R C tip \<longleftrightarrow> (\<forall>k h. 0 \<le> h \<and> h \<le> tip \<longrightarrow> fst (rpc_block_hash R h k) = Inr (C h))
     \<and> (\<forall>k. fst (rpc_block_count R k) = Inr tip)"

text \<open>Two chains that have a block in common have the blocks below it in common.\<close>

definition fork_of :: "(int \<Rightarrow> ustr) \<Rightarrow> (int \<Rightarrow> ustr) \<Rightarrow> bool" where
  "fork_of C0 C \<longleftrightarrow> (\<forall>h h'. 0 \<le> h' \<and> h' \<le> h \<and> C0 h = C h \<longrightarrow> C0 h' = C h')"

text \<open>A confirmed anchor at one of the points \<open>P\<close> has its commitment.\<close>

definition backed :: "(ustr \<times> int) set \<Rightarrow> index \<Rightarrow> bool" where
  "backed P s \<longleftrightarrow> (\<forall>a \<in> set (all_rows (anchors_t s)). is_confirmed a \<and> a_point a \<in> P \<longrightarrow>
     a_point a \<in> c_point ` set (all_rows (commitments_t s)))"

interpretation chain: scan_invariant "on_chain C h"
  "\<lambda>c. 0 \<le> c_block_height c \<and> c_block_height c \<le> h \<and> c_block_hash c = C (c_block_height c)" for C h
proof unfold_locales
  fix s s' c b
  assume "on_chain C h s" "0 \<le> c_block_height c \<and> c_block_height c \<le> h \<and> c_block_hash c = C (c_block_height c)"
    "add_commitment c s = Inr (b, s')"
  then show "on_chain C h s'"
    by (auto simp: on_chain_def add_commitment_eq_Inr all_rows_upsert merge_commitment_def blocks_ok_def)
next
  fix s s' c b a
  assume "on_chain C h s" "add_anchor a s = Inr (b, s')"
  then show "on_chain C h s'" by (auto simp: on_chain_def add_anchor_eq_Inr blocks_ok_def)
next
  fix s t v
  assume "on_chain C h s"
  then show "on_chain C h (mark_commitment_resolved t v s)"
    by (auto simp: on_chain_def mark_commitment_resolved_def all_rows_update blocks_ok_def)
qed

lemma same_keys: "(\<And>r. key (f r) = key r) \<Longrightarrow> key ` set (map f xs) = key ` set xs"
  by (simp add: image_image)

lemma upsert_keys:
  assumes "\<And>old. key (merge old r) = key r"
  shows "key ` set (all_rows (snd (upsert key merge r t))) = insert (key r) (key ` set (all_rows t))"
proof -
  have "key (if key r' = key r then merge r' r else r') = key r'" for r' using assms by simp
  note keys = same_keys [of key "\<lambda>r'. if key r' = key r then merge r' r else r'", OF this]
  show ?thesis
    unfolding all_rows_upsert by (cases "key r \<in> key ` set (all_rows t)") (auto simp only: if_True if_False keys set_append image_Un list.set image_insert image_empty)
qed

interpretation backing: scan_invariant "backed P" "\<lambda>_. True" for P
proof unfold_locales
  fix s s' c b
  assume s: "backed P s" "add_commitment c s = Inr (b, s')"
  then have "anchors_t s' = anchors_t s"
    "c_point ` set (all_rows (commitments_t s')) = insert (c_point c) (c_point ` set (all_rows (commitments_t s)))"
    by (simp_all add: add_commitment_eq_Inr upsert_keys)
  with s(1) show "backed P s'" by (auto simp: backed_def)
next
  fix s s' c b a
  assume "backed P s" "c \<in> set (all_rows (commitments_t s))" "a_point a = c_point c" "add_anchor a s = Inr (b, s')"
  then show "backed P s'"
    by (auto simp: backed_def add_anchor_eq_Inr all_rows_upsert split: if_splits)
next
  fix s t v
  have same: "c_point (if c_point c = (t, v) then c\<lparr>c_resolved := True\<rparr> else c) = c_point c" for c
    by (simp add: c_point_def)
  have rows: "all_rows (commitments_t (mark_commitment_resolved t v s))
      = map (\<lambda>c. if c_point c = (t, v) then c\<lparr>c_resolved := True\<rparr> else c) (all_rows (commitments_t s))"
    by (simp add: mark_commitment_resolved_def all_rows_update)
  from same_keys [of c_point "\<lambda>c. if c_point c = (t, v) then c\<lparr>c_resolved := True\<rparr> else c", OF same]
  have "c_point ` set (all_rows (commitments_t (mark_commitment_resolved t v s))) = c_point ` set (all_rows (commitments_t s))"
    by (simp only: rows)
  moreover assume "backed P s"
  moreover have "anchors_t (mark_commitment_resolved t v s) = anchors_t s" by (simp add: mark_commitment_resolved_def)
  ultimately show "backed P (mark_commitment_resolved t v s)" by (simp only: backed_def)
qed

section \<open>Blocks\<close>

lemma latest_scanned:
  assumes "blocks_ok s" "b \<in> set (bitcoin_blocks s)" "\<forall>b' \<in> set (bitcoin_blocks s). bl_height b' \<le> bl_height b"
  shows "latest_scanned_block s = Some b"
proof -
  have "Max (bl_height ` set (bitcoin_blocks s)) = bl_height b"
    using assms(2,3) by (intro Max_eqI) auto
  then show ?thesis using assms(1,2) scanned_block_iff [of s] by (auto simp: latest_scanned_block_def)
qed

lemma on_chain_mono: "on_chain C h s \<Longrightarrow> h \<le> h' \<Longrightarrow> on_chain C h' s"
  by (fastforce simp: on_chain_def)

lemma on_chain_fork:
  assumes "on_chain C0 h s" "fork_of C0 C" "0 \<le> h \<longrightarrow> C0 h = C h"
  shows "on_chain C h s"
proof -
  have eq: "C0 h' = C h'" if "0 \<le> h'" "h' \<le> h" for h'
    using assms(2,3) that unfolding fork_of_def by fastforce
  with assms(1) show ?thesis unfolding on_chain_def by metis
qed

lemma on_chain_rewind: "on_chain C h s \<Longrightarrow> on_chain C k (rewind_bitcoin_scan k s)"
  by (auto simp: on_chain_def rewind_rows blocks_ok_def distinct_map_filter)

text \<open>One block: it becomes the highest one that is stored.\<close>

lemma scan_block_run:
  assumes serves: "serves_chain R C tip" "height \<le> tip" "0 \<le> height"
    and n: "on_chain C (height - 1) (ix n)" and run: "scan_block R clock network height found n = (Inr found', n')"
  shows "on_chain C height (ix n') \<and> scanned_height (ix n') = height"
proof -
  obtain bhash n1 blk n2 btime txs n3 x s where steps: "rpcM (rpc_block_hash R height) n = (Inr bhash, n1)"
    "rpcM (rpc_block R bhash 2) n1 = (Inr blk, n2)"
    "scan_transactions R clock network height bhash btime txs found n2 = (Inr x, n3)"
    "add_scanned_block \<lparr>bl_height = height, bl_hash = bhash, bl_time = btime\<rparr> (ix n3) = Inr s" "n' = n3\<lparr>ix := s\<rparr>"
    using run by (auto simp: scan_block_def result_simps storeM_def bindE_eq_Inr)
  have "fst (rpc_block_hash R height (calls n)) = Inr (C height)" using serves by (simp add: serves_chain_def)
  then have b: "bhash = C height" using steps(1) by (auto simp: rpcM_eq)
  have "ix n2 = ix n" using steps(1,2) by (auto simp: rpcM_eq)
  then have "on_chain C height (ix n2)" using on_chain_mono [OF n] by simp
  from preservesD [OF chain.keep_transactions steps(3) this] have n3: "on_chain C height (ix n3)"
    using b serves by simp
  let ?b = "\<lparr>bl_height = height, bl_hash = bhash, bl_time = btime\<rparr>"
  have s: "s = (ix n3)\<lparr>bitcoin_blocks := filter (\<lambda>b'. bl_height b' \<noteq> height \<and> bl_hash b' \<noteq> bhash) (bitcoin_blocks (ix n3)) @ [?b]\<rparr>"
    using steps(4) by (auto simp: add_scanned_block_def bindE_eq_Inr)
  then have c: "on_chain C height s"
    using n3 b serves by (auto simp: on_chain_def blocks_ok_def distinct_map_filter)
  moreover have "latest_scanned_block s = Some ?b"
    using c by (intro latest_scanned) (auto simp: on_chain_def s)
  ultimately show ?thesis using steps(5) by (simp add: scanned_height_def)
qed

lemma scan_heights_run:
  assumes "serves_chain R C tip"
  shows "scan_heights R clock network k height found n = (Inr found', n') \<Longrightarrow> height + int k \<le> tip + 1 \<Longrightarrow> 0 \<le> height \<Longrightarrow>
    on_chain C (height - 1) (ix n) \<Longrightarrow> scanned_height (ix n) \<le> height - 1 \<Longrightarrow>
    on_chain C (height + int k - 1) (ix n') \<and> (0 < k \<longrightarrow> scanned_height (ix n') = height + int k - 1)"
proof (induction k arbitrary: height found n)
  case (Suc k)
  from Suc.prems(1) obtain f1 n1 where r: "scan_block R clock network height found n = (Inr f1, n1)"
    "scan_heights R clock network k (height + 1) f1 n1 = (Inr found', n')"
    by (auto simp: result_simps)
  have one: "on_chain C height (ix n1) \<and> scanned_height (ix n1) = height"
    using scan_block_run [OF assms _ _ _ r(1)] Suc.prems by simp
  show ?case
  proof (cases k)
    case 0
    with r(2) one show ?thesis by (simp add: liftM_def)
  next
    case (Suc j)
    with Suc.IH [OF r(2)] Suc.prems one show ?thesis by (simp add: algebra_simps)
  qed
qed (simp add: liftM_def)

lemma backed_scan_heights: "preserves (\<lambda>n. backed P (ix n)) (scan_heights R clock network k height found)"
proof (induction k arbitrary: height found)
  case (Suc k)
  have "preserves (\<lambda>n. backed P (ix n)) (scan_block R clock network height found)" for found
    unfolding scan_block_def
    by (intro preserve preserves_index_calls backing.keep_transactions preserves_index_store)
      (auto simp: bindE_eq_Inr add_scanned_block_def backed_def)
  with Suc show ?case by (auto intro!: preserve)
qed (simp add: preserve)

section \<open>Where a scan starts\<close>

lemma find_ancestor_run:
  assumes serves: "serves_chain R C tip" and ok: "on_chain C0 h s"
  shows "int k \<le> tip + 1 \<Longrightarrow> find_ancestor R s k c = (Inr a, c') \<Longrightarrow>
    (a = - 1 \<or> 0 \<le> a \<and> a < int k \<and> C0 a = C a \<and> (\<exists>b \<in> set (bitcoin_blocks s). bl_height b = a))
    \<and> (\<forall>b \<in> set (bitcoin_blocks s). a < bl_height b \<and> bl_height b < int k \<longrightarrow> bl_hash b \<noteq> C (bl_height b))"
proof (induction k arbitrary: c)
  case 0
  then show ?case using ok by (auto simp: on_chain_def liftM_def)
next
  case (Suc k)
  have ok': "blocks_ok s" using ok by (simp add: on_chain_def)
  have hash: "fst (rpc_block_hash R (int k) c) = Inr (C (int k))" for c
    using serves Suc.prems(1) by (simp add: serves_chain_def)
  have less: "x < int (Suc k) \<longleftrightarrow> x < int k \<or> x = int k" for x by auto
  have at: "b \<in> set (bitcoin_blocks s) \<Longrightarrow> bl_height b = int k \<Longrightarrow> scanned_block s (int k) = Some b" for b
    using scanned_block_iff [OF ok'] by blast
  consider (later) c1 where "find_ancestor R s k c1 = (Inr a, c')"
      "\<forall>b \<in> set (bitcoin_blocks s). bl_height b = int k \<longrightarrow> bl_hash b \<noteq> C (int k)"
    | (here) b where "a = int k" "b \<in> set (bitcoin_blocks s)" "bl_height b = int k" "bl_hash b = C (int k)"
  proof (cases "scanned_block s (int k)")
    case None
    with Suc.prems(2) at show ?thesis by (intro later [of c]) auto
  next
    case (Some b)
    obtain c1 where c1: "rpc_block_hash R (int k) c = (Inr (C (int k)), c1)" using hash [of c] by (metis prod.collapse)
    show ?thesis
    proof (cases "C (int k) = bl_hash b")
      case True
      with Suc.prems(2) Some c1 have "a = int k" by (simp add: bindM_def tryM_def liftM_def)
      with True Some show ?thesis using here scanned_block_iff [OF ok'] by auto
    next
      case False
      with Suc.prems(2) Some c1 have "find_ancestor R s k c1 = (Inr a, c')" by (simp add: bindM_def tryM_def)
      moreover have "\<forall>b' \<in> set (bitcoin_blocks s). bl_height b' = int k \<longrightarrow> bl_hash b' \<noteq> C (int k)"
        using at Some False by fastforce
      ultimately show ?thesis by (rule later)
    qed
  qed
  then show ?case
  proof cases
    case later
    with Suc.IH [OF _ later(1)] Suc.prems(1) show ?thesis unfolding less by auto
  next
    case here
    with ok show ?thesis by (auto simp: on_chain_def)
  qed
qed

lemma scanned_height_bound:
  "on_chain C h s \<Longrightarrow> h = - 1 \<or> (\<exists>b \<in> set (bitcoin_blocks s). bl_height b = h) \<Longrightarrow> scanned_height s = h"
  unfolding scanned_height_def
proof (elim disjE bexE)
  assume "on_chain C h s" "h = - 1"
  then have "bitcoin_blocks s = []" by (cases "bitcoin_blocks s") (auto simp: on_chain_def)
  with \<open>h = - 1\<close> show "(case latest_scanned_block s of None \<Rightarrow> - 1 | Some b \<Rightarrow> bl_height b) = h"
    by (simp add: latest_scanned_block_def)
next
  fix b assume "on_chain C h s" "b \<in> set (bitcoin_blocks s)" "bl_height b = h"
  then show "(case latest_scanned_block s of None \<Rightarrow> - 1 | Some b \<Rightarrow> bl_height b) = h"
    using latest_scanned [of s b] by (auto simp: on_chain_def)
qed

lemma rewind_to_ancestor_run:
  assumes serves: "serves_chain R C tip" and n: "on_chain C0 h (ix n)" and fork: "fork_of C0 C" and "height \<le> tip"
    and run: "rewind_to_ancestor R start height n = (Inr (rw, nxt), n')"
  shows "\<exists>a. ix n' = rewind_bitcoin_scan a (ix n) \<and> nxt = max start (a + 1) \<and> - 1 \<le> a
    \<and> on_chain C a (ix n') \<and> scanned_height (ix n') = a"
proof -
  from run obtain a c' where a: "find_ancestor R (ix n) (nat (height + 1)) (calls n) = (Inr a, c')"
    "ix n' = rewind_bitcoin_scan a (ix n)" "nxt = max start (a + 1)"
    by (auto simp: rewind_to_ancestor_def find_common_ancestor_def result_simps storeM_def rpcM_eq)
  have "a = - 1 \<or> 0 \<le> a \<and> C0 a = C a \<and> (\<exists>b \<in> set (bitcoin_blocks (ix n)). bl_height b = a)"
  proof (cases "0 \<le> height + 1")
    case True
    with find_ancestor_run [OF serves n _ a(1)] assms(4) show ?thesis by auto
  next
    case False
    with a(1) show ?thesis by (simp add: liftM_def)
  qed
  moreover from this have "on_chain C a (ix n')"
    unfolding a(2) by (intro on_chain_fork [OF on_chain_rewind [OF n] fork]) auto
  moreover from calculation have "scanned_height (ix n') = a"
    by (intro scanned_height_bound) (auto simp: a(2) rewind_rows)
  ultimately show ?thesis using a by auto
qed

lemma scan_start_run:
  assumes serves: "serves_chain R C tip" and fork: "fork_of C0 C"
    and n: "on_chain C0 (scanned_height (ix n)) (ix n)" and run: "scan_start R start tip n = (Inr (rw, nxt), n')"
  shows "on_chain C (scanned_height (ix n')) (ix n') \<and> scanned_height (ix n') < nxt \<and> 0 \<le> nxt
    \<and> (ix n' = ix n \<or> (\<exists>a. ix n' = rewind_bitcoin_scan a (ix n)))"
proof (cases "latest_scanned_block (ix n)")
  case None
  with run have "ix n' = ix n" "nxt = max 0 start" by (auto simp: scan_start_def result_simps)
  moreover from None have "scanned_height (ix n) = - 1" by (simp add: scanned_height_def)
  moreover from this n have "on_chain C (- 1) (ix n)" by (intro on_chain_fork [OF _ fork]) simp_all
  ultimately show ?thesis by simp
next
  case (Some b)
  have h: "scanned_height (ix n) = bl_height b" using Some by (simp add: scanned_height_def)
  have b: "b \<in> set (bitcoin_blocks (ix n))" "0 \<le> bl_height b" "bl_hash b = C0 (bl_height b)"
    using n latest_scanned_block_max(1) [OF _ Some] by (auto simp: on_chain_def)
  have rewound: ?thesis if "rewind_to_ancestor R start k m = (Inr (rw, nxt), n')" "k \<le> tip" "ix m = ix n" for k m
    using rewind_to_ancestor_run [OF serves _ fork that(2,1)] n that(3) by (fastforce simp: le_max_iff_disj)
  show ?thesis
  proof (cases "bl_height b \<le> tip")
    case False
    with run Some have "rewind_to_ancestor R start tip n = (Inr (rw, nxt), n')" by (simp add: scan_start_def)
    then show ?thesis by (rule rewound) simp_all
  next
    case True
    obtain c where call: "rpc_block_hash R (bl_height b) (calls n) = (Inr (C (bl_height b)), c)"
      using serves True b(2) unfolding serves_chain_def by (metis prod.collapse)
    with run Some True have r: "(if C (bl_height b) \<noteq> bl_hash b then rewind_to_ancestor R start (bl_height b)
        else returnM (None, bl_height b + 1)) (n\<lparr>calls := c\<rparr>) = (Inr (rw, nxt), n')"
      by (auto simp: scan_start_def bindM_def tryM_def rpcM_def readM_def liftM_def)
    show ?thesis
    proof (cases "C (bl_height b) = bl_hash b")
      case True
      with r have "ix n' = ix n" "nxt = bl_height b + 1" by (auto simp: liftM_def)
      moreover have "on_chain C (scanned_height (ix n)) (ix n)"
        using True b h by (intro on_chain_fork [OF n fork]) simp
      ultimately show ?thesis using h b by simp
    next
      case False
      with r have "rewind_to_ancestor R start (bl_height b) (n\<lparr>calls := c\<rparr>) = (Inr (rw, nxt), n')" by simp
      then show ?thesis by (rule rewound) (simp_all add: \<open>bl_height b \<le> tip\<close>)
    qed
  qed
qed

section \<open>A scan\<close>

lemma scan_bitcoin_run:
  assumes serves: "serves_chain R C tip" and fork: "fork_of C0 C"
    and n: "on_chain C0 (scanned_height (ix n)) (ix n)" and run: "scan_bitcoin R clock start max_blocks n = (Inr res, n')"
  shows "on_chain C (scanned_height (ix n')) (ix n') \<and> (0 < sr_blocks res \<longrightarrow> scanned_height (ix n') = sr_end res)
    \<and> (\<forall>a \<in> set (all_rows (anchors_t (ix n'))). is_confirmed a
        \<and> a_point a \<in> c_point ` set (all_rows (commitments_t (ix n)))
        \<longrightarrow> a_point a \<in> c_point ` set (all_rows (commitments_t (ix n'))))"
proof -
  define P where "P = c_point ` set (all_rows (commitments_t (ix n)))"
  obtain network n1 t n2 rw nxt n3 where steps: "rpcM (rpc_network R) n = (Inr network, n1)"
    "rpcM (rpc_block_count R) n1 = (Inr t, n2)" "scan_start R start t n2 = (Inr (rw, nxt), n3)"
    and rest: "if t < nxt then n' = n3 \<and> sr_blocks res = 0
      else \<exists>found. scan_heights R clock network (nat (sr_end res - nxt + 1)) nxt 0 n3 = (Inr found, n')
        \<and> sr_end res = min t (nxt + max 1 max_blocks - 1)"
    using run by (fastforce simp: scan_bitcoin_def Let_def result_simps split: if_splits)
  have "fst (rpc_block_count R (calls n1)) = Inr tip" using serves by (simp add: serves_chain_def)
  with steps(2) have t: "t = tip" by (auto simp: rpcM_eq)
  have same: "ix n2 = ix n" using steps(1,2) by (auto simp: rpcM_eq)
  from scan_start_run [OF serves fork _ steps(3) [unfolded t]] n same
  have n3: "on_chain C (scanned_height (ix n3)) (ix n3)" "scanned_height (ix n3) < nxt" "0 \<le> nxt"
    "ix n3 = ix n \<or> (\<exists>a. ix n3 = rewind_bitcoin_scan a (ix n))" by auto
  have "backed P (ix n)" by (auto simp: backed_def P_def)
  moreover have "backed P (rewind_bitcoin_scan a (ix n))" for a
    by (force simp: backed_def P_def rewind_rows is_confirmed_def str_def image_iff split: if_splits)
  ultimately have b3: "backed P (ix n3)" using n3(4) by auto
  show ?thesis
  proof (cases "tip < nxt")
    case True
    with rest t n3 b3 show ?thesis by (auto simp: backed_def P_def)
  next
    case False
    with rest t obtain found where h: "scan_heights R clock network (nat (sr_end res - nxt + 1)) nxt 0 n3 = (Inr found, n')"
      "sr_end res \<le> tip" "nxt \<le> sr_end res" by auto
    have "on_chain C (nxt - 1) (ix n3)" using n3(1,2) by (intro on_chain_mono [OF n3(1)]) simp
    from scan_heights_run [OF serves h(1) _ n3(3) this] h(2,3) n3(2)
    have "on_chain C (sr_end res) (ix n')" "scanned_height (ix n') = sr_end res" by auto
    with preservesD [OF backed_scan_heights h(1) b3] show ?thesis by (auto simp: backed_def P_def)
  qed
qed

end
