(* ===== verification/ExportFacts.thy ===== *)
theory ExportFacts
  imports NodeProofs SnapshotFacts
begin

text \<open>
  When the export of a snapshot succeeds (\<^verbatim>\<open>src/hap/service.py\<close>, \<open>export_snapshot\<close>): an index under its
  invariant can be exported exactly when the target of every stored record is stored too and all
  anchors are publishable. An anchor that is imported need not be: its numbers may be larger than
  canonical JSON allows.
\<close>

lemma list_records_all:
  "length (all_rows (records_t s)) \<le> 10000000 \<Longrightarrow> list_records s 10000000 False = map r_body (all_rows (records_t s))"
  by (simp add: list_records_def sql_limit_def)

lemma export_total:
  assumes ok: "index_ok E s" and E: "digests_32 E" and now: "0 \<le> now" "now \<le> MAX_SAFE_JSON_INTEGER"
    and small: "length (all_rows (records_t s)) \<le> 10000000" "length (all_rows (batches_t s)) \<le> 10000000"
    and closed: "\<forall>i r t. get_record s i = Some r \<and> dget r ''target_record_id'' = JStr t \<longrightarrow> get_record s t \<noteq> None"
    and anchors: "\<forall>a \<in> set (all_rows (anchors_t s)). publishable a"
  shows "\<exists>snap. export_snapshot E now s = Inr snap"
proof -
  define rs bs as where "rs = map r_body (all_rows (records_t s))"
    and "bs = map bt_body (all_rows (batches_t s))" and "as = map anchor_as_dict (all_rows (anchors_t s))"
  have parts: "records_ok E s" "batches_ok E s" "links_ok s" "anchors_ok s" using ok by (auto simp: index_ok_def)
  have r: "validate_record E r = Inr ()" "wf_json r" "get_record s (rid_of r) = Some r" if "r \<in> set rs" for r
    using that parts(1) get_record_Some [OF parts(1)] by (auto simp: records_ok_def rs_def)
  have b: "validate_batch E b = Inr ()" "wf_json b" if "b \<in> set bs" for b
    using that parts(2) by (auto simp: batches_ok_def bs_def)
  define fs where "fs = [(''schema'', JStr (str ''hap.snapshot'')), (''version'', JInt 1),
    (''created_at'', JInt now), (''records'', JList rs), (''batches'', JList bs), (''anchors'', JList as)]"
  have "\<forall>r \<in> set rs. in_range r \<and> encodable_json r \<and> json_depth r \<le> 3"
    using r validate_record_encodable validate_record_depth by blast
  moreover have "\<forall>b \<in> set bs. in_range b \<and> encodable_json b \<and> json_depth b \<le> 2"
    using b validate_batch_encodable validate_batch_depth by blast
  moreover have "\<forall>a \<in> set as. in_range a \<and> encodable_json a \<and> json_depth a \<le> 1"
    using anchors anchor_dict_depth by (auto simp: as_def publishable_def)
  ultimately have "in_range (obj fs) \<and> json_depth (obj fs) \<le> 32 \<and> encodable_json (obj fs)"
    using now by (auto simp: fs_def obj_def MAX_SAFE_JSON_INTEGER_def)
  then obtain body where body: "canonical_json_bytes (obj fs) = Inr body" using canonical_json_bytes_iff by blast
  define i where "i = sha256_hex E body"
  define snap where "snap = dput ''snapshot_id'' (JStr i) (obj fs)"
  have snap: "snap = obj (fs @ [(''snapshot_id'', JStr i)])" "snapshot_body snap = obj fs" "snapshot_body (obj fs) = obj fs"
    by (simp_all add: snap_def fs_def snapshot_body_def dput_obj dpop_obj)
  have ids: "\<forall>k. k \<in> rid_of ` set rs \<longleftrightarrow> get_record s k \<noteq> None"
    using r(3) get_record_Some [OF parts(1)] by (force simp: rs_def)
  have rows: "r_id row = rid_of (r_body row)" if "row \<in> set (all_rows (records_t s))" for row
    using that parts(1) row_of_record_simps(1) unfolding records_ok_def by metis
  have brows: "bt_id row = text_of (dget (bt_body row) ''batch_id'')" if "row \<in> set (all_rows (batches_t s))" for row
    using that parts(2) row_of_batch_simps(1) unfolding batches_ok_def bid_of_def by metis
  have held: "record_ids_in s = rid_of ` set rs" "batch_ids_in s = (\<lambda>b. text_of (dget b ''batch_id'')) ` set bs"
    unfolding record_ids_in_def batch_ids_in_def rs_def bs_def using rows brows by (auto simp: image_image)
  have "snapshot_closed E rs bs as"
    unfolding snapshot_closed_def
  proof (intro conjI)
    show "distinct (map rid_of rs)"
      using list_records_distinct [OF parts(1)] small(1) by (metis list_records_all rs_def)
    show "\<forall>x \<in> set rs. \<forall>t. dget x ''target_record_id'' = JStr t \<longrightarrow> t \<in> rid_of ` set rs"
      using closed r(3) ids by blast
    have "map bt_id (all_rows (batches_t s)) = map bid_of bs"
      using brows by (simp add: bs_def bid_of_def)
    then have d: "distinct (map bid_of bs)"
      using parts(2) by (metis batches_ok_def table_ok_def)
    then show "distinct (map (\<lambda>b. text_of (dget b ''batch_id'')) bs)" by (simp add: bid_of_def [abs_def])
    have "get_batch s (bid_of x) = Some x" if "x \<in> set bs" for x
      unfolding get_batch_map_of [OF parts(2)] bs_def [symmetric]
      using that d by (intro map_of_is_SomeI) (auto simp: comp_def)
    then show "\<forall>x \<in> set bs. validate_batch E x = Inr () \<and> set (record_ids_of x) \<subseteq> rid_of ` set rs"
      using b(1) links_records_present [OF ok] held(1) by blast
    show "\<forall>a \<in> set as. validate_anchor_reference a = Inr ()
          \<and> text_of (dget a ''batch_id'') \<in> (\<lambda>b. text_of (dget b ''batch_id'')) ` set bs"
      using anchors parts(4) held(2) by (auto simp: as_def publishable_def anchors_ok_def)
    have "map (\<lambda>a. (text_of (dget a ''txid''), dget a ''vout'')) as
        = map (\<lambda>(t, v). (t, JInt v)) (map a_point (all_rows (anchors_t s)))"
      by (simp add: as_def a_point_def)
    moreover have "inj (\<lambda>(t :: ustr, v). (t, JInt v))" by (auto simp: inj_def)
    moreover have "distinct (map a_point (all_rows (anchors_t s)))" using parts(4) by (simp add: anchors_ok_def table_ok_def)
    ultimately show "distinct (map (\<lambda>a. (text_of (dget a ''txid''), dget a ''vout'')) as)"
      by (metis distinct_map inj_on_subset subset_UNIV)
  qed (use r in simp)
  then have "validate_snapshot E snap = Inr ()"
    using now body snap unfolding validate_snapshot_eq_Inr
    by (auto simp: fs_def has_fields_obj SNAPSHOT_FIELDS_def calculate_snapshot_id_def i_def is_nonneg_int_def is_list_def list_field_def)
  moreover have "export_snapshot E now s = bindE (calculate_snapshot_id E (obj fs)) (\<lambda>i.
      bindE (validate_snapshot E (dput ''snapshot_id'' (JStr i) (obj fs))) (\<lambda>_. Inr (dput ''snapshot_id'' (JStr i) (obj fs))))"
    using small by (simp add: export_snapshot_def Let_def fs_def list_records_all list_batches_all list_anchors_def
        rs_def bs_def as_def)
  moreover have "calculate_snapshot_id E (obj fs) = Inr i" using body snap(3) by (simp add: calculate_snapshot_id_def i_def)
  ultimately show ?thesis by (simp add: snap_def)
qed

lemma export_anchors:
  assumes "export_snapshot E now s = Inr snap" "a \<in> set (all_rows (anchors_t s))"
  shows "publishable a"
proof -
  define fs where "fs = [(''schema'', JStr (str ''hap.snapshot'')), (''version'', JInt 1),
    (''created_at'', JInt now), (''records'', JList (list_records s 10000000 False)),
    (''batches'', JList (rev (list_batches s 10000000))), (''anchors'', JList (map anchor_as_dict (list_anchors s None)))]"
  have "snapshot_body (obj fs) = obj fs" by (simp add: fs_def snapshot_body_def dpop_obj)
  moreover have "\<exists>i. calculate_snapshot_id E (obj fs) = Inr i"
    using assms(1) by (auto simp: export_snapshot_def Let_def bindE_eq_Inr fs_def)
  ultimately obtain bs where "canonical_json_bytes (obj fs) = Inr bs"
    by (auto simp: calculate_snapshot_id_def bindE_eq_Inr)
  then have range: "in_range (obj fs)" "encodable_json (obj fs)" using canonical_json_bytes_iff by blast+
  have "(''anchors'', JList (map anchor_as_dict (all_rows (anchors_t s)))) \<in> set fs"
    by (simp add: fs_def list_anchors_def)
  with obj_member range have "in_range (JList (map anchor_as_dict (all_rows (anchors_t s))))"
    "encodable_json (JList (map anchor_as_dict (all_rows (anchors_t s))))" by metis+
  moreover have "validate_anchor_reference (anchor_as_dict a) = Inr ()"
    using export_snapshot_parts(1,4) [OF assms(1)] assms(2) by (auto simp: validate_snapshot_eq_Inr snapshot_closed_def)
  ultimately show ?thesis using assms(2) by (auto simp: publishable_def)
qed

definition targets_stored :: "index \<Rightarrow> bool" where
  "targets_stored s \<longleftrightarrow> (\<forall>i r t. get_record s i = Some r \<and> dget r ''target_record_id'' = JStr t \<longrightarrow> get_record s t \<noteq> None)"

lemma export_exact:
  assumes ok: "index_ok E s" and E: "digests_32 E" and now: "0 \<le> now" "now \<le> MAX_SAFE_JSON_INTEGER"
    and small: "length (all_rows (records_t s)) \<le> 10000000" "length (all_rows (batches_t s)) \<le> 10000000"
  shows "(\<exists>snap. export_snapshot E now s = Inr snap) \<longleftrightarrow>
    targets_stored s \<and> (\<forall>a \<in> set (all_rows (anchors_t s)). publishable a)"
proof
  assume "\<exists>snap. export_snapshot E now s = Inr snap"
  then obtain snap where snap: "export_snapshot E now s = Inr snap" ..
  have "records_ok E s" using ok by (simp add: index_ok_def)
  from export_dangling [OF this small(1)] snap have "targets_stored s"
    unfolding targets_stored_def by (metis Inl_Inr_False)
  then show "targets_stored s \<and> (\<forall>a \<in> set (all_rows (anchors_t s)). publishable a)"
    using export_anchors [OF snap] by blast
next
  assume "targets_stored s \<and> (\<forall>a \<in> set (all_rows (anchors_t s)). publishable a)"
  then show "\<exists>snap. export_snapshot E now s = Inr snap"
    using export_total [OF ok E now small] by (simp add: targets_stored_def)
qed

text \<open>An anchor with a number from 2^53 up is accepted from elsewhere as long as SQLite can store it, and from
  then on every export fails.\<close>

lemma large_anchor_blocks_export:
  assumes v: "validate_anchor_reference (anchor_as_dict a) = Inr ()" and ints: "anchor_ints a"
    and batch: "get_batch (ix n) (a_batch_id a) = Some b" "dget b ''network'' = JStr (a_network a)"
    and new: "get_anchor (ix n) (a_txid a) (a_vout a) = None" and ok: "index_ok E (ix n)"
    and large: "MAX_SAFE_JSON_INTEGER < a_vout a \<or> MAX_SAFE_JSON_INTEGER < a_anchored_at a"
  shows "\<exists>n'. import_anchor_reference (anchor_as_dict a) n = (Inr (a_txid a, ''accepted''), n')
    \<and> (\<forall>now. \<exists>e. export_snapshot E now (ix n') = Inl e)"
proof -
  let ?new = "local_reference (anchor_as_dict a) None"
  have fields: "a_txid ?new = a_txid a" "a_vout ?new = a_vout a" "a_batch_id ?new = a_batch_id a"
    "a_anchored_at ?new = a_anchored_at a" "a_block_height ?new = a_block_height a"
    by (simp_all add: local_reference_def int_of_json_def opt_number_def opt_int_def split: option.splits)
  have aok: "anchors_ok (ix n)" and "batches_ok E (ix n)" using ok by (simp_all add: index_ok_def)
  have "a_batch_id a \<in> batch_ids_in (ix n)"
    using batch(1) unfolding batch_ids_in_def image_iff
    by (auto simp: get_batch_def lookup_row_def find_Some_iff split: option.splits) (metis nth_mem)
  moreover have "a_point ?new \<notin> a_point ` set (all_rows (anchors_t (ix n)))"
    using new fields(1,2) by (auto simp: get_anchor_def lookup_row_def find_None_iff a_point_def)
  ultimately obtain s' where s': "add_anchor ?new (ix n) = Inr (True, s')"
    using ints fields by (auto simp: add_anchor_eq_Inr anchor_ints_def)
  have "sql_int (a_vout a) = Inr ()" using ints by (simp add: anchor_ints_def)
  then have run: "import_anchor_reference (anchor_as_dict a) n = (Inr (a_txid a, ''accepted''), n\<lparr>ix := s'\<rparr>)"
    using v batch new s'
    by (simp add: import_anchor_reference_def bindM_def readM_def liftM_def storeM_def updateM_def int_of_json_def)
  have "?new \<in> set (all_rows (anchors_t s'))" using add_anchor_rows [OF s' aok] by simp
  moreover have "\<not> publishable ?new"
    using publishable_numbers [of ?new] fields large by (auto simp: publishable_def)
  ultimately have "\<exists>e. export_snapshot E now s' = Inl e" for now
    using export_anchors [of E now s'] by (cases "export_snapshot E now s'") blast+
  then show ?thesis using run by (intro exI [of _ "n\<lparr>ix := s'\<rparr>"]) simp
qed

end
