(* ===== verification/Wallets.thy ===== *)
theory Wallets
  imports Crypto PyValue
begin

text \<open>
  \<^verbatim>\<open>src/hap/wallets.py\<close>: encrypted wallets. The key derivation and the cipher of the third-party
  library are a \<open>wallet_crypto\<close>: \<open>scrypt password salt n r p\<close> is the derived key,
  \<open>aes_seal key nonce data aad\<close> the cipher text and \<open>aes_open key nonce ciphertext aad\<close> the plain text,
  \<open>None\<close> where they raise. The random bytes of \<open>create_encrypted_wallet\<close> are arguments.
\<close>

record wallet_crypto =
  scrypt :: "bytes \<Rightarrow> bytes \<Rightarrow> int \<Rightarrow> int \<Rightarrow> int \<Rightarrow> bytes option"
  aes_seal :: "bytes \<Rightarrow> bytes \<Rightarrow> bytes \<Rightarrow> bytes \<Rightarrow> bytes option"
  aes_open :: "bytes \<Rightarrow> bytes \<Rightarrow> bytes \<Rightarrow> bytes \<Rightarrow> bytes option"

text \<open>What a wallet relies on, within the documented sizes: the default parameters derive a key of 32 bytes
  from a password and a salt of 16, and with such a key and a nonce of 12 bytes what was sealed opens.
  Other sizes may be refused.\<close>

definition ciphers_open :: "wallet_crypto \<Rightarrow> bool" where
  "ciphers_open X \<longleftrightarrow>
     (\<forall>password salt. length password < 2 ^ 31 \<and> length salt = 16 \<longrightarrow>
        (\<exists>key. scrypt X password salt (2 ^ 15) 8 1 = Some key \<and> length key = 32))
     \<and> (\<forall>key nonce data aad. length key = 32 \<and> length nonce = 12 \<and> length data < 2 ^ 31 \<and> length aad < 2 ^ 31 \<longrightarrow>
        (\<exists>c. aes_seal X key nonce data aad = Some c \<and> aes_open X key nonce c aad = Some data))"

section \<open>Wallets\<close>

definition WALLET_SCHEMA :: ustr where "WALLET_SCHEMA = str ''hap.wallet''"
definition WALLET_VERSION :: int where "WALLET_VERSION = 1"
definition SCRYPT_N :: int where "SCRYPT_N = 2 ^ 15"
definition SCRYPT_R :: int where "SCRYPT_R = 8"
definition SCRYPT_P :: int where "SCRYPT_P = 1"

definition wallet_error :: "string \<Rightarrow> 'a result" where
  "wallet_error m = Inl (Exn WalletError m)"

definition derive_key :: "wallet_crypto \<Rightarrow> ustr \<Rightarrow> bytes \<Rightarrow> int \<Rightarrow> int \<Rightarrow> int \<Rightarrow> bytes result" where
  "derive_key X password salt n r p =
     (if password = [] then wallet_error ''wallet password cannot be empty''
      else bindE (encode_utf8 password) (\<lambda>bs. case scrypt X bs salt n r p of
         Some key \<Rightarrow> Inr key | None \<Rightarrow> Inl (Exn ValueError ''scrypt'')))"

definition wallet_aad :: "ustr \<Rightarrow> bytes result" where
  "wallet_aad public_key = encode_ascii (WALLET_SCHEMA @ [58] @ py_str_int WALLET_VERSION @ [58] @ public_key)"

definition create_encrypted_wallet ::
  "env \<Rightarrow> wallet_crypto \<Rightarrow> ustr \<Rightarrow> bytes \<Rightarrow> bytes \<Rightarrow> bytes \<Rightarrow> bytes \<Rightarrow> json result" where
  "create_encrypted_wallet E X password private_raw public_raw salt nonce =
     bindE (generate_keypair E private_raw public_raw) (\<lambda>keys.
     bindE (derive_key X password salt SCRYPT_N SCRYPT_R SCRYPT_P) (\<lambda>key.
     bindE (wallet_aad (kp_public_key keys)) (\<lambda>aad.
     bindE (encode_ascii (kp_private_key keys)) (\<lambda>secret.
     bindE (case aes_seal X key nonce secret aad of
         Some c \<Rightarrow> Inr c | None \<Rightarrow> Inl (Exn ValueError ''encrypt'')) (\<lambda>ciphertext.
     Inr (obj [(''schema'', JStr WALLET_SCHEMA), (''version'', JInt WALLET_VERSION),
       (''author_id'', JStr (kp_author_id keys)), (''public_key'', JStr (kp_public_key keys)),
       (''kdf'', obj [(''name'', JStr (str ''scrypt'')), (''salt'', JStr (b64encode salt)),
          (''n'', JInt SCRYPT_N), (''r'', JInt SCRYPT_R), (''p'', JInt SCRYPT_P)]),
       (''cipher'', obj [(''name'', JStr (str ''aes-256-gcm'')), (''nonce'', JStr (b64encode nonce)),
          (''ciphertext'', JStr (b64encode ciphertext))])]))))))"

text \<open>An argument of a function of the library that wants a string.\<close>

definition need_str :: "json \<Rightarrow> ustr result" where
  "need_str v = (case v of JStr s \<Rightarrow> Inr s | _ \<Rightarrow> Inl (Exn TypeError ''expected a string''))"

definition b64d :: "json \<Rightarrow> bytes result" where
  "b64d v = bindE (need_str v) b64decode"

definition decode_ascii :: "bytes \<Rightarrow> ustr result" where
  "decode_ascii bs = (if list_all (\<lambda>b. unat b < 128) bs then Inr (map unat bs)
     else Inl (Exn ValueError ''UnicodeDecodeError''))"

text \<open>The body of the \<open>try\<close> of \<open>decrypt_wallet\<close>.\<close>

definition open_wallet :: "env \<Rightarrow> wallet_crypto \<Rightarrow> json \<Rightarrow> ustr \<Rightarrow> ustr result" where
  "open_wallet E X wallet password =
     bindE (dict_get wallet ''schema'' JNull) (\<lambda>schema.
     bindE (dict_get wallet ''version'' JNull) (\<lambda>version.
     if schema \<noteq> JStr WALLET_SCHEMA \<or> \<not> py_eq version (JInt WALLET_VERSION)
     then wallet_error ''unsupported wallet format''
     else bindE (bindE (dict_item wallet ''public_key'') need_str) (\<lambda>public_key.
     bindE (public_key_to_author_id E public_key) (\<lambda>author.
     bindE (dict_item wallet ''author_id'') (\<lambda>author_id.
     if JStr author \<noteq> author_id then wallet_error ''wallet author_id does not match public key''
     else bindE (dict_item wallet ''kdf'') (\<lambda>kdf.
     bindE (dict_item wallet ''cipher'') (\<lambda>cipher.
     bindE (dict_get kdf ''name'' JNull) (\<lambda>kdf_name.
     condE (if kdf_name \<noteq> JStr (str ''scrypt'') then Inr True
         else bindE (dict_get cipher ''name'' JNull) (\<lambda>c. Inr (c \<noteq> JStr (str ''aes-256-gcm''))))
       (wallet_error ''unsupported wallet encryption'')
     (bindE (bindE (dict_item kdf ''n'') py_int) (\<lambda>n.
     bindE (bindE (dict_item kdf ''r'') py_int) (\<lambda>r.
     bindE (bindE (dict_item kdf ''p'') py_int) (\<lambda>p.
     if n < 2 ^ 14 \<or> 2 ^ 20 < n \<or> r < 1 \<or> 32 < r \<or> p < 1 \<or> 16 < p
     then wallet_error ''unsafe wallet KDF parameters''
     else bindE (bindE (dict_item kdf ''salt'') b64d) (\<lambda>salt.
     bindE (derive_key X password salt n r p) (\<lambda>key.
     bindE (wallet_aad public_key) (\<lambda>aad.
     bindE (bindE (dict_item cipher ''nonce'') b64d) (\<lambda>nonce.
     bindE (bindE (dict_item cipher ''ciphertext'') b64d) (\<lambda>ciphertext.
     bindE (case aes_open X key nonce ciphertext aad of
         Some bs \<Rightarrow> decode_ascii bs | None \<Rightarrow> Inl (Exn OtherError ''InvalidTag'')) (\<lambda>private_key.
     bindE (derive_public_key E private_key) (\<lambda>derived.
     if derived \<noteq> public_key then wallet_error ''wallet private key does not match public key''
     else Inr private_key)))))))))))))))))))"

text \<open>\<open>int\<close> of a boolean or a float is taken as it is: \<open>py_int\<close>.\<close>

definition decrypt_wallet :: "env \<Rightarrow> wallet_crypto \<Rightarrow> json \<Rightarrow> ustr \<Rightarrow> ustr result" where
  "decrypt_wallet E X wallet password = (case open_wallet E X wallet password of
     Inr s \<Rightarrow> Inr s
   | Inl e \<Rightarrow> if exc_of e = WalletError then Inl e
       else wallet_error ''wallet could not be decrypted; password or file may be wrong'')"

section \<open>What opens a wallet\<close>

text \<open>Every failure is a \<open>WalletError\<close>; the key that is given back is that of the public key and of the
  author, whatever the file says, and the parameters of the derivation were within the limits.\<close>

lemma decrypt_wallet_sound:
  assumes "decrypt_wallet E X wallet password = Inr sk"
  shows "\<exists>pk. derive_public_key E sk = Inr pk \<and> dict_item wallet ''public_key'' = Inr (JStr pk)
    \<and> (\<exists>a. public_key_to_author_id E pk = Inr a \<and> dict_item wallet ''author_id'' = Inr (JStr a)) \<and> password \<noteq> []"
proof -
  from assms have "open_wallet E X wallet password = Inr sk"
    by (auto simp: decrypt_wallet_def wallet_error_def split: sum.splits if_splits)
  then show ?thesis
    unfolding open_wallet_def wallet_error_def result_simps
    by (elim exE conjE) (auto simp: need_str_def derive_key_def wallet_error_def split: json.splits if_splits)
qed

lemma decrypt_wallet_error: "decrypt_wallet E X wallet password = Inl e \<Longrightarrow> exc_of e = WalletError"
  by (auto simp: decrypt_wallet_def wallet_error_def split: sum.splits if_splits)

lemma bytes_hex_ascii: "list_all (\<lambda>c. c < 128) (bytes_hex bs)"
proof (induction bs)
  case (Cons b bs)
  have "hex_digit n < 128" if "n < 16" for n using that by (simp add: hex_digit_def)
  with Cons show ?case by simp
qed simp

lemma ascii_round_trip: "encode_ascii s = Inr bs \<Longrightarrow> decode_ascii bs = Inr s"
proof -
  assume e: "encode_ascii s = Inr bs"
  have "unat (word_of_nat c :: byte) = c" if "c \<in> set s" for c
    using e that by (intro unat_byte_of_nat) (auto simp: encode_ascii_def list_all_iff split: if_splits)
  with e show ?thesis
    by (auto simp: encode_ascii_def decode_ascii_def list_all_iff intro!: map_idI split: if_splits)
qed

lemma b64encode_ascii: "list_all (\<lambda>c. c < 128) (b64encode bs)"
  using b64_nats_ascii [of "map unat bs"] by (simp add: b64encode_def list_all_iff)

lemma wallet_aad_Inr: "\<exists>aad. wallet_aad (bytes_hex pk) = Inr aad \<and> length aad = 13 + 2 * length pk"
proof -
  have "list_all (\<lambda>c. c < 128) (str ''hap.wallet'')" "list_all (\<lambda>c. c < 128) (py_str_int 1)"
    "length (str ''hap.wallet'') = 10" "length (py_str_int 1) = 1"
    by (simp_all add: str_def py_str_int_def dec.simps)
  then show ?thesis
    using bytes_hex_ascii
    by (simp add: wallet_aad_def encode_ascii_def WALLET_SCHEMA_def WALLET_VERSION_def length_bytes_hex)
qed

lemma wallet_round_trip:
  assumes X: "ciphers_open X"
    and keys: "ed_public E private_raw = Some public_raw" "length private_raw = 32" "length public_raw = 32"
    and password: "password \<noteq> []" "encode_utf8 password = Inr bs" "length bs < 2 ^ 31"
    and random: "length salt = 16" "length nonce = 12"
  shows "\<exists>w. create_encrypted_wallet E X password private_raw public_raw salt nonce = Inr w
    \<and> decrypt_wallet E X w password = Inr (b64encode private_raw)"
proof -
  obtain key where key: "scrypt X bs salt (2 ^ 15) 8 1 = Some key" "length key = 32"
    using X password(3) random(1) unfolding ciphers_open_def by blast
  obtain aad where aad: "wallet_aad (bytes_hex public_raw) = Inr aad" "length aad = 77"
    using wallet_aad_Inr [of public_raw] keys(3) by auto
  have "length (b64encode private_raw) = 44"
    using keys(2) by (simp add: b64encode_def length_b64_nats)
  then obtain secret where secret: "encode_ascii (b64encode private_raw) = Inr secret" "length secret = 44"
    using b64encode_ascii by (simp add: encode_ascii_def)
  have "\<forall>data. length data < 2 ^ 31 \<longrightarrow>
      (\<exists>c. aes_seal X key nonce data aad = Some c \<and> aes_open X key nonce c aad = Some data)"
    using X key(2) random(2) aad(2) unfolding ciphers_open_def by simp
  from spec [OF this, of secret] secret(2)
  obtain c where "aes_seal X key nonce secret aad = Some c" "aes_open X key nonce c aad = Some secret" by auto
  moreover have "derive_public_key E (b64encode private_raw) = Inr (bytes_hex public_raw)"
    using keys(1) by (simp add: derive_public_key_def)
  ultimately show ?thesis
    using password(1,2) key(1) aad(1) secret(1) ascii_round_trip [OF secret(1)] keys(1)
    by (simp add: create_encrypted_wallet_def decrypt_wallet_def open_wallet_def generate_keypair_def
        public_key_to_author_id_def derive_key_def obj_def dict_get_def dict_item_def need_str_def b64d_def
        py_int_def SCRYPT_N_def SCRYPT_R_def SCRYPT_P_def)
qed

end
