(* ===== verification/Survival.thy ===== *)
theory Survival
  imports SnapshotFacts
begin

text \<open>
  \<^verbatim>\<open>src/hap/survival.py\<close>: a snapshot and the verified evidence of a node in one archive. A tar archive is
  the list of its members; compression and the tar format itself are the standard library's, and so is
  \<open>json.loads\<close>, the argument \<open>loads\<close> (\<open>None\<close> where it raises).
\<close>

section \<open>Archives\<close>

datatype member_kind = FileMember | LinkMember | OtherMember

record member =
  mb_name :: ustr
  mb_kind :: member_kind
  mb_size :: int
  mb_data :: bytes

definition SURVIVAL_SCHEMA :: ustr where "SURVIVAL_SCHEMA = str ''hap.survival-manifest''"
definition SURVIVAL_VERSION :: int where "SURVIVAL_VERSION = 1"

definition survival_error :: "string \<Rightarrow> 'a result" where
  "survival_error m = Inl (Exn SurvivalArchiveError m)"

definition file_member :: "ustr \<Rightarrow> bytes \<Rightarrow> member" where
  "file_member name data = \<lparr>mb_name = name, mb_kind = FileMember, mb_size = int (length data), mb_data = data\<rparr>"

section \<open>Export\<close>

text \<open>The files whose content has the digest of their name.\<close>

definition verified_files :: "env \<Rightarrow> evidence_store \<Rightarrow> (ustr \<times> bytes) list" where
  "verified_files E st = List.map_filter (\<lambda>k. case file_at st k of
     None \<Rightarrow> None | Some content \<Rightarrow> if sha256_hex E content = k then Some (k, content) else None) (evidence_files st)"

definition evidence_entry :: "ustr \<times> bytes \<Rightarrow> json" where
  "evidence_entry = (\<lambda>(k, content). obj [(''sha256'', JStr k), (''size'', JInt (int (length content))),
     (''member'', JStr (str ''evidence/'' @ k))])"

definition export_survival_archive :: "env \<Rightarrow> evidence_store \<Rightarrow> json \<Rightarrow> (json \<times> member list) result" where
  "export_survival_archive E st snapshot =
     (let files = verified_files E st in
      bindE (dict_item snapshot ''snapshot_id'') (\<lambda>snapshot_id.
      bindE (canonical_json_bytes snapshot) (\<lambda>snapshot_bytes.
      let body = obj [(''schema'', JStr SURVIVAL_SCHEMA), (''version'', JInt SURVIVAL_VERSION),
        (''snapshot_id'', snapshot_id), (''snapshot_sha256'', JStr (sha256_hex E snapshot_bytes)),
        (''evidence'', JList (map evidence_entry files))] in
      bindE (canonical_json_bytes body) (\<lambda>body_bytes.
      let manifest = dput ''manifest_id'' (JStr (sha256_hex E body_bytes)) body in
      bindE (canonical_json_bytes manifest) (\<lambda>manifest_bytes.
      Inr (manifest, file_member (str ''snapshot.json'') snapshot_bytes
        # file_member (str ''manifest.json'') manifest_bytes
        # map (\<lambda>(k, content). file_member (str ''evidence/'' @ k) content) files))))))"

section \<open>Import\<close>

definition MANIFEST_FIELDS :: "string list" where
  "MANIFEST_FIELDS = [''schema'', ''version'', ''snapshot_id'', ''snapshot_sha256'', ''evidence'', ''manifest_id'']"

definition ENTRY_FIELDS :: "string list" where
  "ENTRY_FIELDS = [''sha256'', ''size'', ''member'']"

definition find_member :: "member list \<Rightarrow> ustr \<Rightarrow> member option" where
  "find_member ms name = find (\<lambda>m. mb_name m = name) ms"

definition metadata_member :: "member list \<Rightarrow> int \<Rightarrow> ustr \<Rightarrow> bytes result" where
  "metadata_member ms max_metadata_bytes name = (case find_member ms name of
     None \<Rightarrow> survival_error ''survival archive is missing manifest.json or snapshot.json''
   | Some m \<Rightarrow> if mb_kind m \<noteq> FileMember \<or> mb_size m < 0 \<or> max_metadata_bytes < mb_size m
       then survival_error ''exceeds the configured metadata limit'' else Inr (mb_data m))"

definition json_loads :: "(bytes \<Rightarrow> json option) \<Rightarrow> bytes \<Rightarrow> json result" where
  "json_loads loads data = (case loads data of
     Some v \<Rightarrow> Inr v | None \<Rightarrow> Inl (Exn ValueError ''JSONDecodeError''))"

text \<open>The checks before any evidence is stored: the manifest and the snapshot.\<close>

definition open_archive ::
  "env \<Rightarrow> (bytes \<Rightarrow> json option) \<Rightarrow> member list option \<Rightarrow> int \<Rightarrow> (json \<times> json) result" where
  "open_archive E loads archive max_metadata_bytes = (case archive of
     None \<Rightarrow> survival_error ''survival archive does not exist''
   | Some ms \<Rightarrow>
      if \<not> distinct (map mb_name ms)
      then survival_error ''survival archive contains duplicate member names''
      else if list_ex (\<lambda>m. mb_kind m = LinkMember) ms
      then survival_error ''survival archive must not contain links''
      else if find_member ms (str ''manifest.json'') = None \<or> find_member ms (str ''snapshot.json'') = None
      then survival_error ''survival archive is missing manifest.json or snapshot.json''
      else bindE (metadata_member ms max_metadata_bytes (str ''manifest.json'')) (\<lambda>manifest_data.
      bindE (metadata_member ms max_metadata_bytes (str ''snapshot.json'')) (\<lambda>snapshot_data.
      bindE (json_loads loads manifest_data) (\<lambda>manifest.
      bindE (json_loads loads snapshot_data) (\<lambda>snapshot.
      if \<not> has_fields manifest MANIFEST_FIELDS
      then survival_error ''survival manifest fields do not match the schema''
      else if dget manifest ''schema'' \<noteq> JStr SURVIVAL_SCHEMA
        \<or> \<not> py_eq (dget manifest ''version'') (JInt SURVIVAL_VERSION)
      then survival_error ''unsupported survival archive version''
      else if (case dget manifest ''evidence'' of JList _ \<Rightarrow> False | _ \<Rightarrow> True)
      then survival_error ''survival evidence manifest must be a list''
      else bindE (canonical_json_bytes (dpop ''manifest_id'' manifest)) (\<lambda>body_bytes.
      if dget manifest ''manifest_id'' \<noteq> JStr (sha256_hex E body_bytes)
      then survival_error ''survival manifest integrity check failed''
      else bindE (canonical_json_bytes snapshot) (\<lambda>snapshot_bytes.
      if dget manifest ''snapshot_sha256'' \<noteq> JStr (sha256_hex E snapshot_bytes)
      then survival_error ''snapshot bytes do not match the survival manifest''
      else Inr (manifest, snapshot))))))))"

text \<open>\<open>f"{v}"\<close> of a value that the codec accepts and that is hashable.\<close>

definition format_value :: "json \<Rightarrow> ustr" where
  "format_value v = (case v of
     JStr s \<Rightarrow> s | JInt i \<Rightarrow> py_str_int i | JNull \<Rightarrow> str ''None''
   | JBool b \<Rightarrow> (if b then str ''True'' else str ''False'') | _ \<Rightarrow> [])"

text \<open>\<open>value in seen\<close> for a set: an unhashable value raises.\<close>

definition seen_before :: "json \<Rightarrow> json list \<Rightarrow> bool result" where
  "seen_before v seen = (case v of
     JList _ \<Rightarrow> Inl (Exn TypeError ''unhashable type'')
   | JDict _ \<Rightarrow> Inl (Exn TypeError ''unhashable type'')
   | _ \<Rightarrow> Inr (list_ex (py_eq v) seen))"

text \<open>The checks of one entry, up to the bytes of its member.\<close>

definition check_entry :: "member list \<Rightarrow> int \<Rightarrow> json list \<Rightarrow> json \<Rightarrow> bytes result" where
  "check_entry ms max_evidence_bytes seen entry =
     (if \<not> has_fields entry ENTRY_FIELDS
      then survival_error ''survival evidence entry fields do not match the schema''
      else let digest = dget entry ''sha256''; size = int_value (dget entry ''size'') in
      condE (seen_before digest seen) (survival_error ''survival manifest contains duplicate evidence'')
      (case dget entry ''member'' of
         JStr name \<Rightarrow> (case find_member ms name of
             None \<Rightarrow> survival_error ''survival evidence member is missing''
           | Some m \<Rightarrow>
               if name \<noteq> str ''evidence/'' @ format_value digest
               then survival_error ''survival evidence member path is not canonical''
               else if size = None \<or> the size < 0 \<or> max_evidence_bytes < the size
               then survival_error ''survival evidence size is invalid''
               else if mb_kind m \<noteq> FileMember \<or> mb_size m \<noteq> the size
               then survival_error ''survival evidence member metadata is invalid''
               else Inr (mb_data m))
       | _ \<Rightarrow> survival_error ''survival evidence member is missing''))"

text \<open>The chunks in which the stream is read.\<close>

function chunks :: "nat \<Rightarrow> bytes \<Rightarrow> bytes list" where
  "chunks n data = (if data = [] \<or> n = 0 then [] else take n data # chunks n (drop n data))"
  by pat_completeness auto

termination by (relation "measure (\<lambda>(n, data). length data)") auto

declare chunks.simps [simp del]

definition on_evidence :: "(evidence_store, 'a) op \<Rightarrow> (node, 'a) op" where
  "on_evidence m n = (case m (ev n) of (r, e) \<Rightarrow> (r, n\<lparr>ev := e\<rparr>))"

fun import_evidence :: "env \<Rightarrow> member list \<Rightarrow> int \<Rightarrow> json list \<Rightarrow> json list \<Rightarrow> (node, unit) op" where
  "import_evidence E ms max_evidence_bytes seen [] = returnM ()"
| "import_evidence E ms max_evidence_bytes seen (entry # entries) =
     bindM (liftM (check_entry ms max_evidence_bytes seen entry)) (\<lambda>data.
     bindM (on_evidence (store_stream E (dget entry ''sha256'') (chunks 1048576 data) max_evidence_bytes
       (Some (dget entry ''size'')))) (\<lambda>_.
     import_evidence E ms max_evidence_bytes (dget entry ''sha256'' # seen) entries))"

definition import_survival_archive ::
  "env \<Rightarrow> (bytes \<Rightarrow> json option) \<Rightarrow> member list option \<Rightarrow> int \<Rightarrow> int \<Rightarrow> (node, (nat \<times> nat \<times> nat) \<times> nat) op" where
  "import_survival_archive E loads archive max_evidence_bytes max_metadata_bytes =
     bindM (liftM (open_archive E loads archive max_metadata_bytes)) (\<lambda>(manifest, snapshot).
     let entries = list_field manifest ''evidence'' in
     bindM (import_evidence E (the archive) max_evidence_bytes [] entries) (\<lambda>_.
     bindM (import_snapshot E snapshot) (\<lambda>imported.
     returnM (imported, length entries))))"

section \<open>What an import does\<close>

lemma bindM_raise: "m s = (Inl e, s') \<Longrightarrow> bindM m k s = (Inl e, s')"
  by (simp add: bindM_def)

lemma on_evidence_run: "on_evidence m n = (r, n') \<longleftrightarrow> (\<exists>e. m (ev n) = (r, e) \<and> n' = n\<lparr>ev := e\<rparr>)"
  by (auto simp: on_evidence_def split: prod.splits)

lemma concat_chunks: "0 < n \<Longrightarrow> concat (chunks n data) = data"
proof (induction n data rule: chunks.induct)
  case (1 n data)
  then show ?case by (subst chunks.simps) auto
qed

text \<open>The index is not touched while the evidence is imported: a failure there leaves it as it was.\<close>

lemma import_evidence_index: "import_evidence E ms m seen entries n = (r, n') \<Longrightarrow> ix n' = ix n"
proof (induction entries arbitrary: seen n)
  case (Cons entry entries)
  then show ?case
    by (auto simp: bindM_def liftM_def on_evidence_def split: sum.splits prod.splits) 
qed (simp add: liftM_def)

text \<open>Every entry of an accepted list is in the store afterwards, with the content that its digest names.\<close>

lemma import_evidence_stored:
  assumes "import_evidence E ms m seen entries n = (Inr u, n')"
  shows "(\<forall>entry \<in> set entries. \<exists>content. file_at (ev n') (map ascii_lower (text_of (dget entry ''sha256''))) = Some content
      \<and> sha256_hex E content = map ascii_lower (text_of (dget entry ''sha256'')))
    \<and> (\<forall>k. (\<exists>content. file_at (ev n) k = Some content \<and> sha256_hex E content = k) \<longrightarrow>
        (\<exists>content. file_at (ev n') k = Some content \<and> sha256_hex E content = k))"
  using assms
proof (induction entries arbitrary: seen n)
  case (Cons entry entries)
  let ?k = "map ascii_lower (text_of (dget entry ''sha256''))"
  from Cons.prems obtain data k size e where
    s: "store_stream E (dget entry ''sha256'') (chunks 1048576 data) m (Some (dget entry ''size'')) (ev n)
      = (Inr (k, size), e)"
    and rest: "import_evidence E ms m (dget entry ''sha256'' # seen) entries (n\<lparr>ev := e\<rparr>) = (Inr u, n')"
    by (auto simp: result_simps on_evidence_run)
  from store_stream_verified [OF s]
  obtain content where c: "file_at e ?k = Some content" "sha256_hex E content = ?k"
    "\<forall>k'. k' \<noteq> ?k \<longrightarrow> file_at e k' = file_at (ev n) k'" by auto
  from Cons.IH [OF rest] c show ?case by (simp; metis)
qed (simp add: liftM_def)

section \<open>The evidence and the index are independent\<close>

lemma preserves_ev_store: "preserves (\<lambda>n. ev n = e) (storeM f)"
  unfolding storeM_def by (rule preserves_update) (auto simp: bindE_eq_Inr split: prod.splits)

lemma preserves_ev_submit: "preserves (\<lambda>n. ev n = e) (submit_record E policy local r)"
  unfolding submit_record_def by (intro preserve preserves_ev_store)

lemma preserves_ev_import_snapshot: "preserves (\<lambda>n. ev n = e) (import_snapshot E s)"
proof -
  have "preserves (\<lambda>n. ev n = e) (import_pending x has (submit_record E None False) rs 0)" for x has rs
    by (rule preservesI, rule preserves_import_pending) (auto intro: preserves_ev_submit)
  then show ?thesis
    unfolding import_snapshot_def import_batch_def import_anchor_reference_def
    by (intro preserve preserves_ev_store)
qed

lemma survival_import_evidence:
  assumes "import_survival_archive E loads archive m mm n = (Inr (res, k), n')"
  shows "\<exists>manifest snapshot. open_archive E loads archive mm = Inr (manifest, snapshot)
    \<and> k = length (list_field manifest ''evidence'')
    \<and> (\<forall>entry \<in> set (list_field manifest ''evidence''). \<exists>content.
        file_at (ev n') (map ascii_lower (text_of (dget entry ''sha256''))) = Some content
        \<and> sha256_hex E content = map ascii_lower (text_of (dget entry ''sha256'')))"
proof -
  from assms obtain manifest snapshot n1 where
    o: "open_archive E loads archive mm = Inr (manifest, snapshot)" "k = length (list_field manifest ''evidence'')"
    and e: "import_evidence E (the archive) m [] (list_field manifest ''evidence'') n = (Inr (), n1)"
    and i: "import_snapshot E snapshot n1 = (Inr res, n')"
    by (auto simp: import_survival_archive_def result_simps Let_def split: prod.splits)
  have "ev n' = ev n1" using preservesD [OF preserves_ev_import_snapshot i] by simp
  with import_evidence_stored [OF e] o show ?thesis by auto
qed

text \<open>An archive that is refused before its snapshot is imported has no influence on the index.\<close>

lemma survival_refused_index:
  assumes "import_survival_archive E loads archive m mm n = (Inl x, n')"
    and "\<forall>manifest snapshot n1. open_archive E loads archive mm = Inr (manifest, snapshot) \<longrightarrow>
      import_evidence E (the archive) m [] (list_field manifest ''evidence'') n = (Inr (), n1) \<longrightarrow>
      validate_snapshot E snapshot \<noteq> Inr ()"
  shows "ix n' = ix n"
proof (cases "open_archive E loads archive mm")
  case (Inl y)
  with assms(1) show ?thesis by (simp add: import_survival_archive_def)
next
  case (Inr ms)
  obtain manifest snapshot where ms: "ms = (manifest, snapshot)" by (cases ms)
  obtain r n1 where e: "import_evidence E (the archive) m [] (list_field manifest ''evidence'') n = (r, n1)"
    by (cases "import_evidence E (the archive) m [] (list_field manifest ''evidence'') n")
  have ix: "ix n1 = ix n" using import_evidence_index [OF e] .
  show ?thesis
  proof (cases r)
    case (Inl y)
    with e Inr ms assms(1) ix show ?thesis by (simp add: import_survival_archive_def Let_def bindM_raise)
  next
    case ok: (Inr u)
    with assms(2) Inr ms e have "validate_snapshot E snapshot \<noteq> Inr ()" by auto
    then obtain y where "validate_snapshot E snapshot = Inl y" by (cases "validate_snapshot E snapshot") auto
    then have "import_snapshot E snapshot n1 = (Inl y, n1)"
      by (simp add: import_snapshot_def)
    with e Inr ms assms(1) ix ok show ?thesis
      by (simp add: import_survival_archive_def Let_def bindM_step bindM_raise)
  qed
qed

end
