(* ===== verification/Identity.thy ===== *)
theory Identity
  imports Manifests
begin

unbundle bit_operations_syntax

text \<open>
  \<^verbatim>\<open>src/scripts/finalize_public_identity.py\<close>: the checks on the pseudonym and on the Bitcoin address of
  a release, and the edits of its files. The Bech32 arithmetic is on unbounded integers, as in the
  source. \<open>str.lower\<close> and \<open>str.upper\<close> depend on the tables of Unicode: they are the two fields of
  \<open>case_tables\<close>. A directory is a map from relative paths to texts.
\<close>

record case_tables =
  to_lower :: "ustr \<Rightarrow> ustr"
  to_upper :: "ustr \<Rightarrow> ustr"

section \<open>Pseudonym\<close>

definition identity_error :: "string \<Rightarrow> 'a result" where
  "identity_error m = Inl (Exn ValueError m)"

definition validate_pseudonym :: "ustr \<Rightarrow> ustr result" where
  "validate_pseudonym v =
     (if list_ex (\<lambda>c. c \<in> set v) [10, 13, 9]
      then identity_error ''pseudonym contains an unsafe control character''
      else let pseudonym = py_strip v in
      if \<not> (2 \<le> length pseudonym \<and> length pseudonym \<le> 80)
      then identity_error ''pseudonym must contain between 2 and 80 characters''
      else if list_ex (\<lambda>c. c \<in> set pseudonym) (str ''@<>'')
      then identity_error ''pseudonym contains an unsafe or identity-linking character''
      else if \<not> list_ex (\<lambda>c. (65 \<le> c \<and> c \<le> 90) \<or> (97 \<le> c \<and> c \<le> 122) \<or> (48 \<le> c \<and> c \<le> 57)) pseudonym
      then identity_error ''pseudonym must contain at least one letter or number''
      else Inr pseudonym)"

section \<open>Bech32\<close>

definition BECH32_CHARSET :: ustr where
  "BECH32_CHARSET = str ''qpzry9x8gf2tvdw0s3jn54khce6mua7l''"

definition BECH32_CONST :: int where "BECH32_CONST = 1"
definition BECH32M_CONST :: int where "BECH32M_CONST = 0x2BC830A3"

definition generators :: "int list" where
  "generators = [0x3B6A57B2, 0x26508E6D, 0x1EA119FA, 0x3D4233DD, 0x2A1462B3]"

text \<open>The inner loop: the generators of the bits of \<open>high\<close>.\<close>

definition add_generators :: "int \<Rightarrow> int \<Rightarrow> int" where
  "add_generators high checksum = foldl (\<lambda>c (i, g). if drop_bit i high AND 1 \<noteq> 0 then c XOR g else c) checksum
     (zip [0..<5] generators)"

definition polymod_step :: "int \<Rightarrow> int \<Rightarrow> int" where
  "polymod_step checksum v =
     add_generators (drop_bit 25 checksum) (push_bit 5 (checksum AND 0x1FFFFFF) XOR v)"

definition bech32_polymod :: "int list \<Rightarrow> int" where
  "bech32_polymod vs = foldl polymod_step 1 vs"

definition bech32_hrp_expand :: "ustr \<Rightarrow> int list" where
  "bech32_hrp_expand hrp = map (\<lambda>c. drop_bit 5 (int c)) hrp @ [0] @ map (\<lambda>c. int c AND 31) hrp"

function drain :: "nat \<Rightarrow> int \<Rightarrow> int \<Rightarrow> nat \<Rightarrow> int list \<Rightarrow> nat \<times> int list" where
  "drain to_bits max_value accumulator bits result =
     (if 0 < to_bits \<and> to_bits \<le> bits then drain to_bits max_value accumulator (bits - to_bits)
        (result @ [drop_bit (bits - to_bits) accumulator AND max_value])
      else (bits, result))"
  by pat_completeness auto

termination by (relation "measure (\<lambda>(t, m, a, bits, r). bits)") auto

declare drain.simps [simp del]

fun convert_loop :: "nat \<Rightarrow> nat \<Rightarrow> int list \<Rightarrow> int \<Rightarrow> nat \<Rightarrow> int list \<Rightarrow> (int \<times> nat \<times> int list) option" where
  "convert_loop from_bits to_bits [] accumulator bits result = Some (accumulator, bits, result)"
| "convert_loop from_bits to_bits (v # vs) accumulator bits result =
     (if v < 0 \<or> drop_bit from_bits v \<noteq> 0 then None
      else let acc = (push_bit from_bits accumulator OR v) AND (2 ^ (from_bits + to_bits - 1) - 1) in
      case drain to_bits (2 ^ to_bits - 1) acc (bits + from_bits) result of
        (bits', result') \<Rightarrow> convert_loop from_bits to_bits vs acc bits' result')"

definition convert_bits :: "int list \<Rightarrow> nat \<Rightarrow> nat \<Rightarrow> bool \<Rightarrow> int list option" where
  "convert_bits vs from_bits to_bits pad = (case convert_loop from_bits to_bits vs 0 0 [] of
     None \<Rightarrow> None
   | Some (accumulator, bits, result) \<Rightarrow>
       let left = push_bit (to_bits - bits) accumulator AND (2 ^ to_bits - 1) in
       if pad then Some (if bits \<noteq> 0 then result @ [left] else result)
       else if from_bits \<le> bits \<or> left \<noteq> 0 then None else Some result)"

definition bech32_index :: "nat \<Rightarrow> int option" where
  "bech32_index c = map_option (\<lambda>(i, _). int i) (find (\<lambda>(_, d). d = c) (enumerate 0 BECH32_CHARSET))"

definition indices :: "ustr \<Rightarrow> int list result" where
  "indices s = mapE (\<lambda>c. case bech32_index c of
     Some i \<Rightarrow> Inr i | None \<Rightarrow> identity_error ''Bitcoin address contains an invalid Bech32 character'') s"

text \<open>What stands before and after the last \<open>1\<close>.\<close>

definition after_separator :: "ustr \<Rightarrow> ustr" where
  "after_separator s = rev (takeWhile (\<lambda>c. c \<noteq> 49) (rev s))"

definition separator_pos :: "ustr \<Rightarrow> int" where
  "separator_pos s = int (length s) - int (length (after_separator s)) - 1"

text \<open>The checks after the checksum: the witness version and program, and the encoding that goes with the
  version.\<close>

definition check_witness :: "int \<Rightarrow> int list \<Rightarrow> unit result" where
  "check_witness checksum data = (case take (length data - 6) data of
     [] \<Rightarrow> identity_error ''Bitcoin address has no witness version''
   | version # rest \<Rightarrow>
      if 16 < version then identity_error ''Bitcoin witness version is invalid''
      else (case convert_bits rest 5 8 False of
        None \<Rightarrow> identity_error ''Bitcoin witness program is invalid''
      | Some program \<Rightarrow>
          if \<not> (2 \<le> length program \<and> length program \<le> 40)
          then identity_error ''Bitcoin witness program is invalid''
          else if version = 0
          then (if checksum \<noteq> BECH32_CONST \<or> length program \<notin> {20, 32}
            then identity_error ''version-0 address must use Bech32 and a 20/32-byte program'' else Inr ())
          else if checksum \<noteq> BECH32M_CONST
          then identity_error ''version-1+ address must use Bech32m'' else Inr ()))"

definition validate_bitcoin_address :: "case_tables \<Rightarrow> ustr \<Rightarrow> ustr result" where
  "validate_bitcoin_address T v =
     (let address = py_strip v in
      if list_ex (\<lambda>c. c \<in> set address) [10, 13, 9, 32]
      then identity_error ''Bitcoin address contains whitespace or a control character''
      else if \<not> (14 \<le> length address \<and> length address \<le> 90)
      then identity_error ''Bitcoin address length is invalid''
      else if to_lower T address \<noteq> address \<and> to_upper T address \<noteq> address
      then identity_error ''Bech32 address must not mix uppercase and lowercase''
      else let normalised = to_lower T address; separator = separator_pos normalised in
      if separator < 1 \<or> int (length normalised) < separator + 7
      then identity_error ''Bitcoin address is not valid Bech32/Bech32m''
      else let hrp = take (nat separator) normalised in
      if hrp \<noteq> str ''bc''
      then identity_error ''use a Bitcoin mainnet native-SegWit address beginning bc1''
      else bindE (indices (after_separator normalised)) (\<lambda>data.
      let checksum = bech32_polymod (bech32_hrp_expand hrp @ data) in
      if checksum \<noteq> BECH32_CONST \<and> checksum \<noteq> BECH32M_CONST
      then identity_error ''Bitcoin address checksum is invalid''
      else bindE (check_witness checksum data) (\<lambda>_. Inr normalised)))"

section \<open>The checksum is linear\<close>

lemma bit_one: "drop_bit i (high :: int) AND 1 \<noteq> 0 \<longleftrightarrow> bit high i"
  by (simp add: bit_iff_odd_drop_bit and_one_eq odd_iff_mod_2_eq_one)

lemma gen_fold_xor:
  "foldl (\<lambda>c (i, g). if bit (s XOR t) i then c XOR g else c) (c XOR d) gs
     = foldl (\<lambda>c (i, g). if bit s i then c XOR g else c) c gs
       XOR foldl (\<lambda>c (i, g). if bit t i then c XOR g else (c :: int)) d gs" for s t c d :: int
proof (induction gs arbitrary: c d)
  case (Cons x gs)
  obtain i g where x: "x = (i, g)" by (cases x)
  have step: "(if bit (s XOR t) i then (c XOR d) XOR g else c XOR d)
      = (if bit s i then c XOR g else c) XOR (if bit t i then d XOR g else d)"
    by (rule bit_eqI) (auto simp: bit_simps)
  show ?case using Cons.IH [of "if bit s i then c XOR g else c" "if bit t i then d XOR g else d"]
    by (simp add: x step)
qed simp

lemma add_generators_xor:
  "add_generators (s XOR t) (c XOR d) = add_generators s c XOR add_generators t d"
  unfolding add_generators_def bit_one by (rule gen_fold_xor)

lemma add_generators_eq: "add_generators high c = c XOR add_generators high 0"
  using add_generators_xor [of 0 high c 0] by (simp add: add_generators_def generators_def upt_rec)

lemma polymod_step_xor: "polymod_step (c XOR d) (v XOR w) = polymod_step c v XOR polymod_step d w"
proof -
  have "push_bit 5 ((c XOR d) AND m) XOR (v XOR w) = (push_bit 5 (c AND m) XOR v) XOR (push_bit 5 (d AND m) XOR w)"
    for m :: int by (rule bit_eqI) (auto simp: bit_simps)
  moreover have "drop_bit 25 (c XOR d) = drop_bit 25 c XOR drop_bit 25 d"
    by (rule bit_eqI) (auto simp: bit_simps)
  ultimately show ?thesis unfolding polymod_step_def by (simp only: add_generators_xor)
qed

lemma polymod_xor:
  "length vs = length ws \<Longrightarrow> foldl polymod_step c vs XOR foldl polymod_step d ws
     = foldl polymod_step (c XOR d) (map2 (XOR) vs ws)"
  by (induction vs ws arbitrary: c d rule: list_induct2) (simp_all add: polymod_step_xor)

section \<open>One wrong character\<close>

text \<open>A step without a symbol loses nothing: the generators of two different tops differ in their last
  five bits.\<close>

lemma add_generators_kernel:
  assumes "0 \<le> high" "high < 32" "add_generators high 0 AND 31 = 0"
  shows "high = 0"
proof -
  have "\<forall>t \<in> set [1..31]. add_generators t 0 AND 31 \<noteq> 0" by code_simp
  then show ?thesis using assms by (auto simp: set_upto)
qed

lemma add_generators_range:
  assumes "0 \<le> high" "high < 32" shows "0 \<le> add_generators high 0 \<and> add_generators high 0 < 2 ^ 30"
proof -
  have "\<forall>t \<in> set [0..31]. 0 \<le> add_generators t 0 \<and> add_generators t 0 < 2 ^ 30" by code_simp
  then show ?thesis using assms by (auto simp: set_upto)
qed

lemma less_two_power_iff: "0 \<le> (c :: int) \<Longrightarrow> c < 2 ^ n \<longleftrightarrow> drop_bit n c = 0"
  by (auto simp: drop_bit_eq_div zdiv_eq_0_iff)

lemma xor_range: "0 \<le> (a :: int) \<Longrightarrow> a < 2 ^ n \<Longrightarrow> 0 \<le> b \<Longrightarrow> b < 2 ^ n \<Longrightarrow> 0 \<le> a XOR b \<and> a XOR b < 2 ^ n"
  by (simp add: less_two_power_iff drop_bit_xor)

lemma polymod_step_range:
  assumes "0 \<le> c" "c < 2 ^ 30" "0 \<le> v" "v < 32"
  shows "0 \<le> polymod_step c v \<and> polymod_step c v < 2 ^ 30"
proof -
  define p where "p = push_bit 5 (c AND 0x1FFFFFF)"
  have t: "0 \<le> drop_bit 25 c" "drop_bit 25 c < 32" using assms by (simp_all add: drop_bit_eq_div)
  have "c AND 0x1FFFFFF = take_bit 25 c" by (simp add: take_bit_eq_mask mask_eq_exp_minus_1)
  then have "0 \<le> p" "p < 2 ^ 30"
    using assms take_bit_int_less_exp [of 25 c] by (simp_all add: p_def push_bit_eq_mult)
  then have pv: "0 \<le> p XOR v \<and> p XOR v < 2 ^ 30" using assms by (intro xor_range) simp_all
  have "polymod_step c v = (p XOR v) XOR add_generators (drop_bit 25 c) 0"
    unfolding polymod_step_def p_def [symmetric] by (rule add_generators_eq)
  with xor_range [of "p XOR v" 30 "add_generators (drop_bit 25 c) 0"] pv add_generators_range [OF t]
  show ?thesis by simp
qed

lemma polymod_step_kernel:
  assumes "0 \<le> c" "c < 2 ^ 30" "polymod_step c 0 = 0"
  shows "c = 0"
proof -
  define t where "t = drop_bit 25 c"
  have t: "0 \<le> t" "t < 32" using assms by (simp_all add: t_def drop_bit_eq_div)
  have m: "c AND 0x1FFFFFF = take_bit 25 c" by (simp add: take_bit_eq_mask mask_eq_exp_minus_1)
  from assms(3) have z: "push_bit 5 (take_bit 25 c) XOR add_generators t 0 = 0"
    unfolding polymod_step_def t_def [symmetric] m by (subst (asm) add_generators_eq) simp
  then have eq: "add_generators t 0 = push_bit 5 (take_bit 25 c)"
    by (metis xor.assoc xor.commute xor.left_neutral xor_self_eq)
  have "push_bit 5 x AND 31 = 0" for x :: int
    using take_bit_push_bit [of 5 5 x] by (simp add: take_bit_eq_mask mask_eq_exp_minus_1)
  then have "t = 0" using add_generators_kernel [OF t] eq by simp
  then have "add_generators t 0 = 0" by (simp add: add_generators_def generators_def upt_rec)
  with eq have "take_bit 25 c = 0" by (simp add: push_bit_eq_mult)
  moreover have "drop_bit 25 c = 0" using \<open>t = 0\<close> t_def by simp
  ultimately show ?thesis by (metis bits_ident push_bit_of_0 add.right_neutral)
qed

lemma polymod_zeros:
  "0 \<le> c \<Longrightarrow> c < 2 ^ 30 \<Longrightarrow> foldl polymod_step c (replicate n 0) = 0 \<Longrightarrow> c = 0"
proof (induction n arbitrary: c)
  case (Suc n)
  from Suc.prems polymod_step_range [of c 0] Suc.IH [of "polymod_step c 0"] have "polymod_step c 0 = 0" by simp
  with Suc.prems polymod_step_kernel show ?case by simp
qed simp

text \<open>Two lists of symbols with the same checksum do not differ in exactly one place.\<close>

lemma polymod_one_error:
  assumes eq: "foldl polymod_step 1 (us @ v # ws) = foldl polymod_step 1 (us @ w # ws)"
    and v: "0 \<le> v" "v < 32" and w: "0 \<le> w" "w < 32"
  shows "v = w"
proof -
  have zeros: "map2 (XOR) xs xs = replicate (length xs) (0 :: int)" for xs :: "int list"
    by (induction xs) simp_all
  have zero: "foldl polymod_step 0 (replicate n 0) = 0" for n
    by (induction n) (simp_all add: polymod_step_def add_generators_def generators_def upt_rec)
  have "0 = foldl polymod_step (1 XOR 1) (map2 (XOR) (us @ v # ws) (us @ w # ws))"
    using polymod_xor [of "us @ v # ws" "us @ w # ws" 1 1] eq by simp
  also have "\<dots> = foldl polymod_step (polymod_step 0 (v XOR w)) (replicate (length ws) 0)"
    by (simp add: zeros zero)
  also have "polymod_step 0 (v XOR w) = v XOR w"
    by (simp add: polymod_step_def add_generators_def generators_def upt_rec)
  finally have "foldl polymod_step (v XOR w) (replicate (length ws) 0) = 0" by simp
  moreover have "0 \<le> v XOR w \<and> v XOR w < 2 ^ 5" using v w by (intro xor_range) simp_all
  ultimately have "v XOR w = 0" using polymod_zeros [of "v XOR w"] by simp
  then show ?thesis by (metis xor.assoc xor.left_neutral xor.right_neutral xor_self_eq)
qed

section \<open>Accepted addresses\<close>

lemma charset_distinct: "distinct BECH32_CHARSET" "length BECH32_CHARSET = 32" "49 \<notin> set BECH32_CHARSET"
  by code_simp+

lemma bech32_index_Some: "bech32_index c = Some i \<Longrightarrow> 0 \<le> i \<and> i < 32 \<and> c = BECH32_CHARSET ! nat i"
  using charset_distinct(2)
  by (auto simp: bech32_index_def find_Some_iff in_set_enumerate_eq nth_enumerate_eq)

lemma indices_eq_Inr: "indices s = Inr data \<longleftrightarrow> list_all2 (\<lambda>c i. bech32_index c = Some i) s data"
  unfolding indices_def mapE_eq_Inr
  by (intro arg_cong [of _ _ "\<lambda>P. list_all2 P s data"]) (auto simp: fun_eq_iff identity_error_def split: option.splits)

text \<open>What validation establishes of its result.\<close>

definition valid_address :: "ustr \<Rightarrow> int list \<Rightarrow> bool" where
  "valid_address a data \<longleftrightarrow> a = str ''bc1'' @ after_separator a \<and> indices (after_separator a) = Inr data
     \<and> bech32_polymod (bech32_hrp_expand (str ''bc'') @ data) = (if hd data = 0 then BECH32_CONST else BECH32M_CONST)
     \<and> 6 < length data \<and> hd data \<le> 16
     \<and> (\<exists>program. convert_bits (tl (take (length data - 6) data)) 5 8 False = Some program
          \<and> 2 \<le> length program \<and> length program \<le> 40 \<and> (hd data = 0 \<longrightarrow> length program \<in> {20, 32}))"

lemma separator_split:
  assumes "separator_pos s = int k" "k < length s"
  shows "s = take k s @ [49] @ after_separator s"
proof -
  define r where "r = rev s"
  have a: "after_separator s = rev (takeWhile (\<lambda>c. c \<noteq> 49) r)" by (simp add: after_separator_def r_def)
  have k: "length (takeWhile (\<lambda>c. c \<noteq> 49) r) + k + 1 = length r"
    using assms by (simp add: separator_pos_def a r_def)
  then have "dropWhile (\<lambda>c. c \<noteq> 49) r \<noteq> []"
    by (metis add.commute less_add_one length_takeWhile_le not_less plus_1_eq_Suc takeWhile_dropWhile_id append_Nil2 add_Suc_right not_add_less1)
  then obtain t where d: "dropWhile (\<lambda>c. c \<noteq> 49) r = 49 # t"
    by (metis (mono_tags, lifting) hd_dropWhile list.collapse)
  have r: "r = takeWhile (\<lambda>c. c \<noteq> 49) r @ 49 # t" by (metis d takeWhile_dropWhile_id)
  then have s: "s = rev t @ [49] @ after_separator s" by (metis a r_def rev_append rev_rev_ident rev.simps(2) append_assoc)
  have "length t = k" using arg_cong [OF r, of length] k by simp
  with s show ?thesis by (metis append_eq_conv_conj length_rev)
qed

lemma check_witnessE:
  assumes "check_witness k data = Inr ()"
  obtains version rest program where "take (length data - 6) data = version # rest" "version \<le> 16"
    "convert_bits rest 5 8 False = Some program" "2 \<le> length program" "length program \<le> 40"
    "k = (if version = 0 then BECH32_CONST else BECH32M_CONST)" "version = 0 \<longrightarrow> length program \<in> {20, 32}"
proof -
  obtain version rest where t: "take (length data - 6) data = version # rest"
    using assms by (cases "take (length data - 6) data") (simp_all add: check_witness_def identity_error_def)
  obtain program where p: "convert_bits rest 5 8 False = Some program"
    using assms t by (cases "convert_bits rest 5 8 False") (simp_all add: check_witness_def identity_error_def split: if_splits)
  show thesis
    by (rule that [OF t _ p])
      (use assms t p in \<open>simp_all add: check_witness_def identity_error_def split: if_splits\<close>)
qed

lemma validated_address:
  assumes "validate_bitcoin_address T v = Inr a"
  shows "\<exists>data. valid_address a data \<and> a = to_lower T (py_strip v) \<and> (a = py_strip v \<or> to_upper T (py_strip v) = py_strip v)"
proof -
  define sep where "sep = separator_pos a"
  from assms have a: "a = to_lower T (py_strip v)" "a = py_strip v \<or> to_upper T (py_strip v) = py_strip v"
    and sep: "1 \<le> sep" "sep + 7 \<le> int (length a)" "take (nat sep) a = str ''bc''"
    by (auto simp: validate_bitcoin_address_def Let_def identity_error_def sep_def bindE_eq_Inr split: if_splits)
  from assms obtain data where data: "indices (after_separator a) = Inr data"
    and check: "check_witness (bech32_polymod (bech32_hrp_expand (str ''bc'') @ data)) data = Inr ()"
    by (auto simp: validate_bitcoin_address_def Let_def identity_error_def bindE_eq_Inr split: if_splits)
  have "a = take (nat sep) a @ [49] @ after_separator a"
    by (rule separator_split) (use sep in \<open>simp_all add: sep_def\<close>)
  then have shape: "a = str ''bc1'' @ after_separator a" unfolding sep(3) by (simp add: str_def)
  from check obtain version rest program where w: "take (length data - 6) data = version # rest" "version \<le> 16"
    "convert_bits rest 5 8 False = Some program" "2 \<le> length program" "length program \<le> 40"
    "bech32_polymod (bech32_hrp_expand (str ''bc'') @ data) = (if version = 0 then BECH32_CONST else BECH32M_CONST)"
    "version = 0 \<longrightarrow> length program \<in> {20, 32}"
    by (rule check_witnessE)
  have len: "6 < length data" using w(1) by (cases "length data - 6") simp_all
  moreover have "hd data = version" using hd_take [of "length data - 6" data] len w(1) by simp
  moreover have "tl (take (length data - 6) data) = rest" using w(1) by simp
  ultimately have "valid_address a data"
    unfolding valid_address_def using data w by (intro conjI shape exI [of _ program]) simp_all
  with a show ?thesis by blast
qed

lemma valid_address_one_error:
  assumes a: "valid_address a da" and b: "valid_address b db"
    and diff: "a = us @ c # ws" "b = us @ d # ws" "c \<noteq> d" "length us \<noteq> 3"
  shows False
proof -
  have sa: "a = str ''bc1'' @ after_separator a" "b = str ''bc1'' @ after_separator b"
    using a b by (simp_all add: valid_address_def)
  have bc1: "length (str ''bc1'') = 3" by simp
  have len: "3 \<le> length us"
  proof (rule ccontr)
    assume "\<not> 3 \<le> length us"
    then have n: "length us < length (str ''bc1'')" by simp
    have "a ! length us = str ''bc1'' ! length us" "b ! length us = str ''bc1'' ! length us"
      using sa n by (metis nth_append)+
    with diff show False by simp
  qed
  define p where "p = drop 3 us"
  have "us = str ''bc1'' @ p"
    using arg_cong [OF sa(1), of "take 3"] diff(1) len by (simp add: p_def) (metis append_take_drop_id)
  then have pa: "after_separator a = p @ c # ws" "after_separator b = p @ d # ws"
    using sa diff(1,2) by auto
  with a b obtain pd cd wd pd' cd' wd' where
    da: "da = pd @ cd # wd" "list_all2 (\<lambda>c i. bech32_index c = Some i) p pd" "bech32_index c = Some cd"
      "list_all2 (\<lambda>c i. bech32_index c = Some i) ws wd"
    and db: "db = pd' @ cd' # wd'" "list_all2 (\<lambda>c i. bech32_index c = Some i) p pd'" "bech32_index d = Some cd'"
      "list_all2 (\<lambda>c i. bech32_index c = Some i) ws wd'"
    unfolding valid_address_def indices_eq_Inr by (auto simp: list_all2_append1 list_all2_Cons1)
  have unique: "list_all2 (\<lambda>c i. bech32_index c = Some i) s x \<Longrightarrow> list_all2 (\<lambda>c i. bech32_index c = Some i) s y \<Longrightarrow> x = y" for s x y
    by (induction s arbitrary: x y) (auto simp: list_all2_Cons1)
  from da db unique have same: "pd' = pd" "wd' = wd" by metis+
  have "p \<noteq> []" using diff(4) len by (simp add: p_def)
  then have "pd \<noteq> []" using da(2) by auto
  then have "hd da = hd db" using da(1) db(1) same by simp
  then have "bech32_polymod (bech32_hrp_expand (str ''bc'') @ da) = bech32_polymod (bech32_hrp_expand (str ''bc'') @ db)"
    using a b by (simp add: valid_address_def)
  then have "foldl polymod_step 1 ((bech32_hrp_expand (str ''bc'') @ pd) @ cd # wd)
      = foldl polymod_step 1 ((bech32_hrp_expand (str ''bc'') @ pd) @ cd' # wd)"
    using da(1) db(1) same by (simp add: bech32_polymod_def)
  then have "cd = cd'" by (rule polymod_one_error) (use bech32_index_Some da(3) db(3) in auto)
  with bech32_index_Some [OF da(3)] bech32_index_Some [OF db(3)] diff(3) show False by simp
qed

section \<open>The address of the release\<close>

definition ascii_upper :: "nat \<Rightarrow> nat" where
  "ascii_upper c = (if 97 \<le> c \<and> c \<le> 122 then c - 32 else c)"

text \<open>The tables on ASCII.\<close>

definition ascii_tables :: case_tables where
  "ascii_tables = \<lparr>to_lower = map ascii_lower, to_upper = map ascii_upper\<rparr>"

lemma genesis_address_valid:
  "validate_bitcoin_address ascii_tables GENESIS_DONATION_ADDRESS = Inr GENESIS_DONATION_ADDRESS"
  by code_simp

section \<open>The edits of the release files\<close>

definition FOUNDER_MARKER :: ustr where "FOUNDER_MARKER = str ''{{HAP_FOUNDER_PSEUDONYM}}''"
definition ADDRESS_MARKER :: ustr where "ADDRESS_MARKER = str ''{{HAP_GENESIS_BITCOIN_ADDRESS}}''"
definition MANIFEST_ID_MARKER :: ustr where "MANIFEST_ID_MARKER = str ''{{HAP_FUNDING_MANIFEST_ID}}''"

definition TARGETS :: "string list" where
  "TARGETS = [''AUTHORS.md'', ''GENESIS_STATEMENT.md'', ''FUNDING.md'', ''hap/funding.py'']"

definition MANIFEST_PATH :: string where "MANIFEST_PATH = ''FUNDING_MANIFEST.json''"

text \<open>\<open>s.replace(old, new)\<close>, for an \<open>old\<close> that is not empty.\<close>

function replace_all :: "ustr \<Rightarrow> ustr \<Rightarrow> ustr \<Rightarrow> ustr" where
  "replace_all old new s = (case s of [] \<Rightarrow> []
     | c # cs \<Rightarrow> if old \<noteq> [] \<and> starts_with s old then new @ replace_all old new (drop (length old) s)
         else c # replace_all old new cs)"
  by pat_completeness auto

termination by (relation "measure (\<lambda>(old, new, s). length s)") auto

declare replace_all.simps [simp del]

text \<open>The files of the repository as texts, with their line ends read as line feeds.\<close>

type_synonym files = "string \<Rightarrow> ustr option"

definition manifest_for :: "ustr \<Rightarrow> json" where
  "manifest_for address =
     obj [(''schema'', JStr (str ''hap.funding'')), (''version'', JInt 1),
       (''release_version'', JStr (str ''1.0.0'')), (''bitcoin_network'', JStr (str ''mainnet'')),
       (''genesis_donation_address'', JStr address),
       (''purpose'', JStr (str ''voluntary support for open-source HAP development'')),
       (''consensus_effect'', JBool False), (''governance_rights'', JBool False),
       (''protocol_dependency'', JBool False)]"

definition manifest_id :: "env \<Rightarrow> json \<Rightarrow> ustr result" where
  "manifest_id E manifest = bindE (encode_utf8 (dumps manifest)) (\<lambda>bs. Inr (sha256_hex E bs))"

text \<open>\<open>json.dumps(v, indent=2, sort_keys=True)\<close> of a dictionary without nested values, whose texts are
  ASCII.\<close>

fun dump_indented :: "json \<Rightarrow> ustr" where
  "dump_indented (JDict d) = str ''{'' @ [10]
     @ join (str '','' @ [10]) (map (\<lambda>(k, v). str ''  '' @ dump_key k @ str '': '' @ dumps v) (sort_key fst d))
     @ [10] @ str ''}''"
| "dump_indented v = dumps v"

text \<open>One pass over a list of paths: the files and the paths whose text changed. A file that is missing
  raises.\<close>

fun edit_files :: "(ustr \<Rightarrow> ustr) \<Rightarrow> string list \<Rightarrow> files \<Rightarrow> string list \<Rightarrow> (files \<times> string list) result" where
  "edit_files f [] fs changed = Inr (fs, changed)"
| "edit_files f (p # ps) fs changed = (case fs p of
     None \<Rightarrow> Inl (Exn OtherError ''FileNotFoundError'')
   | Some original \<Rightarrow>
       if f original = original then edit_files f ps fs changed
       else edit_files f ps (fs(p \<mapsto> f original)) (if p \<in> set changed then changed else changed @ [p]))"

definition replace_markers :: "env \<Rightarrow> ustr \<Rightarrow> ustr \<Rightarrow> files \<Rightarrow> (files \<times> string list) result" where
  "replace_markers E pseudonym address fs =
     bindE (edit_files (\<lambda>t. replace_all ADDRESS_MARKER address (replace_all FOUNDER_MARKER pseudonym t)) TARGETS fs [])
       (\<lambda>(fs, changed).
     bindE (manifest_id E (manifest_for address)) (\<lambda>identifier.
     let manifest = dput ''manifest_id'' (JStr identifier) (manifest_for address);
         fs = fs(MANIFEST_PATH \<mapsto> dump_indented manifest @ [10]) in
     edit_files (replace_all MANIFEST_ID_MARKER identifier) [''GENESIS_STATEMENT.md'', ''FUNDING.md''] fs
       (changed @ [MANIFEST_PATH])))"

definition contains :: "ustr \<Rightarrow> ustr \<Rightarrow> bool" where
  "contains s m \<longleftrightarrow> list_ex (\<lambda>i. starts_with (drop i s) m) [0..<length s + 1]"

definition remaining_markers :: "files \<Rightarrow> string list result" where
  "remaining_markers fs =
     bindE (mapE (\<lambda>p. case fs p of None \<Rightarrow> Inl (Exn OtherError ''FileNotFoundError'') | Some t \<Rightarrow> Inr (p, t)) TARGETS) (\<lambda>texts.
     Inr (sort (map fst (filter (\<lambda>(p, t). list_ex (contains t) [FOUNDER_MARKER, ADDRESS_MARKER, MANIFEST_ID_MARKER]) texts))))"

text \<open>The manifest of the script for the address of the release is the one that the program answers with.\<close>

lemma release_manifest_matches:
  "manifest_for GENESIS_DONATION_ADDRESS = canonical_funding_manifest"
  "manifest_id E (manifest_for GENESIS_DONATION_ADDRESS) = funding_manifest_id E"
  by (simp_all add: manifest_for_def canonical_funding_manifest_def RELEASE_VERSION_def manifest_id_def
      funding_manifest_id_def)

lemma starts_with_contains: "contains s m \<longleftrightarrow> (\<exists>u v. s = u @ m @ v)"
proof
  assume "contains s m"
  then obtain i where "starts_with (drop i s) m" unfolding contains_def list_ex_iff by blast
  then obtain v where "drop i s = m @ v" by (auto simp: starts_with_iff)
  then show "\<exists>u v. s = u @ m @ v" by (metis append_take_drop_id)
next
  assume "\<exists>u v. s = u @ m @ v"
  then obtain u v where "s = u @ m @ v" by blast
  then have "starts_with (drop (length u) s) m" and "length u < length s + 1" by simp_all
  then have "length u \<in> set [0..<length s + 1]" unfolding set_upt by simp
  with \<open>starts_with (drop (length u) s) m\<close> show "contains s m" unfolding contains_def list_ex_iff by blast
qed

lemma contains_start: "starts_with s m \<Longrightarrow> contains s m"
  unfolding starts_with_contains starts_with_iff by (metis append.left_neutral)

lemma contains_later: "contains s m \<Longrightarrow> contains (c # s) m"
  unfolding starts_with_contains by (metis append_Cons)

text \<open>A text without the marker is left as it is, so that finalising twice changes nothing more.\<close>

lemma replace_all_absent: "old \<noteq> [] \<Longrightarrow> \<not> contains s old \<Longrightarrow> replace_all old new s = s"
proof (induction s)
  case Nil
  then show ?case by (simp add: replace_all.simps)
next
  case (Cons c s)
  then have "\<not> starts_with (c # s) old" "\<not> contains s old"
    using contains_start contains_later by blast+
  with Cons show ?case by (subst replace_all.simps) simp
qed

lemma edit_files_unchanged:
  "edit_files f ps fs changed = Inr (fs', changed') \<Longrightarrow> p \<notin> set ps \<Longrightarrow> fs' p = fs p"
  by (induction ps arbitrary: fs changed) (auto split: option.splits if_splits)

lemma replace_markers_manifest:
  assumes "replace_markers E pseudonym address fs = Inr (fs', changed)"
  shows "\<exists>i. manifest_id E (manifest_for address) = Inr i
    \<and> fs' MANIFEST_PATH = Some (dump_indented (dput ''manifest_id'' (JStr i) (manifest_for address)) @ [10])
    \<and> (\<forall>p. p \<notin> insert MANIFEST_PATH (set TARGETS) \<longrightarrow> fs' p = fs p)"
proof -
  from assms obtain fs1 c1 i where e: "edit_files (\<lambda>t. replace_all ADDRESS_MARKER address (replace_all FOUNDER_MARKER pseudonym t)) TARGETS fs [] = Inr (fs1, c1)"
    and i: "manifest_id E (manifest_for address) = Inr i"
    and m: "edit_files (replace_all MANIFEST_ID_MARKER i) [''GENESIS_STATEMENT.md'', ''FUNDING.md'']
      (fs1(MANIFEST_PATH \<mapsto> dump_indented (dput ''manifest_id'' (JStr i) (manifest_for address)) @ [10]))
      (c1 @ [MANIFEST_PATH]) = Inr (fs', changed)"
    unfolding replace_markers_def Let_def bindE_eq_Inr split_paired_Ex prod.case by (elim exE conjE) (rule that)
  have "fs' MANIFEST_PATH = Some (dump_indented (dput ''manifest_id'' (JStr i) (manifest_for address)) @ [10])"
    using edit_files_unchanged [OF m, of MANIFEST_PATH] by (simp add: MANIFEST_PATH_def)
  moreover have "fs' p = fs p" if "p \<notin> insert MANIFEST_PATH (set TARGETS)" for p
    using edit_files_unchanged [OF m, of p] edit_files_unchanged [OF e, of p] that by (simp add: TARGETS_def)
  ultimately show ?thesis using i by blast
qed

end
