(* ===== verification/ExampleNode.thy ===== *)
theory ExampleNode
  imports Example ApiFacts ScanFacts ExportFacts Wallets Survival Identity
begin

text \<open>
  A concrete node on which the properties of the service, of the HTTP interface and of the wallets are
  exercised: its settings are read from an environment, it accepts \<open>toy_record\<close> over HTTP, it holds
  \<open>toy_package\<close>, and a Bitcoin node answers for it.
\<close>

section \<open>Settings\<close>

definition toy_environ :: environ where
  "toy_environ = \<lparr>env_var = (\<lambda>name. if name = ''HAP_ROLE'' then Some (str ''coordinator'')
       else if name = ''HAP_ADMIN_TOKEN'' then Some (str ''secret'')
       else if name = ''HAP_RESPONSIBLE_PUBLICATION_PROFILE'' then Some (str ''0'') else None),
     read_text = (\<lambda>_. Inl (Exn ValueError ''no file''))\<rparr>"

lemma toy_var: "env_var toy_environ name = (if name = ''HAP_ROLE'' then Some (str ''coordinator'')
       else if name = ''HAP_ADMIN_TOKEN'' then Some (str ''secret'')
       else if name = ''HAP_RESPONSIBLE_PUBLICATION_PROFILE'' then Some (str ''0'') else None)"
  by (simp add: toy_environ_def)

lemma toy_int: "env_var toy_environ name = None \<Longrightarrow> lo \<le> d \<Longrightarrow> d \<le> hi \<Longrightarrow> env_int toy_environ name d lo hi = Inr d"
  by (simp add: env_int_def)

lemma toy_csv: "env_var toy_environ name = None \<Longrightarrow> env_csv toy_environ name = []"
  by (simp add: env_csv_def env_get_def str_def py_strip_def)

lemma toy_tokens: "env_var toy_environ name = None \<Longrightarrow> env_var toy_environ file = None \<Longrightarrow>
    read_tokens toy_environ name file = Inr []"
  by (simp add: read_tokens_def read_secret_def)

lemma toy_admin: "read_secret toy_environ ''HAP_ADMIN_TOKEN'' ''HAP_ADMIN_TOKEN_FILE'' = Inr (Some (str ''secret''))"
  by (simp add: read_secret_def toy_var str_def py_strip_def uni_isspace_def Let_def)

lemma toy_words: "lower (py_strip (str ''coordinator'')) = str ''coordinator''" "lower (py_strip (str ''0'')) = str ''0''"
  "lower (py_strip (str ''signet'')) = str ''signet''"
  by (simp_all add: str_def py_strip_def uni_isspace_def ascii_lower_def)

definition toy_settings :: settings where
  "toy_settings = projr (settings_from_environment toy_environ)"

lemma toy_settings_read: "settings_from_environment toy_environ = Inr toy_settings"
  "role toy_settings = str ''coordinator''" "relay_pow_bits toy_settings = 0"
  "submission_token_required toy_settings = False" "submission_tokens toy_settings = []"
  "admin_token toy_settings = Some (str ''secret'')" "trusted_proxy_cidrs toy_settings = []"
  "max_statement_chars toy_settings = 10000" "max_record_bytes toy_settings = 49152"
  "responsible_publication_profile toy_settings = False" "write_requests_per_minute toy_settings = 10"
proof -
  note simps = settings_from_environment_def toy_int toy_csv toy_tokens toy_admin toy_var env_get_def env_bool_def toy_words
      validate_settings_def VALID_ROLES_def can_coordinate_def no_token_def Let_def
  have "\<exists>S. settings_from_environment toy_environ = Inr S \<and> role S = str ''coordinator'' \<and> relay_pow_bits S = 0
      \<and> \<not> submission_token_required S \<and> submission_tokens S = [] \<and> admin_token S = Some (str ''secret'')
      \<and> trusted_proxy_cidrs S = [] \<and> max_statement_chars S = 10000 \<and> max_record_bytes S = 49152
      \<and> \<not> responsible_publication_profile S \<and> write_requests_per_minute S = 10"
    by (simp add: simps)
  then show "settings_from_environment toy_environ = Inr toy_settings"
    "role toy_settings = str ''coordinator''" "relay_pow_bits toy_settings = 0"
    "submission_token_required toy_settings = False" "submission_tokens toy_settings = []"
    "admin_token toy_settings = Some (str ''secret'')" "trusted_proxy_cidrs toy_settings = []"
    "max_statement_chars toy_settings = 10000" "max_record_bytes toy_settings = 49152"
    "responsible_publication_profile toy_settings = False" "write_requests_per_minute toy_settings = 10"
    by (auto simp: toy_settings_def)
qed


section \<open>A record submitted over HTTP\<close>

text \<open>The node accepts records as long as \<open>toy_record\<close>.\<close>

definition toy_world :: world where
  "toy_world = \<lparr>w_settings = toy_settings\<lparr>max_record_bytes := int (length (projr (canonical_json_bytes toy_record)))\<rparr>,
     w_env = toy_env, w_ip = \<lparr>ip_text = (\<lambda>_. None), ip_within = (\<lambda>_ _. None)\<rparr>, w_netloc = (\<lambda>_. Inr ()),
     w_rpc = toy_rpc, w_http = \<lparr>http_answer = (\<lambda>_ _ _. None), http_json = (\<lambda>_. None)\<rparr>,
     w_clock = (\<lambda>_. 0), w_tick = 0, w_database_ok = True\<rparr>"

definition toy_request :: request where
  "toy_request = \<lparr>header = (\<lambda>_. None), client_host = Some (str ''10.0.0.1'')\<rparr>"

definition toy_admin_request :: request where
  "toy_admin_request = \<lparr>header = (\<lambda>h. if h = ''authorization'' then Some (str ''Bearer secret'') else None),
     client_host = Some (str ''10.0.0.1'')\<rparr>"

definition empty_node :: node where
  "empty_node = \<lparr>ix = empty_index, ev = \<lparr>es_files = []\<rparr>, calls = 0, peer_states = []\<rparr>"

definition toy_app :: app where
  "toy_app = new_app (w_settings toy_world) empty_node"

lemma empty_node_ok: "node_ok toy_env empty_node" "ix empty_node = empty_index" "evidence_ok E (ev empty_node)"
  by (simp_all add: empty_node_def node_ok_def index_ok_empty evidence_ok_empty)

lemma toy_settings_world: "w_settings toy_world = toy_settings\<lparr>max_record_bytes := int (length (projr (canonical_json_bytes toy_record)))\<rparr>"
  "w_env toy_world = toy_env" "w_tick toy_world = 0" "w_rpc toy_world = toy_rpc"
  by (simp_all add: toy_world_def)

lemma dict_get_dget: "is_dict r \<Longrightarrow> dget r k \<noteq> JNull \<or> d = JNull \<Longrightarrow> dict_get r k d = Inr (dget r k)"
  by (cases r) (auto simp: is_dict_def dict_get_def assoc_get_def split: option.splits)

lemma toy_is_dict: "is_dict toy_record"
  using toy_record_valid(1) by (auto simp: validate_record_eq_Inr dest: validate_head_facts(1) has_fields_is_dict)

lemma toy_dict: "dict_get toy_record ''title'' d = Inr (JStr (str ''T''))" "dict_get toy_record ''statement'' d = Inr (JStr (str ''T''))"
  "dict_get toy_record ''event_time'' JNull = Inr JNull" "dict_get toy_record ''sources'' d = Inr (JList [])"
  "dict_get toy_record ''evidence'' d = Inr (JList [])" "dict_get toy_record ''tags'' d = Inr (JList [])"
  using toy_is_dict toy_record_valid by (simp_all add: dict_get_dget)

lemma toy_relay_policy: "relay_policy toy_world toy_record = Inr ()"
proof -
  obtain bs where "canonical_json_bytes toy_record = Inr bs"
    using validate_record_encodable [OF toy_record_valid(1,2)] validate_record_depth [OF toy_record_valid(1,2)]
      canonical_json_bytes_iff [of toy_record] by auto
  then show ?thesis
    by (simp add: relay_policy_def validate_safe_relay_record_def toy_settings_world toy_settings_read toy_dict
        validate_plain_text_def contains_forbidden_controls_def str_def relay_tags_def iterE_def py_iter_def)
qed

lemma toy_write_key: "write_key toy_world toy_request = Inr (str ''ip:'' @ str ''10.0.0.1'')"
  by (simp add: write_key_def toy_settings_world toy_settings_read toy_request_def require_submission_token_def
      client_key_def token_rate_key_def no_token_def trusted_client_ip_def can_relay_def toy_world_def Let_def)

lemma toy_limiter: "\<exists>l. allow 0 key (app_limiter toy_app) = (True, l)"
  by (simp add: toy_app_def new_app_def toy_settings_world toy_settings_read allow_def grant_def drop_expired_def Let_def)

lemma toy_post: "\<exists>a. post_record toy_world toy_request toy_record toy_app = (Inr (rid_of toy_record, ''accepted''), a)
    \<and> get_record (ix (app_node a)) (rid_of toy_record) = Some toy_record"
proof -
  obtain l where l: "allow 0 (str ''ip:'' @ str ''10.0.0.1'') (app_limiter toy_app) = (True, l)" using toy_limiter by blast
  have w: "require_record_write toy_world toy_request toy_app = (Inr (), toy_app\<lparr>app_limiter := l\<rparr>)"
    by (simp add: require_record_write_run toy_write_key toy_settings_world l)
  have n: "app_node toy_app = empty_node" "get_record (ix empty_node) k = None" for k
    by (simp_all add: toy_app_def new_app_def empty_node_ok) (simp add: get_record_def empty_index_def lookup_row_def)
  have "submit_record toy_env (Some (relay_policy toy_world)) True toy_record empty_node
      = (Inr (rid_of toy_record, ''accepted''), empty_node\<lparr>ix := snd (add_record toy_record (ix empty_node))\<rparr>)"
    using toy_record_valid n toy_relay_policy
    by (simp add: submit_record_def target_of_def storeM_def updateM_def bindM_def liftM_def readM_def split: prod.split)
  then have "post_record toy_world toy_request toy_record toy_app = (Inr (rid_of toy_record, ''accepted''),
      toy_app\<lparr>app_limiter := l, app_node := empty_node\<lparr>ix := snd (add_record toy_record (ix empty_node))\<rparr>\<rparr>)"
    using w n toy_record_valid toy_relay_policy
    by (simp add: post_record_def bindM_def liftM_def toy_settings_world toy_settings_read verify_relay_pow_def on_node_def)
  then show ?thesis using n by (simp add: add_record_get)
qed

lemma toy_reached: "\<exists>a. reachable toy_env toy_rpc (w_settings toy_world) a
    \<and> get_record (ix (app_node a)) (rid_of toy_record) = Some toy_record"
proof -
  obtain a where a: "post_record toy_world toy_request toy_record toy_app = (Inr (rid_of toy_record, ''accepted''), a)"
    "get_record (ix (app_node a)) (rid_of toy_record) = Some toy_record"
    using toy_post by blast
  have h: "handle toy_world toy_request (PostRecord toy_record) toy_app = (Inr (), a)"
    using a(1) by (simp add: ignore_def bindM_def liftM_def)
  have w: "same_world toy_env toy_rpc (w_settings toy_world) toy_world"
    by (simp add: same_world_def toy_settings_world parses_well_def) (simp add: toy_world_def)
  have "reachable toy_env toy_rpc (w_settings toy_world) toy_app"
    unfolding toy_app_def by (rule reachable.start) (simp_all add: empty_node_ok, simp add: empty_index_def)
  moreover have "app_step toy_env toy_rpc (w_settings toy_world) toy_app a"
    by (rule app_step.request [OF w _ h]) (simp add: toy_record_valid(2))
  ultimately have "reachable toy_env toy_rpc (w_settings toy_world) a" by (rule reachable.step)
  with a show ?thesis by blast
qed

section \<open>Proof of work, and a wallet\<close>

text \<open>Every nonce has 240 leading zero bits for the digest of \<open>toy_env\<close>.\<close>

lemma toy_meets: "meets toy_env rid 8 n"
  by (simp add: meets_def pow_hash_def toy_env_def toy_sha256_def numeral_eq_Suc)

lemma toy_rid_ascii: "ascii_text (rid_of toy_record)"
  using validated_record_id [OF toy_record_valid(1)] bytes_hex_ascii by (auto simp: ascii_text_def rid_of_def sha256_hex_def)

text \<open>A cipher for keys of 32 and nonces of 12 bytes: it adds the first byte of the key to every byte, and
  its tag is the key and the nonce.\<close>

definition toy_ciphers :: wallet_crypto where
  "toy_ciphers = \<lparr>scrypt = (\<lambda>password salt n r p. if salt = [] then None else Some (take 32 (password @ replicate 32 0))),
     aes_seal = (\<lambda>key nonce data aad. if length key = 32 \<and> length nonce = 12
        then Some (key @ nonce @ map (\<lambda>b. b + hd key) data) else None),
     aes_open = (\<lambda>key nonce c aad. if length key = 32 \<and> length nonce = 12 \<and> take 44 c = key @ nonce
        then Some (map (\<lambda>b. b - hd key) (drop 44 c)) else None)\<rparr>"

lemma toy_ciphers_open: "ciphers_open toy_ciphers"
  by (auto simp: ciphers_open_def toy_ciphers_def comp_def)

definition toy_salt :: bytes where "toy_salt = replicate 16 7"
definition toy_nonce :: bytes where "toy_nonce = replicate 12 9"

lemma toy_password: "encode_utf8 [112] = Inr [112]"
  by (simp add: encode_utf8_def utf8_opt_def utf8_char_def)

lemma toy_wallet:
  "\<exists>w. create_encrypted_wallet toy_env toy_ciphers [112] toy_key toy_key toy_salt toy_nonce = Inr w
    \<and> decrypt_wallet toy_env toy_ciphers w [112] = Inr (b64encode toy_key)"
  by (rule wallet_round_trip [OF toy_ciphers_open toy_public _ _ _ toy_password])
    (simp_all add: toy_key_def toy_salt_def toy_nonce_def)

section \<open>An application that reads two messages\<close>

definition toy_reader :: "bool application" where
  "toy_reader = Receive (\<lambda>first. case first of None \<Rightarrow> LetThrough
     | Some _ \<Rightarrow> Receive (\<lambda>second. case second of None \<Rightarrow> LetThrough | Some _ \<Rightarrow> Answer True))"

lemma toy_reads:
  "run_app plain_receive toy_reader () [m1, m2] = (Returned True, [m1, m2])" "lets_through toy_reader"
  by (simp_all add: toy_reader_def plain_receive_def)

section \<open>A batch made of the record\<close>

definition toy_fresh :: node where
  "toy_fresh = empty_node\<lparr>ix := snd (add_record toy_record empty_index)\<rparr>"

lemma toy_fresh_holds: "node_ok toy_env toy_fresh" "list_records (ix toy_fresh) 10 True = [toy_record]"
  "record_ids_in (ix toy_fresh) = {rid_of toy_record}" "batch_ids_in (ix toy_fresh) = {}"
proof -
  have "index_ok toy_env (snd (add_record toy_record empty_index))"
    using index_ok_add_record [OF index_ok_empty toy_record_valid(1,2)] .
  then show "node_ok toy_env toy_fresh"
    using empty_node_ok by (simp add: toy_fresh_def node_ok_def)
  show "list_records (ix toy_fresh) 10 True = [toy_record]" "record_ids_in (ix toy_fresh) = {rid_of toy_record}"
    "batch_ids_in (ix toy_fresh) = {}"
    by (simp_all add: toy_fresh_def add_record_unfold all_rows_insert_ignore empty_index_def list_records_def
        record_ids_in_def batch_ids_in_def sql_limit_def is_batched_def)
qed

lemma toy_package_records: "records_of toy_package = [toy_record]"
  using create_package_total [OF toy_digests_32 toy_batch_valid(1) toy_batch_wf, of "[toy_record]"]
    toy_record_valid toy_batch_valid(2)
  by (auto simp: toy_package_def)

lemma toy_package_made: "create_package toy_env toy_batch [toy_record] = Inr toy_package"
  using create_package_total [OF toy_digests_32 toy_batch_valid(1) toy_batch_wf, of "[toy_record]"]
    toy_record_valid toy_batch_valid(2)
  by (auto simp: toy_package_def)

lemma toy_package_bytes: "\<exists>bs. canonical_json_bytes toy_package = Inr bs"
proof -
  obtain i where p: "toy_package = dput ''package_id'' (JStr i) (obj [(''schema'', JStr (str ''hap.package'')),
      (''version'', JInt PACKAGE_VERSION), (''batch'', toy_batch), (''records'', JList [toy_record])])"
    "calculate_package_id toy_env (obj [(''schema'', JStr (str ''hap.package'')),
      (''version'', JInt PACKAGE_VERSION), (''batch'', toy_batch), (''records'', JList [toy_record])]) = Inr i"
    using create_package_shape [OF toy_package_made] by (auto simp: toy_package_records)
  from p(2) have "encodable i" by (auto simp: calculate_package_id_def bindE_eq_Inr sha256_hex_def)
  then show ?thesis
    using validate_record_encodable [OF toy_record_valid(1,2)] validate_record_depth [OF toy_record_valid(1,2)]
      validate_batch_encodable [OF toy_batch_valid(1) toy_batch_wf] validate_batch_depth [OF toy_batch_valid(1) toy_batch_wf]
    unfolding canonical_json_bytes_iff p(1)
    by (auto simp: dput_obj obj_def PACKAGE_VERSION_def MAX_SAFE_JSON_INTEGER_def)
qed

lemma toy_create_batch: "\<exists>limit n. create_batch toy_env 0 (str ''regtest'') 10 limit toy_fresh = (Inr toy_batch, n)"
proof -
  obtain bs rbs where bs: "canonical_json_bytes toy_package = Inr bs" "canonical_json_bytes toy_record = Inr rbs"
    using toy_package_bytes validate_record_encodable [OF toy_record_valid(1,2)] validate_record_depth [OF toy_record_valid(1,2)]
      canonical_json_bytes_iff [of toy_record] by auto
  define limit where "limit = max (int (length bs)) (4096 + (int (length rbs) + 96))"
  have "choose_records limit [toy_record] [] 4096 = Inr [toy_record]"
    using bs by (simp add: Let_def limit_def)
  moreover have "fitting_batch toy_env (str ''regtest'') 0 limit [toy_record] = Inr toy_batch"
    using bs toy_batch_valid(4) toy_package_made by (subst fitting_batch.simps) (simp add: limit_def)
  moreover obtain s where "add_batch toy_batch (ix toy_fresh) = Inr (bid_of toy_batch \<notin> batch_ids_in (ix toy_fresh), s)"
    using add_batch_total [of toy_env "ix toy_fresh" toy_batch] toy_fresh_holds toy_batch_valid(1,2)
    by (auto simp: node_ok_def)
  ultimately have "create_batch toy_env 0 (str ''regtest'') 10 limit toy_fresh = (Inr toy_batch, toy_fresh\<lparr>ix := s\<rparr>)"
    using toy_fresh_holds(2) by (simp add: create_batch_def bind_store liftM_def del: choose_records.simps)
  then show ?thesis by blast
qed

section \<open>A node that holds the record and the batch\<close>

definition toy_node :: node where
  "toy_node = toy_fresh\<lparr>ix := snd (projr (add_batch toy_batch (ix toy_fresh)))\<rparr>"

lemma toy_node_holds: "node_ok toy_env toy_node" "map r_body (all_rows (records_t (ix toy_node))) = [toy_record]"
  "map bt_body (all_rows (batches_t (ix toy_node))) = [toy_batch]" "all_rows (anchors_t (ix toy_node)) = []"
  "all_rows (commitments_t (ix toy_node)) = []" "rows (records_t (ix toy_node)) = [(1, row_of_record toy_record)]"
proof -
  have ok: "index_ok toy_env (ix toy_fresh)" using toy_fresh_holds(1) by (simp add: node_ok_def)
  obtain c s where add: "add_batch toy_batch (ix toy_fresh) = Inr (c, s)"
    using add_batch_total [OF ok toy_batch_valid(1)] toy_fresh_holds(3) toy_batch_valid(2) by auto
  then have ix: "ix toy_node = s" by (simp add: toy_node_def)
  show "node_ok toy_env toy_node"
    using index_ok_add_batch(1) [OF ok toy_batch_valid(1) toy_batch_wf add] toy_fresh_holds(1) ix
    by (simp add: node_ok_def) (simp add: toy_node_def)
  obtain rb where s: "s = (ix toy_fresh)\<lparr>batches_t := snd (insert_ignore bt_id (row_of_batch toy_batch) (batches_t (ix toy_fresh))),
      record_batches := rb\<rparr>"
    using add by (auto simp: add_batch_eq_Inr)
  show "map r_body (all_rows (records_t (ix toy_node))) = [toy_record]"
    "map bt_body (all_rows (batches_t (ix toy_node))) = [toy_batch]" "all_rows (anchors_t (ix toy_node)) = []"
    "all_rows (commitments_t (ix toy_node)) = []"
    by (simp_all add: ix s toy_fresh_def add_record_unfold all_rows_insert_ignore empty_index_def)
  show "rows (records_t (ix toy_node)) = [(1, row_of_record toy_record)]"
    by (simp add: ix s toy_fresh_def add_record_unfold insert_ignore_def empty_table_def empty_index_def all_rows_def)
qed

lemma toy_node_gets: "get_batch (ix toy_node) (bid_of toy_batch) = Some toy_batch"
  "get_record (ix toy_node) k = (if k = rid_of toy_record then Some toy_record else None)"
proof -
  have ok: "batches_ok toy_env (ix toy_node)" "records_ok toy_env (ix toy_node)"
    using toy_node_holds(1) by (simp_all add: node_ok_def index_ok_def)
  show "get_batch (ix toy_node) (bid_of toy_batch) = Some toy_batch"
    by (simp add: get_batch_map_of [OF ok(1)] toy_node_holds)
  show "get_record (ix toy_node) k = (if k = rid_of toy_record then Some toy_record else None)"
    by (simp add: get_record_map_of [OF ok(2)] toy_node_holds)
qed

section \<open>A claim that affects no person\<close>

definition toy_claim :: json where
  "toy_claim = obj [(''record_id'', JStr (str ''r'')), (''tags'', JList [JStr (PERSON_IMPACT_PREFIX @ str ''none'')])]"

lemma toy_claim_fields: "rid_of toy_claim = str ''r''" "declared_person_impact toy_claim = Inr (Some ''none'')"
proof -
  show "rid_of toy_claim = str ''r''" by (simp add: toy_claim_def rid_of_def)
  have "get_list toy_claim ''tags'' = Inr [JStr (PERSON_IMPACT_PREFIX @ str ''none'')]"
    by (intro get_list_list) (simp_all add: toy_claim_def)
  then show "declared_person_impact toy_claim = Inr (Some ''none'')"
    by (simp add: declared_person_impact_def impact_values_def PERSON_IMPACT_VALUES_def)
qed

lemma toy_claim_assessed:
  "\<exists>v. assess_responsible_publication toy_claim [] {str ''r''} [] None {} 6 6 = Inr v"
  by (simp add: assess_responsible_publication_def toy_claim_fields of_kind_def Let_def split: prod.split)

section \<open>A peer\<close>

text \<open>A peer that serves the record pages of an index: the body of an answer is the cursor asked for.\<close>

definition toy_peer :: "index \<Rightarrow> http" where
  "toy_peer s = \<lparr>http_answer = (\<lambda>c url params. Some \<lparr>rs_success = True, rs_content_length = None,
       rs_chunks = [[word_of_nat (nat (snd (hd params)))]]\<rparr>),
     http_json = (\<lambda>body. if body = [0] then Some (sync_response (record_sync_page s 0 25) 0 25)
       else if body = [1] then Some (sync_response (record_sync_page s 1 25) 1 25) else None)\<rparr>"

definition toy_result :: sync_result where
  "toy_result = \<lparr>sy_peer = [], sy_records = 0, sy_batches = 0, sy_anchors = 0, sy_errors = 0, sy_reset = False\<rparr>"

lemma toy_peer_serves: "serves_records (toy_peer s) peer s 1 (min 25 25) {0, 1}"
  by (auto simp: serves_records_def toy_peer_def check_declared_def)

lemma toy_peer_parses: "parses_well (toy_peer (ix toy_node))"
proof -
  have "record_sync_page (ix toy_node) 0 25 = ([toy_record], Some 1)" "record_sync_page (ix toy_node) 1 25 = ([], None)"
    by (simp_all add: record_sync_page_def sync_page_def sql_limit_def toy_node_holds)
  then show ?thesis
    using toy_record_valid(2) by (auto simp: parses_well_def toy_peer_def sync_response_def wf_obj)
qed

definition toy_state :: peer_state where
  "toy_state = \<lparr>ps_peer = [], ps_epoch = [], ps_records = 0, ps_batches = 0, ps_anchors = 0\<rparr>"

section \<open>A confirmed transaction\<close>

definition toy_anchor_dict :: json where
  "toy_anchor_dict = obj [(''txid'', JStr (str ''t'')), (''vout'', JInt 0)]"

definition toy_wallet_tx :: json where
  "toy_wallet_tx = obj [(''decoded'', obj [(''vout'', JList [toy_output])]), (''confirmations'', JInt 3),
     (''blockhash'', JStr (str ''b''))]"

definition toy_confirmed_rpc :: rpc where
  "toy_confirmed_rpc = toy_rpc\<lparr>rpc_answer := (\<lambda>_ m _. Some (obj [(''result'',
       if m = ''gettransaction'' then toy_wallet_tx else obj [(''confirmations'', JInt 3)])]))\<rparr>"

lemma toy_checked: "\<exists>x n. check_anchor toy_confirmed_rpc toy_payload toy_anchor_dict 0 = (Inr x, n) \<and> reports_verified x"
proof -
  have call: "rpc_call toy_confirmed_rpc m ps n
      = (Inr (if m = ''gettransaction'' then toy_wallet_tx else obj [(''confirmations'', JInt 3)]), n + 1)" for m ps n
    by (simp add: rpc_call_def toy_confirmed_rpc_def dict_get_def obj_def)
  obtain tx where tx: "decoded_wallet_tx toy_wallet_tx = Inr tx" "dict_get tx ''vout'' (JList []) = Inr (JList [toy_output])"
    "dict_get tx ''blockhash'' JNull = Inr (JStr (str ''b''))" "dict_get tx ''confirmations'' (JInt 0) = Inr (JInt 3)"
    by (simp add: decoded_wallet_tx_def toy_wallet_tx_def dict_get_def obj_def Let_def is_dict_def assoc_get_def)
  obtain q where "decode_anchor_payload toy_payload = Inr q"
    unfolding decode_eq_Inr toy_payload_def fromhex_bytes_hex by (metis length_replicate append_Cons append_Nil)
  moreover have "toy_payload \<noteq> []" by (simp add: toy_payload_def MAGIC_def)
  ultimately have "find_loop (Some toy_payload) (Some 0) [toy_output] 0 None = Inr (Some (toy_payload, 0))"
    by (simp add: toy_get toy_carries py_int_def)
  then have found: "find_payload toy_confirmed_rpc (JStr (str ''t'')) JNull (Some toy_payload) (Some 0) 0
      = (Inr (Some (toy_payload, tx, 0)), 1)"
    using tx(1,2) by (simp add: find_payload_def rpc_transaction_def bindA_def liftA_def call iterE_def py_iter_def
        del: find_loop.simps)
  have fields: "dict_get toy_anchor_dict ''txid'' JNull = Inr (JStr (str ''t''))" "dget toy_anchor_dict ''block_hash'' = JNull"
    "opt_number (dget toy_anchor_dict ''vout'') = Some 0"
    by (simp_all add: toy_anchor_dict_def dict_get_def obj_def opt_number_def assoc_get_def)
  have header: "dict_get (obj [(''confirmations'', JInt 3)]) ''confirmations'' d = Inr (JInt 3)" for d
    by (simp add: dict_get_def obj_def)
  show ?thesis
    using tx found
    by (simp add: check_anchor_def fields bindA_def liftA_def Let_def check_output_def context_in_def rpc_block_context_def
        call confirmations_of_def py_int_def is_active_def header)
qed

section \<open>A chain that replaced another\<close>

text \<open>The node has stored a block and a commitment that are not in the chain any more.\<close>

definition toy_stale_node :: node where
  "toy_stale_node = empty_node\<lparr>ix := empty_index\<lparr>
     bitcoin_blocks := [\<lparr>bl_height = 0, bl_hash = str ''old'', bl_time = 0\<rparr>],
     commitments_t := snd (upsert c_point merge_commitment \<lparr>c_txid = str ''t'', c_vout = 0, c_batch_id = [],
       c_payload_hex = [], c_network = [], c_block_height = 0, c_block_hash = str ''old'', c_block_time = 0,
       c_status = [], c_discovered_at = 0, c_resolved = False\<rparr> empty_table)\<rparr>\<rparr>"

definition toy_chain_rpc :: rpc where
  "toy_chain_rpc = toy_rpc\<lparr>rpc_answer := (\<lambda>_ m _. Some (obj [(''result'',
       if m = ''getblockchaininfo'' then obj [(''chain'', JStr (str ''regtest''))]
       else if m = ''getblockcount'' then JInt 0 else if m = ''getblockhash'' then JStr (str ''new'')
       else obj [(''tx'', JList [])])]))\<rparr>"

lemma toy_chain_call: "rpc_call toy_chain_rpc m ps n = (Inr (
       if m = ''getblockchaininfo'' then obj [(''chain'', JStr (str ''regtest''))]
       else if m = ''getblockcount'' then JInt 0 else if m = ''getblockhash'' then JStr (str ''new'')
       else obj [(''tx'', JList [])]), n + 1)"
  by (simp add: rpc_call_def toy_chain_rpc_def dict_get_def obj_def)

lemma toy_chain_served: "serves_chain toy_chain_rpc (\<lambda>_. str ''new'') 0"
  by (simp add: serves_chain_def rpc_block_hash_def rpc_block_count_def bindA_def liftA_def toy_chain_call py_str_def py_int_def)

lemma toy_fork: "fork_of (\<lambda>_. str ''old'') (\<lambda>_. str ''new'')"
  by (simp add: fork_of_def)

lemma toy_stale: "on_chain (\<lambda>_. str ''old'') (scanned_height (ix toy_stale_node)) (ix toy_stale_node)"
  by (simp add: on_chain_def toy_stale_node_def scanned_height_def latest_scanned_block_def scanned_block_def
      blocks_ok_def all_rows_upsert empty_index_def)

lemma toy_rescan: "\<exists>res n. scan_bitcoin toy_chain_rpc (\<lambda>_. 0) 0 10 toy_stale_node = (Inr res, n)
    \<and> sr_rewind res = Some (- 1) \<and> sr_blocks res = 1 \<and> sr_end res = 0"
proof -
  have hash: "rpc_block_hash toy_chain_rpc 0 c = (Inr (str ''new''), c + 1)" for c
    by (simp add: rpc_block_hash_def bindA_def liftA_def toy_chain_call py_str_def)
  have blk: "rpc_block toy_chain_rpc h v c = (Inr (obj [(''tx'', JList [])]), c + 1)" for h v c
    by (simp add: rpc_block_def bindA_def liftA_def toy_chain_call)
  have tip: "rpc_block_count toy_chain_rpc c = (Inr 0, c + 1)" "rpc_network toy_chain_rpc c = (Inr (JStr (str ''regtest'')), c + 1)" for c
    by (simp_all add: rpc_block_count_def rpc_network_def bindA_def liftA_def toy_chain_call py_int_def dict_item_def obj_def
        in_str_set_def)
  have old: "latest_scanned_block (ix toy_stale_node) = Some \<lparr>bl_height = 0, bl_hash = str ''old'', bl_time = 0\<rparr>"
    "scanned_block (ix toy_stale_node) 0 = Some \<lparr>bl_height = 0, bl_hash = str ''old'', bl_time = 0\<rparr>"
    by (simp_all add: toy_stale_node_def latest_scanned_block_def scanned_block_def)
  have "encode_utf8 (str ''new'') = Inr (map (\<lambda>c. of_char c) ''new'')"
    by (simp add: encode_utf8_def utf8_char_def str_def)
  then have block: "\<exists>n'. scan_block toy_chain_rpc clock network 0 0 n = (Inr 0, n')" for clock network n
    by (simp add: scan_block_def bindM_def rpcM_def hash blk liftM_def dict_get_def obj_def iterE_def py_iter_def
        column_str_def storeM_def updateM_def add_scanned_block_def sql_int_def)
  then obtain f where f: "\<And>clock network n. scan_block toy_chain_rpc clock network 0 0 n = (Inr 0, f clock network n)"
    by metis
  show ?thesis
    by (simp add: f scan_bitcoin_def bindM_def rpcM_def tip scan_start_def readM_def old tryM_def hash rewind_to_ancestor_def
        find_common_ancestor_def liftM_def storeM_def updateM_def Let_def)
qed

section \<open>A batch for mainnet\<close>

definition toy_main_batch :: json where
  "toy_main_batch = projr (create_batch_manifest toy_env [rid_of toy_record] (str ''mainnet'') 0)"

definition toy_main_node :: node where
  "toy_main_node = toy_fresh\<lparr>ix := snd (projr (add_batch toy_main_batch (ix toy_fresh)))\<rparr>"

lemma toy_main_held: "get_batch (ix toy_main_node) (bid_of toy_main_batch) = Some toy_main_batch"
  "dget toy_main_batch ''network'' = JStr (str ''mainnet'')"
proof -
  obtain b where b: "create_batch_manifest toy_env [rid_of toy_record] (str ''mainnet'') 0 = Inr b"
    "validate_batch toy_env b = Inr ()" "record_ids_of b = sort [rid_of toy_record]" "dget b ''network'' = JStr (str ''mainnet'')"
    using create_batch_manifest_total [OF toy_digests_32, of "[rid_of toy_record]" "''mainnet''" 0]
    by (auto simp: toy_rid ALLOWED_NETWORKS_def MAX_SAFE_JSON_INTEGER_def)
  then have m: "toy_main_batch = b" by (simp add: toy_main_batch_def)
  with b show "dget toy_main_batch ''network'' = JStr (str ''mainnet'')" by simp
  have ok: "index_ok toy_env (ix toy_fresh)" using toy_fresh_holds(1) by (simp add: node_ok_def)
  obtain c s where add: "add_batch b (ix toy_fresh) = Inr (c, s)"
    using add_batch_total [OF ok b(2)] toy_fresh_holds(3) b(3) by auto
  have "get_batch (ix toy_fresh) k = None" for k
    using toy_fresh_holds(4) by (auto simp: get_batch_def lookup_row_def batch_ids_in_def find_None_iff)
  then show "get_batch (ix toy_main_node) (bid_of toy_main_batch) = Some toy_main_batch"
    using add_batch_get [OF add] add by (simp add: toy_main_node_def m)
qed

end
