(* ===== verification/Client.thy ===== *)
theory Client
  imports ApiFacts Wallets
begin

text \<open>
  \<^verbatim>\<open>src/hap/cli.py\<close>, the part that works against a node over HTTP or on no node at all: the secrets and
  headers of a request, the submission of a record with its proof of work, the creation of a record and
  of a wallet, and the environment that \<open>serve\<close> sets up. A request is answered by a \<open>client\<close>, the
  model of \<open>httpx.request\<close>, whose answers may depend on the number of requests made before. \<open>SystemExit\<close>
  is an \<open>OtherError\<close>: nothing in the program catches it. What a command prints is its result.

  The submission is tied to the relay that receives it, the created record to the profile that relays
  apply, and the environment of \<open>serve\<close> to the settings that the node reads from it.
\<close>

section \<open>Requests\<close>

definition system_exit :: "string \<Rightarrow> 'a result" where
  "system_exit m = Inl (Exn OtherError m)"

definition env_secret :: "environ \<Rightarrow> string option \<Rightarrow> ustr option result" where
  "env_secret V name = (case name of
     Some (c # cs) \<Rightarrow> (case env_var V (c # cs) of
         Some (d # ds) \<Rightarrow> Inr (Some (d # ds))
       | _ \<Rightarrow> system_exit ''environment variable is empty or missing'')
   | _ \<Rightarrow> Inr None)"

definition auth_headers :: "ustr option \<Rightarrow> ustr option \<Rightarrow> (string \<times> ustr) list" where
  "auth_headers submission admin =
     (case submission of Some (c # cs) \<Rightarrow> [(''X-HAP-Submission-Token'', c # cs)] | _ \<Rightarrow> [])
     @ (case admin of Some (c # cs) \<Rightarrow> [(''Authorization'', str ''Bearer '' @ c # cs)] | _ \<Rightarrow> [])"

record answer =
  an_status :: nat
  an_json :: "json option"

record client =
  cl_send :: "nat \<Rightarrow> string \<Rightarrow> ustr \<Rightarrow> json option \<Rightarrow> (string \<times> ustr) list \<Rightarrow> answer option"

definition request_json :: "client \<Rightarrow> string \<Rightarrow> ustr \<Rightarrow> ustr \<Rightarrow> json option \<Rightarrow> (string \<times> ustr) list \<Rightarrow> json act" where
  "request_json C method url path body headers c =
     (case cl_send C (c + 1) method (rstrip_slash url @ path) body headers of
        None \<Rightarrow> Inl (Exn OtherError ''httpx.RequestError'')
      | Some a \<Rightarrow> if 400 \<le> an_status a \<and> an_status a \<le> 599 then system_exit ''HTTP status''
          else (case an_json a of None \<Rightarrow> Inl (Exn ValueError ''JSONDecodeError'') | Some v \<Rightarrow> Inr v),
      c + 1)"

definition post :: "client \<Rightarrow> ustr \<Rightarrow> ustr \<Rightarrow> json \<Rightarrow> (string \<times> ustr) list \<Rightarrow> json act" where
  "post C url path v headers = request_json C ''POST'' url path (Some v) headers"

definition get :: "client \<Rightarrow> ustr \<Rightarrow> ustr \<Rightarrow> (string \<times> ustr) list \<Rightarrow> json act" where
  "get C url path headers = request_json C ''GET'' url path None headers"

section \<open>Submission\<close>

text \<open>What the node says of its policy: the bits of work that it asks for.\<close>

definition asked_bits :: "json \<Rightarrow> int result" where
  "asked_bits node_info =
     bindE (dict_get node_info ''relay_policy'' (obj [])) (\<lambda>policy.
     bindE (dict_get policy ''accepts_records'' JNull) (\<lambda>accepts.
     if \<not> truthy accepts then system_exit ''this node is read-only and does not accept records''
     else bindE (dict_get policy ''proof_of_work_bits'' (JInt 0)) py_int))"

text \<open>The headers of the submission; \<open>None\<close> would be a search for a nonce that does not end.\<close>

definition work_headers :: "env \<Rightarrow> json \<Rightarrow> int \<Rightarrow> ustr option \<Rightarrow> (string \<times> ustr) list result option" where
  "work_headers E r bits token =
     (let headers = auth_headers token None in
      if bits \<le> 0 then Some (Inr headers)
      else (case dict_item r ''record_id'' of
          Inl e \<Rightarrow> Some (Inl e)
        | Inr (JStr rid) \<Rightarrow> map_option (\<lambda>m. bindE m (\<lambda>nonce. Inr (headers @ [(''X-HAP-Relay-Nonce'', nonce)])))
            (mine_relay_pow E rid bits 0 None)
        | Inr _ \<Rightarrow> Some attribute_error))"

definition submit_signed_record ::
  "env \<Rightarrow> client \<Rightarrow> ustr \<Rightarrow> json \<Rightarrow> ustr option \<Rightarrow> nat \<Rightarrow> (json result \<times> nat) option" where
  "submit_signed_record E C url r token c =
     (case bindM (get C url (str ''/v1/info'') []) (\<lambda>node_info. liftM (asked_bits node_info)) c of
        (Inl e, c') \<Rightarrow> Some (Inl e, c')
      | (Inr bits, c') \<Rightarrow> map_option (\<lambda>headers.
          bindM (liftM headers) (\<lambda>hs. post C url (str ''/v1/records'') r hs) c')
          (work_headers E r bits token))"

text \<open>The submission ends, whatever the node answers.\<close>

lemma submit_signed_record_total: "\<exists>res. submit_signed_record E C url r t c = Some res"
proof -
  have "\<exists>h. work_headers E r bits t = Some h" for bits
    using mine_relay_pow_total [of E _ bits 0 None]
    by (auto simp: work_headers_def Let_def split: sum.splits json.splits)
  note work = this
  obtain m c' where m: "bindM (get C url (str ''/v1/info'') []) (\<lambda>node_info. liftM (asked_bits node_info)) c = (m, c')"
    by fastforce
  from work [of "case m of Inr bits \<Rightarrow> bits | Inl _ \<Rightarrow> 0"] show ?thesis
    unfolding submit_signed_record_def m by (cases m) auto
qed

section \<open>The submission at the relay\<close>

text \<open>The request that the node sees: names of headers do not depend on their case.\<close>

definition request_of :: "(string \<times> ustr) list \<Rightarrow> ustr option \<Rightarrow> request" where
  "request_of hs host = \<lparr>header = (\<lambda>k. map_option snd (find (\<lambda>(n, _). lower (str n) = str k) hs)), client_host = host\<rparr>"

lemma dict_get_obj: "dict_get (obj fs) k d = Inr (case map_of fs k of Some v \<Rightarrow> v | None \<Rightarrow> d)"
proof -
  have "map_of (map (\<lambda>(k, v). (KStr (str k), v)) fs) (KStr (str k)) = map_of fs k"
    by (induction fs) auto
  then show ?thesis by (simp add: dict_get_def obj_def)
qed

lemma asked_bits_info:
  "info W n = Inr v \<Longrightarrow> asked_bits v = (if can_relay (w_settings W) then Inr (relay_pow_bits (w_settings W))
     else system_exit ''this node is read-only and does not accept records'')"
proof -
  assume "info W n = Inr v"
  then obtain epoch where "Inr v = info W n" "node_instance_id (ix n) = Inr epoch"
    by (auto simp: info_def Let_def bindE_eq_Inr)
  then have "Inr v = info W n" "node_instance_id (ix n) = Inr epoch" by simp_all
  from this(1) [unfolded info_def Let_def this(2)] show ?thesis
    by (simp add: asked_bits_def dict_get_obj py_int_def)
qed

text \<open>A record that the node would take, submitted with a token that it accepts, is in its index afterwards:
  the nonce that the client looks for is the one that the relay checks. There has to be one.\<close>

definition token_accepted :: "settings \<Rightarrow> ustr option \<Rightarrow> bool" where
  "token_accepted S t \<longleftrightarrow> (case t of
     Some (c # cs) \<Rightarrow> ascii_text (c # cs) \<and> c # cs \<in> set (submission_tokens S) \<and> (\<forall>s \<in> set (submission_tokens S). ascii_text s)
   | _ \<Rightarrow> \<not> submission_token_required S)"

lemma encode_utf8_ascii: "ascii_text s \<Longrightarrow> \<exists>bs. encode_utf8 s = Inr bs"
proof -
  have "list_all (\<lambda>c. c < 128) s \<Longrightarrow> utf8_opt s = Some s"
    by (induction s) (simp_all add: utf8_char_def)
  then show "ascii_text s \<Longrightarrow> \<exists>bs. encode_utf8 s = Inr bs"
    by (auto simp: ascii_text_def encode_utf8_def)
qed

lemma header_of_headers [simp]:
  "header (request_of ((n, v) # hs) host) k = (if lower (str n) = str k then Some v else header (request_of hs host) k)"
  "header (request_of [] host) k = None"
  by (simp_all add: request_of_def)

lemma token_passes:
  assumes "token_accepted S t" and "header (request_of hs host) ''x-hap-submission-token'' = None"
  shows "\<exists>u. require_submission_token (request_of (auth_headers t None @ hs) host)
      (submission_token_required S) (submission_tokens S) = Inr u \<and> (no_token u \<or> u = t \<and> ascii_text (the t))"
proof (cases "no_token t")
  case True
  then show ?thesis using assms
    by (auto simp: token_accepted_def auth_headers_def require_submission_token_def no_token_def Let_def)
next
  case False
  then obtain c cs where t: "t = Some (c # cs)" by (cases t) (auto simp: no_token_def neq_Nil_conv)
  then have "constant_time_member (c # cs) (submission_tokens S) = Inr True"
    using assms by (subst constant_time_member_ascii) (auto simp: token_accepted_def ascii_text_def)
  with t assms show ?thesis
    by (auto simp: token_accepted_def auth_headers_def require_submission_token_def str_def ascii_lower_def Let_def)
qed

lemma mined_headers:
  assumes "dict_item r ''record_id'' = Inr (JStr rid)" "ascii_text rid"
    and "bits \<le> 0 \<or> (\<exists>n. 0 \<le> n \<and> n < 10 ^ 64 \<and> meets E rid bits n)"
  obtains ws where "work_headers E r bits t = Some (Inr (auth_headers t None @ ws))"
    "header (request_of ws host) ''x-hap-submission-token'' = None"
    "verify_relay_pow E rid (header (request_of (auth_headers t None @ ws) host) ''x-hap-relay-nonce'') bits = Inr True"
proof (cases "bits \<le> 0")
  case True
  then show thesis using that [of "[]"] by (simp add: work_headers_def verify_relay_pow_def)
next
  case False
  with assms(3) obtain n where n: "0 \<le> n" "n < 10 ^ 64" "meets E rid bits n" by blast
  from mining_complete [OF assms(2), of bits 0 n None E] False n
  obtain nonce where nonce: "mine_relay_pow E rid bits 0 None = Some (Inr nonce)" by auto
  have "header (request_of (auth_headers t None @ [(''X-HAP-Relay-Nonce'', nonce)]) host) ''x-hap-relay-nonce'' = Some nonce"
    by (auto simp: auth_headers_def str_def ascii_lower_def split: option.split list.split)
  with mined_nonce_verifies [OF assms(2) nonce] False assms(1) nonce show thesis
    by (intro that [of "[(''X-HAP-Relay-Nonce'', nonce)]"]) (simp_all add: work_headers_def str_def ascii_lower_def)
qed

lemma submission_accepted:
  assumes info: "info W (app_node a) = Inr v" "get C url (str ''/v1/info'') [] c = (Inr v, c')"
    and relay: "can_relay (w_settings W)" "token_accepted (w_settings W) t"
    and granted: "\<forall>key. fst (allow (w_tick W) key (app_limiter a))"
    and r: "validate_record (w_env W) r = Inr ()" "relay_policy W r = Inr ()"
    and work: "relay_pow_bits (w_settings W) \<le> 0 \<or> (\<exists>n. 0 \<le> n \<and> n < 10 ^ 64
      \<and> meets (w_env W) (rid_of r) (relay_pow_bits (w_settings W)) n)"
    and new: "get_record (ix (app_node a)) (rid_of r) = None"
      "\<forall>k. target_of r = Some k \<longrightarrow> get_record (ix (app_node a)) k \<noteq> None"
  shows "\<exists>hs a'. submit_signed_record (w_env W) C url r t c = Some (post C url (str ''/v1/records'') r hs c')
    \<and> post_record W (request_of hs host) r a = (Inr (rid_of r, ''accepted''), a')
    \<and> get_record (ix (app_node a')) (rid_of r) = Some r"
proof -
  let ?S = "w_settings W" and ?E = "w_env W" and ?bits = "relay_pow_bits (w_settings W)"
  obtain bs where id: "dget r ''record_id'' = JStr (sha256_hex ?E bs)" using validated_record_id [OF r(1)] by blast
  then have dict: "dict_item r ''record_id'' = Inr (JStr (rid_of r))"
    by (cases r) (auto simp: rid_of_def dict_item_def assoc_get_def split: option.splits)
  have ascii: "ascii_text (rid_of r)" using id bytes_hex_ascii by (simp add: ascii_text_def rid_of_def sha256_hex_def)
  obtain ws where ws: "work_headers ?E r ?bits t = Some (Inr (auth_headers t None @ ws))"
    and none: "header (request_of ws host) ''x-hap-submission-token'' = None"
    and verified: "verify_relay_pow ?E (rid_of r) (header (request_of (auth_headers t None @ ws) host) ''x-hap-relay-nonce'') ?bits = Inr True"
    by (rule mined_headers [OF dict ascii work, of t host])
  obtain u where token: "require_submission_token (request_of (auth_headers t None @ ws) host)
      (submission_token_required ?S) (submission_tokens ?S) = Inr u" "no_token u \<or> u = t \<and> ascii_text (the t)"
    using token_passes [OF relay(2) none] by blast
  have "\<exists>key. client_key W (request_of (auth_headers t None @ ws) host) u = Inr key"
    using token(2) encode_utf8_ascii [of "the u"]
    by (auto simp: client_key_def token_rate_key_def)
  then obtain key where key: "write_key W (request_of (auth_headers t None @ ws) host) = Inr key"
    using relay(1) token(1) by (auto simp: write_key_def Let_def)
  obtain l where l: "allow (w_tick W) key (app_limiter a) = (True, l)"
    using granted by (metis prod.collapse)
  define q where "q = request_of (auth_headers t None @ ws) host"
  define n where "n = (app_node a)\<lparr>ix := snd (add_record r (ix (app_node a)))\<rparr>"
  have "submit_record ?E (Some (relay_policy W)) True r (app_node a) = (Inr (rid_of r, ''accepted''), n)"
    using r new by (cases "target_of r") (simp_all add: submit_record_def storeM_def updateM_def bindM_def liftM_def
        readM_def n_def bindE_def split: prod.splits)
  moreover have "require_record_write W q a = (Inr (), a\<lparr>app_limiter := l\<rparr>)"
    using key l by (simp add: require_record_write_run q_def)
  ultimately have "post_record W q r a = (Inr (rid_of r, ''accepted''), a\<lparr>app_limiter := l, app_node := n\<rparr>)"
    using r verified by (simp add: post_record_def bindM_step on_node_def q_def bindM_def liftM_def)
  moreover have "get_record (ix n) (rid_of r) = Some r" using new(1) by (simp add: n_def add_record_get)
  moreover have "submit_signed_record ?E C url r t c
      = Some (post C url (str ''/v1/records'') r (auth_headers t None @ ws) c')"
    using info(2) asked_bits_info [OF info(1)] relay(1) ws
    by (simp add: submit_signed_record_def bindM_step) (simp add: liftM_def)
  ultimately show ?thesis unfolding q_def by (intro exI conjI) (assumption | simp)+
qed

section \<open>Commands that ask the node\<close>

datatype remote_command =
    BatchCmd string int | AnchorCmd ustr | VerifyAnchorCmd ustr | AssessmentCmd ustr | ResponsibleViewCmd ustr
  | ProvenanceCmd ustr | ShowCmd ustr | InfoCmd | RecordsCmd | BatchesCmd | ReadyCmd | CommitmentsCmd | ViewManifestCmd

fun run_remote :: "client \<Rightarrow> ustr \<Rightarrow> ustr option \<Rightarrow> remote_command \<Rightarrow> json act" where
  "run_remote C url admin (BatchCmd network limit) = post C url (str ''/v1/batches'')
     (obj [(''network'', JStr (str network)), (''limit'', JInt limit)]) (auth_headers None admin)"
| "run_remote C url admin (AnchorCmd bid) =
     post C url (str ''/v1/batches/'' @ bid @ str ''/anchor'') (obj []) (auth_headers None admin)"
| "run_remote C url admin (VerifyAnchorCmd bid) =
     post C url (str ''/v1/batches/'' @ bid @ str ''/verify-anchor'') (obj []) (auth_headers None admin)"
| "run_remote C url admin (AssessmentCmd rid) = get C url (str ''/v1/records/'' @ rid @ str ''/assessment'') []"
| "run_remote C url admin (ResponsibleViewCmd rid) =
     get C url (str ''/v1/records/'' @ rid @ str ''/responsible-publication'') []"
| "run_remote C url admin (ProvenanceCmd rid) = get C url (str ''/v1/records/'' @ rid @ str ''/provenance'') []"
| "run_remote C url admin (ShowCmd rid) = get C url (str ''/v1/records/'' @ rid) []"
| "run_remote C url admin InfoCmd = get C url (str ''/v1/info'') []"
| "run_remote C url admin RecordsCmd = get C url (str ''/v1/records'') []"
| "run_remote C url admin BatchesCmd = get C url (str ''/v1/batches'') []"
| "run_remote C url admin ReadyCmd = get C url (str ''/readyz'') []"
| "run_remote C url admin CommitmentsCmd = get C url (str ''/v1/commitments'') []"
| "run_remote C url admin ViewManifestCmd = get C url (str ''/v1/view-manifest'') []"

section \<open>Creating records\<close>

text \<open>The options of \<open>create\<close>. The files that \<open>--evidence\<close> names are looked up in \<open>regular_file\<close>: the name
  without its directory, the content, and the type that \<open>mimetypes\<close> guesses.\<close>

record create_args =
  ca_kind :: string
  ca_title :: ustr
  ca_statement :: ustr
  ca_event_time :: "ustr option"
  ca_target :: "ustr option"
  ca_sources :: "ustr list"
  ca_evidence :: "ustr list"
  ca_tags :: "ustr list"
  ca_person_impact :: string
  ca_view_action :: "string option"

definition CREATE_KINDS :: "string list" where
  "CREATE_KINDS = [''claim'', ''attestation'', ''dispute'', ''correction'', ''subject_response'',
     ''person_impact_notice'', ''restriction_notice'', ''withdrawal_notice'', ''legal_adjudication'',
     ''public_interest_justification'', ''view_decision'', ''provenance_assertion'']"

definition IMPACT_CHOICES :: "string list" where
  "IMPACT_CHOICES = [''none'', ''direct'', ''indirect-or-mosaic'', ''uncertain'']"

definition VIEW_CHOICES :: "string list" where
  "VIEW_CHOICES = [''enable-discovery'', ''restrict-discovery'']"

definition default_create :: "ustr \<Rightarrow> ustr \<Rightarrow> create_args" where
  "default_create title statement = \<lparr>ca_kind = ''claim'', ca_title = title, ca_statement = statement,
     ca_event_time = None, ca_target = None, ca_sources = [], ca_evidence = [], ca_tags = [],
     ca_person_impact = ''uncertain'', ca_view_action = None\<rparr>"

definition evidence_item :: "env \<Rightarrow> (ustr \<Rightarrow> (ustr \<times> bytes \<times> ustr option) option) \<Rightarrow> ustr \<Rightarrow> json result" where
  "evidence_item E regular_file path = (case regular_file path of
     None \<Rightarrow> system_exit ''evidence file not found''
   | Some (name, content, mime) \<Rightarrow> Inr (obj [(''filename'', JStr name), (''size'', JInt (int (length content))),
       (''mime_type'', opt_str mime), (''sha256'', JStr (sha256_hex E content)), (''cid'', JNull)]))"

definition create_tags :: "create_args \<Rightarrow> ustr list result" where
  "create_tags A = (let tags = ca_tags A
       @ (if list_ex (\<lambda>t. starts_with t (str ''hap:person-impact:'')) (ca_tags A) then []
          else [str ''hap:person-impact:'' @ str (ca_person_impact A)]) in
     if ca_kind A = ''view_decision''
     then (case ca_view_action A of
         Some (c # cs) \<Rightarrow> Inr (tags @ [str ''hap:view:'' @ str (c # cs)])
       | _ \<Rightarrow> system_exit ''view_decision requires --view-action'')
     else if ca_view_action A \<notin> {None, Some []}
     then system_exit ''--view-action is only valid with --kind view_decision''
     else Inr tags)"

definition create_record ::
  "env \<Rightarrow> wallet_crypto \<Rightarrow> (ustr \<Rightarrow> (ustr \<times> bytes \<times> ustr option) option) \<Rightarrow> ustr \<Rightarrow> json \<Rightarrow> ustr \<Rightarrow> create_args \<Rightarrow> json result" where
  "create_record E X regular_file now wallet password A =
     bindE (decrypt_wallet E X wallet password) (\<lambda>private_key.
     bindE (mapE (evidence_item E regular_file) (ca_evidence A)) (\<lambda>evidence.
     bindE (create_tags A) (\<lambda>tags.
     create_signed_record E now private_key (str (ca_kind A)) (ca_title A) (ca_statement A) (ca_event_time A)
       (ca_target A) (map (\<lambda>uri. obj [(''uri'', JStr uri), (''label'', JNull)]) (ca_sources A)) evidence
       (map JStr tags) None)))"

text \<open>A record that \<open>create\<close> makes declares its person impact and carries a view action exactly when it is a
  view decision, when the tags that the user gives keep out of the two reserved name spaces. So it
  meets the responsible-publication profile of relays, unless it is a person-impact notice of impact
  \<open>none\<close>, which \<open>create\<close> makes and signs all the same.\<close>

definition plain_tag :: "ustr \<Rightarrow> bool" where
  "plain_tag t \<longleftrightarrow> \<not> starts_with t (str ''hap:person-impact:'') \<and> \<not> starts_with t (str ''hap:view:'')"

definition create_args_ok :: "create_args \<Rightarrow> bool" where
  "create_args_ok A \<longleftrightarrow> ca_kind A \<in> set CREATE_KINDS \<and> ca_person_impact A \<in> set IMPACT_CHOICES
     \<and> list_all plain_tag (ca_tags A) \<and> (\<forall>a. ca_view_action A = Some a \<longrightarrow> a \<in> set VIEW_CHOICES)"

lemma created_fields:
  assumes "create_signed_record E now sk kind title statement event_time target sources evidence tags c = Inr r"
  shows "dget r ''kind'' = JStr kind" "dget r ''tags'' = JList tags" "is_dict r" "validate_record E r = Inr ()"
  using assms by (auto simp: create_signed_record_def bindE_eq_Inr Let_def)

lemma dict_get_present: "is_dict r \<Longrightarrow> dget r k = v \<Longrightarrow> v \<noteq> JNull \<Longrightarrow> dict_get r k d = Inr v"
  by (cases r) (auto simp: dict_get_def assoc_get_def split: option.splits)

lemma created_tags_set:
  assumes "create_args_ok A" "create_tags A = Inr tags"
  shows "set tags = set (ca_tags A) \<union> {PERSON_IMPACT_PREFIX @ str (ca_person_impact A)}
      \<union> (case ca_view_action A of Some a \<Rightarrow> {str ''hap:view:'' @ str a} | None \<Rightarrow> {})"
    "ca_view_action A \<noteq> None \<longleftrightarrow> ca_kind A = ''view_decision''"
proof -
  have "\<not> list_ex (\<lambda>t. starts_with t (str ''hap:person-impact:'')) (ca_tags A)"
    using assms(1) by (auto simp: create_args_ok_def plain_tag_def list_all_iff list_ex_iff)
  then show "set tags = set (ca_tags A) \<union> {PERSON_IMPACT_PREFIX @ str (ca_person_impact A)}
      \<union> (case ca_view_action A of Some a \<Rightarrow> {str ''hap:view:'' @ str a} | None \<Rightarrow> {})"
    "ca_view_action A \<noteq> None \<longleftrightarrow> ca_kind A = ''view_decision''"
    using assms by (auto simp: create_tags_def create_args_ok_def VIEW_CHOICES_def system_exit_def Let_def
        PERSON_IMPACT_PREFIX_def split: if_splits option.splits list.splits)
qed

lemma reserved_tags:
  assumes "create_args_ok A" "create_tags A = Inr tags"
  shows "PERSON_IMPACT_PREFIX @ str v \<in> set tags \<longleftrightarrow> v = ca_person_impact A"
    "str ''hap:view:'' @ str a \<in> set tags \<longleftrightarrow> ca_view_action A = Some a"
proof -
  have plain: "plain_tag t" if "t \<in> set (ca_tags A)" for t
    using assms(1) that by (simp add: create_args_ok_def list_all_iff)
  have "\<not> plain_tag (PERSON_IMPACT_PREFIX @ v)" "\<not> plain_tag (str ''hap:view:'' @ v)" for v
    by (simp_all add: plain_tag_def PERSON_IMPACT_PREFIX_def starts_with_def)
  with plain have own: "PERSON_IMPACT_PREFIX @ v \<notin> set (ca_tags A)" "str ''hap:view:'' @ v \<notin> set (ca_tags A)" for v
    by blast+
  have other: "PERSON_IMPACT_PREFIX @ v \<noteq> str ''hap:view:'' @ w" for v w
    by (simp add: PERSON_IMPACT_PREFIX_def str_def)
  show "PERSON_IMPACT_PREFIX @ str v \<in> set tags \<longleftrightarrow> v = ca_person_impact A"
    "str ''hap:view:'' @ str a \<in> set tags \<longleftrightarrow> ca_view_action A = Some a"
    unfolding created_tags_set(1) [OF assms] using own other other [symmetric]
    by (auto split: option.splits)
qed

lemma filter_one: "distinct xs \<Longrightarrow> x \<in> set xs \<Longrightarrow> filter (\<lambda>v. v = x) xs = [x]"
  by (induction xs) (auto simp: filter_empty_conv)

lemma validate_responsible_intro:
  assumes "dict_get r ''kind'' JNull = Inr (JStr (str k))" "get_set r ''tags'' = Inr tags"
    "declared_person_impact r = Inr (Some i)"
    "length (filter (\<lambda>t. JStr (str t) \<in> set tags) [VIEW_ENABLE_TAG, VIEW_RESTRICT_TAG]) = (if k = ''view_decision'' then 1 else 0)"
    "i \<in> set IMPACT_CHOICES"
  shows "validate_responsible_record r = Inr () \<longleftrightarrow> \<not> (k = ''person_impact_notice'' \<and> i = ''none'')"
proof -
  have kind: "JStr (str k) = JStr (str k') \<longleftrightarrow> k = k'" for k' by simp
  show ?thesis
    unfolding validate_responsible_record_def assms(1-3) bindE_simps Let_def kind
    using assms(4,5) by (cases "k = ''view_decision''") (auto simp: IMPACT_CHOICES_def responsible_error_def simp del: filter.simps)
qed

lemma created_record_meets_profile:
  assumes "create_record E X regular_file now wallet password A = Inr r" "create_args_ok A"
  shows "(validate_responsible_record r = Inr () \<longleftrightarrow>
      \<not> (ca_kind A = ''person_impact_notice'' \<and> ca_person_impact A = ''none''))
    \<and> declared_person_impact r = Inr (Some (ca_person_impact A))"
proof -
  obtain tags sk evidence where tags: "create_tags A = Inr tags"
    and r: "create_signed_record E now sk (str (ca_kind A)) (ca_title A) (ca_statement A) (ca_event_time A)
      (ca_target A) (map (\<lambda>uri. obj [(''uri'', JStr uri), (''label'', JNull)]) (ca_sources A)) evidence
      (map JStr tags) None = Inr r"
    using assms(1) by (auto simp: create_record_def bindE_eq_Inr)
  note f = created_fields [OF r]
  have kind: "dict_get r ''kind'' JNull = Inr (JStr (str (ca_kind A)))"
    by (rule dict_get_present [OF f(3,1)]) simp
  have list: "get_list r ''tags'' = Inr (map JStr tags)"
    using dict_get_present [OF f(3,2)] by (simp add: get_list_def iterE_def py_iter_def)
  have set: "get_set r ''tags'' = Inr (map JStr tags)"
    by (simp add: get_set_def list list_all_iff hashable_def)
  note reserved = reserved_tags [OF assms(2) tags]
  have "impact_values (map JStr tags) = filter (\<lambda>v. v = ca_person_impact A) IMPACT_CHOICES"
    using reserved(1) by (auto simp: impact_values_def PERSON_IMPACT_VALUES_def IMPACT_CHOICES_def image_iff)
  also have "\<dots> = [ca_person_impact A]"
    by (rule filter_one) (use assms(2) in \<open>simp_all add: create_args_ok_def IMPACT_CHOICES_def\<close>)
  finally have impact: "declared_person_impact r = Inr (Some (ca_person_impact A))"
    by (simp add: declared_person_impact_def list)
  have view: "JStr (str (''hap:view:'' @ a)) \<in> set (map JStr tags) \<longleftrightarrow> ca_view_action A = Some a" for a
    using reserved(2) [of a] by (auto simp: str_def)
  define actions where "actions = filter (\<lambda>t. JStr (str t) \<in> set (map JStr tags)) [VIEW_ENABLE_TAG, VIEW_RESTRICT_TAG]"
  have tag: "VIEW_ENABLE_TAG = ''hap:view:'' @ ''enable-discovery''" "VIEW_RESTRICT_TAG = ''hap:view:'' @ ''restrict-discovery''"
    by (simp_all add: VIEW_ENABLE_TAG_def VIEW_RESTRICT_TAG_def)
  have actions: "length actions = (if ca_kind A = ''view_decision'' then 1 else 0)"
  proof (cases "ca_view_action A")
    case None
    then show ?thesis using created_tags_set(2) [OF assms(2) tags]
      unfolding actions_def tag by (simp only: filter.simps view) simp
  next
    case (Some a)
    then have "a = ''enable-discovery'' \<or> a = ''restrict-discovery''"
      using assms(2) by (simp add: create_args_ok_def VIEW_CHOICES_def)
    with Some created_tags_set(2) [OF assms(2) tags] show ?thesis
      unfolding actions_def tag by (elim disjE) (simp_all only: filter.simps view, simp_all)
  qed
  show ?thesis
    using validate_responsible_intro [OF kind set impact actions [unfolded actions_def]] assms(2) impact
    by (simp add: create_args_ok_def)
qed

section \<open>Making wallets\<close>

text \<open>The password of a wallet: from a variable, or from the prompts, of which the second confirms.\<close>

definition wallet_password :: "environ \<Rightarrow> string option \<Rightarrow> bool \<Rightarrow> ustr \<times> ustr \<Rightarrow> ustr result" where
  "wallet_password V env_name confirm prompts = (case env_name of
     Some (c # cs) \<Rightarrow> (case env_var V (c # cs) of
         Some (d # ds) \<Rightarrow> Inr (d # ds)
       | _ \<Rightarrow> system_exit ''environment variable is empty or missing'')
   | _ \<Rightarrow> if fst prompts = [] then system_exit ''wallet password cannot be empty''
       else if confirm \<and> fst prompts \<noteq> snd prompts then system_exit ''wallet passwords do not match''
       else Inr (fst prompts))"

text \<open>The wallet that \<open>keygen\<close> writes; a file that exists is only overwritten with \<open>--force\<close>.\<close>

definition keygen ::
  "env \<Rightarrow> wallet_crypto \<Rightarrow> bool \<Rightarrow> bool \<Rightarrow> ustr result \<Rightarrow> bytes \<times> bytes \<Rightarrow> bytes \<Rightarrow> bytes \<Rightarrow> json result" where
  "keygen E X exists force password keys salt nonce =
     (if exists \<and> \<not> force then system_exit ''refusing to overwrite; use --force''
      else bindE password (\<lambda>p. create_encrypted_wallet E X p (fst keys) (snd keys) salt nonce))"

section \<open>The settings of \<open>serve\<close>\<close>

record serve_args =
  sv_data_dir :: ustr
  sv_role :: string
  sv_node_name :: ustr
  sv_pow_bits :: int
  sv_write_rpm :: int
  sv_expose_docs :: bool
  sv_require_token :: bool
  sv_peers :: ustr
  sv_sync_interval :: int
  sv_scan_interval :: int
  sv_scan_start :: int
  sv_resolve_interval :: int
  sv_serve_evidence :: bool
  sv_allow_mainnet :: bool
  sv_disable_profile :: bool
  sv_cooling_blocks :: int
  sv_notice_blocks :: int
  sv_authors :: ustr

definition default_serve :: serve_args where
  "default_serve = \<lparr>sv_data_dir = str ''.history-anchor'', sv_role = ''observer'',
     sv_node_name = str ''unnamed-hap-node'', sv_pow_bits = 0, sv_write_rpm = 10, sv_expose_docs = False,
     sv_require_token = False, sv_peers = [], sv_sync_interval = 0, sv_scan_interval = 0, sv_scan_start = 0,
     sv_resolve_interval = 0, sv_serve_evidence = False, sv_allow_mainnet = False, sv_disable_profile = False,
     sv_cooling_blocks = 6, sv_notice_blocks = 6, sv_authors = []\<rparr>"

definition flag :: "bool \<Rightarrow> ustr" where
  "flag b = (if b then str ''1'' else str ''0'')"

definition serve_variables :: "serve_args \<Rightarrow> (string \<times> ustr) list" where
  "serve_variables A =
     [(''HAP_DATA_DIR'', sv_data_dir A), (''HAP_ROLE'', str (sv_role A)), (''HAP_NODE_NAME'', sv_node_name A),
      (''HAP_RELAY_POW_BITS'', py_str_int (sv_pow_bits A)),
      (''HAP_WRITE_REQUESTS_PER_MINUTE'', py_str_int (sv_write_rpm A)),
      (''HAP_EXPOSE_DOCS'', flag (sv_expose_docs A)), (''HAP_REQUIRE_SUBMISSION_TOKEN'', flag (sv_require_token A)),
      (''HAP_PEERS'', sv_peers A), (''HAP_SYNC_INTERVAL_SECONDS'', py_str_int (sv_sync_interval A)),
      (''HAP_BITCOIN_SCAN_INTERVAL_SECONDS'', py_str_int (sv_scan_interval A)),
      (''HAP_BITCOIN_SCAN_START_HEIGHT'', py_str_int (sv_scan_start A)),
      (''HAP_RESOLVE_INTERVAL_SECONDS'', py_str_int (sv_resolve_interval A)),
      (''HAP_SERVE_EVIDENCE'', flag (sv_serve_evidence A)), (''HAP_ALLOW_MAINNET'', flag (sv_allow_mainnet A)),
      (''HAP_RESPONSIBLE_PUBLICATION_PROFILE'', flag (\<not> sv_disable_profile A)),
      (''HAP_RESPONSIBLE_COOLING_BLOCKS'', py_str_int (sv_cooling_blocks A)),
      (''HAP_RESPONSIBLE_NOTICE_PROTECTION_BLOCKS'', py_str_int (sv_notice_blocks A)),
      (''HAP_RECOGNISED_ACCOUNTABLE_AUTHORS'', sv_authors A)]"

text \<open>\<open>os.environ.update\<close>\<close>

definition serve_environment :: "serve_args \<Rightarrow> environ \<Rightarrow> environ" where
  "serve_environment A V = V\<lparr>env_var := (\<lambda>name. case map_of (serve_variables A) name of
     Some v \<Rightarrow> Some v | None \<Rightarrow> env_var V name)\<rparr>"

text \<open>The node reads back what the options say: numbers within their limits, flags as they are, and the
  rest of the settings from the variables that were there before.\<close>

lemma env_int_number:
  "env_var V name = Some (py_str_int i) \<Longrightarrow> printable_int i \<Longrightarrow> env_int V name d lo hi = Inr (max lo (min i hi))"
  by (simp add: env_int_def int_of_str_numeral)

lemma env_bool_flag: "env_var V name = Some (flag b) \<Longrightarrow> env_bool V name d = b"
proof -
  have "lower (py_strip (flag b)) = flag b" by (cases b) (simp_all add: flag_def py_strip_def str_def uni_isspace_def ascii_lower_def)
  then show "env_var V name = Some (flag b) \<Longrightarrow> env_bool V name d = b"
    by (auto simp: env_bool_def flag_def)
qed

definition serves :: "serve_args \<Rightarrow> settings \<Rightarrow> bool" where
  "serves A S \<longleftrightarrow> data_dir S = sv_data_dir A \<and> role S = str (sv_role A) \<and> node_name S = take 120 (sv_node_name A)
     \<and> relay_pow_bits S = max 0 (min (sv_pow_bits A) 30)
     \<and> write_requests_per_minute S = max 1 (min (sv_write_rpm A) 10000)
     \<and> expose_docs S = sv_expose_docs A \<and> submission_token_required S = sv_require_token A
     \<and> sync_interval_seconds S = max 0 (min (sv_sync_interval A) 86400)
     \<and> bitcoin_scan_interval_seconds S = max 0 (min (sv_scan_interval A) 86400)
     \<and> bitcoin_scan_start_height S = max 0 (min (sv_scan_start A) 10000000)
     \<and> resolve_interval_seconds S = max 0 (min (sv_resolve_interval A) 86400)
     \<and> serve_evidence S = sv_serve_evidence A \<and> allow_mainnet S = sv_allow_mainnet A
     \<and> responsible_publication_profile S = (\<not> sv_disable_profile A)
     \<and> responsible_cooling_blocks S = max 0 (min (sv_cooling_blocks A) 100000)
     \<and> responsible_notice_protection_blocks S = max 0 (min (sv_notice_blocks A) 100000)"

text \<open>Every integer that \<open>argparse\<close> reads is one that \<open>str\<close> writes.\<close>

definition serve_numbers :: "serve_args \<Rightarrow> int list" where
  "serve_numbers A = [sv_pow_bits A, sv_write_rpm A, sv_sync_interval A, sv_scan_interval A, sv_scan_start A,
     sv_resolve_interval A, sv_cooling_blocks A, sv_notice_blocks A]"

lemma serve_settings:
  assumes "settings_from_environment (serve_environment A V) = Inr S" "sv_role A \<in> set VALID_ROLES"
    and printable: "list_all printable_int (serve_numbers A)"
  shows "serves A S"
proof -
  let ?V = "serve_environment A V"
  have var: "env_var ?V name = Some v" if "map_of (serve_variables A) name = Some v" for name v
    using that by (simp add: serve_environment_def)
  have int: "env_int ?V name d lo hi = Inr (max lo (min i hi))"
    if "map_of (serve_variables A) name = Some (py_str_int i)" "i \<in> set (serve_numbers A)" for name d lo hi i
    by (rule env_int_number) (use var [OF that(1)] that(2) printable in \<open>auto simp: list_all_iff\<close>)
  have bool: "env_bool ?V name d = b" if "map_of (serve_variables A) name = Some (flag b)" for name d b
    by (rule env_bool_flag) (rule var [OF that])
  have str_of: "env_get ?V name d = v" if "map_of (serve_variables A) name = Some v" for name d v
    using var [OF that] by (simp add: env_get_def)
  have role: "lower (py_strip (str (sv_role A))) = str (sv_role A)"
    using assms(2) by (auto simp: VALID_ROLES_def str_def py_strip_def uni_isspace_def ascii_lower_def)
  have ints: "env_int ?V ''HAP_RELAY_POW_BITS'' 0 0 30 = Inr (max 0 (min (sv_pow_bits A) 30))"
    "env_int ?V ''HAP_WRITE_REQUESTS_PER_MINUTE'' 10 1 10000 = Inr (max 1 (min (sv_write_rpm A) 10000))"
    "env_int ?V ''HAP_SYNC_INTERVAL_SECONDS'' 0 0 86400 = Inr (max 0 (min (sv_sync_interval A) 86400))"
    "env_int ?V ''HAP_BITCOIN_SCAN_INTERVAL_SECONDS'' 0 0 86400 = Inr (max 0 (min (sv_scan_interval A) 86400))"
    "env_int ?V ''HAP_BITCOIN_SCAN_START_HEIGHT'' 0 0 10000000 = Inr (max 0 (min (sv_scan_start A) 10000000))"
    "env_int ?V ''HAP_RESOLVE_INTERVAL_SECONDS'' 0 0 86400 = Inr (max 0 (min (sv_resolve_interval A) 86400))"
    "env_int ?V ''HAP_RESPONSIBLE_COOLING_BLOCKS'' 6 0 100000 = Inr (max 0 (min (sv_cooling_blocks A) 100000))"
    "env_int ?V ''HAP_RESPONSIBLE_NOTICE_PROTECTION_BLOCKS'' 6 0 100000 = Inr (max 0 (min (sv_notice_blocks A) 100000))"
    by (rule int, simp add: serve_variables_def, simp add: serve_numbers_def)+
  have rest: "env_bool ?V ''HAP_EXPOSE_DOCS'' False = sv_expose_docs A"
    "env_bool ?V ''HAP_REQUIRE_SUBMISSION_TOKEN'' False = sv_require_token A"
    "env_bool ?V ''HAP_SERVE_EVIDENCE'' False = sv_serve_evidence A"
    "env_bool ?V ''HAP_ALLOW_MAINNET'' False = sv_allow_mainnet A"
    "env_bool ?V ''HAP_RESPONSIBLE_PUBLICATION_PROFILE'' True = (\<not> sv_disable_profile A)"
    by (rule bool, simp add: serve_variables_def)+
  have texts: "env_get ?V ''HAP_DATA_DIR'' ''.history-anchor'' = sv_data_dir A"
    "env_get ?V ''HAP_ROLE'' ''observer'' = str (sv_role A)"
    "env_get ?V ''HAP_NODE_NAME'' ''unnamed-hap-node'' = sv_node_name A"
    by (rule str_of, simp add: serve_variables_def)+
  show ?thesis
    using assms(1) unfolding settings_from_environment_def ints rest texts role bindE_simps
    by (auto simp only: bindE_eq_Inr Let_def serves_def settings.simps)
qed

end
