(* ===== verification/Schema.thy ===== *)
theory Schema
  imports Index
begin

text \<open>
  \<^verbatim>\<open>src/hap/storage.py\<close>, the opening of the database: the adoption of a file with the old name, the schema
  version, the migration of the table of anchors, which had no output number before version 4, and the
  identifier of the node. A \<open>database\<close> is an index, with the rows of an anchors table of the old layout
  when there is one. \<open>uuid.uuid4().hex\<close> is an argument.

  Opening a database again changes nothing, and the migration keeps every anchor with the sequence number
  that peers know it by.
\<close>

section \<open>Files\<close>

text \<open>\<open>replace\<close> of a file, if it exists.\<close>

definition move_file :: "string \<Rightarrow> string \<Rightarrow> (string \<Rightarrow> 'f option) \<Rightarrow> string \<Rightarrow> 'f option" where
  "move_file old new fs = (case fs old of None \<Rightarrow> fs | Some f \<Rightarrow> (fs(new \<mapsto> f))(old := None))"

definition adopt_legacy :: "(string \<Rightarrow> 'f option) \<Rightarrow> string \<Rightarrow> 'f option" where
  "adopt_legacy fs =
     (if fs ''hap-v4.sqlite3'' \<noteq> None \<and> fs ''hap.sqlite3'' = None
      then foldl (\<lambda>fs suffix. move_file (''hap-v4.sqlite3'' @ suffix) (''hap.sqlite3'' @ suffix) fs) fs ['''', ''-wal'', ''-shm'']
      else fs)"

lemma adopt_legacy_facts:
  "adopt_legacy fs ''hap.sqlite3'' = (case fs ''hap.sqlite3'' of None \<Rightarrow> fs ''hap-v4.sqlite3'' | Some f \<Rightarrow> Some f)"
  "adopt_legacy (adopt_legacy fs) = adopt_legacy fs"
  by (auto simp: adopt_legacy_def move_file_def split: option.split)

section \<open>The schema\<close>

definition SCHEMA_VERSION :: int where "SCHEMA_VERSION = 4"

record old_anchor =
  oa_txid :: ustr
  oa_batch_id :: ustr
  oa_network :: ustr
  oa_status :: ustr
  oa_anchored_at :: int
  oa_block_hash :: "ustr option"
  oa_block_height :: "int option"

record database =
  db_index :: index
  db_old_anchors :: "(nat \<times> old_anchor) list option"

definition anchor_of_old :: "old_anchor \<Rightarrow> anchor" where
  "anchor_of_old a = \<lparr>a_txid = oa_txid a, a_vout = 0, a_batch_id = oa_batch_id a, a_network = oa_network a,
     a_status = oa_status a, a_anchored_at = oa_anchored_at a, a_block_hash = oa_block_hash a,
     a_block_height = oa_block_height a\<rparr>"

text \<open>\<open>INSERT INTO anchors SELECT ...\<close> into the new table: the largest sequence number is the last one used.
  The constraints of the new table are checked.\<close>

definition migrate_anchors :: "(nat \<times> old_anchor) list \<Rightarrow> index \<Rightarrow> index result" where
  "migrate_anchors old s =
     (let t = \<lparr>rows = map (\<lambda>(n, a). (n, anchor_of_old a)) old, last_seq = foldl max 0 (map fst old)\<rparr> in
      if \<not> distinct (map (oa_txid \<circ> snd) old)
      then Inl (Exn IntegrityError ''UNIQUE constraint failed: anchors.txid, anchors.vout'')
      else if list_ex (\<lambda>(_, a). \<not> list_ex (\<lambda>b. bt_id b = oa_batch_id a) (all_rows (batches_t s))) old
      then Inl (Exn IntegrityError ''FOREIGN KEY constraint failed'')
      else Inr (s\<lparr>anchors_t := t\<rparr>))"

definition schema_version_of :: "index \<Rightarrow> (int \<times> index) result" where
  "schema_version_of s = (case metadata_get s (str ''schema_version'') of
     None \<Rightarrow> Inr (SCHEMA_VERSION,
       s\<lparr>metadata := metadata s @ [(str ''schema_version'', py_str_int SCHEMA_VERSION)]\<rparr>)
   | Some v \<Rightarrow> bindE (int_of_str v) (\<lambda>version.
       if version \<notin> {2, 3, SCHEMA_VERSION}
       then Inl (Exn RuntimeError ''database schema version is not supported by this build'')
       else Inr (version, s)))"

definition create_schema :: "ustr \<Rightarrow> database \<Rightarrow> index result" where
  "create_schema fresh_id db =
     bindE (schema_version_of (db_index db)) (\<lambda>(version, s).
     bindE (case db_old_anchors db of None \<Rightarrow> Inr s | Some old \<Rightarrow> migrate_anchors old s) (\<lambda>s.
     let s = (if version \<noteq> SCHEMA_VERSION then metadata_set (str ''schema_version'') (py_str_int SCHEMA_VERSION) s else s) in
     Inr (if metadata_get s (str ''node_instance_id'') = None
       then s\<lparr>metadata := metadata s @ [(str ''node_instance_id'', fresh_id)]\<rparr> else s)))"

text \<open>\<open>check\<close>: the answer of \<open>PRAGMA quick_check\<close> is an argument.\<close>

definition storage_check :: "ustr \<Rightarrow> index \<Rightarrow> (ustr \<times> int) result" where
  "storage_check integrity s = (case metadata_get s (str ''schema_version'') of
     None \<Rightarrow> Inl (Exn TypeError ''NoneType object is not subscriptable'')
   | Some v \<Rightarrow> bindE (int_of_str v) (\<lambda>version. Inr (integrity, version)))"

section \<open>Opening a database\<close>

lemma put_pair_get: "map_of (put_pair k v d) k' = (if k' = k then Some v else map_of d k')"
  by (induction k v d rule: put_pair.induct) auto

lemma metadata_set_get [simp]:
  "metadata_get (metadata_set k v s) k' = (if k' = k then Some v else metadata_get s k')"
  by (simp add: metadata_get_def metadata_set_def put_pair_get)

lemma schema_version_text: "int_of_str (py_str_int SCHEMA_VERSION) = Inr SCHEMA_VERSION"
  by (rule int_of_str_numeral) (simp add: printable_int_def SCHEMA_VERSION_def dec.simps MAX_STR_DIGITS_def)

lemma metadata_get_append:
  "metadata_get (s\<lparr>metadata := metadata s @ [(k, v)]\<rparr>) k'
     = (case metadata_get s k' of Some w \<Rightarrow> Some w | None \<Rightarrow> if k' = k then Some v else None)"
  by (auto simp: metadata_get_def map_add_def split: option.splits)

text \<open>What opening establishes of the metadata: the current version, and an identifier of the node that is
  only made up when there was none.\<close>

lemma schema_version_of_run:
  assumes "schema_version_of s = Inr (version, s')"
  shows "\<exists>v. metadata_get s' (str ''schema_version'') = Some v \<and> int_of_str v = Inr version"
    "metadata_get s' (str ''node_instance_id'') = metadata_get s (str ''node_instance_id'')"
    "s'\<lparr>metadata := []\<rparr> = s\<lparr>metadata := []\<rparr>"
  using assms schema_version_text
  by (auto simp: schema_version_of_def metadata_get_append bindE_eq_Inr split: option.splits if_splits)

lemma migrate_anchors_run:
  assumes "migrate_anchors old s = Inr s'"
  shows "s' = s\<lparr>anchors_t := \<lparr>rows = map (\<lambda>(n, a). (n, anchor_of_old a)) old, last_seq = foldl max 0 (map fst old)\<rparr>\<rparr>"
    "distinct (map (oa_txid \<circ> snd) old)" "\<forall>(n, a) \<in> set old. oa_batch_id a \<in> batch_ids_in s"
proof -
  show "s' = s\<lparr>anchors_t := \<lparr>rows = map (\<lambda>(n, a). (n, anchor_of_old a)) old, last_seq = foldl max 0 (map fst old)\<rparr>\<rparr>"
    "distinct (map (oa_txid \<circ> snd) old)"
    using assms by (simp_all add: migrate_anchors_def Let_def split: if_splits)
  show "\<forall>(n, a) \<in> set old. oa_batch_id a \<in> batch_ids_in s"
  proof (intro ballI, clarify)
    fix n a assume a: "(n, a) \<in> set old"
    define present where "present = (\<lambda>a :: old_anchor. list_ex (\<lambda>b. bt_id b = oa_batch_id a) (all_rows (batches_t s)))"
    have "\<not> list_ex (\<lambda>(_, a). \<not> present a) old"
      using assms by (simp add: migrate_anchors_def Let_def present_def split: if_splits)
    then have "present a" using a unfolding list_ex_iff by fastforce
    then show "oa_batch_id a \<in> batch_ids_in s"
      unfolding present_def list_ex_iff batch_ids_in_def by (metis image_eqI)
  qed
qed

lemma create_schema_run:
  assumes "create_schema i db = Inr s"
  shows "\<exists>v. metadata_get s (str ''schema_version'') = Some v \<and> int_of_str v = Inr SCHEMA_VERSION"
    "metadata_get s (str ''node_instance_id'') =
      (case metadata_get (db_index db) (str ''node_instance_id'') of None \<Rightarrow> Some i | Some v \<Rightarrow> Some v)"
    "s\<lparr>metadata := []\<rparr> = (case db_old_anchors db of None \<Rightarrow> db_index db
       | Some old \<Rightarrow> (db_index db)\<lparr>anchors_t := \<lparr>rows = map (\<lambda>(n, a). (n, anchor_of_old a)) old,
           last_seq = foldl max 0 (map fst old)\<rparr>\<rparr>)\<lparr>metadata := []\<rparr>"
    "\<forall>old. db_old_anchors db = Some old \<longrightarrow> distinct (map (oa_txid \<circ> snd) old)
       \<and> (\<forall>(n, a) \<in> set old. oa_batch_id a \<in> batch_ids_in (db_index db))"
proof -
  obtain version s1 s2 where v: "schema_version_of (db_index db) = Inr (version, s1)"
    and m: "(case db_old_anchors db of None \<Rightarrow> Inr s1 | Some old \<Rightarrow> migrate_anchors old s1) = Inr s2"
    and s: "s = (let s = (if version \<noteq> SCHEMA_VERSION then metadata_set (str ''schema_version'') (py_str_int SCHEMA_VERSION) s2 else s2) in
      if metadata_get s (str ''node_instance_id'') = None
       then s\<lparr>metadata := metadata s @ [(str ''node_instance_id'', i)]\<rparr> else s)"
    using assms by (auto simp: create_schema_def bindE_eq_Inr Let_def)
  note run = schema_version_of_run [OF v]
  have meta: "metadata_get s2 k = metadata_get s1 k" for k
    using m by (cases "db_old_anchors db") (auto dest!: migrate_anchors_run(1) simp: metadata_get_def)
  show "\<exists>v. metadata_get s (str ''schema_version'') = Some v \<and> int_of_str v = Inr SCHEMA_VERSION"
    "metadata_get s (str ''node_instance_id'') =
      (case metadata_get (db_index db) (str ''node_instance_id'') of None \<Rightarrow> Some i | Some v \<Rightarrow> Some v)"
    using run meta schema_version_text unfolding s Let_def
    by (auto simp: metadata_get_append split: option.splits)
  show "s\<lparr>metadata := []\<rparr> = (case db_old_anchors db of None \<Rightarrow> db_index db
       | Some old \<Rightarrow> (db_index db)\<lparr>anchors_t := \<lparr>rows = map (\<lambda>(n, a). (n, anchor_of_old a)) old,
           last_seq = foldl max 0 (map fst old)\<rparr>\<rparr>)\<lparr>metadata := []\<rparr>"
  proof -
    have "s\<lparr>metadata := []\<rparr> = s2\<lparr>metadata := []\<rparr>" unfolding s Let_def metadata_set_def by simp
    also have "\<dots> = (case db_old_anchors db of None \<Rightarrow> s1\<lparr>metadata := []\<rparr>
       | Some old \<Rightarrow> (s1\<lparr>metadata := []\<rparr>)\<lparr>anchors_t := \<lparr>rows = map (\<lambda>(n, a). (n, anchor_of_old a)) old,
           last_seq = foldl max 0 (map fst old)\<rparr>\<rparr>)"
      using m by (cases "db_old_anchors db") (auto dest!: migrate_anchors_run(1))
    finally show ?thesis unfolding run(3) by (simp split: option.split)
  qed
  show "\<forall>old. db_old_anchors db = Some old \<longrightarrow> distinct (map (oa_txid \<circ> snd) old)
       \<and> (\<forall>(n, a) \<in> set old. oa_batch_id a \<in> batch_ids_in (db_index db))"
  proof (intro allI impI)
    fix old assume old: "db_old_anchors db = Some old"
    have "batch_ids_in s1 = batch_ids_in (db_index db)"
      using arg_cong [OF run(3), of batches_t] by (simp add: batch_ids_in_def)
    with m old show "distinct (map (oa_txid \<circ> snd) old) \<and> (\<forall>(n, a) \<in> set old. oa_batch_id a \<in> batch_ids_in (db_index db))"
      using migrate_anchors_run(2,3) [of old s1 s2] by simp
  qed
qed

text \<open>Opening keeps the invariant of the index, when the old anchors had increasing sequence numbers and
  numbers that fit their columns.\<close>

definition old_anchors_ok :: "(nat \<times> old_anchor) list \<Rightarrow> bool" where
  "old_anchors_ok old \<longleftrightarrow> sorted_wrt (<) (map fst old) \<and> (\<forall>(n, a) \<in> set old. 0 < n \<and> anchor_ints (anchor_of_old a))"

lemma foldl_max: "(n :: nat) \<in> set ns \<Longrightarrow> n \<le> foldl max m ns"
proof (induction ns arbitrary: m)
  case (Cons k ns)
  have "m \<le> foldl max m ns" for m :: nat and ns
    by (induction ns arbitrary: m) (simp, metis foldl_Cons max.boundedE)
  with Cons show ?case by (auto intro: le_trans [of _ "max m k"])
qed simp

lemma opened_index_ok:
  assumes "create_schema i db = Inr s" "index_ok E (db_index db)"
    and "\<forall>old. db_old_anchors db = Some old \<longrightarrow> old_anchors_ok old"
  shows "index_ok E s"
proof -
  note run = create_schema_run [OF assms(1)]
  have erase: "index_ok E s = index_ok E (s\<lparr>metadata := []\<rparr>)" for s
    by (simp add: index_ok_defs)
  show ?thesis
  proof (cases "db_old_anchors db")
    case None
    with run(3) assms(2) erase [of s] erase [of "db_index db"] show ?thesis by simp
  next
    case (Some old)
    let ?t = "\<lparr>rows = map (\<lambda>(n, a). (n, anchor_of_old a)) old, last_seq = foldl max 0 (map fst old)\<rparr>"
    have old: "distinct (map (oa_txid \<circ> snd) old)" "\<forall>(n, a) \<in> set old. oa_batch_id a \<in> batch_ids_in (db_index db)"
      "sorted_wrt (<) (map fst old)" "\<forall>(n, a) \<in> set old. 0 < n \<and> anchor_ints (anchor_of_old a)"
      using run(4) assms(3) Some by (auto simp: old_anchors_ok_def)
    have rows: "all_rows ?t = map (anchor_of_old \<circ> snd) old" "map fst (rows ?t) = map fst old"
      by (simp_all add: all_rows_def case_prod_unfold)
    have "map a_point (all_rows ?t) = map (\<lambda>x. (x, 0)) (map (oa_txid \<circ> snd) old)"
      unfolding rows by (simp add: a_point_def anchor_of_old_def)
    then have "distinct (map a_point (all_rows ?t))" using old(1) by (simp add: distinct_map inj_on_def)
    moreover have "\<forall>n \<in> fst ` set (rows ?t). 0 < n \<and> n \<le> last_seq ?t"
      using old(4) foldl_max [of _ "map fst old" 0] by (force simp: case_prod_unfold)
    ultimately have "table_ok a_point ?t" using old(3) unfolding table_ok_def rows(2) by blast
    moreover have "\<forall>a \<in> set (all_rows ?t). a_batch_id a \<in> batch_ids_in (db_index db) \<and> anchor_ints a"
      using old(2,4) unfolding rows by (auto simp: anchor_of_old_def)
    ultimately have "index_ok E ((db_index db)\<lparr>anchors_t := ?t\<rparr>)"
      using assms(2) by (simp add: index_ok_defs)
    then show ?thesis using run(3) Some erase [of s] erase [of "(db_index db)\<lparr>anchors_t := ?t\<rparr>"] by simp
  qed
qed

text \<open>The migration keeps every anchor with its sequence number; opening what was opened changes nothing.\<close>

lemma opened_tables:
  assumes "create_schema i db = Inr s"
  shows "records_t s = records_t (db_index db)" "batches_t s = batches_t (db_index db)"
    "record_batches s = record_batches (db_index db)" "commitments_t s = commitments_t (db_index db)"
    "rows (anchors_t s) = (case db_old_anchors db of None \<Rightarrow> rows (anchors_t (db_index db))
       | Some old \<Rightarrow> map (\<lambda>(k, a). (k, anchor_of_old a)) old)"
proof -
  note run = create_schema_run(3) [OF assms]
  show "records_t s = records_t (db_index db)" using arg_cong [OF run, of records_t] by (simp split: option.splits)
  show "batches_t s = batches_t (db_index db)" using arg_cong [OF run, of batches_t] by (simp split: option.splits)
  show "record_batches s = record_batches (db_index db)" using arg_cong [OF run, of record_batches] by (simp split: option.splits)
  show "commitments_t s = commitments_t (db_index db)" using arg_cong [OF run, of commitments_t] by (simp split: option.splits)
  show "rows (anchors_t s) = (case db_old_anchors db of None \<Rightarrow> rows (anchors_t (db_index db))
       | Some old \<Rightarrow> map (\<lambda>(k, a). (k, anchor_of_old a)) old)"
    using arg_cong [OF run, of anchors_t] by (simp split: option.splits)
qed

lemma create_schema_idempotent:
  assumes "create_schema i db = Inr s"
  shows "create_schema j \<lparr>db_index = s, db_old_anchors = None\<rparr> = Inr s"
  using create_schema_run(1,2) [OF assms]
  by (auto simp: create_schema_def schema_version_of_def Let_def split: option.splits)

end
