(* ===== verification/Commands.thy ===== *)
theory Commands
  imports Client Survival Schema
begin

text \<open>
  \<^verbatim>\<open>src/hap/cli.py\<close>, the commands that work on a local node: a \<open>workspace\<close> is the node of the data
  directory, with the files that the commands read and write. A \<open>toolbox\<close> is what they run with: the
  libraries of the node, the RPC client and the peers, the clock, \<open>json.dumps(v, indent=2)\<close>, the parser
  of files, the expansion of a home directory, the resolution of paths, the environment, and the
  failures of the file system: \<open>tb_os_error what path\<close> is the \<open>OSError\<close> that is raised when the directory
  of a path is made, or a file, an archive or a database is written there, if any. An archive or a database whose writing
  fails may be left in any state.

  Every command keeps the invariant of the node, and \<open>direct-anchor\<close> has written the package before it
  sends a transaction.
\<close>

section \<open>The workspace\<close>

record workspace =
  ws_node :: node
  ws_disk :: "ustr \<Rightarrow> bytes option"
  ws_archives :: "ustr \<Rightarrow> member list option"
  ws_databases :: "ustr \<Rightarrow> index option"

record toolbox =
  tb_env :: env
  tb_rpc :: rpc
  tb_http :: http
  tb_clock :: "nat \<Rightarrow> int"
  tb_pretty :: "json \<Rightarrow> ustr"
  tb_loads :: "bytes \<Rightarrow> json option"
  tb_home :: "ustr \<Rightarrow> ustr result"
  tb_path :: "ustr \<Rightarrow> ustr"
  tb_environ :: environ
  tb_os_error :: "string \<Rightarrow> ustr \<Rightarrow> string option"
  tb_left_archive :: "ustr \<Rightarrow> member list option"
  tb_left_database :: "ustr \<Rightarrow> index option"

definition local :: "(node, 'a) op \<Rightarrow> (workspace, 'a) op" where
  "local m w = (case m (ws_node w) of (r, n) \<Rightarrow> (r, w\<lparr>ws_node := n\<rparr>))"

text \<open>\<open>Path(p).expanduser().resolve()\<close>\<close>

definition home_path :: "toolbox \<Rightarrow> ustr \<Rightarrow> ustr result" where
  "home_path T p = bindE (tb_home T p) (\<lambda>q. Inr (tb_path T q))"

definition os_step :: "toolbox \<Rightarrow> string \<Rightarrow> ustr \<Rightarrow> unit result" where
  "os_step T what path = (case tb_os_error T what path of None \<Rightarrow> Inr () | Some e \<Rightarrow> Inl (Exn OtherError e))"

lemma os_step_eq_Inr [result_simps]: "os_step T what path = Inr u \<longleftrightarrow> tb_os_error T what path = None"
  by (auto simp: os_step_def split: option.splits)

text \<open>The directory is made, the text is encoded, and then a temporary file is written, synchronised and moved
  to the destination. Where one of these steps fails, the temporary file is removed and the destination
  is as it was.\<close>

definition atomic_write_json :: "toolbox \<Rightarrow> ustr \<Rightarrow> json \<Rightarrow> (workspace, ustr) op" where
  "atomic_write_json T path v = updateM (\<lambda>w. bindE (home_path T path) (\<lambda>destination.
     bindE (os_step T ''mkdir'' destination) (\<lambda>_.
     bindE (encode_utf8 (tb_pretty T v)) (\<lambda>payload.
     bindE (os_step T ''write'' destination) (\<lambda>_.
     Inr (destination, w\<lparr>ws_disk := (ws_disk w)(destination \<mapsto> payload)\<rparr>))))))"

definition load_json :: "toolbox \<Rightarrow> ustr \<Rightarrow> (workspace, json) op" where
  "load_json T path = bindM (readM (\<lambda>w. case ws_disk w (tb_path T path) of
       None \<Rightarrow> Inl (Exn OtherError ''FileNotFoundError'')
     | Some content \<Rightarrow> (case tb_loads T content of
         None \<Rightarrow> Inl (Exn ValueError ''JSONDecodeError'')
       | Some v \<Rightarrow> if is_dict v then Inr v else system_exit ''expected a JSON object''))) liftM"

section \<open>Commands\<close>

text \<open>The first half of \<open>direct-anchor\<close>: everything up to the package file.\<close>

definition prepare_direct ::
  "toolbox \<Rightarrow> ustr \<Rightarrow> string \<Rightarrow> ustr option \<Rightarrow> (workspace, json \<times> json \<times> ustr) op" where
  "prepare_direct T record_file network package_out =
     bindM (load_json T record_file) (\<lambda>r.
     bindM (local (submit_record (tb_env T) None False r)) (\<lambda>_.
     bindM (local (create_direct_batch (tb_env T) (tb_clock T 0) (rid_of r) (str network))) (\<lambda>batch.
     bindM (readM (\<lambda>w. package_for_batch (tb_env T) (ix (ws_node w)) (bid_of batch))) (\<lambda>found. bindM (liftM found) (\<lambda>package.
     case package of
       None \<Rightarrow> liftM (system_exit ''could not construct the direct-publication package'')
     | Some p \<Rightarrow>
         bindM (atomic_write_json T (case package_out of
             Some (c # cs) \<Rightarrow> c # cs
           | _ \<Rightarrow> str ''hap-package-'' @ bid_of batch @ str ''.json'') p) (\<lambda>written.
         returnM (batch, p, written)))))))"

definition direct_anchor_cmd ::
  "toolbox \<Rightarrow> ustr \<Rightarrow> string \<Rightarrow> ustr option \<Rightarrow> (workspace, json \<times> ustr \<times> anchor \<times> pyfloat) op" where
  "direct_anchor_cmd T record_file network package_out =
     bindM (prepare_direct T record_file network package_out) (\<lambda>(batch, p, written).
     bindM (local (anchor_batch (tb_env T) (tb_rpc T) (tb_clock T 1)
       (env_bool (tb_environ T) ''HAP_ALLOW_MAINNET'' False) (bid_of batch))) (\<lambda>(a, fee).
     returnM (batch, written, a, fee)))"

definition sync_cmd :: "toolbox \<Rightarrow> ustr \<Rightarrow> int \<Rightarrow> (workspace, sync_result) op" where
  "sync_cmd T peer page_size =
     local (sync_peer (tb_env T) (tb_http T) (max 1 (min page_size 1000)) 8388608 10000 peer)"

definition scan_cmd :: "toolbox \<Rightarrow> int \<Rightarrow> int \<Rightarrow> (workspace, scan_result) op" where
  "scan_cmd T start_height max_blocks = local (scan_bitcoin (tb_rpc T) (tb_clock T) start_height max_blocks)"

definition resolve_cmd :: "toolbox \<Rightarrow> ustr \<Rightarrow> (workspace, resolution) op" where
  "resolve_cmd T peers_text = local (resolve_commitments (tb_env T) (tb_http T)
     (filter (\<lambda>p. p \<noteq> []) (map py_strip (split_on 44 peers_text))) 67108864 100)"

definition package_cmd :: "toolbox \<Rightarrow> ustr \<Rightarrow> ustr \<Rightarrow> (workspace, ustr \<times> json) op" where
  "package_cmd T batch_id out =
     bindM (readM (\<lambda>w. package_for_batch (tb_env T) (ix (ws_node w)) batch_id)) (\<lambda>found. bindM (liftM found) (\<lambda>v.
     case v of
       None \<Rightarrow> liftM (system_exit ''batch not found'')
     | Some p \<Rightarrow> bindM (atomic_write_json T out p) (\<lambda>_.
         bindM (liftM (dict_item p ''package_id'')) (\<lambda>package_id. returnM (tb_path T out, package_id)))))"

definition import_package_cmd :: "toolbox \<Rightarrow> ustr \<Rightarrow> (workspace, ustr \<times> ustr \<times> nat \<times> string) op" where
  "import_package_cmd T package_file =
     bindM (load_json T package_file) (\<lambda>p. local (import_package (tb_env T) p))"

definition evidence_add_cmd :: "toolbox \<Rightarrow> ustr \<Rightarrow> int \<Rightarrow> (workspace, ustr \<times> int) op" where
  "evidence_add_cmd T path max_bytes =
     bindM (liftM (home_path T path)) (\<lambda>file.
     bindM (readM (\<lambda>w. ws_disk w file)) (\<lambda>source.
     local (on_evidence (add_file (tb_env T) source (Some max_bytes)))))"

definition evidence_fetch_cmd :: "toolbox \<Rightarrow> ustr \<Rightarrow> ustr \<Rightarrow> int option \<Rightarrow> int \<Rightarrow> (workspace, ustr \<times> int) op" where
  "evidence_fetch_cmd T peer digest expected_size max_bytes =
     bindM (local (http_get (tb_http T) (rstrip_slash peer @ str ''/v1/evidence/'' @ digest) [])) (\<lambda>r.
     bindM (liftM (read_body (Exn OtherError ''evidence download exceeds --max-bytes'') max_bytes (rs_chunks r) [])) (\<lambda>content.
     local (on_evidence (store_stream (tb_env T) (JStr digest) (chunks 1048576 content) max_bytes
       (map_option JInt expected_size)))))"

text \<open>The copy of the database is that of the index.\<close>

definition backup_database :: "toolbox \<Rightarrow> ustr \<Rightarrow> (workspace, ustr) op" where
  "backup_database T destination =
     bindM (liftM (bindE (home_path T destination) (\<lambda>path. bindE (os_step T ''mkdir'' path) (\<lambda>_. Inr path)))) (\<lambda>path w.
     case os_step T ''database'' path of
       Inr _ \<Rightarrow> (Inr path, w\<lparr>ws_databases := (ws_databases w)(path \<mapsto> ix (ws_node w))\<rparr>)
     | Inl e \<Rightarrow> (Inl e, w\<lparr>ws_databases := (ws_databases w)(path := tb_left_database T path)\<rparr>))"

definition backup_cmd :: "toolbox \<Rightarrow> ustr \<Rightarrow> (workspace, ustr \<times> ustr) op" where
  "backup_cmd T out =
     (let out_dir = tb_path T out in
      bindM (liftM (os_step T ''mkdir'' (out_dir @ str ''/hap-database.sqlite3''))) (\<lambda>_.
      bindM (readM (\<lambda>w. export_snapshot (tb_env T) (tb_clock T 0) (ix (ws_node w)))) (\<lambda>r. bindM (liftM r) (\<lambda>snapshot.
      let snapshot_path = out_dir @ str ''/hap-snapshot-'' @ take 16 (text_of (dget snapshot ''snapshot_id'')) @ str ''.json'' in
      bindM (atomic_write_json T snapshot_path snapshot) (\<lambda>_.
      bindM (backup_database T (out_dir @ str ''/hap-database.sqlite3'')) (\<lambda>database_path.
      returnM (snapshot_path, database_path)))))))"

definition import_cmd :: "toolbox \<Rightarrow> ustr \<Rightarrow> (workspace, (nat \<times> nat \<times> nat) \<times> (string \<times> nat) list) op" where
  "import_cmd T snapshot_file =
     bindM (load_json T snapshot_file) (\<lambda>s.
     bindM (local (import_snapshot (tb_env T) s)) (\<lambda>imported.
     bindM (readM (\<lambda>w. counts (ix (ws_node w)))) (\<lambda>c. returnM (imported, c))))"

definition survival_export_cmd :: "toolbox \<Rightarrow> ustr \<Rightarrow> (workspace, ustr \<times> json) op" where
  "survival_export_cmd T out =
     bindM (readM (\<lambda>w.
       bindE (export_snapshot (tb_env T) (tb_clock T 0) (ix (ws_node w))) (\<lambda>snapshot.
       bindE (home_path T out) (\<lambda>path.
       bindE (os_step T ''mkdir'' path) (\<lambda>_.
       bindE (export_survival_archive (tb_env T) (ev (ws_node w)) snapshot) (\<lambda>(manifest, ms).
       Inr (path, manifest, ms))))))) (\<lambda>r. bindM (liftM r) (\<lambda>(path, manifest, ms) w.
     case os_step T ''archive'' path of
       Inr _ \<Rightarrow> (Inr (path, manifest), w\<lparr>ws_archives := (ws_archives w)(path \<mapsto> ms)\<rparr>)
     | Inl e \<Rightarrow> (Inl e, w\<lparr>ws_archives := (ws_archives w)(path := tb_left_archive T path)\<rparr>)))"

definition survival_import_cmd :: "toolbox \<Rightarrow> ustr \<Rightarrow> int \<Rightarrow> int \<Rightarrow> (workspace, (nat \<times> nat \<times> nat) \<times> nat) op" where
  "survival_import_cmd T archive max_evidence max_metadata =
     bindM (liftM (home_path T archive)) (\<lambda>path.
     bindM (readM (\<lambda>w. ws_archives w path)) (\<lambda>ms.
     local (import_survival_archive (tb_env T) (tb_loads T) ms max_evidence max_metadata)))"

text \<open>\<open>verify\<close> and \<open>verify-bitcoin\<close> run on a node of their own.\<close>

definition verify_cmd :: "toolbox \<Rightarrow> ustr \<Rightarrow> ustr option \<Rightarrow> (workspace, bundle_report + package_report) op" where
  "verify_cmd T path proof_path =
     bindM (load_json T path) (\<lambda>v.
     if dget v ''schema'' = JStr (str ''hap.proof-bundle'')
     then bindM (liftM (validate_proof_bundle_shape (tb_env T) v)) (\<lambda>_.
       bindM (liftM (verify_proof_bundle (tb_env T) v)) (\<lambda>report. returnM (Inl report)))
     else (case proof_path of
         Some (c # cs) \<Rightarrow> bindM (load_json T (c # cs)) (\<lambda>p.
           bindM (liftM (verify_package (tb_env T) v (Some p))) (\<lambda>report. returnM (Inr report)))
       | _ \<Rightarrow> bindM (liftM (verify_package (tb_env T) v None)) (\<lambda>report. returnM (Inr report))))"

definition verify_bitcoin_cmd :: "toolbox \<Rightarrow> ustr \<Rightarrow> nat \<Rightarrow> (workspace, bitcoin_report) op" where
  "verify_bitcoin_cmd T path first_call =
     bindM (load_json T path) (\<lambda>b.
     liftM (fst (verify_proof_bundle_against_bitcoin (tb_env T) (tb_rpc T) b first_call)))"

definition proof_bundle_cmd :: "toolbox \<Rightarrow> client \<Rightarrow> ustr \<Rightarrow> ustr \<Rightarrow> ustr \<Rightarrow> nat \<Rightarrow> (workspace, ustr \<times> json) op" where
  "proof_bundle_cmd T C url rid out c =
     bindM (liftM (fst (get C url (str ''/v1/records/'' @ rid @ str ''/proof-bundle'') [] c))) (\<lambda>bundle.
     bindM (atomic_write_json T out bundle) (\<lambda>_.
     bindM (liftM (dict_item bundle ''bundle_id'')) (\<lambda>bundle_id. returnM (tb_path T out, bundle_id))))"

text \<open>\<open>keygen\<close> on the workspace: whether the file exists is asked of the path as it is given.\<close>

definition keygen_cmd ::
  "toolbox \<Rightarrow> wallet_crypto \<Rightarrow> ustr \<Rightarrow> bool \<Rightarrow> string option \<Rightarrow> ustr \<times> ustr \<Rightarrow> bytes \<times> bytes \<Rightarrow> bytes \<Rightarrow> bytes
    \<Rightarrow> (workspace, ustr \<times> json) op" where
  "keygen_cmd T X out force password_env prompts keys salt nonce =
     bindM (readM (\<lambda>w. keygen (tb_env T) X (ws_disk w (tb_path T out) \<noteq> None) force
       (wallet_password (tb_environ T) password_env True prompts) keys salt nonce)) (\<lambda>r. bindM (liftM r) (\<lambda>wallet.
     bindM (atomic_write_json T out wallet) (\<lambda>path.
     bindM (liftM (dict_item wallet ''author_id'')) (\<lambda>author. returnM (tb_path T path, author)))))"

text \<open>\<open>create\<close> up to the file that it writes, and with the submission. \<open>None\<close> would be a submission that
  does not end.\<close>

definition sign_and_write ::
  "toolbox \<Rightarrow> wallet_crypto \<Rightarrow> (ustr \<Rightarrow> (ustr \<times> bytes \<times> ustr option) option) \<Rightarrow> ustr \<Rightarrow> ustr \<Rightarrow> string option
    \<Rightarrow> ustr \<times> ustr \<Rightarrow> ustr option \<Rightarrow> create_args \<Rightarrow> (workspace, json) op" where
  "sign_and_write T X regular_file now wallet password_env prompts out A =
     bindM (load_json T wallet) (\<lambda>w.
     bindM (liftM (wallet_password (tb_environ T) password_env False prompts)) (\<lambda>password.
     bindM (liftM (create_record (tb_env T) X regular_file now w password A)) (\<lambda>r.
     bindM (case out of Some (c # cs) \<Rightarrow> atomic_write_json T (c # cs) r | _ \<Rightarrow> returnM []) (\<lambda>_. returnM r))))"

definition submit_from ::
  "toolbox \<Rightarrow> client \<Rightarrow> ustr \<Rightarrow> ustr option \<Rightarrow> nat \<Rightarrow> (workspace, json) op \<Rightarrow> workspace
    \<Rightarrow> ((json \<times> json) result \<times> workspace) option" where
  "submit_from T C url token c m w = (case m w of
     (Inl e, w') \<Rightarrow> Some (Inl e, w')
   | (Inr r, w') \<Rightarrow> map_option (\<lambda>(res, _). (bindE res (\<lambda>v. Inr (r, v)), w'))
       (submit_signed_record (tb_env T) C url r token c))"

definition submit_cmd ::
  "toolbox \<Rightarrow> client \<Rightarrow> ustr \<Rightarrow> ustr option \<Rightarrow> nat \<Rightarrow> ustr \<Rightarrow> workspace \<Rightarrow> ((json \<times> json) result \<times> workspace) option" where
  "submit_cmd T C url token c record_file = submit_from T C url token c (load_json T record_file)"

definition create_cmd ::
  "toolbox \<Rightarrow> wallet_crypto \<Rightarrow> client \<Rightarrow> (ustr \<Rightarrow> (ustr \<times> bytes \<times> ustr option) option) \<Rightarrow> ustr \<Rightarrow> ustr \<Rightarrow> string option
    \<Rightarrow> ustr \<times> ustr \<Rightarrow> ustr option \<Rightarrow> bool \<Rightarrow> ustr \<Rightarrow> ustr option \<Rightarrow> nat \<Rightarrow> create_args \<Rightarrow> workspace
    \<Rightarrow> ((json \<times> json) result \<times> workspace) option" where
  "create_cmd T X C regular_file now wallet password_env prompts out no_submit url token c A w =
     (if no_submit
      then Some (case sign_and_write T X regular_file now wallet password_env prompts out A w of
        (res, w') \<Rightarrow> (bindE res (\<lambda>r. Inr (r, JNull)), w'))
      else submit_from T C url token c (sign_and_write T X regular_file now wallet password_env prompts out A) w)"

record check_report =
  kr_storage :: "ustr \<times> int"
  kr_counts :: "(string \<times> nat) list"
  kr_evidence :: nat

definition check_cmd :: "ustr \<Rightarrow> (workspace, check_report) op" where
  "check_cmd integrity =
     bindM (readM (\<lambda>w. storage_check integrity (ix (ws_node w)))) (\<lambda>r. bindM (liftM r) (\<lambda>st.
     readM (\<lambda>w. \<lparr>kr_storage = st, kr_counts = counts (ix (ws_node w)), kr_evidence = evidence_count (ev (ws_node w))\<rparr>)))"

datatype local_command =
    SyncCmd ustr int | DirectAnchorCmd ustr string "ustr option" | ScanCmd int int | ResolveCmd ustr
  | PackageCmd ustr ustr | ImportPackageCmd ustr | EvidenceAddCmd ustr int | EvidenceFetchCmd ustr ustr "int option" int
  | BackupCmd ustr | ImportCmd ustr | SurvivalExportCmd ustr | SurvivalImportCmd ustr int int

fun run_local :: "toolbox \<Rightarrow> local_command \<Rightarrow> (workspace, unit) op" where
  "run_local T (SyncCmd peer page_size) = ignore (sync_cmd T peer page_size)"
| "run_local T (DirectAnchorCmd file network out) = ignore (direct_anchor_cmd T file network out)"
| "run_local T (ScanCmd start_height max_blocks) = ignore (scan_cmd T start_height max_blocks)"
| "run_local T (ResolveCmd peers_text) = ignore (resolve_cmd T peers_text)"
| "run_local T (PackageCmd bid out) = ignore (package_cmd T bid out)"
| "run_local T (ImportPackageCmd file) = ignore (import_package_cmd T file)"
| "run_local T (EvidenceAddCmd file max_bytes) = ignore (evidence_add_cmd T file max_bytes)"
| "run_local T (EvidenceFetchCmd peer digest expected max_bytes) = ignore (evidence_fetch_cmd T peer digest expected max_bytes)"
| "run_local T (BackupCmd out_dir) = ignore (backup_cmd T out_dir)"
| "run_local T (ImportCmd file) = ignore (import_cmd T file)"
| "run_local T (SurvivalExportCmd out) = ignore (survival_export_cmd T out)"
| "run_local T (SurvivalImportCmd file max_evidence max_metadata) = ignore (survival_import_cmd T file max_evidence max_metadata)"

section \<open>The node stays sound\<close>

definition reads_well :: "toolbox \<Rightarrow> bool" where
  "reads_well T \<longleftrightarrow> parses_well (tb_http T) \<and> (\<forall>b v. tb_loads T b = Some v \<longrightarrow> wf_json v)"

abbreviation sound_workspace :: "env \<Rightarrow> rpc \<Rightarrow> workspace \<Rightarrow> bool" where
  "sound_workspace E R w \<equiv> chain_ok E R (ws_node w)"

lemma local_keeps: "preserves (chain_ok E R) m \<Longrightarrow> preserves (sound_workspace E R) (local m)"
  by (force simp: preserves_def local_def split: prod.splits)

lemma disk_keeps [preserve]:
  "preserves (sound_workspace E R) (atomic_write_json T path v)"
  "preserves (sound_workspace E R) (backup_database T path)"
  "preserves (sound_workspace E R) (survival_export_cmd T out)"
proof -
  show "preserves (sound_workspace E R) (atomic_write_json T path v)"
    unfolding atomic_write_json_def by (rule preserves_update) (auto simp: bindE_eq_Inr)
  show "preserves (sound_workspace E R) (backup_database T path)"
    unfolding backup_database_def by (intro preserve) (auto intro!: preservesI split: sum.splits)
  show "preserves (sound_workspace E R) (survival_export_cmd T out)"
    unfolding survival_export_cmd_def by (intro preserve) (auto intro!: preservesI split: sum.splits)
qed

lemma load_keeps [preserve]: "preserves (sound_workspace E R) (load_json T path)"
  unfolding load_json_def by (intro preserve)

lemma load_wf: "reads_well T \<Longrightarrow> load_json T path w = (Inr v, w') \<Longrightarrow> wf_json v \<and> w' = w"
  by (auto simp: load_json_def reads_well_def system_exit_def bindM_def readM_def liftM_def split: option.splits if_splits)

lemma load_bind:
  assumes "reads_well T" "\<And>v. wf_json v \<Longrightarrow> preserves (sound_workspace E R) (k v)"
  shows "preserves (sound_workspace E R) (bindM (load_json T path) k)"
  by (rule preserves_bind_fact [OF load_keeps]) (use assms load_wf in blast)

lemma chain_ok_on_evidence:
  assumes "preserves (evidence_ok E) m" shows "preserves (chain_ok E R) (on_evidence m)"
proof (rule preservesI)
  fix n assume n: "chain_ok E R n"
  then have "evidence_ok E (snd (m (ev n)))" using assms by (simp add: preserves_def chain_ok_def node_ok_def)
  with n show "chain_ok E R (snd (on_evidence m n))"
    by (cases "m (ev n)") (simp add: on_evidence_def chain_ok_def node_ok_def)
qed

lemma preserves_add_file [preserve]: "preserves (evidence_ok E) (add_file E source m)"
  unfolding add_file_def Let_def
  by (intro preserve preserves_check_bind preserves_update)
    (auto simp: evidence_digest_eq_Inr sha256_hex_def [symmetric] intro!: evidence_ok_put, simp_all add: sha256_hex_def)

lemma chain_ok_import_survival:
  assumes "\<forall>b v. loads b = Some v \<longrightarrow> wf_json v"
  shows "preserves (chain_ok E R) (import_survival_archive E loads archive me mm)"
proof -
  have evidence: "preserves (chain_ok E R) (import_evidence E ms m seen entries)" for ms m seen entries
    by (induction entries arbitrary: seen) (auto intro!: preserve chain_ok_on_evidence)
  have wf: "wf_json snapshot" if "open_archive E loads archive mm = Inr (manifest, snapshot)" for manifest snapshot
    using that assms by (auto simp: open_archive_def survival_error_def bindE_eq_Inr json_loads_def
        split: option.splits if_splits)
  show ?thesis
    unfolding import_survival_archive_def Let_def
    apply (rule preserves_check_bind, rule preserves_prod)
    using wf by (intro preserve evidence) blast
qed

lemma prepare_keeps:
  assumes "reads_well T" "tb_env T = E" "tb_rpc T = R"
  shows "preserves (sound_workspace E R) (prepare_direct T file network out)"
  unfolding prepare_direct_def assms(2,3) by (rule load_bind [OF assms(1)]) (intro preserve local_keeps; assumption)

lemma commands_keep:
  assumes T: "reads_well T" "tb_env T = E" "tb_rpc T = R"
  shows "preserves (sound_workspace E R) (sync_cmd T peer page_size)"
    "preserves (sound_workspace E R) (direct_anchor_cmd T file network package_out)"
    "preserves (sound_workspace E R) (scan_cmd T start_height max_blocks)"
    "preserves (sound_workspace E R) (resolve_cmd T peers_text)"
    "preserves (sound_workspace E R) (package_cmd T bid out)"
    "preserves (sound_workspace E R) (import_package_cmd T file)"
    "preserves (sound_workspace E R) (evidence_add_cmd T file max_bytes)"
    "preserves (sound_workspace E R) (evidence_fetch_cmd T peer digest expected max_bytes)"
    "preserves (sound_workspace E R) (backup_cmd T out)"
    "preserves (sound_workspace E R) (import_cmd T file)"
    "preserves (sound_workspace E R) (survival_import_cmd T file max_evidence max_metadata)"
proof -
  have H: "parses_well (tb_http T)" and loads: "\<forall>b v. tb_loads T b = Some v \<longrightarrow> wf_json v"
    using T(1) by (simp_all add: reads_well_def)
  show "preserves (sound_workspace E R) (sync_cmd T peer page_size)"
    unfolding sync_cmd_def T(2,3) by (intro local_keeps backed.sync_peer_keeps H)
  show "preserves (sound_workspace E R) (scan_cmd T start_height max_blocks)"
    unfolding scan_cmd_def T(2,3) by (intro local_keeps preserve)
  show "preserves (sound_workspace E R) (resolve_cmd T peers_text)"
    unfolding resolve_cmd_def T(2,3) by (intro local_keeps chain_ok_resolve H)
  show "preserves (sound_workspace E R) (package_cmd T bid out)"
    unfolding package_cmd_def by (intro preserve)
  show "preserves (sound_workspace E R) (evidence_add_cmd T file max_bytes)"
    unfolding evidence_add_cmd_def T(2,3) by (intro preserve local_keeps chain_ok_on_evidence)
  show "preserves (sound_workspace E R) (evidence_fetch_cmd T peer digest expected max_bytes)"
    unfolding evidence_fetch_cmd_def T(2,3) by (intro preserve local_keeps chain_ok_on_evidence)
  show "preserves (sound_workspace E R) (backup_cmd T out)"
    unfolding backup_cmd_def Let_def by (intro preserve)
  show "preserves (sound_workspace E R) (survival_import_cmd T file max_evidence max_metadata)"
    unfolding survival_import_cmd_def T(2,3) by (intro preserve local_keeps chain_ok_import_survival loads)
  show "preserves (sound_workspace E R) (import_package_cmd T file)"
    unfolding import_package_cmd_def T(2,3) by (intro load_bind local_keeps preserve T(1))
  show "preserves (sound_workspace E R) (import_cmd T file)"
    unfolding import_cmd_def T(2,3) by (intro load_bind preserve local_keeps T(1))
  show "preserves (sound_workspace E R) (direct_anchor_cmd T file network package_out)"
    unfolding direct_anchor_cmd_def T(2,3) by (intro preserve prepare_keeps [OF T] local_keeps)
qed

lemma run_local_sound:
  assumes T: "reads_well T" "tb_env T = E" "tb_rpc T = R"
  shows "preserves (sound_workspace E R) (run_local T c)"
  using commands_keep [OF T] by (cases c) (auto simp: ignore_def intro: preserve)

section \<open>The package is written first\<close>

text \<open>Operations that make no request leave the count of requests as it was.\<close>

lemma calls_store [preserve]: "preserves (\<lambda>n. calls n = c) (storeM f)"
  unfolding storeM_def by (rule preserves_update) (auto simp: bindE_eq_Inr split: prod.splits)

lemma calls_submit: "preserves (\<lambda>n. calls n = c) (submit_record E policy t r)"
  unfolding submit_record_def by (intro preserve)

lemma calls_direct_batch: "preserves (\<lambda>n. calls n = c) (create_direct_batch E now rid network)"
  unfolding create_direct_batch_def by (intro preserve)

lemma calls_local: "(\<And>c. preserves (\<lambda>n. calls n = c) m) \<Longrightarrow> preserves (\<lambda>w. calls (ws_node w) = c) (local m)"
proof (rule preservesI)
  assume m: "\<And>c. preserves (\<lambda>n. calls n = c) m"
  fix w :: workspace assume "calls (ws_node w) = c"
  with m [of c] show "calls (ws_node (snd (local m w))) = c"
    by (cases "m (ws_node w)") (auto simp: local_def dest: preservesD)
qed

lemma prepare_direct_calls: "preserves (\<lambda>w. calls (ws_node w) = c) (prepare_direct T file network out)"
  unfolding prepare_direct_def load_json_def atomic_write_json_def
  by (intro preserve calls_local calls_submit calls_direct_batch preserves_update) (auto simp: bindE_eq_Inr)

lemma local_run: "local m w = (r, w') \<longleftrightarrow> (\<exists>n. m (ws_node w) = (r, n) \<and> w' = w\<lparr>ws_node := n\<rparr>)"
  by (auto simp: local_def split: prod.splits)

lemma package_for_batch_Some:
  "package_for_batch E s bid = Inr (Some p) \<Longrightarrow> validate_package E p = Inr () \<and> get_batch s bid = Some (dget p ''batch'')"
proof -
  assume "package_for_batch E s bid = Inr (Some p)"
  then obtain b rs where b: "get_batch s bid = Some b" and p: "create_package E b rs = Inr p"
    by (auto simp: package_for_batch_def Let_def bindE_eq_Inr split: option.splits if_splits)
  from create_package_shape [OF p] obtain i sc v q where "validate_package E p = Inr ()"
    "p = dput ''package_id'' i (obj [(''schema'', sc), (''version'', v), (''batch'', b), (''records'', q)])" by blast
  then show ?thesis using b by simp
qed

lemma prepare_direct_run:
  assumes "prepare_direct T file network out w = (Inr (batch, p, written), w')"
  shows "validate_package (tb_env T) p = Inr () \<and> get_batch (ix (ws_node w')) (bid_of batch) = Some (dget p ''batch'')
    \<and> (\<exists>payload. encode_utf8 (tb_pretty T p) = Inr payload \<and> ws_disk w' written = Some payload)"
proof -
  from assms obtain w1 path where p: "package_for_batch (tb_env T) (ix (ws_node w1)) (bid_of batch) = Inr (Some p)"
    and a: "atomic_write_json T path p w1 = (Inr written, w')"
    by (auto simp: prepare_direct_def system_exit_def result_simps split: option.splits)
  from package_for_batch_Some [OF p] a show ?thesis
    by (auto simp: atomic_write_json_def result_simps)
qed

lemma direct_anchor_package_first:
  assumes run: "direct_anchor_cmd T file network out w = (res, w')"
    and ok: "sound_workspace (tb_env T) (tb_rpc T) w" "reads_well T"
    and sent: "calls (ws_node w') \<noteq> calls (ws_node w)"
  shows "\<exists>p path payload. validate_package (tb_env T) p = Inr ()
    \<and> encode_utf8 (tb_pretty T p) = Inr payload \<and> ws_disk w' path = Some payload
    \<and> (\<forall>batch written a fee. res = Inr (batch, written, a, fee) \<longrightarrow>
        written = path \<and> a_batch_id a = bid_of (dget p ''batch''))"
proof -
  obtain r w1 where prep: "prepare_direct T file network out w = (r, w1)" by fastforce
  have same: "calls (ws_node w1) = calls (ws_node w)"
    using preservesD [OF prepare_direct_calls prep, of "calls (ws_node w)"] by simp
  have sound: "sound_workspace (tb_env T) (tb_rpc T) w1"
    by (rule preservesD [OF prepare_keeps [OF ok(2) refl refl] prep ok(1)])
  obtain batch p written where r: "r = Inr (batch, p, written)"
    using run prep same sent by (cases r) (auto simp: direct_anchor_cmd_def bindM_def)
  note facts = prepare_direct_run [OF prep [unfolded r]]
  obtain s n where a: "anchor_batch (tb_env T) (tb_rpc T) (tb_clock T 1)
      (env_bool (tb_environ T) ''HAP_ALLOW_MAINNET'' False) (bid_of batch) (ws_node w1) = (s, n)" by fastforce
  have w': "w' = w1\<lparr>ws_node := n\<rparr>" and res: "res = map_sum id (\<lambda>(a, fee). (batch, written, a, fee)) s"
    using run prep r a by (auto simp: direct_anchor_cmd_def bindM_def local_def liftM_def split: sum.splits)
  have "bid_of (dget p ''batch'') = bid_of batch"
    using get_batch_valid [of "tb_env T"] facts sound by (auto simp: chain_ok_def node_ok_def index_ok_def)
  moreover have "a_batch_id x = bid_of batch" if "s = Inr (x, fee)" for x fee
    using anchor_batch_guarded [OF _ a, of "dget p ''batch''"] facts that by auto
  ultimately show ?thesis using facts unfolding w' res by (cases s) auto
qed

section \<open>Wallet and record files\<close>

text \<open>A wallet file is not overwritten without \<open>--force\<close>, as long as its path needs no expansion: the check
  looks at the path as it is given, the file is written to the expanded one.\<close>

lemma keygen_keeps_wallet:
  assumes "ws_disk w (tb_path T out) = Some old"
  shows "\<exists>e. keygen_cmd T X out False password_env prompts keys salt nonce w = (Inl e, w)"
  using assms by (simp add: keygen_cmd_def keygen_def system_exit_def)

lemma keygen_overwrites:
  assumes "tb_home T out = Inr q" "ws_disk w (tb_path T out) = None" "ws_disk w (tb_path T q) = Some old"
    and "keygen (tb_env T) X False False (wallet_password (tb_environ T) password_env True prompts) keys salt nonce = Inr wallet"
    and "encode_utf8 (tb_pretty T wallet) = Inr new" "\<forall>what path. tb_os_error T what path = None"
  shows "ws_disk (snd (keygen_cmd T X out False password_env prompts keys salt nonce w)) (tb_path T q) = Some new"
  using assms by (simp add: keygen_cmd_def os_step_def atomic_write_json_def home_path_def updateM_def bindM_def liftM_def readM_def
      split: prod.split sum.split)

text \<open>A record that \<open>create\<close> submits has been signed, and written to the file that was asked for.\<close>

lemma created_before_submission:
  assumes "sign_and_write T X regular_file now wallet password_env prompts (Some (c # cs)) A w = (Inr r, w')"
  shows "validate_record (tb_env T) r = Inr ()
    \<and> (\<exists>path payload. home_path T (c # cs) = Inr path \<and> encode_utf8 (tb_pretty T r) = Inr payload
        \<and> ws_disk w' path = Some payload) \<and> ws_node w' = ws_node w"
proof -
  obtain v w1 password path where l: "load_json T wallet w = (Inr v, w1)"
    and r: "create_record (tb_env T) X regular_file now v password A = Inr r"
    and a: "atomic_write_json T (c # cs) r w1 = (Inr path, w')"
    using assms by (auto simp: sign_and_write_def result_simps)
  have "validate_record (tb_env T) r = Inr ()"
    using r by (auto simp: create_record_def result_simps dest: created_fields(4))
  moreover have "w1 = w"
    using l by (auto simp: load_json_def result_simps)
  ultimately show ?thesis using a by (auto simp: atomic_write_json_def result_simps)
qed

end
