(* ===== verification/Release.thy ===== *)
theory Release
  imports Identity Config
begin

text \<open>
  The rest of the release scripts. \<^verbatim>\<open>src/scripts/finalize_public_identity.py\<close>: the command, with its exit
  status. \<^verbatim>\<open>src/scripts/check_publication_markers.py\<close>: the check that a release is finalised.
  \<^verbatim>\<open>src/scripts/package_public_release.py\<close>: the release assets, over the files that git tracks and the answers
  of git, with their manifest and checksums. \<open>json.loads\<close> and \<open>json.dumps(v, indent=2, sort_keys=True)\<close> are
  arguments, and an archive is the list of its members.

  A finalised release passes the check, every packaged file has its line of checksums, and the archive does
  not depend on the order in which git lists the files.
\<close>

section \<open>Finalising\<close>

text \<open>The exit status, and the files that were edited when all edits were made.\<close>

definition finalise :: "case_tables \<Rightarrow> env \<Rightarrow> ustr \<Rightarrow> ustr \<Rightarrow> files \<Rightarrow> nat \<times> files option" where
  "finalise T E pseudonym_arg address_arg fs =
     (case bindE (validate_pseudonym pseudonym_arg) (\<lambda>pseudonym.
        bindE (validate_bitcoin_address T address_arg) (\<lambda>address.
        bindE (replace_markers E pseudonym address fs) (\<lambda>(fs', changed).
        bindE (remaining_markers fs') (\<lambda>remaining. Inr (fs', remaining))))) of
        Inl _ \<Rightarrow> (2, None)
      | Inr (fs', remaining) \<Rightarrow> (if remaining \<noteq> [] then 3 else 0, Some fs'))"

section \<open>The check of a release\<close>

datatype failure = Missing string | Unresolved ustr string | Invalid_manifest | Wrong_identifier | Wrong_content

definition MARKERS :: "ustr list" where
  "MARKERS = [FOUNDER_MARKER, ADDRESS_MARKER, MANIFEST_ID_MARKER]"

definition marker_failures :: "files \<Rightarrow> string \<Rightarrow> failure list" where
  "marker_failures fs p = (case fs p of
     None \<Rightarrow> [Missing p]
   | Some t \<Rightarrow> map (\<lambda>m. Unresolved m p) (filter (contains t) MARKERS))"

definition manifest_failures :: "env \<Rightarrow> (ustr \<Rightarrow> json option) \<Rightarrow> files \<Rightarrow> failure list result" where
  "manifest_failures E loads fs = (case fs MANIFEST_PATH of
     None \<Rightarrow> Inr [Missing MANIFEST_PATH]
   | Some t \<Rightarrow> (case loads t of
       None \<Rightarrow> Inr [Invalid_manifest]
     | Some stored \<Rightarrow>
         bindE (funding_manifest_id E) (\<lambda>expected_id.
         bindE (dict_get stored ''manifest_id'' JNull) (\<lambda>given.
         Inr ((if given \<noteq> JStr expected_id then [Wrong_identifier] else [])
           @ (if \<not> py_eq (dpop ''manifest_id'' stored) canonical_funding_manifest then [Wrong_content] else []))))))"

definition check_publication :: "env \<Rightarrow> (ustr \<Rightarrow> json option) \<Rightarrow> files \<Rightarrow> failure list result" where
  "check_publication E loads fs = bindE (manifest_failures E loads fs) (\<lambda>failures.
     Inr (concat (map (marker_failures fs) TARGETS) @ failures))"

text \<open>\<open>json.loads\<close> reads back what \<open>json.dumps\<close> wrote, with the keys in the order of the text.\<close>

definition reads_back :: "(ustr \<Rightarrow> json option) \<Rightarrow> json \<Rightarrow> bool" where
  "reads_back loads v \<longleftrightarrow> loads (dump_indented v @ [10]) = (case v of JDict d \<Rightarrow> Some (JDict (sort_key fst d)) | _ \<Rightarrow> Some v)"

lemma py_eq_items_iff: "py_eq_items d d' \<longleftrightarrow> (\<forall>(k, v) \<in> set d. \<exists>w. map_of d' k = Some w \<and> py_eq v w)"
  by (induction d) (auto split: option.splits)

lemma sort_empty: "sort xs = [] \<longleftrightarrow> xs = []"
  by (metis length_0_conv length_sort)

lemma all2_member: "list_all2 P xs ys \<Longrightarrow> x \<in> set xs \<Longrightarrow> \<exists>y \<in> set ys. P x y"
  by (induction xs ys rule: list_all2_induct) auto

lemma check_finalised:
  assumes markers: "remaining_markers fs = Inr []"
    and manifest: "funding_manifest_id E = Inr i"
      "fs MANIFEST_PATH = Some (dump_indented (dput ''manifest_id'' (JStr i) canonical_funding_manifest) @ [10])"
    and loads: "reads_back loads (dput ''manifest_id'' (JStr i) canonical_funding_manifest)"
  shows "check_publication E loads fs = Inr []"
proof -
  have none: "marker_failures fs p = []" if p: "p \<in> set TARGETS" for p
  proof -
    obtain texts where texts: "mapE (\<lambda>p. case fs p of None \<Rightarrow> Inl (Exn OtherError ''FileNotFoundError'') | Some t \<Rightarrow> Inr (p, t)) TARGETS = Inr texts"
      and clean: "filter (\<lambda>(p, t). list_ex (contains t) [FOUNDER_MARKER, ADDRESS_MARKER, MANIFEST_ID_MARKER]) texts = []"
      using markers [unfolded remaining_markers_def bindE_eq_Inr] by (elim exE conjE) (drule Inr_inject, simp add: sort_empty)
    obtain x where x: "x \<in> set texts"
      "(case fs p of None \<Rightarrow> Inl (Exn OtherError ''FileNotFoundError'') | Some t \<Rightarrow> Inr (p, t)) = Inr x"
      using all2_member [OF texts [unfolded mapE_eq_Inr] p] by blast
    then obtain t where t: "fs p = Some t" "x = (p, t)" by (auto split: option.splits)
    with x(1) clean have "\<not> list_ex (contains t) MARKERS" by (auto simp: filter_empty_conv MARKERS_def)
    then show ?thesis using t(1) by (simp add: marker_failures_def filter_empty_conv list_ex_iff)
  qed
  define d where "d = map (\<lambda>(k, v). (KStr (str k), v)) [(''schema'', JStr (str ''hap.funding'')), (''version'', JInt 1),
       (''release_version'', JStr RELEASE_VERSION), (''bitcoin_network'', JStr (str ''mainnet'')),
       (''genesis_donation_address'', JStr GENESIS_DONATION_ADDRESS),
       (''purpose'', JStr (str ''voluntary support for open-source HAP development'')),
       (''consensus_effect'', JBool False), (''governance_rights'', JBool False),
       (''protocol_dependency'', JBool False)]"
  let ?id = "KStr (str ''manifest_id'')"
  have canonical: "canonical_funding_manifest = JDict d" by (simp add: canonical_funding_manifest_def obj_def d_def)
  have d: "distinct (map fst d)" "?id \<notin> fst ` set d" "\<forall>(k, v) \<in> set d. (\<exists>s. k = KStr s) \<and> json_depth v = 0 \<and> py_eq v v"
    by (simp_all add: d_def)
  have put: "assoc_put k v d' = d' @ [(k, v)]" if "k \<notin> fst ` set d'" for k v and d' :: "(pkey \<times> json) list"
    using that by (induction d') auto
  define sd where "sd = sort_key fst (d @ [(?id, JStr i)])"
  have sd: "set sd = insert (?id, JStr i) (set d)" "distinct (map fst sd)"
    using d(1,2) by (force simp: sd_def distinct_map inj_on_def)+
  have loaded: "loads (dump_indented (dput ''manifest_id'' (JStr i) canonical_funding_manifest) @ [10]) = Some (JDict sd)"
    using loads unfolding canonical dput.simps put [OF d(2)] reads_back_def sd_def by simp
  have given: "dict_get (JDict sd) ''manifest_id'' JNull = Inr (JStr i)"
    using map_of_is_SomeI [OF sd(2), of ?id "JStr i"] sd(1) by (simp add: dict_get_def)
  have "filter (\<lambda>(k', _). k' \<noteq> ?id) sd = sort_key fst (filter (\<lambda>(k', _). k' \<noteq> ?id) (d @ [(?id, JStr i)]))"
    unfolding sd_def by (simp add: filter_sort)
  also have "filter (\<lambda>(k', _). k' \<noteq> ?id) (d @ [(?id, JStr i)]) = d"
    using d(2) by (force simp: filter_id_conv)
  finally have rest: "dpop ''manifest_id'' (JDict sd) = JDict (sort_key fst d)" by simp
  have "py_eq (JDict (sort_key fst d)) (JDict d)"
    using d(1,3) by (auto simp: py_eq_items_iff dest: map_of_is_SomeI)
  with manifest loaded given rest none show ?thesis
    by (simp add: check_publication_def manifest_failures_def canonical)
qed

lemma finalised_release_passes:
  assumes run: "finalise T E pseudonym address fs = (0, Some fs')"
    and address: "validate_bitcoin_address T address = Inr GENESIS_DONATION_ADDRESS"
    and loads: "\<And>i. reads_back loads (dput ''manifest_id'' (JStr i) canonical_funding_manifest)"
  shows "check_publication E loads fs' = Inr []"
proof -
  obtain p changed where r: "replace_markers E p GENESIS_DONATION_ADDRESS fs = Inr (fs', changed)"
    and m: "remaining_markers fs' = Inr []"
    using run address by (auto simp: finalise_def bindE_eq_Inr split: sum.splits if_splits)
  from replace_markers_manifest [OF r] obtain i where "funding_manifest_id E = Inr i"
    "fs' MANIFEST_PATH = Some (dump_indented (dput ''manifest_id'' (JStr i) canonical_funding_manifest) @ [10])"
    unfolding release_manifest_matches(2) unfolding release_manifest_matches(1) by blast
  then show ?thesis by (rule check_finalised [OF m _ _ loads])
qed

section \<open>The release assets\<close>

text \<open>The calendar of \<open>datetime.fromtimestamp(t, timezone.utc)\<close>, from 1970 on.\<close>

definition leap :: "nat \<Rightarrow> bool" where
  "leap y \<longleftrightarrow> y mod 4 = 0 \<and> (y mod 100 \<noteq> 0 \<or> y mod 400 = 0)"

function split_year :: "nat \<Rightarrow> nat \<Rightarrow> nat \<times> nat" where
  "split_year y days = (let n = (if leap y then 366 else 365) in
     if days < n then (y, days) else split_year (y + 1) (days - n))"
  by pat_completeness auto

termination by (relation "measure snd") (auto simp: Let_def)

declare split_year.simps [simp del]

fun split_month :: "nat list \<Rightarrow> nat \<Rightarrow> nat \<Rightarrow> nat \<times> nat" where
  "split_month [] m days = (m, days)"
| "split_month (n # ns) m days = (if days < n then (m, days) else split_month ns (m + 1) (days - n))"

definition month_lengths :: "nat \<Rightarrow> nat list" where
  "month_lengths y = [31, if leap y then 29 else 28, 31, 30, 31, 30, 31, 31, 30, 31, 30, 31]"

definition zip_datetime :: "nat \<Rightarrow> nat \<times> nat \<times> nat \<times> nat \<times> nat \<times> nat" where
  "zip_datetime epoch =
     (case split_year 1970 (epoch div 86400) of (y, days) \<Rightarrow>
      case split_month (month_lengths y) 1 days of (m, d) \<Rightarrow>
      let s = epoch mod 86400 in
      (max 1980 y, m, d + 1, s div 3600, s mod 3600 div 60, s mod 60 div 2 * 2))"

text \<open>A file with its mode; a tree of files, by path.\<close>

type_synonym tree = "(ustr \<times> bytes \<times> nat) list"

definition by_path :: "tree \<Rightarrow> tree" where
  "by_path t = sort_key (\<lambda>(p, _). split_on 47 p) t"

definition file_name :: "ustr \<Rightarrow> ustr" where
  "file_name p = last (split_on 47 p)"

fun put_entry :: "ustr \<Rightarrow> bytes \<times> nat \<Rightarrow> tree \<Rightarrow> tree" where
  "put_entry p f [] = [(p, f)]"
| "put_entry p f ((q, g) # t) = (if p = q then (p, f) # t else (q, g) # put_entry p f t)"

record repo_state =
  rp_status :: ustr
  rp_head :: ustr
  rp_tag :: "ustr option"
  rp_tracked :: tree
  rp_wheels :: tree
  rp_epoch :: nat
  rp_bundle :: "bytes option"
  rp_new_mode :: nat

record zip_member =
  zm_name :: ustr
  zm_date :: "nat \<times> nat \<times> nat \<times> nat \<times> nat \<times> nat"
  zm_mode :: nat
  zm_data :: bytes

definition release_manifest :: "env \<Rightarrow> ustr \<Rightarrow> ustr \<Rightarrow> tree \<Rightarrow> json" where
  "release_manifest E version head t =
     obj [(''schema'', JStr (str ''hap.release-manifest'')), (''version'', JInt 1),
       (''release_version'', JStr version), (''git_commit'', JStr head),
       (''files'', JList (map (\<lambda>(p, data, _). obj [(''path'', JStr p), (''sha256'', JStr (sha256_hex E data)),
          (''size_bytes'', JInt (int (length data)))]) (by_path t)))]"

definition sum_lines :: "env \<Rightarrow> tree \<Rightarrow> ustr list" where
  "sum_lines E t = map (\<lambda>(p, data, _). sha256_hex E data @ str ''  '' @ p)
     (filter (\<lambda>(p, _). file_name p \<noteq> str ''SHA256SUMS'') (by_path t))"

text \<open>\<open>write_text\<close>: a file that exists keeps its mode, a new one has the mode that the file system gives it.\<close>

definition write_entry :: "nat \<Rightarrow> ustr \<Rightarrow> bytes \<Rightarrow> tree \<Rightarrow> tree" where
  "write_entry new_mode p data t =
     put_entry p (data, case map_of t p of Some (_, mode) \<Rightarrow> mode | None \<Rightarrow> new_mode) t"

text \<open>The staged files: those that git tracks, the wheel, the manifest and the checksums, each written over a
  file of the same path.\<close>

definition stage_files :: "env \<Rightarrow> (json \<Rightarrow> ustr) \<Rightarrow> ustr \<Rightarrow> repo_state \<Rightarrow> ustr \<times> bytes \<times> nat \<Rightarrow> tree result" where
  "stage_files E dump version P wheel =
     (case wheel of (wheel_name, wheel_file) \<Rightarrow>
      let t = put_entry (str ''dist/'' @ wheel_name) wheel_file (foldl (\<lambda>t (p, f). put_entry p f t) [] (rp_tracked P)) in
      bindE (encode_utf8 (dump (release_manifest E version (rp_head P) t) @ [10])) (\<lambda>manifest.
      let t = write_entry (rp_new_mode P) (str ''RELEASE_MANIFEST.json'') manifest t in
      bindE (encode_utf8 (join [10] (sum_lines E t) @ [10])) (\<lambda>sums.
      Inr (write_entry (rp_new_mode P) (str ''SHA256SUMS'') sums t))))"

definition zip_members :: "ustr \<Rightarrow> nat \<Rightarrow> tree \<Rightarrow> zip_member list" where
  "zip_members prefix epoch t = map (\<lambda>(p, data, mode). \<lparr>zm_name = prefix @ [47] @ p, zm_date = zip_datetime epoch,
     zm_mode = mode mod 65536, zm_data = data\<rparr>) (by_path t)"

definition release_error :: "string \<Rightarrow> 'a result" where
  "release_error m = Inl (Exn OtherError m)"

text \<open>The assets: the members of the archive, the wheel and the bundle. \<open>SystemExit\<close> is an \<open>OtherError\<close>, and so is
  the error of a git command that fails: \<open>git rev-parse\<close> where the tag does not exist, and \<open>git bundle\<close>,
  after the archive and the wheel are written, where the branch \<open>main\<close> does not exist.\<close>

definition package_release ::
  "env \<Rightarrow> (json \<Rightarrow> ustr) \<Rightarrow> ustr \<Rightarrow> repo_state \<Rightarrow> (zip_member list \<times> (ustr \<times> bytes \<times> nat) \<times> bytes) result" where
  "package_release E dump version P =
     (if rp_status P \<noteq> [] then release_error ''repository must be clean before packaging''
      else case rp_tag P of
        None \<Rightarrow> release_error ''CalledProcessError: git rev-parse''
      | Some tagged \<Rightarrow>
      if rp_head P \<noteq> tagged then release_error ''the tag must point to HEAD before packaging''
      else case rp_wheels P of
        [wheel] \<Rightarrow> bindE (stage_files E dump version P wheel) (\<lambda>t.
          case rp_bundle P of
            None \<Rightarrow> release_error ''CalledProcessError: git bundle''
          | Some bundle \<Rightarrow>
              Inr (zip_members (str ''history-anchor-protocol-v'' @ version) (rp_epoch P) t, wheel, bundle))
      | _ \<Rightarrow> release_error ''exactly one built wheel is required in dist/'')"

text \<open>The checksums of the assets, given the bytes of the archive: one file for each, and one with all.\<close>

definition asset_sums :: "env \<Rightarrow> (ustr \<times> bytes) list \<Rightarrow> (ustr \<times> ustr) list \<times> ustr" where
  "asset_sums E assets =
     (let ls = map (\<lambda>(name, data). sha256_hex E data @ str ''  '' @ name) assets in
      (zip (map (\<lambda>(name, _). name @ str ''.sha256'') assets) (map (\<lambda>l. l @ [10]) ls), join [10] ls @ [10]))"

section \<open>The assets are complete and reproducible\<close>

lemma zip_date_even: "zip_datetime e = (y, m, d, h, mi, sec) \<Longrightarrow> 1980 \<le> y \<and> h < 24 \<and> mi < 60 \<and> sec < 60 \<and> even sec"
proof -
  assume "zip_datetime e = (y, m, d, h, mi, sec)"
  then have "y = max 1980 (fst (split_year 1970 (e div 86400)))" "h = e mod 86400 div 3600"
    "mi = e mod 86400 mod 3600 div 60" "sec = e mod 86400 mod 60 div 2 * 2"
    by (auto simp: zip_datetime_def Let_def split: prod.splits)
  moreover have "e mod 86400 div 3600 < 24" "e mod 86400 mod 3600 div 60 < 60" "e mod 86400 mod 60 div 2 * 2 < 60"
    by (simp_all add: div_less_iff_less_mult less_mult_imp_div_less) linarith?
  ultimately show ?thesis by simp
qed

lemma put_entry_map: "map_of (put_entry p f t) = (map_of t)(p \<mapsto> f)"
  by (induction p f t rule: put_entry.induct) auto

lemma put_entry_distinct: "distinct (map fst t) \<Longrightarrow> distinct (map fst (put_entry p f t))"
proof (induction p f t rule: put_entry.induct)
  case (2 p f q g t)
  have "fst ` set (put_entry p f t) = insert p (fst ` set t)" for t :: tree
    by (induction p f t rule: put_entry.induct) auto
  with 2 show ?case by auto
qed simp

lemma put_all: "map_of (foldl (\<lambda>t (p, f). put_entry p f t) t0 t) = map_of t0 ++ map_of (rev t)"
  by (induction t arbitrary: t0) (auto simp: put_entry_map)

lemma put_all_distinct: "distinct (map fst t0) \<Longrightarrow> distinct (map fst (foldl (\<lambda>t (p, f). put_entry p f t) t0 t))"
  by (induction t arbitrary: t0) (auto simp: put_entry_distinct)

lemma split_on_nonempty [simp]: "split_on c s \<noteq> []"
  by (induction s) (auto split: list.split)

lemma split_on_inject: "split_on c s = split_on c t \<Longrightarrow> s = t"
proof -
  have "join [c] (split_on c s) = s" for s
  proof (induction s)
    case (Cons d s)
    then show ?case by (cases "split_on c s"; cases "tl (split_on c s)") auto
  qed simp
  then show "split_on c s = split_on c t \<Longrightarrow> s = t" by metis
qed

lemma by_path_unique:
  assumes "distinct (map fst t)" "distinct (map fst t')" "map_of t = map_of t'"
  shows "by_path t = by_path t'"
proof -
  let ?f = "\<lambda>(p, _ :: bytes \<times> nat). split_on 47 p"
  have same: "set t = set t'" using map_of_inject_set [OF assms(1,2)] assms(3) by simp
  have inj: "inj_on ?f (set u)" if "distinct (map fst u)" for u :: tree
    using that by (intro inj_onI) (auto dest!: split_on_inject dest: eq_key_imp_eq_value)
  have dist: "distinct (map ?f u)" if "distinct (map fst u)" for u :: tree
    using inj [OF that] that by (simp add: distinct_map)
  have perm: "distinct (map ?f (sort_key ?f u))" if "distinct (map fst u)" for u :: tree
    using dist [OF that] by (simp add: distinct_map)
  show ?thesis unfolding by_path_def
    by (rule map_sorted_distinct_set_unique [of ?f]) (use inj [OF assms(1)] same perm assms in simp_all)
qed

text \<open>Two trees with the same files.\<close>

definition same_tree :: "tree \<Rightarrow> tree \<Rightarrow> bool" where
  "same_tree t t' \<longleftrightarrow> distinct (map fst t) \<and> distinct (map fst t') \<and> map_of t = map_of t'"

lemma same_tree_put: "same_tree t t' \<Longrightarrow> same_tree (put_entry p f t) (put_entry p f t')"
  by (simp add: same_tree_def put_entry_map put_entry_distinct)

lemma same_tree_write: "same_tree t t' \<Longrightarrow> same_tree (write_entry m p data t) (write_entry m p data t')"
  unfolding write_entry_def by (simp add: same_tree_put same_tree_def [of t])

lemma same_tree_path: "same_tree t t' \<Longrightarrow> by_path t = by_path t'"
  by (simp add: same_tree_def by_path_unique)

lemma stage_files_order:
  assumes "distinct (map fst (rp_tracked P))" "distinct (map fst ts)" "set (rp_tracked P) = set ts"
  shows "rel_sum (=) same_tree (stage_files E dump version P wheel) (stage_files E dump version (P\<lparr>rp_tracked := ts\<rparr>) wheel)"
proof -
  obtain name f where w: "wheel = (name, f)" by (cases wheel)
  define t where "t ts = put_entry (str ''dist/'' @ name) f (foldl (\<lambda>t (p, f). put_entry p f t) [] ts)" for ts :: tree
  have "map_of (rev ts) = map_of ts" if "distinct (map fst ts)" for ts :: tree
    using that by (metis distinct_rev map_of_inject_set rev_map set_rev)
  then have base: "same_tree (t (rp_tracked P)) (t ts)"
    using assms map_of_inject_set [OF assms(1,2)] unfolding t_def
    by (intro same_tree_put) (simp add: same_tree_def put_all put_all_distinct)
  have manifest: "release_manifest E version (rp_head P) (t ts) = release_manifest E version (rp_head P) (t (rp_tracked P))"
    using same_tree_path [OF base] by (simp add: release_manifest_def)
  have sums: "sum_lines E (write_entry m p g (t ts)) = sum_lines E (write_entry m p g (t (rp_tracked P)))" for m p g
    using same_tree_path [OF same_tree_write [OF base]] by (simp add: sum_lines_def)
  note unfold = stage_files_def w prod.case Let_def repo_state.simps t_def [symmetric] manifest sums
  show ?thesis
  proof (cases "encode_utf8 (dump (release_manifest E version (rp_head P) (t (rp_tracked P))) @ [10])")
    case (Inl e)
    then show ?thesis unfolding unfold by (simp add: manifest)
  next
    case m: (Inr m)
    show ?thesis
    proof (cases "encode_utf8 (join [10] (sum_lines E (write_entry (rp_new_mode P) (str ''RELEASE_MANIFEST.json'') m (t (rp_tracked P)))) @ [10])")
      case (Inl e)
      then show ?thesis unfolding unfold by (simp add: manifest m sums)
    next
      case (Inr s)
      then show ?thesis unfolding unfold by (simp add: manifest m sums same_tree_write base)
    qed
  qed
qed

text \<open>The assets do not depend on the order in which git lists the files.\<close>

lemma release_reproducible:
  assumes "distinct (map fst (rp_tracked P))" "distinct (map fst ts)" "set (rp_tracked P) = set ts"
  shows "package_release E dump version (P\<lparr>rp_tracked := ts\<rparr>) = package_release E dump version P"
proof -
  have same: "bindE (stage_files E dump version (P\<lparr>rp_tracked := ts\<rparr>) wheel) (\<lambda>t. k (zip_members prefix epoch t))
      = bindE (stage_files E dump version P wheel) (\<lambda>t. k (zip_members prefix epoch t))"
    for wheel prefix epoch and k :: "zip_member list \<Rightarrow> (zip_member list \<times> (ustr \<times> bytes \<times> nat) \<times> bytes) result"
    using stage_files_order [OF assms, of E dump version wheel]
    by (auto simp: zip_members_def dest!: same_tree_path elim!: rel_sum.cases)
  show ?thesis
  proof (cases "rp_bundle P")
    case None
    then show ?thesis
      using same [where k = "\<lambda>_. release_error ''CalledProcessError: git bundle''"]
      by (simp add: package_release_def split: list.split option.split)
  next
    case (Some b)
    have "bindE (stage_files E dump version (P\<lparr>rp_tracked := ts\<rparr>) w) (\<lambda>t. Inr (zip_members prefix epoch t, w, b))
        = bindE (stage_files E dump version P w) (\<lambda>t. Inr (zip_members prefix epoch t, w, b))" for w prefix epoch
      by (rule same)
    with Some show ?thesis by (simp add: package_release_def split: list.split option.split)
  qed
qed

text \<open>Every packaged file has its line of checksums.\<close>

lemma put_entry_set: "x \<in> set (put_entry p f t) \<Longrightarrow> x = (p, f) \<or> x \<in> set t"
  by (induction p f t rule: put_entry.induct) (auto split: if_splits)

lemma stage_sums:
  assumes "stage_files E dump version P wheel = Inr t"
  shows "\<exists>ls sums. encode_utf8 (join [10] ls @ [10]) = Inr sums
    \<and> (\<exists>mode. (str ''SHA256SUMS'', sums, mode) \<in> set t)
    \<and> (\<forall>(p, data, mode) \<in> set t. file_name p \<noteq> str ''SHA256SUMS'' \<longrightarrow> sha256_hex E data @ str ''  '' @ p \<in> set ls)"
proof -
  obtain name f where w: "wheel = (name, f)" by (cases wheel)
  obtain t1 sums where sums: "encode_utf8 (join [10] (sum_lines E t1) @ [10]) = Inr sums"
    and t: "t = write_entry (rp_new_mode P) (str ''SHA256SUMS'') sums t1"
    using assms by (auto simp: stage_files_def w Let_def bindE_eq_Inr)
  have "file_name (str ''SHA256SUMS'') = str ''SHA256SUMS''" by (simp add: file_name_def str_def)
  then have "\<forall>(p, data, mode) \<in> set t. file_name p \<noteq> str ''SHA256SUMS'' \<longrightarrow>
      sha256_hex E data @ str ''  '' @ p \<in> set (sum_lines E t1)"
    unfolding t by (auto simp: write_entry_def sum_lines_def by_path_def image_iff dest!: put_entry_set)
  moreover have "\<exists>mode. (str ''SHA256SUMS'', sums, mode) \<in> set t"
    unfolding t write_entry_def by (rule exI, rule map_of_SomeD) (simp add: put_entry_map)
  ultimately show ?thesis using sums by blast
qed

lemma release_sums:
  assumes "package_release E dump version P = Inr (ms, wheel, bundle)"
  shows "\<exists>ls sums. encode_utf8 (join [10] ls @ [10]) = Inr sums
    \<and> (\<exists>m \<in> set ms. zm_name m = str ''history-anchor-protocol-v'' @ version @ [47] @ str ''SHA256SUMS'' \<and> zm_data m = sums)
    \<and> (\<forall>m \<in> set ms. \<exists>p. zm_name m = str ''history-anchor-protocol-v'' @ version @ [47] @ p
        \<and> (file_name p \<noteq> str ''SHA256SUMS'' \<longrightarrow> sha256_hex E (zm_data m) @ str ''  '' @ p \<in> set ls))"
proof -
  obtain t where t: "stage_files E dump version P wheel = Inr t"
    and ms: "ms = zip_members (str ''history-anchor-protocol-v'' @ version) (rp_epoch P) t"
    using assms by (auto simp: package_release_def release_error_def bindE_eq_Inr split: if_splits list.splits option.splits)
  from stage_sums [OF t] obtain ls sums where "encode_utf8 (join [10] ls @ [10]) = Inr sums"
    and own: "\<exists>mode. (str ''SHA256SUMS'', sums, mode) \<in> set t"
    and lines: "\<forall>(p, data, mode) \<in> set t. file_name p \<noteq> str ''SHA256SUMS'' \<longrightarrow> sha256_hex E data @ str ''  '' @ p \<in> set ls"
    by blast
  moreover have "\<exists>m \<in> set ms. zm_name m = str ''history-anchor-protocol-v'' @ version @ [47] @ str ''SHA256SUMS'' \<and> zm_data m = sums"
    using own unfolding ms zip_members_def by (force simp: by_path_def)
  moreover have "\<forall>m \<in> set ms. \<exists>p. zm_name m = str ''history-anchor-protocol-v'' @ version @ [47] @ p
        \<and> (file_name p \<noteq> str ''SHA256SUMS'' \<longrightarrow> sha256_hex E (zm_data m) @ str ''  '' @ p \<in> set ls)"
    using lines unfolding ms zip_members_def by (fastforce simp: by_path_def)
  ultimately show ?thesis by blast
qed

lemma package_release_no_bundle: "\<exists>e. package_release E dump version (P\<lparr>rp_bundle := None\<rparr>) = Inl e"
  by (auto simp: package_release_def release_error_def bindE_def split: sum.split list.split option.split)

text \<open>A clean repository whose tag is at its head and that has one wheel is packaged, when the paths of its files
  can be encoded and the bundle can be made.\<close>

lemma text_encoded: "encodable s \<Longrightarrow> \<exists>bs. encode_utf8 s = Inr bs"
  using utf8_encodable [of s] by (auto simp: encode_utf8_def)

lemma sum_lines_encoded:
  assumes "\<forall>(p, _) \<in> set t. encodable p"
  shows "\<exists>bs. encode_utf8 (join [10] (sum_lines E t) @ [10]) = Inr bs"
proof -
  have hex: "encodable (sha256_hex E data)" for data
    by (simp add: sha256_hex_def)
  have "encodable (join [10] (sum_lines E t))"
    using assms hex by (intro encodable_join) (auto simp: sum_lines_def by_path_def)
  then show ?thesis by (intro text_encoded) simp
qed

lemma package_release_total:
  assumes "rp_status P = []" "rp_tag P = Some (rp_head P)" "rp_wheels P = [wheel]"
    and "\<forall>(p, _) \<in> set (rp_tracked P). encodable p" "encodable (fst wheel)" "\<forall>v. encodable (dump v)"
    and "rp_bundle P = Some bundle"
  shows "\<exists>ms. package_release E dump version P = Inr (ms, wheel, bundle)"
proof -
  obtain name f where w: "wheel = (name, f)" by (cases wheel)
  define t0 where "t0 = put_entry (str ''dist/'' @ name) f (foldl (\<lambda>t (p, f). put_entry p f t) [] (rp_tracked P))"
  have all: "\<forall>(p, _) \<in> set (foldl (\<lambda>t (p, f). put_entry p f t) u ts). encodable p"
    if "\<forall>(p, _) \<in> set u. encodable p" "\<forall>(p, _) \<in> set ts. encodable p" for u ts :: tree
    using that
  proof (induction ts arbitrary: u)
    case (Cons x ts)
    obtain p f where x: "x = (p, f)" by (cases x)
    have "\<forall>(q, _) \<in> set (put_entry p f u). encodable q" using Cons.prems x by (auto dest!: put_entry_set)
    from Cons.IH [OF this] Cons.prems(2) x show ?case by simp
  qed simp
  have t0: "\<forall>(p, _) \<in> set t0. encodable p"
    using all [of "[]" "rp_tracked P"] assms(4,5) w by (auto simp: t0_def dest!: put_entry_set)
  obtain m where m: "encode_utf8 (dump (release_manifest E version (rp_head P) t0) @ [10]) = Inr m"
    using text_encoded [of "dump (release_manifest E version (rp_head P) t0) @ [10]"] assms(6) by auto
  have "\<forall>(p, _) \<in> set (write_entry (rp_new_mode P) (str ''RELEASE_MANIFEST.json'') m t0). encodable p"
    using t0 by (auto simp: write_entry_def dest!: put_entry_set)
  from sum_lines_encoded [OF this, of E] m show ?thesis
    using assms(1-3,7) by (auto simp: package_release_def stage_files_def w Let_def t0_def [symmetric])
qed

end
