(* ===== verification/RpcConfig.thy ===== *)
theory RpcConfig
  imports Bitcoin Config
begin

text \<open>
  \<^verbatim>\<open>src/hap/bitcoin.py\<close>, the construction of the RPC client: its address with the wallet, the credentials
  from variables, files or the cookie of Bitcoin Core, and the maximal fee. \<open>urllib.parse.quote\<close> with no
  safe characters is written out; \<open>float\<close> on strings and the expansion of a home directory are arguments.

  The name of a wallet is one segment of the path, whatever characters it has, and different names give
  different addresses.
\<close>

section \<open>Quoting\<close>

definition unreserved :: "nat \<Rightarrow> bool" where
  "unreserved c \<longleftrightarrow> (65 \<le> c \<and> c \<le> 90) \<or> (97 \<le> c \<and> c \<le> 122) \<or> is_digit c \<or> c \<in> {95, 46, 45, 126}"

definition upper_hex :: "nat \<Rightarrow> nat" where
  "upper_hex n = (if n < 10 then 48 + n else 55 + n)"

definition quote_byte :: "byte \<Rightarrow> ustr" where
  "quote_byte b = (if unreserved (unat b) then [unat b] else [37, upper_hex (unat b div 16), upper_hex (unat b mod 16)])"

definition quote :: "ustr \<Rightarrow> ustr result" where
  "quote s = bindE (encode_utf8 s) (\<lambda>bs. Inr (concat (map quote_byte bs)))"

section \<open>The client\<close>

record rpc_client =
  rc_url :: ustr
  rc_auth :: "(ustr \<times> ustr) option"
  rc_max_fee :: pyfloat

definition strip_slashes :: "ustr \<Rightarrow> ustr" where
  "strip_slashes s = rev (dropWhile (\<lambda>c. c = 47) (rev s))"

definition wallet_url :: "ustr \<Rightarrow> ustr option \<Rightarrow> ustr result" where
  "wallet_url url wallet = (case wallet of
     Some (c # cs) \<Rightarrow> bindE (quote (c # cs)) (\<lambda>q. Inr (strip_slashes url @ str ''/wallet/'' @ q))
   | _ \<Rightarrow> Inr (strip_slashes url))"

definition make_client :: "ustr \<Rightarrow> ustr option \<Rightarrow> ustr option \<Rightarrow> ustr option \<Rightarrow> pyfloat \<Rightarrow> rpc_client result" where
  "make_client url username password wallet max_fee =
     bindE (wallet_url url wallet) (\<lambda>u.
     Inr \<lparr>rc_url = u, rc_auth = (case (username, password) of (Some n, Some p) \<Rightarrow> Some (n, p) | _ \<Rightarrow> None),
       rc_max_fee = max_fee\<rparr>)"

text \<open>A credential: the content of the file if one is named, the variable otherwise.\<close>

definition credential :: "(ustr \<Rightarrow> ustr result) \<Rightarrow> environ \<Rightarrow> string \<Rightarrow> string \<Rightarrow> string \<Rightarrow> ustr option result" where
  "credential home V name file_name failure = (case env_var V file_name of
     Some (c # cs) \<Rightarrow> (case bindE (home (c # cs)) (read_text V) of
         Inl _ \<Rightarrow> rpc_error failure
       | Inr t \<Rightarrow> Inr (Some (py_strip t)))
   | _ \<Rightarrow> Inr (env_var V name))"

text \<open>\<open>text.strip().split(":", 1)\<close> into two parts.\<close>

definition cookie :: "(ustr \<Rightarrow> ustr result) \<Rightarrow> environ \<Rightarrow> ustr \<Rightarrow> (ustr \<times> ustr) result" where
  "cookie home V path = (case bindE (home path) (read_text V) of
     Inl _ \<Rightarrow> rpc_error ''could not read Bitcoin Core cookie file''
   | Inr t \<Rightarrow> let s = py_strip t; username = takeWhile (\<lambda>c. c \<noteq> 58) s in
       if 58 \<in> set s then Inr (username, drop (length username + 1) s)
       else rpc_error ''could not read Bitcoin Core cookie file'')"

definition client_from_environment :: "(ustr \<Rightarrow> pyfloat option) \<Rightarrow> (ustr \<Rightarrow> ustr result) \<Rightarrow> environ \<Rightarrow> rpc_client result" where
  "client_from_environment to_float home V = (case env_var V ''HAP_BITCOIN_RPC_URL'' of
     Some (c # cs) \<Rightarrow>
       bindE (credential home V ''HAP_BITCOIN_RPC_USER'' ''HAP_BITCOIN_RPC_USER_FILE''
         ''could not read Bitcoin Core RPC username file'') (\<lambda>username.
       bindE (credential home V ''HAP_BITCOIN_RPC_PASSWORD'' ''HAP_BITCOIN_RPC_PASSWORD_FILE''
         ''could not read Bitcoin Core RPC password file'') (\<lambda>password.
       bindE (case env_var V ''HAP_BITCOIN_COOKIE_FILE'' of
           Some (d # ds) \<Rightarrow> bindE (cookie home V (d # ds)) (\<lambda>(n, p). Inr (Some n, Some p))
         | _ \<Rightarrow> Inr (username, password)) (\<lambda>(n, p).
       bindE (case to_float (env_get V ''HAP_MAX_ANCHOR_FEE_BTC'' ''0.001'') of
           Some f \<Rightarrow> Inr f | None \<Rightarrow> Inl (Exn ValueError ''could not convert string to float'')) (\<lambda>max_fee.
       make_client (c # cs) n p (env_var V ''HAP_BITCOIN_RPC_WALLET'') max_fee))))
   | _ \<Rightarrow> rpc_error ''HAP_BITCOIN_RPC_URL is not configured'')"

section \<open>The address\<close>

text \<open>Reading a quoted text back, byte by byte.\<close>

definition unhex :: "nat \<Rightarrow> nat" where
  "unhex c = (if c < 65 then c - 48 else c - 55)"

fun unquote_bytes :: "ustr \<Rightarrow> nat list" where
  "unquote_bytes (c # h # l # s) =
     (if c = 37 then (16 * unhex h + unhex l) # unquote_bytes s else c # unquote_bytes (h # l # s))"
| "unquote_bytes s = s"

lemma unhex_upper [simp]: "n < 16 \<Longrightarrow> unhex (upper_hex n) = n"
  by (auto simp: unhex_def upper_hex_def)

lemma unquote_plain: "c \<noteq> 37 \<Longrightarrow> unquote_bytes (c # s) = c # unquote_bytes s"
  by (cases s; cases "tl s") auto

lemma unquote_quote: "unquote_bytes (concat (map quote_byte bs)) = map unat bs"
proof (induction bs)
  case (Cons b bs)
  have "unat b div 16 < 16" using unat_byte_less [of b] by simp
  then have "16 * unhex (upper_hex (unat b div 16)) + unhex (upper_hex (unat b mod 16)) = unat b" by simp
  then show ?case using Cons
    by (simp add: quote_byte_def unquote_plain unreserved_def is_digit_def)
qed simp

lemma quote_inject: "quote s = Inr q \<Longrightarrow> quote t = Inr q \<Longrightarrow> s = t"
proof -
  assume "quote s = Inr q" "quote t = Inr q"
  then obtain bs cs where u: "encode_utf8 s = Inr bs" "encode_utf8 t = Inr cs"
    and "concat (map quote_byte bs) = concat (map quote_byte cs)"
    by (auto simp: quote_def bindE_eq_Inr)
  then have "map unat bs = map unat cs" using unquote_quote by metis
  then have "bs = cs" by (metis injI inj_map_eq_map word_unat_eq_iff)
  with u show "s = t" using encode_utf8_inject [of s bs t] by simp
qed

lemma unreserved_hex: "n < 16 \<Longrightarrow> unreserved (upper_hex n)"
  by (auto simp: unreserved_def upper_hex_def is_digit_def)

lemma quote_byte_chars: "c \<in> set (quote_byte b) \<Longrightarrow> unreserved c \<or> c = 37"
proof -
  have "unat b div 16 < 16" "unat b mod 16 < 16" using unat_byte_less [of b] by simp_all
  then show "c \<in> set (quote_byte b) \<Longrightarrow> unreserved c \<or> c = 37"
    using unreserved_hex by (auto simp: quote_byte_def split: if_splits)
qed

lemma quote_segment: "quote s = Inr q \<Longrightarrow> c \<in> set q \<Longrightarrow> unreserved c \<or> c = 37"
  by (auto simp: quote_def bindE_eq_Inr dest!: quote_byte_chars)

lemma wallet_urls_differ:
  assumes "wallet_url url (Some v) = Inr u" "wallet_url url (Some w) = Inr u" "v \<noteq> []" "w \<noteq> []"
  shows "v = w \<and> (\<exists>q. u = strip_slashes url @ str ''/wallet/'' @ q \<and> 47 \<notin> set q \<and> 63 \<notin> set q \<and> 35 \<notin> set q)"
proof -
  obtain q where q: "quote v = Inr q" "quote w = Inr q" "u = strip_slashes url @ str ''/wallet/'' @ q"
    using assms by (cases v; cases w) (auto simp: wallet_url_def bindE_eq_Inr)
  have "47 \<notin> set q" "63 \<notin> set q" "35 \<notin> set q"
    using quote_segment [OF q(1), of 47] quote_segment [OF q(1), of 63] quote_segment [OF q(1), of 35]
    by (auto simp: unreserved_def is_digit_def)
  with q quote_inject show ?thesis by blast
qed

text \<open>The cookie takes the place of the other credentials.\<close>

lemma cookie_wins:
  assumes "client_from_environment to_float home V = Inr C" "env_var V ''HAP_BITCOIN_COOKIE_FILE'' = Some path" "path \<noteq> []"
  shows "\<exists>n p. cookie home V path = Inr (n, p) \<and> rc_auth C = Some (n, p) \<and> 58 \<notin> set n"
proof -
  obtain c cs where url: "env_var V ''HAP_BITCOIN_RPC_URL'' = Some (c # cs)"
    using assms(1) by (auto simp: client_from_environment_def rpc_error_def split: option.splits list.splits)
  obtain d ds where path: "path = d # ds" using assms(3) by (cases path) auto
  then have jar: "env_var V ''HAP_BITCOIN_COOKIE_FILE'' = Some (d # ds)" using assms(2) by simp
  obtain k where k: "cookie home V (d # ds) = Inr k"
    using assms(1) unfolding client_from_environment_def url jar
    by (cases "cookie home V (d # ds)") (auto simp: bindE_eq_Inr)
  obtain n p where np: "k = (n, p)" by (cases k)
  have "rc_auth C = Some (n, p)"
    using assms(1) k np unfolding client_from_environment_def url jar
    by (auto simp: bindE_eq_Inr make_client_def)
  then have "cookie home V path = Inr (n, p)" "rc_auth C = Some (n, p)" using path k np by simp_all
  moreover have "58 \<notin> set n"
    using k np by (auto simp: cookie_def Let_def dest: set_takeWhileD split: sum.splits if_splits)
  ultimately show ?thesis by blast
qed

end
