(* ===== verification/Lifecycle.thy ===== *)
theory Lifecycle
  imports ApiFacts Schema
begin

text \<open>
  \<^verbatim>\<open>src/hap/api.py\<close>, the lifetime of an application: the background tasks that \<open>lifespan\<close> starts, the loop
  \<open>periodic\<close> of each of them, and the shutdown. A \<open>server\<close> is the app with its tasks, the threads in which
  their actions run, the event \<open>stop\<close> and whether the service is open. The event loop is a step relation:
  a task is about to work, has an action in a thread, waits, or has ended or failed, and requests are
  handled in between. What an action does to the node and a request are one step each; \<open>wait_for\<close> may
  time out at any step. A thread goes on after its task is cancelled, and even after the database is
  closed, when every access to it raises; that a database is closed in the middle of an action is
  not modelled.

  The tasks do what their configuration says, no exception makes a task fail, every task can run its
  action again until the shutdown, and the node stays sound whatever the tasks and requests do.
\<close>

section \<open>Tasks\<close>

datatype task = Peer_sync | Bitcoin_scan | Package_resolution

text \<open>\<open>Ended\<close>: cancelled, or out of the loop. \<open>Failed\<close>: an exception has left \<open>periodic\<close>.\<close>

datatype phase = Ready | Working | Waiting | Ended | Failed

definition background_tasks :: "settings \<Rightarrow> task list" where
  "background_tasks S =
     (if peers S \<noteq> [] \<and> 0 < sync_interval_seconds S then [Peer_sync] else [])
     @ (if 0 < bitcoin_scan_interval_seconds S then [Bitcoin_scan] else [])
     @ (if peers S \<noteq> [] \<and> 0 < resolve_interval_seconds S then [Package_resolution] else [])"

fun action :: "task \<Rightarrow> world \<Rightarrow> (node, unit) op" where
  "action Peer_sync W = ignore (run_sync W)"
| "action Bitcoin_scan W = ignore (run_scan W)"
| "action Package_resolution W = ignore (run_resolve W)"

text \<open>\<open>except Exception\<close> around the action: its exceptions, all of which are \<open>Exception\<close>s, are logged.\<close>

definition attempt :: "task \<Rightarrow> world \<Rightarrow> (app, unit) op" where
  "attempt t W = on_node (ignore (tryM (action t W)))"

text \<open>Where the task goes on when its action has come back: an exception that \<open>attempt\<close> lets through ends it.\<close>

fun phase_after :: "unit result \<Rightarrow> phase" where
  "phase_after (Inr _) = Waiting"
| "phase_after (Inl _) = Failed"

section \<open>The server\<close>

record server =
  sr_app :: app
  sr_tasks :: "(task \<times> phase) list"
  sr_threads :: "task list"
  sr_stop :: bool
  sr_open :: bool

definition start_server :: "settings \<Rightarrow> node \<Rightarrow> server" where
  "start_server S n = \<lparr>sr_app = new_app S n, sr_tasks = map (\<lambda>t. (t, Ready)) (background_tasks S),
     sr_threads = [], sr_stop = False, sr_open = True\<rparr>"

text \<open>\<open>create_app\<close>: the settings that are given or those of the environment, and the node of the data directory,
  whose database is opened. Requests to Bitcoin and peers are counted from the start.\<close>

definition create_app :: "settings option \<Rightarrow> environ \<Rightarrow> ustr \<Rightarrow> node \<Rightarrow> (nat \<times> old_anchor) list option \<Rightarrow> (settings \<times> server) result" where
  "create_app given V fresh_id n old =
     bindE (case given of Some S \<Rightarrow> Inr S | None \<Rightarrow> settings_from_environment V) (\<lambda>S.
     bindE (validate_settings S) (\<lambda>_.
     bindE (create_schema fresh_id \<lparr>db_index = ix n, db_old_anchors = old\<rparr>) (\<lambda>s.
     Inr (S, start_server S (n\<lparr>ix := s, calls := 0\<rparr>)))))"

definition set_phase :: "task \<Rightarrow> phase \<Rightarrow> server \<Rightarrow> server" where
  "set_phase t p s = s\<lparr>sr_tasks := map (\<lambda>(u, q). if u = t then (u, p) else (u, q)) (sr_tasks s)\<rparr>"

text \<open>A closed database: the action of a thread raises at its first access and only its requests count.\<close>

definition more_calls :: "nat \<Rightarrow> app \<Rightarrow> app" where
  "more_calls k a = a\<lparr>app_node := (app_node a)\<lparr>calls := calls (app_node a) + k\<rparr>\<rparr>"

text \<open>The steps of a task are those of \<open>periodic\<close>: the loop looks at \<open>stop\<close> and hands the action to a thread;
  when the action comes back the loop waits for the event or the end of the interval, unless it has
  failed. \<open>finally\<close> sets the event, cancels the tasks, awaits them (which raises the exception of a task
  that has failed, so that the service stays open) and closes the service. The thread of a task that
  is cancelled goes on.\<close>

inductive server_step :: "env \<Rightarrow> rpc \<Rightarrow> settings \<Rightarrow> server \<Rightarrow> server \<Rightarrow> bool" for E R S where
  request: "sr_open s \<Longrightarrow> \<not> sr_stop s \<Longrightarrow> same_world E R S W \<Longrightarrow> wf_call c \<Longrightarrow> handle W q c (sr_app s) = (r, a) \<Longrightarrow>
    server_step E R S s (s\<lparr>sr_app := a\<rparr>)"
| launch: "(t, Ready) \<in> set (sr_tasks s) \<Longrightarrow> \<not> sr_stop s \<Longrightarrow>
    server_step E R S s (set_phase t Working (s\<lparr>sr_threads := t # sr_threads s\<rparr>))"
| finish: "(t, Working) \<in> set (sr_tasks s) \<Longrightarrow> t \<in> set (sr_threads s) \<Longrightarrow> \<not> sr_stop s \<Longrightarrow> same_world E R S W \<Longrightarrow>
    attempt t W (sr_app s) = (r, a) \<Longrightarrow>
    server_step E R S s (set_phase t (phase_after r) (s\<lparr>sr_app := a, sr_threads := removeAll t (sr_threads s)\<rparr>))"
| timeout: "(t, Waiting) \<in> set (sr_tasks s) \<Longrightarrow> \<not> sr_stop s \<Longrightarrow> server_step E R S s (set_phase t Ready s)"
| shutdown: "sr_open s \<Longrightarrow> server_step E R S s (s\<lparr>sr_stop := True\<rparr>)"
| leave: "(t, p) \<in> set (sr_tasks s) \<Longrightarrow> p \<noteq> Failed \<Longrightarrow> sr_stop s \<Longrightarrow> server_step E R S s (set_phase t Ended s)"
| orphan: "t \<in> set (sr_threads s) \<Longrightarrow> sr_stop s \<Longrightarrow> sr_open s \<Longrightarrow> same_world E R S W \<Longrightarrow>
    on_node (action t W) (sr_app s) = (r, a) \<Longrightarrow>
    server_step E R S s (s\<lparr>sr_app := a, sr_threads := removeAll t (sr_threads s)\<rparr>)"
| close: "sr_stop s \<Longrightarrow> \<forall>(t, p) \<in> set (sr_tasks s). p = Ended \<Longrightarrow> server_step E R S s (s\<lparr>sr_open := False\<rparr>)"
| late: "t \<in> set (sr_threads s) \<Longrightarrow> \<not> sr_open s \<Longrightarrow>
    server_step E R S s (s\<lparr>sr_app := more_calls k (sr_app s), sr_threads := removeAll t (sr_threads s)\<rparr>)"

inductive server_runs :: "env \<Rightarrow> rpc \<Rightarrow> settings \<Rightarrow> server \<Rightarrow> server \<Rightarrow> bool" for E R S where
  stay: "server_runs E R S s s"
| more: "server_runs E R S s s' \<Longrightarrow> server_step E R S s' s'' \<Longrightarrow> server_runs E R S s s''"

inductive_cases server_stepE: "server_step E R S s s'"

lemma set_phase_simps [simp]:
  "sr_app (set_phase t p s) = sr_app s" "sr_threads (set_phase t p s) = sr_threads s" "sr_stop (set_phase t p s) = sr_stop s" "sr_open (set_phase t p s) = sr_open s"
  "map fst (sr_tasks (set_phase t p s)) = map fst (sr_tasks s)"
  by (auto simp: set_phase_def)

lemma set_phase_member:
  "(u, q) \<in> set (sr_tasks (set_phase t p s)) \<longleftrightarrow>
    (if u = t then q = p \<and> t \<in> fst ` set (sr_tasks s) else (u, q) \<in> set (sr_tasks s))"
proof -
  have "(u, q) \<in> set (map (\<lambda>(u, q). if u = t then (u, p) else (u, q)) ts) \<longleftrightarrow>
      (if u = t then q = p \<and> t \<in> fst ` set ts else (u, q) \<in> set ts)" for ts
    by (induction ts) (auto split: if_splits)
  then show ?thesis by (simp add: set_phase_def)
qed

section \<open>Background work is a step of the node\<close>

lemma action_step:
  assumes "same_world E R S W"
  shows "app_step E R S a (snd (on_node (action t W) a))"
proof -
  have ignored: "snd (on_node (ignore m) a) = snd (on_node m a)" for m :: "(node, 'x) op"
    by (simp add: on_node_def ignore_def bindM_def liftM_def split: prod.splits sum.splits)
  show ?thesis
    using assms app_step.intros(2-4) [of E R S W a] by (cases t) (simp_all add: ignored prod_eq_iff)
qed

text \<open>An attempt never raises, and leaves what the action leaves.\<close>

lemma attempt_caught: "attempt t W a = (Inr (), snd (on_node (action t W) a))"
  by (simp add: attempt_def on_node_def ignore_def tryM_def bindM_def liftM_def split: prod.splits)

lemma server_step_app:
  assumes "server_step E R S s s'"
  shows "(\<exists>k. sr_app s' = more_calls k (sr_app s)) \<or> app_step E R S (sr_app s) (sr_app s')"
proof -
  have same: "\<exists>k. a = more_calls k a" for a by (rule exI [of _ 0]) (simp add: more_calls_def)
  from assms show ?thesis
  proof cases
    case (finish t W r a)
    then show ?thesis using action_step [of E R S W "sr_app s" t] by (simp add: attempt_caught)
  next
    case (orphan t W r a)
    then show ?thesis using action_step [of E R S W "sr_app s" t] by simp
  qed (use same in \<open>auto intro: app_step.request\<close>)
qed

lemma more_calls_chain_ok: "chain_ok E R (app_node (more_calls k a)) = chain_ok E R (app_node a)"
  by (simp add: more_calls_def chain_ok_def node_ok_def)

lemma server_runs_chain_ok:
  assumes "server_runs E R S s s'" "chain_ok E R (app_node (sr_app s))"
  shows "chain_ok E R (app_node (sr_app s'))"
  using assms by (induction rule: server_runs.induct) (auto dest!: server_step_app intro: app_step_chain_ok simp: more_calls_chain_ok)

text \<open>Opening a sound node gives a sound one; the confirmed anchors of an old table have to be justified.\<close>

definition old_anchors_justified :: "rpc \<Rightarrow> (nat \<times> old_anchor) list \<Rightarrow> bool" where
  "old_anchors_justified R old \<longleftrightarrow> old_anchors_ok old \<and> (\<forall>(k, a) \<in> set old.
     is_confirmed (anchor_of_old a) \<longrightarrow> justified R (oa_txid a) 0 (oa_batch_id a))"

lemma opened_chain_ok:
  assumes "create_schema i \<lparr>db_index = ix n, db_old_anchors = old\<rparr> = Inr s" "chain_ok E R n"
    and "\<forall>table. old = Some table \<longrightarrow> old_anchors_justified R table"
  shows "chain_ok E R (n\<lparr>ix := s, calls := 0\<rparr>)"
proof -
  note run = create_schema_run(3) [OF assms(1), simplified]
  have "index_ok E s"
    by (rule opened_index_ok [OF assms(1)]) (use assms(2,3) in \<open>simp_all add: chain_ok_def node_ok_def old_anchors_justified_def\<close>)
  moreover have "commitments_t s = commitments_t (ix n)"
    using arg_cong [OF run, of commitments_t] by (simp split: option.splits)
  moreover have "anchors_t s = (case old of None \<Rightarrow> anchors_t (ix n)
      | Some table \<Rightarrow> \<lparr>rows = map (\<lambda>(k, a). (k, anchor_of_old a)) table, last_seq = foldl max 0 (map fst table)\<rparr>)"
    using arg_cong [OF run, of anchors_t] by (simp split: option.splits)
  moreover have "is_confirmed a \<longrightarrow> justified R (a_txid a) (a_vout a) (a_batch_id a)" if "a \<in> set (all_rows (anchors_t s))" for a
  proof (cases old)
    case None
    with that calculation(3) assms(2) show ?thesis by (simp add: chain_ok_def)
  next
    case (Some table)
    with that calculation(3) obtain k b where b: "(k, b) \<in> set table" "a = anchor_of_old b" by (auto simp: all_rows_def)
    with assms(3) Some have "is_confirmed a \<longrightarrow> justified R (oa_txid b) 0 (oa_batch_id b)"
      unfolding old_anchors_justified_def by blast
    then show ?thesis by (simp add: b(2) anchor_of_old_def)
  qed
  ultimately show ?thesis using assms(2) by (simp add: chain_ok_def node_ok_def)
qed

section \<open>The tasks\<close>

text \<open>No task fails, a task ends only after the shutdown, a task that works has its thread until then, and the
  service is closed only when all tasks have ended.\<close>

definition orderly :: "settings \<Rightarrow> server \<Rightarrow> bool" where
  "orderly S s \<longleftrightarrow> map fst (sr_tasks s) = background_tasks S
     \<and> (\<forall>(t, p) \<in> set (sr_tasks s). p \<noteq> Failed \<and> (p = Ended \<longrightarrow> sr_stop s)
         \<and> (p = Working \<longrightarrow> t \<in> set (sr_threads s) \<or> sr_stop s))
     \<and> (\<not> sr_open s \<longrightarrow> sr_stop s)"

lemma orderly_start: "orderly S (start_server S n)"
  by (auto simp: orderly_def start_server_def comp_def)

lemma orderly_step: "server_step E R S s s' \<Longrightarrow> orderly S s \<Longrightarrow> orderly S s'"
proof (induction rule: server_step.induct)
  case (launch t s)
  then show ?case unfolding orderly_def by (auto simp: set_phase_member split: if_splits)
next
  case (finish t s W r a)
  then show ?case unfolding orderly_def by (auto simp: set_phase_member attempt_caught split: if_splits)
next
  case (timeout t s)
  then show ?case unfolding orderly_def by (auto simp: set_phase_member split: if_splits)
next
  case (leave t p s)
  then show ?case unfolding orderly_def by (auto simp: set_phase_member split: if_splits)
qed (auto simp: orderly_def)

lemma orderly_runs: "server_runs E R S s s' \<Longrightarrow> orderly S s \<Longrightarrow> orderly S s'"
  by (induction rule: server_runs.induct) (auto dest: orderly_step)

text \<open>As long as no shutdown was asked for, every configured task gets to run its action, and then waits for
  the next time, whatever the action did.\<close>

lemma working_finishes:
  assumes "(t, Working) \<in> set (sr_tasks s)" "t \<in> set (sr_threads s)" "\<not> sr_stop s" "same_world E R S W"
  shows "\<exists>s'. server_step E R S s s' \<and> (t, Waiting) \<in> set (sr_tasks s') \<and> sr_stop s' = sr_stop s
    \<and> sr_app s' = snd (on_node (action t W) (sr_app s))"
proof -
  let ?s = "set_phase t Waiting (s\<lparr>sr_app := snd (on_node (action t W) (sr_app s)), sr_threads := removeAll t (sr_threads s)\<rparr>)"
  have "server_step E R S s ?s"
    using server_step.finish [OF assms attempt_caught] by simp
  then show ?thesis
    using assms(1) by (intro exI [of _ ?s]) (auto simp: set_phase_member image_iff intro: bexI [of _ "(t, Working)"])
qed

lemma task_goes_on:
  assumes ok: "orderly S s" and run: "\<not> sr_stop s" and t: "t \<in> set (background_tasks S)" and W: "same_world E R S W"
  shows "\<exists>s1 s2. server_runs E R S s s1 \<and> server_step E R S s1 s2 \<and> (t, Waiting) \<in> set (sr_tasks s2)
    \<and> sr_app s1 = sr_app s \<and> sr_app s2 = snd (on_node (action t W) (sr_app s))"
proof -
  have here: ?thesis if s': "server_runs E R S s s'" "(t, Working) \<in> set (sr_tasks s')" "t \<in> set (sr_threads s')"
      "\<not> sr_stop s'" "sr_app s' = sr_app s" for s'
    using working_finishes [OF s'(2-4) W] s'(1,5) by metis
  have ready: ?thesis if s': "server_runs E R S s s'" "(t, Ready) \<in> set (sr_tasks s')" "\<not> sr_stop s'" "sr_app s' = sr_app s" for s'
  proof (rule here)
    show "server_runs E R S s (set_phase t Working (s'\<lparr>sr_threads := t # sr_threads s'\<rparr>))"
      by (rule server_runs.more [OF s'(1) server_step.launch [OF s'(2,3)]])
  qed (use s' in \<open>force simp: set_phase_member\<close>)+
  have "t \<in> fst ` set (sr_tasks s)" using ok t by (metis list.set_map orderly_def)
  then obtain p where p: "(t, p) \<in> set (sr_tasks s)" by auto
  with ok run have "p \<noteq> Failed" "p \<noteq> Ended" "p = Working \<longrightarrow> t \<in> set (sr_threads s)"
    by (auto simp: orderly_def)
  then consider "p = Working" "t \<in> set (sr_threads s)" | "p = Ready" | "p = Waiting" by (cases p) auto
  then show ?thesis
  proof cases
    case 1
    with p run show ?thesis by (intro here [OF server_runs.stay]) auto
  next
    case 2
    with p run show ?thesis by (intro ready [OF server_runs.stay]) auto
  next
    case 3
    show ?thesis
      by (rule ready [OF server_runs.more [OF server_runs.stay server_step.timeout]])
        (use 3 p run in \<open>force simp: set_phase_member\<close>)+
  qed
qed

text \<open>A shutdown ends: the tasks leave one after the other, and the service closes, because no task has failed.\<close>

lemma leave_all:
  assumes "sr_stop s" "\<forall>(t, p) \<in> set (sr_tasks s). p \<noteq> Failed"
  shows "\<exists>s'. server_runs E R S s s' \<and> sr_app s' = sr_app s \<and> sr_stop s' \<and> (\<forall>(t, p) \<in> set (sr_tasks s'). p = Ended)"
proof -
  have "\<exists>s'. server_runs E R S s s' \<and> sr_app s' = sr_app s \<and> sr_stop s' \<and> map fst (sr_tasks s') = map fst (sr_tasks s)
      \<and> (\<forall>(t, p) \<in> set (sr_tasks s'). p \<noteq> Failed \<and> (t \<in> set ts \<longrightarrow> p = Ended))"
    if "set ts \<subseteq> fst ` set (sr_tasks s)" for ts
    using that
  proof (induction ts)
    case Nil
    then show ?case using assms by (auto intro: server_runs.stay)
  next
    case (Cons t ts)
    then obtain s' where s': "server_runs E R S s s'" "sr_app s' = sr_app s" "sr_stop s'"
        "map fst (sr_tasks s') = map fst (sr_tasks s)"
        "\<forall>(t, p) \<in> set (sr_tasks s'). p \<noteq> Failed \<and> (t \<in> set ts \<longrightarrow> p = Ended)"
      by auto
    then have "t \<in> fst ` set (sr_tasks s')" using Cons.prems by (metis insert_subset list.simps(15) list.set_map)
    then obtain p where p: "(t, p) \<in> set (sr_tasks s')" by auto
    with s'(5) have "p \<noteq> Failed" by auto
    with p have step: "server_step E R S s' (set_phase t Ended s')" using s'(3) by (rule server_step.leave)
    have all: "\<forall>(u, q) \<in> set (sr_tasks (set_phase t Ended s')). q \<noteq> Failed \<and> (u \<in> set (t # ts) \<longrightarrow> q = Ended)"
      using s'(5) by (auto simp: set_phase_member split: if_splits)
    show ?case
      by (rule exI [of _ "set_phase t Ended s'"]) (use s' all server_runs.more [OF s'(1) step] in simp)
  qed
  from this [of "map fst (sr_tasks s)"] obtain s' where s': "server_runs E R S s s'" "sr_app s' = sr_app s" "sr_stop s'"
    "map fst (sr_tasks s') = map fst (sr_tasks s)"
    "\<forall>(t, p) \<in> set (sr_tasks s'). p \<noteq> Failed \<and> (t \<in> set (map fst (sr_tasks s)) \<longrightarrow> p = Ended)" by auto
  have "set (map fst (sr_tasks s')) = set (map fst (sr_tasks s))" using s'(4) by simp
  then have "\<forall>(t, p) \<in> set (sr_tasks s'). p = Ended" using s'(5) by force
  with s' show ?thesis by blast
qed

lemma shutdown_closes:
  assumes "sr_stop s" "orderly S s"
  shows "\<exists>s'. server_runs E R S s s' \<and> \<not> sr_open s' \<and> sr_app s' = sr_app s"
proof -
  have "\<forall>(t, p) \<in> set (sr_tasks s). p \<noteq> Failed" using assms(2) by (auto simp: orderly_def)
  from leave_all [OF assms(1) this] obtain s' where s': "server_runs E R S s s'" "sr_app s' = sr_app s" "sr_stop s'"
    "\<forall>(t, p) \<in> set (sr_tasks s'). p = Ended" by blast
  from server_runs.more [OF s'(1) server_step.close [OF s'(3,4)]] s'(2) show ?thesis
    by (intro exI [of _ "s'\<lparr>sr_open := False\<rparr>"]) simp
qed

section \<open>The life of a server\<close>

lemma served_life:
  assumes "create_app given V i n old = Inr (S, s0)" "chain_ok E R n"
    and "\<forall>table. old = Some table \<longrightarrow> old_anchors_justified R table"
    and "server_runs E R S s0 s"
  shows "chain_ok E R (app_node (sr_app s))" "orderly S s"
proof -
  obtain d where d: "create_schema i \<lparr>db_index = ix n, db_old_anchors = old\<rparr> = Inr d"
    and s0: "s0 = start_server S (n\<lparr>ix := d, calls := 0\<rparr>)"
    using assms(1) by (auto simp: create_app_def bindE_eq_Inr)
  have "chain_ok E R (app_node (sr_app s0))"
    using opened_chain_ok [OF d assms(2,3)] by (simp add: s0 start_server_def new_app_def)
  from server_runs_chain_ok [OF assms(4) this] show "chain_ok E R (app_node (sr_app s))" .
  show "orderly S s" using orderly_runs [OF assms(4)] orderly_start by (simp add: s0)
qed

end
