(* ===== verification/ExampleTools.thy ===== *)
theory ExampleTools
  imports ExampleNode Commands Schema Release RpcConfig Lifecycle
begin

text \<open>
  Concrete inputs for the properties of the command line, of opening a database, of a running server and of
  the release scripts.
\<close>

section \<open>A new database\<close>

definition toy_opened :: index where
  "toy_opened = projr (create_schema (str ''id'') \<lparr>db_index = empty_index, db_old_anchors = None\<rparr>)"

lemma toy_opened: "create_schema (str ''id'') \<lparr>db_index = empty_index, db_old_anchors = None\<rparr> = Inr toy_opened"
  "toy_opened\<lparr>metadata := []\<rparr> = empty_index" "node_instance_id toy_opened = Inr (str ''id'')"
  "get_record toy_opened k = None"
proof -
  have "schema_version_of empty_index = Inr (SCHEMA_VERSION, empty_index\<lparr>metadata := [(str ''schema_version'', py_str_int SCHEMA_VERSION)]\<rparr>)"
    by (simp add: schema_version_of_def metadata_get_def empty_index_def)
  then show run: "create_schema (str ''id'') \<lparr>db_index = empty_index, db_old_anchors = None\<rparr> = Inr toy_opened"
    by (simp add: create_schema_def toy_opened_def Let_def)
  have empty: "empty_index\<lparr>metadata := []\<rparr> = empty_index" "metadata_get empty_index k = None" for k
    by (simp_all add: empty_index_def metadata_get_def)
  from create_schema_run(3) [OF run] show same: "toy_opened\<lparr>metadata := []\<rparr> = empty_index"
    by (simp add: empty)
  from create_schema_run(2) [OF run] show "node_instance_id toy_opened = Inr (str ''id'')"
    by (simp add: empty node_instance_id_def str_def)
  have "records_t toy_opened = empty_table" using arg_cong [OF same, of records_t] by (simp add: empty_index_def)
  then show "get_record toy_opened k = None"
    by (simp add: get_record_def lookup_row_def all_rows_def empty_table_def)
qed

section \<open>A node that is asked over HTTP\<close>

definition toy_served :: node where
  "toy_served = empty_node\<lparr>ix := toy_opened\<rparr>"

definition toy_served_app :: app where
  "toy_served_app = new_app (w_settings toy_world) toy_served"

definition toy_client :: client where
  "toy_client = \<lparr>cl_send = (\<lambda>_ _ _ _ _. Some \<lparr>an_status = 200, an_json = Some (projr (info toy_world toy_served))\<rparr>)\<rparr>"

lemma toy_info: "info toy_world (app_node toy_served_app) = Inr (projr (info toy_world toy_served))"
  "get toy_client url (str ''/v1/info'') [] 0 = (Inr (projr (info toy_world toy_served)), 1)"
proof -
  have "\<exists>v. info toy_world toy_served = Inr v"
    by (simp add: info_def toy_served_def toy_opened(3) Let_def)
  then show "info toy_world (app_node toy_served_app) = Inr (projr (info toy_world toy_served))"
    by (auto simp: toy_served_app_def new_app_def)
  show "get toy_client url (str ''/v1/info'') [] 0 = (Inr (projr (info toy_world toy_served)), 1)"
    by (simp add: get_def request_json_def toy_client_def)
qed

lemma toy_grants: "\<forall>key. fst (allow (w_tick toy_world) key (app_limiter toy_served_app))"
  using toy_limiter by (auto simp: toy_served_app_def toy_app_def new_app_def toy_settings_world(3)) (metis fst_conv)

lemma toy_relays: "can_relay (w_settings toy_world)" "token_accepted (w_settings toy_world) None"
  "relay_pow_bits (w_settings toy_world) = 0"
  by (simp_all add: toy_settings_world toy_settings_read can_relay_def token_accepted_def)

section \<open>A record made on the command line\<close>

definition toy_create :: create_args where
  "toy_create = default_create (str ''T'') (str ''T'')"

lemma toy_created:
  "\<exists>w r. create_record toy_env toy_ciphers (\<lambda>_. None) (str ''T'') w [112] toy_create = Inr r"
proof -
  obtain w where w: "decrypt_wallet toy_env toy_ciphers w [112] = Inr (b64encode toy_key)"
    using toy_wallet by blast
  let ?tag = "JStr (str ''hap:person-impact:uncertain'')"
  have "record_args_ok toy_env ''claim'' (str ''T'') None (str ''T'') (str ''T'') None [] [] [?tag]"
    using toy_args by (auto simp: record_args_ok_def list_arg_ok_def validate_leaf str_def nonempty_str_def str_upto_def
        utf8_char_def py_strip_def uni_isspace_def)
  from create_signed_record_total [OF toy_digests_32 toy_signatures_verify toy_public this, of "str ''T''"]
  obtain r where "create_signed_record toy_env (str ''T'') (b64encode toy_key) (str ''claim'') (str ''T'') (str ''T'') None None
      [] [] [?tag] (Some (str ''T'')) = Inr r" by blast
  then have "create_signed_record toy_env (str ''T'') (b64encode toy_key) (str ''claim'') (str ''T'') (str ''T'') None None
      [] [] [?tag] None = Inr r"
    by (simp add: create_signed_record_def str_def)
  with w have "create_record toy_env toy_ciphers (\<lambda>_. None) (str ''T'') w [112] toy_create = Inr r"
    by (simp add: create_record_def toy_create_def default_create_def create_tags_def str_def)
  then show ?thesis by blast
qed

lemma toy_create_ok: "create_args_ok toy_create" "ca_person_impact toy_create = ''uncertain''"
  by (simp_all add: toy_create_def default_create_def create_args_ok_def CREATE_KINDS_def IMPACT_CHOICES_def)

section \<open>A workspace\<close>

definition toy_tools :: toolbox where
  "toy_tools = \<lparr>tb_env = toy_env, tb_rpc = toy_rpc, tb_http = w_http toy_world, tb_clock = (\<lambda>_. 0),
     tb_pretty = (\<lambda>_. []), tb_loads = (\<lambda>_. Some toy_record), tb_home = Inr, tb_path = (\<lambda>p. p),
     tb_environ = toy_environ, tb_os_error = (\<lambda>_ _. None), tb_left_archive = (\<lambda>_. None),
     tb_left_database = (\<lambda>_. None)\<rparr>"

definition toy_workspace :: workspace where
  "toy_workspace = \<lparr>ws_node = toy_fresh, ws_disk = (\<lambda>p. if p = str ''r.json'' then Some [] else None),
     ws_archives = (\<lambda>_. None), ws_databases = (\<lambda>_. None)\<rparr>"

lemma toy_tools_read: "reads_well toy_tools" "tb_env toy_tools = toy_env" "tb_rpc toy_tools = toy_rpc"
  using toy_record_valid(2) by (simp_all add: reads_well_def toy_tools_def parses_well_def toy_world_def)

lemma toy_workspace_sound: "sound_workspace toy_env toy_rpc toy_workspace"
proof -
  have "commitments_t (ix toy_fresh) = empty_table" "anchors_t (ix toy_fresh) = empty_table"
    by (simp_all add: toy_fresh_def add_record_unfold empty_index_def)
  then show ?thesis
    using toy_fresh_holds(1) by (simp add: chain_ok_def node_ok_def toy_workspace_def)
qed

lemma toy_prepared:
  "\<exists>p w. prepare_direct toy_tools (str ''r.json'') ''regtest'' (Some (str ''p.json'')) toy_workspace
      = (Inr (toy_batch, p, str ''p.json''), w) \<and> ws_node w = toy_node"
proof -
  have get: "get_record (ix toy_fresh) (rid_of toy_record) = Some toy_record"
    using add_record_get [of toy_record empty_index "rid_of toy_record"]
    by (simp add: toy_fresh_def) (simp add: get_record_def empty_index_def lookup_row_def)
  have load: "load_json toy_tools (str ''r.json'') toy_workspace = (Inr toy_record, toy_workspace)"
    using toy_is_dict by (simp add: load_json_def toy_tools_def toy_workspace_def liftM_def)
  have submit: "submit_record toy_env None False toy_record toy_fresh = (Inr (rid_of toy_record, ''already_exists''), toy_fresh)"
    using toy_record_valid get by (simp add: submit_record_def) (simp add: liftM_def)
  have ok: "index_ok toy_env (ix toy_fresh)" using toy_fresh_holds(1) by (simp add: node_ok_def)
  obtain c s where add: "add_batch toy_batch (ix toy_fresh) = Inr (c, s)"
    using add_batch_total [OF ok toy_batch_valid(1)] toy_fresh_holds(3) toy_batch_valid(2) by auto
  have batch: "create_direct_batch toy_env 0 (rid_of toy_record) (str ''regtest'') toy_fresh = (Inr toy_batch, toy_node)"
    using get toy_batch_valid(4) add
    by (simp add: create_direct_batch_def storeM_def updateM_def bindM_def liftM_def readM_def toy_node_def)
  have "index_ok toy_env (ix toy_node)" using toy_node_holds(1) by (simp add: node_ok_def)
  from package_for_batch_total [OF this toy_digests_32 toy_node_gets(1)]
  obtain p where p: "package_for_batch toy_env (ix toy_node) (bid_of toy_batch) = Inr (Some p)" by blast
  have fields: "tb_env toy_tools = toy_env" "tb_clock toy_tools 0 = 0" "tb_pretty toy_tools v = []" "tb_home toy_tools q = Inr q"
    "tb_path toy_tools q = q" "tb_os_error toy_tools what q = None" "ws_node toy_workspace = toy_fresh" for v q what
    by (simp_all add: toy_tools_def toy_workspace_def)
  have "encode_utf8 [] = Inr []" by (simp add: encode_utf8_def)
  then show ?thesis
    by (simp add: prepare_direct_def bindM_def liftM_def readM_def updateM_def local_def atomic_write_json_def os_step_def home_path_def
        load submit batch p fields) (simp add: str_def)
qed

lemma toy_direct: "\<exists>res w. direct_anchor_cmd toy_tools (str ''r.json'') ''regtest'' (Some (str ''p.json'')) toy_workspace = (res, w)
    \<and> calls (ws_node w) \<noteq> calls (ws_node toy_workspace)"
proof -
  obtain p w where w: "prepare_direct toy_tools (str ''r.json'') ''regtest'' (Some (str ''p.json'')) toy_workspace
      = (Inr (toy_batch, p, str ''p.json''), w)" "ws_node w = toy_node"
    using toy_prepared by blast
  have "rpc_network toy_rpc c = (Inl (Exn KeyError ''chain''), c + 1)" for c
    by (simp add: rpc_network_def bindA_def liftA_def rpc_call_def toy_rpc_def toy_tx_def dict_get_def dict_item_def obj_def)
  then have "\<exists>e. anchor_batch toy_env toy_rpc 0 b (bid_of toy_batch) toy_node = (Inl e, toy_node\<lparr>calls := calls toy_node + 1\<rparr>)" for b
    using toy_node_gets(1) toy_batch_valid by (simp add: anchor_batch_def bindM_def rpcM_def readM_def liftM_def)
  then obtain e where "anchor_batch toy_env toy_rpc 0 (env_bool toy_environ ''HAP_ALLOW_MAINNET'' False) (bid_of toy_batch) toy_node
      = (Inl e, toy_node\<lparr>calls := calls toy_node + 1\<rparr>)" by blast
  moreover have "calls toy_node = calls toy_fresh" by (simp add: toy_node_def)
  ultimately show ?thesis using w
    by (simp add: direct_anchor_cmd_def bindM_def local_def) (simp add: toy_tools_def toy_workspace_def)
qed

section \<open>A database of the old layout\<close>

definition toy_old_anchor :: old_anchor where
  "toy_old_anchor = \<lparr>oa_txid = str ''t'', oa_batch_id = bid_of toy_batch, oa_network = str ''regtest'',
     oa_status = str ''broadcast'', oa_anchored_at = 0, oa_block_hash = None, oa_block_height = None\<rparr>"

definition toy_old_database :: database where
  "toy_old_database = \<lparr>db_index = ix toy_node, db_old_anchors = Some [(7, toy_old_anchor)]\<rparr>"

lemma toy_old: "\<exists>s. create_schema (str ''id'') toy_old_database = Inr s" "old_anchors_ok [(7, toy_old_anchor)]"
proof -
  have ok: "index_ok toy_env (ix toy_fresh)" using toy_fresh_holds(1) by (simp add: node_ok_def)
  obtain c s where add: "add_batch toy_batch (ix toy_fresh) = Inr (c, s)"
    using add_batch_total [OF ok toy_batch_valid(1)] toy_fresh_holds(3) toy_batch_valid(2) by auto
  have "metadata (ix toy_fresh) = []" by (simp add: toy_fresh_def add_record_unfold empty_index_def)
  moreover have "metadata s = metadata (ix toy_fresh)" using add by (auto simp: add_batch_eq_Inr)
  ultimately have "metadata (ix toy_node) = []" by (simp add: toy_node_def add)
  then have "schema_version_of (ix toy_node) = Inr (SCHEMA_VERSION, (ix toy_node)\<lparr>metadata := [(str ''schema_version'', py_str_int SCHEMA_VERSION)]\<rparr>)"
    by (simp add: schema_version_of_def metadata_get_def)
  moreover have "bid_of toy_batch \<in> batch_ids_in (ix toy_node)"
    using toy_node_gets(1)
    by (auto simp: get_batch_def lookup_row_def batch_ids_in_def find_Some_iff split: option.splits)
       (metis imageI nth_mem)
  ultimately show "\<exists>s. create_schema (str ''id'') toy_old_database = Inr s"
    by (auto simp: create_schema_def toy_old_database_def migrate_anchors_def Let_def toy_old_anchor_def batch_ids_in_def
        list_ex_iff)
  show "old_anchors_ok [(7, toy_old_anchor)]"
    by (simp add: old_anchors_ok_def anchor_ints_def anchor_of_old_def toy_old_anchor_def sql_int_def)
qed

section \<open>A server with a background task\<close>

definition toy_scanning :: settings where
  "toy_scanning = toy_settings\<lparr>bitcoin_scan_interval_seconds := 60\<rparr>"

definition toy_serving :: server where
  "toy_serving = start_server toy_scanning (empty_node\<lparr>ix := toy_opened, calls := 0\<rparr>)"

lemma toy_created_app: "create_app (Some toy_scanning) toy_environ (str ''id'') empty_node None = Inr (toy_scanning, toy_serving)"
proof -
  have "validate_settings toy_settings = Inr ()" using settings_sound [OF toy_settings_read(1)] by simp
  then have "validate_settings toy_scanning = Inr ()"
    by (simp add: validate_settings_eq_Inr toy_scanning_def can_coordinate_def)
  then show ?thesis
    using toy_opened(1) by (simp add: create_app_def toy_serving_def empty_node_ok)
qed

definition toy_scan_world :: world where
  "toy_scan_world = toy_world\<lparr>w_settings := toy_scanning\<rparr>"

lemma toy_scan_world: "same_world toy_env toy_rpc toy_scanning toy_scan_world"
  by (simp add: same_world_def toy_scan_world_def toy_settings_world parses_well_def) (simp add: toy_world_def)

lemma toy_scan_configured: "Bitcoin_scan \<in> set (background_tasks toy_scanning)"
  by (simp add: background_tasks_def toy_scanning_def)

lemma toy_scans:
  "\<exists>s. server_runs toy_env toy_rpc toy_scanning toy_serving s \<and> (Bitcoin_scan, Waiting) \<in> set (sr_tasks s) \<and> \<not> sr_stop s"
proof -
  have ready: "(Bitcoin_scan, Ready) \<in> set (sr_tasks toy_serving)" "\<not> sr_stop toy_serving"
    using toy_scan_configured by (simp_all add: toy_serving_def start_server_def)
  define s1 where "s1 = set_phase Bitcoin_scan Working (toy_serving\<lparr>sr_threads := Bitcoin_scan # sr_threads toy_serving\<rparr>)"
  have step: "server_step toy_env toy_rpc toy_scanning toy_serving s1"
    unfolding s1_def by (rule server_step.launch [OF ready])
  have working: "(Bitcoin_scan, Working) \<in> set (sr_tasks s1)" "Bitcoin_scan \<in> set (sr_threads s1)" "\<not> sr_stop s1"
    using ready by (force simp: s1_def set_phase_member)+
  from working_finishes [OF working toy_scan_world] obtain s where s: "server_step toy_env toy_rpc toy_scanning s1 s"
    "(Bitcoin_scan, Waiting) \<in> set (sr_tasks s)" "\<not> sr_stop s" using working(3) by blast
  with server_runs.more [OF server_runs.more [OF server_runs.stay step] s(1)] show ?thesis by blast
qed

section \<open>A repository to release\<close>

definition toy_repo :: repo_state where
  "toy_repo = \<lparr>rp_status = [], rp_head = str ''c'', rp_tag = Some (str ''c''),
     rp_tracked = [(str ''hap/b.py'', [98], 420), (str ''a'', [97], 493)],
     rp_wheels = [(str ''w.whl'', [1], 420)], rp_epoch = 1700000000, rp_bundle = Some [3], rp_new_mode = 420\<rparr>"

end
