(* ===== verification/Spec2Isabelle.thy ===== *)
theory Spec2Isabelle
  imports ExampleTools
begin

text \<open>
  A verification library for the History Anchor Protocol reference implementation (the Python package
  \<^verbatim>\<open>src/hap\<close> and the release scripts under \<^verbatim>\<open>src/scripts\<close>).

  \<^bold>\<open>The program.\<close> A record is a signed JSON document, named by the digest of its canonical bytes. Record
  identifiers are listed in a batch manifest, whose identifier a Bitcoin transaction commits to in an
  \<open>OP_RETURN\<close> output. A package is a manifest with its records, a proof bundle a record with its Merkle
  paths. A node keeps an index of records, batches, anchors, scanned blocks and commitments in SQLite, and
  evidence files by their digest; it takes records over HTTP, makes and anchors batches, scans the chain,
  retrieves packages, synchronises with peers, and shows records with an assessment. A command line and
  release scripts surround it. The properties are in this theory, each with a concrete witness; the theories
  below hold the models and the lemmas.

  \<^bold>\<open>Documents.\<close>
    \<^item> \<^verbatim>\<open>Prelude\<close>, \<^verbatim>\<open>PyText\<close>, \<^verbatim>\<open>PyValue\<close>: Python values. Strings are lists of code points, bytes are 8-bit words,
      integers are unbounded, exceptions are the left side of \<open>result\<close>; an operation on an unchecked
      value raises where Python does.
    \<^item> \<^verbatim>\<open>Codec\<close>, \<^verbatim>\<open>CodecFacts\<close> (\<^verbatim>\<open>codec.py\<close>): canonical JSON; its bytes determine the value up to key order.
    \<^item> \<^verbatim>\<open>Crypto\<close>, \<^verbatim>\<open>Merkle\<close>, \<^verbatim>\<open>Bitcoin\<close>, \<^verbatim>\<open>RpcConfig\<close> (\<^verbatim>\<open>crypto.py\<close>, \<^verbatim>\<open>merkle.py\<close>, \<^verbatim>\<open>bitcoin.py\<close>): keys and
      signatures, Merkle proofs, the anchor payload, the RPC client and its configuration. The lemmas are round trips,
      completeness and soundness of proofs up to a collision of the hash, and what a finished broadcast has passed.
    \<^item> \<^verbatim>\<open>Records\<close>, \<^verbatim>\<open>Anchors\<close>, \<^verbatim>\<open>Batches\<close>, \<^verbatim>\<open>Packages\<close>, \<^verbatim>\<open>Bundles\<close> (\<^verbatim>\<open>records.py\<close>, \<^verbatim>\<open>anchors.py\<close>, \<^verbatim>\<open>batches.py\<close>,
      \<^verbatim>\<open>packages.py\<close>, \<^verbatim>\<open>proofs.py\<close>, \<^verbatim>\<open>archive.py\<close>): creation and validation; what is created is valid, and
      validation pins the content down.
    \<^item> \<^verbatim>\<open>Manifests\<close> (\<^verbatim>\<open>view_manifest.py\<close>, \<^verbatim>\<open>funding.py\<close>).

  \<^bold>\<open>The node.\<close>
    \<^item> \<^verbatim>\<open>Effects\<close>: operations on a state that may raise, and the preservation of invariants (the collection
      \<open>preserve\<close>).
    \<^item> \<^verbatim>\<open>Storage\<close>, \<^verbatim>\<open>Index\<close>, \<^verbatim>\<open>Schema\<close> (\<^verbatim>\<open>storage.py\<close>): tables as lists of rows with their sequence numbers; the
      invariant \<open>index_ok\<close>; the opening of a database and the migration of anchors.
    \<^item> \<^verbatim>\<open>Evidence\<close> (\<^verbatim>\<open>evidence_store.py\<close>): files by digest, the invariant \<open>evidence_ok\<close>.
    \<^item> \<^verbatim>\<open>Service\<close>, \<^verbatim>\<open>ServiceFacts\<close>, \<^verbatim>\<open>SnapshotFacts\<close>, \<^verbatim>\<open>ExportFacts\<close>, \<^verbatim>\<open>Anchoring\<close>, \<^verbatim>\<open>NodeProofs\<close>, \<^verbatim>\<open>NodeViews\<close>
      (\<^verbatim>\<open>service.py\<close>): submission, batches, packages, snapshots, anchoring, proofs and views.
    \<^item> \<^verbatim>\<open>Views\<close>, \<^verbatim>\<open>Responsible\<close> (\<^verbatim>\<open>assessment.py\<close>, \<^verbatim>\<open>provenance.py\<close>, \<^verbatim>\<open>responsible.py\<close>): what is said of a record,
      and the rule by which one is listed, against which the computation is proved.
    \<^item> \<^verbatim>\<open>Discovery\<close>, \<^verbatim>\<open>ChainFacts\<close>, \<^verbatim>\<open>ScanFacts\<close> (\<^verbatim>\<open>discovery.py\<close>): the scan with its rewind after a
      reorganisation; the invariant \<open>chain_ok\<close>, which says what a confirmed anchor rests on.
    \<^item> \<^verbatim>\<open>Sync\<close>, \<^verbatim>\<open>SyncFacts\<close> (\<^verbatim>\<open>sync.py\<close>): pages, cursors and imports from arbitrary peers.
    \<^item> \<^verbatim>\<open>Survival\<close> (\<^verbatim>\<open>survival.py\<close>): the archive of a snapshot and its evidence.

  \<^bold>\<open>Around the node.\<close>
    \<^item> \<^verbatim>\<open>Config\<close>, \<^verbatim>\<open>Policy\<close>, \<^verbatim>\<open>Auth\<close>, \<^verbatim>\<open>Middleware\<close>, \<^verbatim>\<open>Api\<close>, \<^verbatim>\<open>ApiFacts\<close>, \<^verbatim>\<open>Lifecycle\<close> (\<^verbatim>\<open>config.py\<close>, \<^verbatim>\<open>policy.py\<close>,
      \<^verbatim>\<open>auth.py\<close>, \<^verbatim>\<open>middleware.py\<close>, \<^verbatim>\<open>api.py\<close>): settings, the relay policy and its proof of work, tokens, the
      body limit around an application that receives messages (\<open>run_app\<close>), the rate limiter (a refinement of
      a sliding window), the routes, and two step relations: \<open>app_step\<close> of requests and background work, and
      \<open>server_step\<close> of the event loop, with the threads of the tasks, the exceptions that would end them, and
      the shutdown.
    \<^item> \<^verbatim>\<open>Client\<close>, \<^verbatim>\<open>Commands\<close>, \<^verbatim>\<open>Wallets\<close> (\<^verbatim>\<open>cli.py\<close>, \<^verbatim>\<open>wallets.py\<close>): the commands against a node over HTTP, the
      commands on a local node (file system errors are outcomes of a command), and encrypted wallets.
    \<^item> \<^verbatim>\<open>Identity\<close>, \<^verbatim>\<open>Release\<close> (\<^verbatim>\<open>finalize_public_identity.py\<close>, \<^verbatim>\<open>check_publication_markers.py\<close>,
      \<^verbatim>\<open>package_public_release.py\<close>): the Bech32 check, the edits of a release, its check and its assets.
    \<^item> \<^verbatim>\<open>Example\<close>, \<^verbatim>\<open>ExampleNode\<close>, \<^verbatim>\<open>ExampleTools\<close>: the concrete objects of the witnesses.

  \<^bold>\<open>Interfaces.\<close> Locales state what a component relies on, and are interpreted on the model:
  \<open>record_importer\<close> (what the import loops ask of the submission of a record), \<open>content_store\<close> (evidence),
  \<open>scan_invariant\<close> (what a scan keeps, for the chain and for the backing of anchors), \<open>sync_invariant\<close> (what
  imports keep, for the node's soundness and for its confirmations).

  \<^bold>\<open>Loops.\<close> Loops over data are structural. The search for a nonce is a \<open>partial_function\<close>, shown to end, since
  a nonce has at most 64 digits. The import of records in passes, the shrinking of a batch and the calendar have a
  measure. The loop over sync pages counts the pages that \<open>max_pages\<close> allows, as the code does. No other fuel is used.

  \<^bold>\<open>Parameters.\<close> SHA-256, BLAKE2b, Ed25519 and \<open>datetime.fromisoformat\<close> (\<open>env\<close>), scrypt and AES-GCM
  (\<open>wallet_crypto\<close>), the Bitcoin daemon (\<open>rpc\<close>), peers (\<open>http\<close>), the node that the command line asks (\<open>client\<close>),
  the process environment (\<open>environ\<close>), the module \<open>ipaddress\<close>, the case tables of Unicode, \<open>json.loads\<close>, the clock,
  and random bytes. Hypotheses about them are named: \<open>digests_32\<close>, \<open>signatures_verify\<close>, \<open>ciphers_open\<close>,
  \<open>parses_well\<close> (a parsed dictionary has distinct keys), \<open>serves_chain\<close>, \<open>serves_records\<close>. Answers of daemons,
  peers and clients may depend on the number of requests made before. \<open>ciphers_open\<close> speaks of the sizes that
  wallets use only (keys of 32, salts of 16 and nonces of 12 bytes); \<open>int\<close> of a text has the default limit of
  4300 digits.

  \<^bold>\<open>What a node may hold.\<close> \<open>publishable\<close> and \<open>targets_stored\<close> are not invariants: anchors with numbers beyond
  2^53 - 1 and records with targets that are not stored are accepted from elsewhere. The theorems on exports
  and proof bundles say exactly what becomes of them.

  \<^bold>\<open>Not modelled.\<close> The declaration of the command-line parser and of the FastAPI application, routing and the
  serialisation of answers; printing and logging; uvicorn; the static pages; SQLite's pragmas, files and
  locks, where an operation is one step; what happens inside a request or a background action, each of which
  is one step, so that an interleaving within them, or a database closed in the middle of an action, is not seen
  (a thread that outlives its cancelled task is, in \<^verbatim>\<open>Lifecycle\<close>); floating-point time in the rate limiter; the bytes of tar, ZIP and git
  bundles; directories and temporary files; the shell scripts and the deployment files. These are calls of
  libraries or carry no logic of the protocol.
\<close>

section \<open>Packages, batches and records\<close>

text \<open>C4: The identifier that Bitcoin commits to determines the published package. Two valid packages
  whose batches have the same identifier have the same manifest and pairwise the same records
  (up to the order of dictionary keys), or two of the canonical byte strings that validation
  hashed are a collision of SHA-256.\<close>

theorem package_determined_by_commitment:
  assumes "validate_package E p = Inr ()" "wf_json p"
    and "validate_package E p' = Inr ()" "wf_json p'"
    and "dget (dget p ''batch'') ''batch_id'' = dget (dget p' ''batch'') ''batch_id''"
  shows "(same_json (manifest_body (dget p ''batch'')) (manifest_body (dget p' ''batch''))
      \<and> list_all2 same_json (records_of p) (records_of p'))
    \<or> digest_collision (sha256 E) (manifest_body (dget p ''batch'')) (manifest_body (dget p' ''batch''))
    \<or> (\<exists>r \<in> set (records_of p). \<exists>r' \<in> set (records_of p').
          digest_collision (sha256 E) (envelope_for_id r) (envelope_for_id r'))"
  using assms by (rule same_package)

lemma package_determined_by_commitment_witness:
  "\<exists>p. validate_package toy_env p = Inr () \<and> wf_json p \<and>
     (list_all2 same_json (records_of p) (records_of p)
      \<or> digest_collision (sha256 toy_env) (manifest_body (dget p ''batch'')) (manifest_body (dget p ''batch''))
      \<or> (\<exists>r \<in> set (records_of p). \<exists>r' \<in> set (records_of p).
          digest_collision (sha256 toy_env) (envelope_for_id r) (envelope_for_id r')))"
  using package_determined_by_commitment [of toy_env toy_package toy_package] toy_package_valid by blast

text \<open>C22: \<open>create_package\<close> succeeds on a valid batch and valid records with distinct identifiers that
  include the committed ones; its result is a valid package of that batch with exactly the
  committed records in the committed order.\<close>

theorem create_package_correct:
  assumes "digests_32 E" "validate_batch E b = Inr ()" "wf_json b"
    and "\<forall>r \<in> set rs. validate_record E r = Inr () \<and> wf_json r" "distinct (map rid_of rs)"
    and "set (record_ids_of b) \<subseteq> rid_of ` set rs"
  shows "\<exists>p. create_package E b rs = Inr p \<and> validate_package E p = Inr () \<and> dget p ''batch'' = b
    \<and> map rid_of (records_of p) = record_ids_of b \<and> set (records_of p) \<subseteq> set rs"
  using create_package_total [OF assms] by blast

lemma create_package_correct_witness:
  "\<exists>p. create_package toy_env toy_batch [toy_record] = Inr p \<and> validate_package toy_env p = Inr ()"
  using create_package_correct [OF toy_digests_32 toy_batch_valid(1) toy_batch_wf, of "[toy_record]"]
    toy_record_valid toy_batch_valid(2) by auto

text \<open>\<open>create_batch_manifest\<close> succeeds on any 1 to 50000 distinct 32-byte identifiers, an allowed
  network and a time in the JSON-safe range; the manifest lists the identifiers in
  lexicographic order and passes \<open>validate_batch\<close>, payload included.\<close>

theorem create_batch_manifest_correct:
  assumes "digests_32 E" "ids \<noteq> []" "length ids \<le> 50000" "distinct ids"
    and "\<forall>i \<in> set ids. is_hex_digest (JStr i)"
    and "n \<in> set ALLOWED_NETWORKS" "0 \<le> t" "t \<le> MAX_SAFE_JSON_INTEGER"
  shows "\<exists>b. create_batch_manifest E ids (str n) t = Inr b \<and> validate_batch E b = Inr ()
    \<and> record_ids_of b = sort ids \<and> dget b ''network'' = JStr (str n)"
  using create_batch_manifest_total [OF assms] by blast

lemma create_batch_manifest_correct_witness:
  "\<exists>b. create_batch_manifest toy_env [rid_of toy_record] (str ''regtest'') 0 = Inr b
     \<and> validate_batch toy_env b = Inr ()"
  using create_batch_manifest_correct [OF toy_digests_32, of "[rid_of toy_record]" "''regtest''" 0]
  by (auto simp: toy_rid ALLOWED_NETWORKS_def MAX_SAFE_JSON_INTEGER_def)

text \<open>C20: \<open>create_signed_record\<close> succeeds on arguments within the limits of the schema, whatever the
  clock says, and its result passes \<open>validate_record\<close>, signature included.\<close>

theorem create_signed_record_correct:
  assumes "digests_32 E" "signatures_verify E" "ed_public E sk = Some pk"
    and "record_args_ok E kind t event_time title statement target sources evidence tags"
  shows "\<exists>r. create_signed_record E now (b64encode sk) (str kind) title statement event_time target
      sources evidence tags (Some t) = Inr r
    \<and> validate_record E r = Inr () \<and> dget r ''kind'' = JStr (str kind)
    \<and> dget r ''title'' = JStr (py_strip title) \<and> dget r ''statement'' = JStr (py_strip statement)"
  using create_signed_record_total [OF assms] by blast

lemma create_signed_record_correct_witness:
  "\<exists>r. create_signed_record toy_env [] (b64encode toy_key) (str ''claim'') (str ''T'') (str ''T'')
     None None [] [] [] (Some (str ''T'')) = Inr r \<and> validate_record toy_env r = Inr ()"
  using create_signed_record_correct [OF toy_digests_32 toy_signatures_verify toy_public toy_args]
  by blast

text \<open>C21: A record identifier names one record: two valid records with the same identifier are equal up
  to key order, or their canonical envelopes are a collision of SHA-256.\<close>

theorem record_id_determines_record:
  assumes "validate_record E r = Inr ()" "wf_json r" "validate_record E r' = Inr ()" "wf_json r'"
    and "dget r ''record_id'' = dget r' ''record_id''"
  shows "same_json r r' \<or> digest_collision (sha256 E) (envelope_for_id r) (envelope_for_id r')"
  using assms same_record [of E r "()" r' "()"] by (simp add: rid_of_def)

lemma record_id_determines_record_witness:
  "validate_record toy_env toy_record = Inr () \<and> (same_json toy_record toy_record
     \<or> digest_collision (sha256 toy_env) (envelope_for_id toy_record) (envelope_for_id toy_record))"
  using record_id_determines_record [of toy_env toy_record toy_record] toy_record_valid by simp

section \<open>Merkle trees\<close>

text \<open>C23: Completeness of inclusion proofs: the proof that \<open>merkle_proof\<close> builds for any position of a
  list of identifiers is accepted by \<open>verify_merkle_proof\<close> against the root of the list, and
  has exactly one step per level of the tree.\<close>

theorem merkle_proof_accepted:
  assumes "\<forall>x. length (H x) = 32" "i < length ids" "mapE leaf ids = Inr level"
  shows "\<exists>steps root. merkle_proof H ids (int i) = Inr (JList steps) \<and> merkle_root H ids = Inr root
    \<and> verify_merkle_proof H (JStr (ids ! i)) (JList steps) (JStr root)
    \<and> length steps = tree_depth (length ids)"
  using merkle_proof_complete [OF assms] .

lemma merkle_proof_accepted_witness:
  "\<exists>steps root. merkle_proof toy_sha256 toy_ids 1 = Inr (JList steps)
     \<and> merkle_root toy_sha256 toy_ids = Inr root
     \<and> verify_merkle_proof toy_sha256 (JStr (toy_ids ! 1)) (JList steps) (JStr root)
     \<and> length steps = tree_depth (length toy_ids)"
  using merkle_proof_accepted [OF toy_sha256_32 _ toy_leaves, of 1] by (simp add: toy_ids_def)

text \<open>C5: Soundness of inclusion proofs: if a proof with one step per level of the tree is accepted
  against the root of a list of identifiers, the identifier it was given for is in the list, or
  a byte string hashed while checking and a different one hashed while building the root have
  the same digest.\<close>

theorem merkle_proof_sound:
  assumes "\<forall>x. length (H x) = 32" "ids \<noteq> []" "mapE leaf ids = Inr level"
    and "merkle_root H ids = Inr root" "fromhex_opt rid = Some v"
    and "verify_merkle_proof H (JStr rid) (JList steps) (JStr root)"
    and "length steps = tree_depth (length ids)"
  shows "(\<exists>i < length ids. fromhex_opt (ids ! i) = Some v)
    \<or> collides H (level_inputs H level) (step_inputs H v steps)"
proof -
  note l = mapE_leaf [OF assms(3)]
  from assms(5,6) obtain w where w: "verify_steps H v steps = Some w" "root = bytes_hex w" "length v = 32"
    by (auto simp: verify_merkle_proof_iff hex32_eq_Some)
  with merkle_root_eq [OF assms(3,2), of H] assms(4) have "w = hd (fold_levels H level)" by simp
  with l w assms have "v \<in> set level \<or> collides H (level_inputs H level) (step_inputs H v steps)"
    by (intro verify_steps_sound) auto
  moreover have "\<exists>i < length ids. fromhex_opt (ids ! i) = Some v" if "v \<in> set level"
    using that l by (metis in_set_conv_nth nth_map)
  ultimately show ?thesis by blast
qed

lemma merkle_proof_sound_witness:
  "\<exists>steps. (\<exists>i < length toy_ids. fromhex_opt (toy_ids ! i) = Some (replicate 32 2))
     \<or> collides toy_sha256 (level_inputs toy_sha256 [replicate 32 1, replicate 32 2])
         (step_inputs toy_sha256 (replicate 32 2) steps)"
proof -
  obtain steps root where p: "merkle_proof toy_sha256 toy_ids 1 = Inr (JList steps)"
    "merkle_root toy_sha256 toy_ids = Inr root"
    "verify_merkle_proof toy_sha256 (JStr (toy_ids ! 1)) (JList steps) (JStr root)"
    "length steps = tree_depth (length toy_ids)"
    using merkle_proof_complete [OF toy_sha256_32 _ toy_leaves, of 1] by (auto simp: toy_ids_def)
  have "toy_ids \<noteq> []" "fromhex_opt (toy_ids ! 1) = Some (replicate 32 2)"
    by (simp_all add: toy_ids_def del: bytes_hex.simps)
  from merkle_proof_sound [OF toy_sha256_32 this(1) toy_leaves p(2) this(2) p(3,4)]
  show ?thesis by blast
qed

text \<open>C29: A Merkle root with the number of leaves determines the leaves: two lists of the same length with
  the same root have the same digests in the same order, or two byte strings hashed while
  building the two roots collide.\<close>

theorem merkle_root_determines_leaves:
  assumes "\<forall>x. length (H x) = 32" "ids \<noteq> []" "length ids = length ids'"
    and "mapE leaf ids = Inr level" "mapE leaf ids' = Inr level'"
    and "merkle_root H ids = merkle_root H ids'"
  shows "level = level' \<or> collides H (level_inputs H level) (level_inputs H level')"
proof -
  note l = mapE_leaf [OF assms(4)] mapE_leaf [OF assms(5)]
  have "ids' \<noteq> []" using assms(2,3) by auto
  then have "hd (fold_levels H level) = hd (fold_levels H level')"
    using assms(6) merkle_root_eq [OF assms(4,2), of H] merkle_root_eq [OF assms(5), of H] by simp
  then show ?thesis
    using l assms by (intro fold_levels_inject) auto
qed

lemma merkle_root_determines_leaves_witness:
  "[replicate 32 1, replicate 32 2] = [replicate 32 1, replicate 32 (2 :: byte)]
     \<or> collides toy_sha256 (level_inputs toy_sha256 [replicate 32 1, replicate 32 2])
         (level_inputs toy_sha256 [replicate 32 1, replicate 32 2])"
  using merkle_root_determines_leaves [OF toy_sha256_32 _ refl toy_leaves toy_leaves refl]
  by (simp add: toy_ids_def)

section \<open>Canonical JSON and the Bitcoin payload\<close>

text \<open>C24: Canonical JSON is injective: two objects with the same canonical bytes are equal up to the order
  of dictionary keys, at every depth.\<close>

theorem canonical_json_injective:
  assumes "canonical_json_bytes v = Inr bs" "canonical_json_bytes w = Inr bs"
  shows "same_json v w"
  using assms by (rule canonical_json_same)

lemma canonical_json_injective_witness:
  "\<exists>bs. canonical_json_bytes (JList [JNull]) = Inr bs \<and> same_json (JList [JNull]) (JList [JNull])"
proof -
  obtain bs where "canonical_json_bytes (JList [JNull]) = Inr bs"
    using canonical_json_bytes_total [of "JList [JNull]"] by (auto simp: validate_leaf)
  with canonical_json_injective [OF this this] show ?thesis by blast
qed

text \<open>The canonical bytes do not depend on the order in which the keys of a dictionary were inserted.\<close>

theorem canonical_json_order_independent:
  assumes "distinct (map fst d)" "distinct (map fst d')" "set d = set d'"
    and "canonical_json_bytes (JDict d) = Inr bs"
  shows "canonical_json_bytes (JDict d') = Inr bs"
  using same_json_canonical [OF same_json_dict_perm [OF assms(1-3)] assms(4)] .

lemma canonical_json_order_independent_witness:
  "\<exists>bs. canonical_json_bytes (JDict [(KStr (str ''a''), JNull), (KStr (str ''b''), JNull)]) = Inr bs
     \<and> canonical_json_bytes (JDict [(KStr (str ''b''), JNull), (KStr (str ''a''), JNull)]) = Inr bs"
proof -
  let ?d = "[(KStr (str ''a''), JNull), (KStr (str ''b''), JNull)]"
  obtain bs where bs: "canonical_json_bytes (JDict ?d) = Inr bs"
    using canonical_json_bytes_total [of "JDict ?d"] by (auto simp: validate_depth)
  have "canonical_json_bytes (JDict (rev ?d)) = Inr bs"
    by (rule canonical_json_order_independent [OF _ _ _ bs]) auto
  with bs show ?thesis by auto
qed

text \<open>C31: The anchor payload and its script round-trip: encoding a batch identifier and building the
  script gives 76 hexadecimal characters of payload; extracting the payload from the script and
  decoding it gives back the identifier and the commitment type.\<close>

theorem payload_round_trip:
  assumes "encode_anchor_payload batch_id ctype = Inr payload"
  shows "\<exists>script p. length payload = 76 \<and> build_op_return_script payload = Inr script
    \<and> extract_payload_from_script (JStr script) = Some payload
    \<and> decode_anchor_payload payload = Inr p \<and> int (commitment_type p) = ctype
    \<and> fromhex_opt (manifest_hash p) = fromhex_opt batch_id"
proof -
  from assms obtain d where d: "length d = 32" "0 \<le> ctype"
    "payload = bytes_hex (MAGIC @ [word_of_nat VERSION, word_of_nat (nat ctype)] @ d)"
    by (auto simp only: encode_eq_Inr)
  define bs where "bs = MAGIC @ [word_of_nat VERSION, word_of_nat (nat ctype)] @ d"
  have bs: "payload = bytes_hex bs" "length bs = 38" "0 \<le> ctype" using d by (simp_all add: bs_def)
  then obtain script where script: "build_op_return_script payload = Inr script"
    by (auto simp: build_op_return_script_def)
  show ?thesis
    using encode_decode [OF assms] extract_build [OF script] script bs by auto
qed

lemma payload_round_trip_witness:
  "\<exists>script p. build_op_return_script (bytes_hex (MAGIC @ [3, 1] @ replicate 32 7)) = Inr script
    \<and> decode_anchor_payload (bytes_hex (MAGIC @ [3, 1] @ replicate 32 7)) = Inr p
    \<and> commitment_type p = 1"
proof -
  have "encode_anchor_payload (bytes_hex (replicate 32 7)) 1 = Inr (bytes_hex (MAGIC @ [3, 1] @ replicate 32 7))"
    unfolding encode_eq_Inr fromhex_bytes_hex by (simp add: VERSION_def)
  from payload_round_trip [OF this] show ?thesis by auto
qed

text \<open>C16: A finished broadcast is guarded: it made six requests, the fee it reports is neither zero or less nor
  above the configured maximum, and the transaction it had decoded before sending it has
  exactly one output carrying the payload, the one reported. (A fee of NaN passes both
  comparisons.)\<close>

theorem broadcast_guarded:
  assumes "broadcast_op_return R payload c = (Inr b, c')"
  shows "c' = c + 6 \<and> \<not> float_le (b_fee_btc b) (Dyadic 0 0)
    \<and> \<not> float_less (max_anchor_fee_btc R) (b_fee_btc b)
    \<and> (\<exists>decoded outputs. fst (rpc_call R ''decoderawtransaction'' [b_raw_transaction b] (c + 4)) = Inr decoded
       \<and> py_iter (dget decoded ''vout'') = Some outputs
       \<and> length (filter (carries payload) outputs) = 1
       \<and> matching_vouts payload outputs = Inr [b_vout b])"
  using broadcast_checks [OF assms] by simp

lemma broadcast_guarded_witness:
  "\<exists>b. broadcast_op_return toy_rpc toy_payload 0 = (Inr b, 6) \<and> b_vout b = 0
     \<and> \<not> float_less (max_anchor_fee_btc toy_rpc) (b_fee_btc b)"
  using broadcast_guarded [OF toy_broadcast] toy_broadcast by auto

text \<open>C32: With an expected payload, \<open>find_payload\<close> is exact, with and without an expected output number. It
  looks at the transaction that Bitcoin returns. What it returns is the expected payload and the
  number of the output that carries it (\<open>output['n']\<close>, or its position where there is none), which is
  the expected number if one was given; and this is the first such output. When it returns nothing,
  no output of the transaction carries the payload at the expected number (or anywhere, when none was
  expected), or the payload is not decodable.\<close>

theorem find_payload_exact:
  assumes "find_payload R txid bhash (Some payload) vout c = (Inr found, c')"
  shows "(case found of
      Some (p, tx, n) \<Rightarrow> p = payload \<and> (vout = None \<or> vout = Some n)
        \<and> (\<exists>q. decode_anchor_payload payload = Inr q) \<and> (\<exists>c1. rpc_transaction R txid bhash c = (Inr tx, c1))
        \<and> (\<exists>outputs. py_iter (dget tx ''vout'') = Some outputs \<and> (\<exists>k < length outputs.
              carries payload (outputs ! k) \<and> output_number (int k) (outputs ! k) = Inr n
              \<and> (\<forall>j < k. \<not> wanted payload vout (int j) (outputs ! j))))
    | None \<Rightarrow> (\<exists>e. decode_anchor_payload payload = Inl e) \<or>
        (\<exists>tx c1. rpc_transaction R txid bhash c = (Inr tx, c1) \<and>
           (\<forall>outputs. py_iter (dget tx ''vout'') = Some outputs \<longrightarrow>
             (\<forall>k < length outputs. \<not> wanted payload vout (int k) (outputs ! k)))))"
  using find_payload_spec [OF assms] .

lemma find_payload_exact_witness:
  "\<exists>tx outputs k. find_payload toy_rpc JNull JNull (Some toy_payload) None 0 = (Inr (Some (toy_payload, tx, 0)), 1)
     \<and> py_iter (dget tx ''vout'') = Some outputs \<and> k < length outputs
     \<and> carries toy_payload (outputs ! k) \<and> output_number (int k) (outputs ! k) = Inr 0"
proof -
  obtain tx where tx: "find_payload toy_rpc JNull JNull (Some toy_payload) None 0
      = (Inr (Some (toy_payload, tx, 0)), 1)"
    using toy_find by blast
  from find_payload_exact [OF tx] obtain outputs k where "py_iter (dget tx ''vout'') = Some outputs" "k < length outputs"
    "carries toy_payload (outputs ! k)" "output_number (int k) (outputs ! k) = Inr 0" by auto
  with tx show ?thesis by blast
qed

section \<open>The node over HTTP\<close>

text \<open>C1: Whatever requests arrive and whatever peers answer, a node that starts empty stays sound: every
  record and batch in its index is valid and the batches are linked to records that it holds,
  every evidence file has the digest it is filed under, every scanned commitment is carried by an
  output of a block that the node's Bitcoin daemon served and commits to its batch, and every
  anchor it calls confirmed is justified by a scanned output or by a confirmed transaction in
  the active chain.\<close>

theorem reachable_node_sound:
  assumes "reachable E R S a"
  shows "index_ok E (ix (app_node a)) \<and> evidence_ok E (ev (app_node a))
    \<and> (\<forall>c \<in> set (all_rows (commitments_t (ix (app_node a)))). commitment_scanned R c)
    \<and> (\<forall>x \<in> set (all_rows (anchors_t (ix (app_node a)))). is_confirmed x \<longrightarrow>
        justified R (a_txid x) (a_vout x) (a_batch_id x))"
  using reachable_chain_ok [OF assms] by (simp add: chain_ok_def node_ok_def)

lemma reachable_node_sound_witness:
  "\<exists>a :: app. get_record (ix (app_node a)) (rid_of toy_record) = Some toy_record
    \<and> index_ok toy_env (ix (app_node a)) \<and> evidence_ok toy_env (ev (app_node a))"
proof -
  obtain a where a: "reachable toy_env toy_rpc (w_settings toy_world) a"
    "get_record (ix (app_node a)) (rid_of toy_record) = Some toy_record"
    using toy_reached by blast
  from reachable_node_sound [OF a(1)] a(2) show ?thesis by blast
qed

text \<open>C10: A request that needs the administrator's token, and whose sender does not bear it (or asks a node
  for coordination that is not a coordinator), is refused, and changes nothing: neither the
  index and the evidence nor the counters of the rate limiter.\<close>

theorem unauthorised_request_refused:
  assumes "needs_admin c" "\<not> may_administer (w_settings W) q c"
  shows "\<exists>e. handle W q c a = (Inl e, a)"
  using assms by (rule handle_denied)

lemma unauthorised_request_refused_witness:
  "\<exists>e. handle toy_world toy_request (PostSnapshot toy_record) toy_app = (Inl e, toy_app)"
proof -
  have "\<not> may_administer (w_settings toy_world) toy_request (PostSnapshot toy_record)"
    by (simp add: may_administer_def bears_admin_token_def toy_request_def)
  from unauthorised_request_refused [OF _ this] show ?thesis by simp
qed

text \<open>C9: A record that a node accepts over HTTP is valid, within the relay policy, carries the proof of
  work that the node asks for and, where the node asks for one, a submission token; afterwards
  the node holds it.\<close>

theorem accepted_record_checked:
  assumes "post_record W q r a = (Inr res, a')"
  shows "validate_record (w_env W) r = Inr () \<and> relay_policy W r = Inr ()
    \<and> verify_relay_pow (w_env W) (rid_of r) (header q ''x-hap-relay-nonce'') (relay_pow_bits (w_settings W)) = Inr True
    \<and> can_relay (w_settings W)
    \<and> (submission_token_required (w_settings W) \<longrightarrow>
        (\<exists>s \<in> set (submission_tokens (w_settings W)). header q ''x-hap-submission-token'' = Some s))
    \<and> get_record (ix (app_node a')) (rid_of r) \<noteq> None"
  using assms by (rule post_record_accepted)

lemma accepted_record_checked_witness:
  "\<exists>res a. post_record toy_world toy_request toy_record toy_app = (Inr res, a)
    \<and> relay_policy toy_world toy_record = Inr () \<and> get_record (ix (app_node a)) (rid_of toy_record) \<noteq> None"
  using toy_post accepted_record_checked by blast

text \<open>C40: A submission that fails for any reason leaves the node as it was; only the rate limiter may have
  counted it.\<close>

theorem refused_record_changes_nothing:
  assumes "post_record W q r a = (Inl e, a')"
  shows "app_node a' = app_node a"
  using assms by (rule post_record_refused)

lemma refused_record_changes_nothing_witness:
  "\<exists>e a. post_record toy_world toy_request JNull toy_app = (Inl e, a) \<and> app_node a = app_node toy_app"
proof -
  obtain res a where r: "post_record toy_world toy_request JNull toy_app = (res, a)" by force
  have "validate_record toy_env JNull \<noteq> Inr ()"
    by (auto simp: validate_record_eq_Inr dest: validate_head_facts(1) has_fields_is_dict)
  then have "res \<noteq> Inr x" for x
    using post_record_accepted [of toy_world toy_request JNull toy_app x a] r by (auto simp: toy_settings_world)
  then obtain e where "res = Inl e" by (cases res) auto
  with r refused_record_changes_nothing [of toy_world toy_request JNull toy_app e a] show ?thesis by blast
qed

text \<open>C13: Over any sequence of requests at increasing times, a client is granted at most the configured
  number of accepted records in any window of sixty seconds, whatever other requests
  (administrative ones included) share the limiter.\<close>

theorem accepted_records_rate_limited:
  assumes "0 \<le> write_requests_per_minute S" "sorted (map (w_tick \<circ> fst) cs)"
  shows "int (length (in_window 60 t (grants_of k (accepted_records cs (new_app S n))))) \<le> write_requests_per_minute S"
  using assms by (rule records_rate_limited)

lemma accepted_records_rate_limited_witness:
  "accepted_records [(toy_world, toy_request, PostRecord toy_record)] toy_app = [(0, str ''ip:'' @ str ''10.0.0.1'')]
    \<and> int (length (in_window 60 0 (grants_of (str ''ip:'' @ str ''10.0.0.1'')
        (accepted_records [(toy_world, toy_request, PostRecord toy_record)] toy_app)))) \<le> 10"
proof -
  obtain a where "post_record toy_world toy_request toy_record toy_app = (Inr (rid_of toy_record, ''accepted''), a)"
    using toy_post by blast
  then have "accepted_records [(toy_world, toy_request, PostRecord toy_record)] toy_app = [(0, str ''ip:'' @ str ''10.0.0.1'')]"
    by (simp add: ignore_def bindM_def liftM_def toy_write_key toy_settings_world)
  moreover have "0 \<le> write_requests_per_minute (w_settings toy_world)"
    by (simp add: toy_settings_world toy_settings_read)
  from accepted_records_rate_limited [OF this, of "[(toy_world, toy_request, PostRecord toy_record)]" 0
      "str ''ip:'' @ str ''10.0.0.1''" empty_node]
  have "int (length (in_window 60 0 (grants_of (str ''ip:'' @ str ''10.0.0.1'')
        (accepted_records [(toy_world, toy_request, PostRecord toy_record)] toy_app)))) \<le> 10"
    by (simp add: toy_settings_world toy_settings_read toy_app_def del: accepted_records.simps)
  ultimately show ?thesis by blast
qed

text \<open>C28: The rate limiter refines a sliding window. Seen as the times of the granted calls within the
  window, key by key, a call appends its own time to its key when it is granted and changes
  nothing else; it is granted only below the limit, and refused only at the limit or when the
  table of keys is full (pruning and the dropping of expired times are not visible).\<close>

theorem limiter_refines_window:
  assumes "events_ok now (lm_events L)" "0 < lm_window L" "allow now key L = (g, L')"
    and "view = window_view (now - lm_window L)"
  shows "events_ok now (lm_events L') \<and> view L' = (view L)(key := view L key @ (if g then [now] else []))
    \<and> (if g then int (length (view L key)) < lm_requests L
       else lm_requests L \<le> int (length (view L key)) \<or> lm_max_keys L \<le> int (length (lm_events L')))"
  using allow_step [OF assms(1-3)] by (auto simp: assms(4) window_step_def window_view_def Let_def fun_eq_iff)

lemma limiter_refines_window_witness:
  "\<exists>l. allow 0 [] (app_limiter toy_app) = (True, l) \<and> window_view (- 60) l = (\<lambda>_. [])([] := [0])"
proof -
  obtain l where l: "allow 0 [] (app_limiter toy_app) = (True, l)" using toy_limiter by blast
  have "lm_events (app_limiter toy_app) = []" "lm_window (app_limiter toy_app) = 60"
    by (simp_all add: toy_app_def new_app_def)
  moreover from this have "window_view (- 60) (app_limiter toy_app) = (\<lambda>_. [])"
    by (simp add: window_view_def queue_of_def recent_def fun_eq_iff)
  ultimately have "window_view (- 60) l = (\<lambda>_. [])([] := [0])"
    using limiter_refines_window [OF _ _ l refl] by (simp add: events_ok_def)
  with l show ?thesis by blast
qed

text \<open>C37: The body limit. A request that declares a length that is no number, or more than the limit, is rejected
  and the application is not called. Otherwise the application runs, and whatever it does (it need
  not read the body, and it may catch the exception) it is given at most the limit. A run that would
  not be given more without the limit is passed on unchanged; a run of an application that lets
  \<open>RequestTooLarge\<close> through and would be given more is rejected, after it was given exactly the messages
  before the one that exceeds the limit.\<close>

theorem body_limit_exact:
  assumes "0 \<le> max_bytes" "body_limit True max_bytes headers app ms = (result, seen)"
    and "run_app plain_receive app () ms = (out, got)"
  shows "int (body_size seen) \<le> max_bytes
    \<and> (\<not> length_accepted max_bytes headers \<longrightarrow> seen = [] \<and> (\<exists>why. result = Rejected why))
    \<and> (length_accepted max_bytes headers \<and> int (body_size got) \<le> max_bytes \<and> out \<noteq> TooLargeRaised \<longrightarrow>
        result = Passed out \<and> seen = got)
    \<and> (length_accepted max_bytes headers \<and> max_bytes < int (body_size got) \<and> lets_through app \<longrightarrow>
        result = Rejected ''request body is too large''
        \<and> (\<exists>m rest. got = seen @ m # rest \<and> max_bytes < int (body_size (seen @ [m]))))"
  using body_limit_cases [OF assms(2,3,1)] by blast

text \<open>An application that reads two messages, and one that reads none.\<close>

lemma body_limit_exact_witness:
  "body_limit True 2 [] toy_reader [Body (Some [1]), Body (Some [2])] = (Passed (Returned True), [Body (Some [1]), Body (Some [2])])
    \<and> body_limit True 2 [] toy_reader [Body (Some [1]), Body (Some [2, 3])] = (Rejected ''request body is too large'', [Body (Some [1])])
    \<and> body_limit True 2 [] (Answer True) [Body (Some [1, 2, 3])] = (Passed (Returned True), [])"
proof -
  have undeclared: "length_accepted 2 []" by (simp add: length_accepted_def)
  obtain r1 s1 where l1: "body_limit True 2 [] toy_reader [Body (Some [1]), Body (Some [2])] = (r1, s1)" by fastforce
  obtain r2 s2 where l2: "body_limit True 2 [] toy_reader [Body (Some [1]), Body (Some [2, 3])] = (r2, s2)" by fastforce
  obtain r3 s3 where l3: "body_limit True 2 [] (Answer True) [Body (Some [1, 2, 3])] = (r3, s3)" by fastforce
  have within: "r1 = Passed (Returned True)" "s1 = [Body (Some [1]), Body (Some [2])]"
    using body_limit_exact [OF _ l1 toy_reads(1)] undeclared by auto
  have "2 < int (body_size [Body (Some [1]), Body (Some [2, 3])])" by simp
  with body_limit_exact [OF _ l2 toy_reads(1), THEN conjunct2, THEN conjunct2, THEN conjunct2] undeclared toy_reads(2)
  obtain m rest where beyond: "r2 = Rejected ''request body is too large''" "[Body (Some [1]), Body (Some [2, 3])] = s2 @ m # rest"
    "2 < int (body_size (s2 @ [m]))"
    by (metis zero_le_numeral)
  then have "s2 = [Body (Some [1])]" by (cases s2; cases "tl s2") auto
  moreover have "r3 = Passed (Returned True)" "s3 = []"
    using body_limit_exact [OF _ l3, of "Returned True" "[]"] undeclared by auto
  ultimately show ?thesis using l1 l2 l3 within beyond(1) by simp
qed

section \<open>Settings\<close>

text \<open>C38: Settings that are read from an environment are within their limits whatever the environment
  says: every number is within the range of its setting, a token list has no empty or repeated
  token, a coordinator has an administrator's token, mainnet is expected only where it is allowed, and
  every peer is an HTTP URL.\<close>

theorem settings_within_limits:
  assumes "settings_from_environment V = Inr S"
  shows "settings_in_bounds S \<and> distinct (submission_tokens S) \<and> [] \<notin> set (submission_tokens S)
    \<and> role S \<in> str ` set VALID_ROLES \<and> (can_coordinate S \<longrightarrow> \<not> no_token (admin_token S))
    \<and> (submission_token_required S \<longrightarrow> submission_tokens S \<noteq> [])
    \<and> (bitcoin_expected_network S = str ''mainnet'' \<longrightarrow> allow_mainnet S)
    \<and> (\<forall>p \<in> set (peers S). starts_with p (str ''http://'') \<or> starts_with p (str ''https://''))"
  using settings_sound [OF assms] by (simp add: validate_settings_eq_Inr)

lemma settings_within_limits_witness:
  "settings_from_environment toy_environ = Inr toy_settings \<and> settings_in_bounds toy_settings
    \<and> can_coordinate toy_settings \<and> \<not> no_token (admin_token toy_settings)"
  using settings_within_limits [OF toy_settings_read(1)] toy_settings_read
  by (simp add: can_coordinate_def)

section \<open>Relay proof of work\<close>

text \<open>C36: Mining terminates for every record identifier, difficulty, start and bound on the attempts, also when no
  bound is given: a nonce has at most 64 digits, so that the search ends.\<close>

theorem mining_terminates: "\<exists>r. mine_relay_pow E rid required_bits start max_attempts = Some r"
  by (rule mine_relay_pow_total)

text \<open>A mined nonce is accepted by every node that asks for that difficulty.\<close>

theorem mined_nonce_accepted:
  assumes "ascii_text rid" "mine_relay_pow E rid required_bits start max_attempts = Some (Inr nonce)"
  shows "verify_relay_pow E rid (Some nonce) required_bits = Inr True"
  using assms by (rule mined_nonce_verifies)

text \<open>Mining finds a nonce when there is one in its range: at or after the start, of at most 64 digits, and
  within the bound on the attempts.\<close>

theorem mining_finds_nonce:
  assumes "ascii_text rid" "0 < required_bits" "max 0 start \<le> n" "n < 10 ^ 64"
    and "\<forall>k. max_attempts = Some k \<longrightarrow> n - max 0 start < k" and "meets E rid required_bits n"
  shows "\<exists>t. mine_relay_pow E rid required_bits start max_attempts = Some (Inr t)"
  using assms by (rule mining_complete)

lemma mining_finds_nonce_witness:
  "\<exists>t. mine_relay_pow toy_env (rid_of toy_record) 8 5 (Some 1) = Some (Inr t)"
  by (rule mining_finds_nonce [of _ _ _ 5]) (simp_all add: toy_rid_ascii toy_meets)

lemma mined_nonce_accepted_witness:
  "\<exists>t. mine_relay_pow toy_env (rid_of toy_record) 8 5 (Some 1) = Some (Inr t)
    \<and> verify_relay_pow toy_env (rid_of toy_record) (Some t) 8 = Inr True"
proof -
  obtain t where "mine_relay_pow toy_env (rid_of toy_record) 8 5 (Some 1) = Some (Inr t)"
    using mining_complete [of "rid_of toy_record" 8 5 5 "Some 1" toy_env] by (auto simp: toy_rid_ascii toy_meets)
  with mined_nonce_accepted [OF toy_rid_ascii this] show ?thesis by blast
qed

text \<open>Counting leading zero bits byte by byte is comparing the digest, read as a number, with a target:
  a digest has at least \<open>k\<close> leading zero bits exactly when it is below \<open>2\<close> to the number of its bits
  less \<open>k\<close>.\<close>

theorem leading_zero_bits_target:
  assumes "k \<le> 8 * length d"
  shows "k \<le> leading_zero_bits d \<longleftrightarrow> bytes_value d < 2 ^ (8 * length d - k)"
  using assms by (rule leading_zero_bits_iff)

lemma leading_zero_bits_target_witness: "10 \<le> leading_zero_bits [0, 0x3F] \<and> \<not> 11 \<le> leading_zero_bits [0, 0x3F]"
  using leading_zero_bits_target [of 10 "[0, 0x3F]"] leading_zero_bits_target [of 11 "[0, 0x3F]"] by simp

section \<open>Wallets and donation addresses\<close>

text \<open>C34: A wallet opens with the password that it was made with, for every private key, salt and nonce of the
  sizes that \<open>create_encrypted_wallet\<close> uses (32, 16 and 12 bytes) and every password that is not empty,
  that UTF-8 can encode and that has less than 2^31 bytes: the key comes back as it was given (in
  base64). The hypothesis about the library is that scrypt with the default parameters and a salt of
  16 bytes derives a key of 32 bytes, and that AES-GCM with such a key and a nonce of 12 bytes opens
  what it sealed.\<close>

theorem wallet_opens:
  assumes "ciphers_open X" "ed_public E private_raw = Some public_raw" "length private_raw = 32" "length public_raw = 32"
    and "password \<noteq> []" "encode_utf8 password = Inr bs" "length bs < 2 ^ 31" "length salt = 16" "length nonce = 12"
  shows "\<exists>w. create_encrypted_wallet E X password private_raw public_raw salt nonce = Inr w
    \<and> decrypt_wallet E X w password = Inr (b64encode private_raw)"
  using assms by (rule wallet_round_trip)

lemma wallet_opens_witness:
  "\<exists>w. create_encrypted_wallet toy_env toy_ciphers [112] toy_key toy_key toy_salt toy_nonce = Inr w
    \<and> decrypt_wallet toy_env toy_ciphers w [112] = Inr (b64encode toy_key)"
  by (rule wallet_opens [OF toy_ciphers_open toy_public _ _ _ toy_password])
    (simp_all add: toy_key_def toy_salt_def toy_nonce_def)

text \<open>A wallet that opens yields the key of the identity it names: the public key derived from the private
  key, and the author identifier derived from that, are those in the wallet.\<close>

theorem opened_wallet_sound:
  assumes "decrypt_wallet E X wallet password = Inr sk"
  shows "\<exists>pk a. derive_public_key E sk = Inr pk \<and> dict_item wallet ''public_key'' = Inr (JStr pk)
    \<and> public_key_to_author_id E pk = Inr a \<and> dict_item wallet ''author_id'' = Inr (JStr a) \<and> password \<noteq> []"
  using decrypt_wallet_sound [OF assms] by blast

lemma opened_wallet_sound_witness:
  "\<exists>w pk. decrypt_wallet toy_env toy_ciphers w [112] = Inr (b64encode toy_key)
    \<and> derive_public_key toy_env (b64encode toy_key) = Inr pk \<and> dict_item w ''public_key'' = Inr (JStr pk)"
proof -
  obtain w where w: "decrypt_wallet toy_env toy_ciphers w [112] = Inr (b64encode toy_key)"
    using toy_wallet by blast
  with opened_wallet_sound [OF w] show ?thesis by blast
qed

text \<open>C35: The check of the donation address catches a mistyped character: two accepted addresses never
  differ in exactly one character (the fourth, which names the witness version and so which of
  the two checksums applies, apart).\<close>

theorem mistyped_address_refused:
  assumes "validate_bitcoin_address T v = Inr (us @ c # ws)" "validate_bitcoin_address T w = Inr (us @ d # ws)"
    and "length us \<noteq> 3"
  shows "c = d"
  using validated_address [OF assms(1)] validated_address [OF assms(2)] valid_address_one_error assms(3) by blast

lemma mistyped_address_refused_witness:
  "\<exists>us ws. GENESIS_DONATION_ADDRESS = us @ 49 # ws
    \<and> (\<forall>v d. validate_bitcoin_address ascii_tables v = Inr (us @ d # ws) \<longrightarrow> d = 49)"
proof -
  obtain us ws where a: "GENESIS_DONATION_ADDRESS = us @ 49 # ws" "length us = 2"
    by (rule that [of "str ''bc''"]) (simp_all add: GENESIS_DONATION_ADDRESS_def str_def)
  have "d = 49" if "validate_bitcoin_address ascii_tables v = Inr (us @ d # ws)" for v d
    using mistyped_address_refused [OF genesis_address_valid [unfolded a(1)] that] a by simp
  with a show ?thesis by blast
qed

section \<open>Batches, packages and snapshots of a node\<close>

text \<open>C6: A node can always hand out the package of a batch that it holds: the package is valid, belongs to
  the batch, and has exactly the committed records in the committed order, as they are stored.\<close>

theorem package_of_held_batch:
  assumes "index_ok E s" "digests_32 E" "get_batch s bid = Some b"
  shows "\<exists>p. package_for_batch E s bid = Inr (Some p) \<and> validate_package E p = Inr ()
    \<and> dget p ''batch'' = b \<and> map rid_of (records_of p) = record_ids_of b
    \<and> (\<forall>r \<in> set (records_of p). get_record s (rid_of r) = Some r)"
  using assms by (rule package_for_batch_total)

lemma package_of_held_batch_witness:
  "\<exists>b p. get_batch (ix toy_node) (bid_of toy_batch) = Some b
    \<and> package_for_batch toy_env (ix toy_node) (bid_of toy_batch) = Inr (Some p) \<and> validate_package toy_env p = Inr ()"
proof -
  have ok: "index_ok toy_env (ix toy_node)" using toy_node_holds(1) by (simp add: node_ok_def)
  from package_of_held_batch [OF ok toy_digests_32 toy_node_gets(1)] toy_node_gets(1) show ?thesis by blast
qed

text \<open>C7: A valid package can always be imported when its records refer to each other without a cycle: the
  import ends without an exception, the node stays sound, it holds the records of the package
  besides those it held, and the batch. (The targets of the records need not be in the package
  or in the node.)\<close>

theorem package_import_succeeds:
  assumes "node_ok E n" "validate_package E p = Inr ()" "wf_json p" "targets_ranked rank (records_of p)"
  shows "\<exists>m status n'. import_package E p n = (Inr (text_of (dget p ''package_id''), bid_of (dget p ''batch''), m, status), n')
    \<and> node_ok E n' \<and> record_ids_in (ix n') = record_ids_in (ix n) \<union> rid_of ` set (records_of p)
    \<and> bid_of (dget p ''batch'') \<in> batch_ids_in (ix n')"
  using assms by (rule import_package_total)

lemma package_import_succeeds_witness:
  "\<exists>res n. import_package toy_env toy_package empty_node = (Inr res, n) \<and> record_ids_in (ix n) = {rid_of toy_record}"
proof -
  have "targets_ranked (\<lambda>_. 0) (records_of toy_package)"
    using toy_record_valid by (simp add: targets_ranked_def toy_package_records target_of_def)
  from package_import_succeeds [OF empty_node_ok(1) toy_package_valid(1,2) this]
  show ?thesis by (auto simp: toy_package_records empty_node_ok record_ids_in_def empty_index_def)
qed

text \<open>C30: A new batch that a coordinator makes fits: the package that the node hands out for it is not
  larger than the limit, is not empty, and commits to records that the node held.\<close>

theorem new_batch_fits:
  assumes "node_ok E n" "digests_32 E" "create_batch E now network limit max_bytes n = (Inr b, n')"
    and "bid_of b \<notin> batch_ids_in (ix n)"
  shows "\<exists>p bs. package_for_batch E (ix n') (bid_of b) = Inr (Some p) \<and> canonical_json_bytes p = Inr bs
    \<and> int (length bs) \<le> max_bytes \<and> records_of p \<noteq> [] \<and> set (record_ids_of b) \<subseteq> record_ids_in (ix n)"
  using create_batch_fits [OF assms(1-3)] assms(4) by blast

lemma new_batch_fits_witness:
  "\<exists>limit n p bs. create_batch toy_env 0 (str ''regtest'') 10 limit toy_fresh = (Inr toy_batch, n)
    \<and> package_for_batch toy_env (ix n) (bid_of toy_batch) = Inr (Some p) \<and> canonical_json_bytes p = Inr bs
    \<and> int (length bs) \<le> limit"
proof -
  obtain limit n where c: "create_batch toy_env 0 (str ''regtest'') 10 limit toy_fresh = (Inr toy_batch, n)"
    using toy_create_batch by blast
  from new_batch_fits [OF toy_fresh_holds(1) toy_digests_32 this] c toy_fresh_holds(4) show ?thesis by blast
qed

text \<open>C8: A snapshot restores a node. For a node under the invariant with at most ten million records and batches
  (the limit of the export), the export succeeds exactly when the target of every stored record is
  stored and every anchor is publishable: its reference is valid and its numbers and texts have
  canonical JSON (an imported anchor with a number from 2^53 up has not, see
  \<open>large_anchor_blocks_export\<close>). And an empty node that imports a snapshot so exported ends up with the
  same records and batches and the same anchor points, none of which it calls confirmed before it has
  looked at Bitcoin itself; provided that no record reaches itself over its targets (\<open>targets_ranked\<close>) and
  that every anchor has the network of its batch.\<close>

theorem snapshot_restores:
  assumes "node_ok E n" "digests_32 E" "0 \<le> now" "now \<le> MAX_SAFE_JSON_INTEGER"
    and "length (all_rows (records_t (ix n))) \<le> 10000000" "length (all_rows (batches_t (ix n))) \<le> 10000000"
    and "targets_ranked rank (map r_body (all_rows (records_t (ix n))))"
    and "\<forall>a \<in> set (all_rows (anchors_t (ix n))).
      \<exists>b. get_batch (ix n) (a_batch_id a) = Some b \<and> dget b ''network'' = JStr (a_network a)"
    and "ix m = empty_index" "evidence_ok E (ev m)"
  shows "((\<exists>snap. export_snapshot E now (ix n) = Inr snap) \<longleftrightarrow>
      targets_stored (ix n) \<and> (\<forall>a \<in> set (all_rows (anchors_t (ix n))). publishable a))
    \<and> (\<forall>snap. export_snapshot E now (ix n) = Inr snap \<longrightarrow> (\<exists>counts m'. import_snapshot E snap m = (Inr counts, m')
    \<and> node_ok E m' \<and> get_record (ix m') = get_record (ix n) \<and> get_batch (ix m') = get_batch (ix n)
    \<and> a_point ` set (all_rows (anchors_t (ix m'))) = a_point ` set (all_rows (anchors_t (ix n)))
    \<and> confirmed_outputs (ix m') = {}))"
proof -
  have "index_ok E (ix n)" using assms(1) by (simp add: node_ok_def)
  from export_exact [OF this assms(2-6)] restore_snapshot [OF assms(1,5,6) _ assms(7-10)] show ?thesis by blast
qed

lemma snapshot_restores_witness:
  "\<exists>snap counts m. export_snapshot toy_env 0 (ix toy_node) = Inr snap
    \<and> import_snapshot toy_env snap empty_node = (Inr counts, m) \<and> get_record (ix m) = get_record (ix toy_node)"
proof -
  have t: "dget r ''target_record_id'' = JNull" if "r \<in> set (map r_body (all_rows (records_t (ix toy_node))))" for r
    using that toy_node_holds(2) toy_record_valid(4) by simp
  then have ranked: "targets_ranked (\<lambda>_. 0) (map r_body (all_rows (records_t (ix toy_node))))"
    by (auto simp: targets_ranked_def target_of_def)
  have closed: "targets_stored (ix toy_node)"
    using toy_node_gets(2) toy_record_valid(4) by (auto simp: targets_stored_def)
  show ?thesis
    using snapshot_restores [OF toy_node_holds(1) toy_digests_32 _ _ _ _ ranked _ empty_node_ok(2,3), of 0] closed
      toy_node_holds(2-4) [THEN arg_cong [of _ _ length]] toy_node_holds(4) by (auto simp: MAX_SAFE_JSON_INTEGER_def)
qed

section \<open>Evidence and listing\<close>

text \<open>C33: Evidence that is added can be opened: the file is stored under its digest, what is opened under
  that digest has it (and is the added content unless the digest was taken), and no other file
  changes.\<close>

theorem added_evidence_opens:
  assumes "digests_32 E" "evidence_ok E st" "case m of None \<Rightarrow> True | Some b \<Rightarrow> int (length content) \<le> b"
  shows "\<exists>st' c. add_file E (Some content) m st = (Inr (sha256_hex E content, int (length content)), st')
    \<and> evidence_ok E st' \<and> open_evidence E st' (JStr (sha256_hex E content)) = Inr c
    \<and> sha256_hex E c = sha256_hex E content \<and> (file_at st (sha256_hex E content) = None \<longrightarrow> c = content)
    \<and> (\<forall>k. k \<noteq> sha256_hex E content \<longrightarrow> file_at st' k = file_at st k)"
proof -
  from add_file_total [OF assms] obtain st' c where st':
    "add_file E (Some content) m st = (Inr (sha256_hex E content, int (length content)), st')"
    "evidence_ok E st'" "file_at st (sha256_hex E content) = None \<longrightarrow> file_at st' (sha256_hex E content) = Some content"
    "file_at st' (sha256_hex E content) = Some c" "sha256_hex E c = sha256_hex E content"
    "\<forall>k. k \<noteq> sha256_hex E content \<longrightarrow> file_at st' k = file_at st k"
    by (elim exE conjE)
  have "evidence_digest (JStr (sha256_hex E content)) = Inr (sha256_hex E content)"
    using evidence_digest_sha [OF assms(1)] .
  then have "open_evidence E st' (JStr (sha256_hex E content)) = Inr c"
    using st'(4,5) by (auto simp: open_evidence_eq_Inr evidence_digest_eq_Inr)
  with st' show ?thesis by auto
qed

lemma added_evidence_opens_witness:
  "\<exists>st. add_file toy_env (Some [1, 2]) (Some 2) (ev empty_node) = (Inr (sha256_hex toy_env [1, 2], 2), st)
    \<and> open_evidence toy_env st (JStr (sha256_hex toy_env [1, 2])) = Inr [1, 2]"
  using added_evidence_opens [OF toy_digests_32 empty_node_ok(3), of "[1, 2]" "Some 2"]
  by (auto simp: empty_node_def file_at_def)

text \<open>C26: What the responsible publication profile computes is its rule: a record is listed exactly when
  it is anchored, no notice window is open, no recognised author has restricted it, and it either
  declares that it affects no person or, after the cooling period, a recognised author has
  enabled it.\<close>

theorem listed_by_the_rule:
  assumes "assess_responsible_publication r linked A heights chain R cb nb = Inr v"
    and "declared_person_impact r = Inr impact"
  shows "rv_listed v \<longleftrightarrow> listing_rule r impact linked A heights chain R cb nb"
  using assms by (rule responsible_listed_iff)

lemma listed_by_the_rule_witness:
  "\<exists>v. assess_responsible_publication toy_claim [] {str ''r''} [] None {} 6 6 = Inr v \<and> rv_listed v
    \<and> listing_rule toy_claim (Some ''none'') [] {str ''r''} [] None {} 6 6"
proof -
  obtain v where v: "assess_responsible_publication toy_claim [] {str ''r''} [] None {} 6 6 = Inr v"
    using toy_claim_assessed by blast
  have "listing_rule toy_claim (Some ''none'') [] {str ''r''} [] None {} 6 6"
    by (simp add: listing_rule_def toy_claim_fields window_active_def)
  with v listed_by_the_rule [OF v toy_claim_fields(2)] show ?thesis by blast
qed

section \<open>Peers\<close>

text \<open>C18: Synchronising with peers, whatever they answer, keeps a node sound and changes nothing about what
  it calls confirmed: no peer can make an anchor confirmed, or take a confirmation away.\<close>

theorem sync_confirms_nothing:
  assumes "node_ok E n" "parses_well H" "sync_all_peers E H page_size max_bytes max_pages ps n = (res, n')"
  shows "node_ok E n' \<and> confirmed_outputs (ix n') = confirmed_outputs (ix n)"
  using preservesD [OF settled.sync_all_keep [OF assms(2), of E "confirmed_outputs (ix n)"] assms(3)] assms(1)
  by (simp add: settled_def)

lemma sync_confirms_nothing_witness:
  "\<exists>res n. sync_all_peers toy_env (toy_peer (ix toy_node)) 25 1 5 [str ''http://p''] empty_node = (res, n)
    \<and> confirmed_outputs (ix n) = {}"
proof -
  obtain res n where r: "sync_all_peers toy_env (toy_peer (ix toy_node)) 25 1 5 [str ''http://p''] empty_node = (res, n)"
    by force
  from sync_confirms_nothing [OF empty_node_ok(1) toy_peer_parses r] r show ?thesis
    by (auto simp: empty_node_ok confirmed_outputs_def empty_index_def)
qed

text \<open>C17: A node catches up with a peer that serves its records: the pass over the pages ends without an
  error, stores every record of the peer after the cursor (and keeps the records it had).\<close>

theorem sync_catches_up:
  assumes "serves_records H peer s max_bytes (min page_size 25) cursors" "records_ok E s" "0 < page_size"
    and "int ` fst ` set (rows (records_t s)) \<subseteq> cursors" "node_ok E n" "current \<in> cursors"
    and "length (rows_after current (records_t s)) < pages"
  shows "\<exists>st' result' n'. sync_pages E H page_size max_bytes peer key Records pages current st result n = (Inr (st', result'), n')
    \<and> node_ok E n' \<and> (\<forall>k. get_record (ix n) k \<noteq> None \<longrightarrow> get_record (ix n') k = get_record (ix n) k)
    \<and> (\<forall>(_, row) \<in> set (rows_after current (records_t s)). get_record (ix n') (r_id row) \<noteq> None)"
  using sync_records_total [OF assms(1-7)] .

lemma sync_catches_up_witness:
  "\<exists>st res n. sync_pages toy_env (toy_peer (ix toy_node)) 25 1 (str ''http://p'') [] Records 2 0 toy_state toy_result empty_node
      = (Inr (st, res), n) \<and> get_record (ix n) (rid_of toy_record) \<noteq> None"
proof -
  have ok: "records_ok toy_env (ix toy_node)" using toy_node_holds(1) by (simp add: node_ok_def index_ok_def)
  have "rows_after 0 (records_t (ix toy_node)) = [(1, row_of_record toy_record)]"
    by (simp add: rows_after_def toy_node_holds)
  with sync_catches_up [OF toy_peer_serves ok _ _ empty_node_ok(1), where pages = 2 and current = 0
      and peer = "str ''http://p''" and key = "[]" and st = toy_state and result = toy_result]
  show ?thesis by (auto simp: toy_node_holds)
qed

section \<open>Proofs and Bitcoin\<close>

text \<open>C25: The proof bundle that a node makes for a record that it holds. When the anchors of the batches of the
  record are publishable (their references are valid, and their numbers and texts have canonical
  JSON), a bundle is made and passes the offline verification: its shape is valid, it carries the
  record, every proof in it verifies, and it has a proof exactly when the record is in a batch of the
  node. When one of these anchors is not publishable, any bundle that is made is refused by the
  verification of its shape, and none is made when a number of an anchor is beyond 2^53 - 1, which
  is so for every record of the batch once such an anchor is imported.\<close>

theorem bundle_verifies:
  assumes "digests_32 E" "index_ok E s" "get_record s rid = Some r"
  shows "(if \<forall>a \<in> set (record_anchors s rid). publishable a
     then \<exists>b rep. proof_bundle_for_record E s rid = Inr (Some b) \<and> validate_proof_bundle_shape E b = Inr ()
        \<and> dget b ''record'' = r \<and> verify_proof_bundle E b = Inr rep \<and> br_record_valid rep
        \<and> (br_all_valid rep \<longleftrightarrow> (\<exists>row \<in> set (all_rows (batches_t s)). rid \<in> set (record_ids_of (bt_body row))))
     else \<forall>b. proof_bundle_for_record E s rid = Inr b \<longrightarrow> (\<exists>p e. b = Some p \<and> validate_proof_bundle_shape E p = Inl e))
    \<and> ((\<exists>b. proof_bundle_for_record E s rid = Inr b) \<longrightarrow>
        (\<forall>a \<in> set (record_anchors s rid). in_range (anchor_as_dict a)))"
  using bundle_exact [OF assms] by (rule conjI)

lemma bundle_verifies_witness:
  "\<exists>b rep. proof_bundle_for_record toy_env (ix toy_node) (rid_of toy_record) = Inr (Some b)
    \<and> verify_proof_bundle toy_env b = Inr rep \<and> br_record_valid rep \<and> br_all_valid rep"
proof -
  have ok: "index_ok toy_env (ix toy_node)" using toy_node_holds(1) by (simp add: node_ok_def)
  have "toy_batch \<in> bt_body ` set (all_rows (batches_t (ix toy_node)))"
    using toy_node_holds(3) by (metis list.set_intros(1) set_map)
  then have "\<exists>row \<in> set (all_rows (batches_t (ix toy_node))). rid_of toy_record \<in> set (record_ids_of (bt_body row))"
    using toy_batch_valid(2) by force
  moreover have "record_anchors (ix toy_node) (rid_of toy_record) = []"
    by (auto simp: record_anchors_def list_anchors_def toy_node_holds split: list.splits)
  ultimately show ?thesis
    using bundle_verifies [OF toy_digests_32 ok, of "rid_of toy_record" toy_record] by (auto simp: toy_node_gets)
qed

text \<open>C3: An anchor of a proof is reported as verified only on evidence from the Bitcoin daemon: the
  transaction that the anchor names has an output that carries the payload of the batch, at
  the output number of the anchor if it gives one, the transaction is confirmed, and its block
  is in the active chain.\<close>

theorem verified_anchor_backed:
  assumes "check_anchor R payload anchor n = (Inr x, n')" "reports_verified x"
  shows "\<exists>vout k k' tx own confs ctx j j'.
     find_payload R (dget anchor ''txid'') (dget anchor ''block_hash'') (Some payload) (opt_number (dget anchor ''vout'')) k
         = (Inr (Some (payload, tx, vout)), k')
     \<and> dict_get tx ''blockhash'' JNull = Inr own
     \<and> rpc_block_context R (if truthy own then own else dget anchor ''block_hash'') j = (Inr ctx, j')
     \<and> in_active_chain ctx \<and> confirmations_of tx = Inr confs \<and> 0 < confs"
  using check_anchor_evidence [OF assms] unfolding bitcoin_evidence_def .

lemma verified_anchor_backed_witness:
  "\<exists>x n tx vout k'. check_anchor toy_confirmed_rpc toy_payload toy_anchor_dict 0 = (Inr x, n) \<and> reports_verified x
    \<and> (\<exists>k. find_payload toy_confirmed_rpc (JStr (str ''t'')) JNull (Some toy_payload) (Some 0) k
        = (Inr (Some (toy_payload, tx, vout)), k'))"
proof -
  obtain x n where x: "check_anchor toy_confirmed_rpc toy_payload toy_anchor_dict 0 = (Inr x, n)" "reports_verified x"
    using toy_checked by blast
  from verified_anchor_backed [OF x] x show ?thesis by (auto simp: toy_anchor_dict_def opt_number_def)
qed

text \<open>C2: A scan follows the chain that the Bitcoin daemon serves, across reorganisations. If the stored
  blocks and commitments were those of some chain up to the scanned height, then after a scan
  that ends they are those of the current chain up to the new one (which is the end of the scan
  when it scanned a block), and an anchor whose commitment was lost with a replaced block, and
  was not found again, is not confirmed any more.\<close>

theorem scan_follows_chain:
  assumes "serves_chain R C tip" "fork_of C0 C" "on_chain C0 (scanned_height (ix n)) (ix n)"
    and "scan_bitcoin R clock start max_blocks n = (Inr res, n')"
  shows "on_chain C (scanned_height (ix n')) (ix n') \<and> (0 < sr_blocks res \<longrightarrow> scanned_height (ix n') = sr_end res)
    \<and> (\<forall>a \<in> set (all_rows (anchors_t (ix n'))). is_confirmed a
        \<and> a_point a \<in> c_point ` set (all_rows (commitments_t (ix n)))
        \<longrightarrow> a_point a \<in> c_point ` set (all_rows (commitments_t (ix n'))))"
  using assms by (rule scan_bitcoin_run)

lemma scan_follows_chain_witness:
  "\<exists>res n. scan_bitcoin toy_chain_rpc (\<lambda>_. 0) 0 10 toy_stale_node = (Inr res, n) \<and> sr_rewind res = Some (- 1)
    \<and> on_chain (\<lambda>_. str ''new'') 0 (ix n) \<and> scanned_height (ix n) = 0"
proof -
  obtain res n where run: "scan_bitcoin toy_chain_rpc (\<lambda>_. 0) 0 10 toy_stale_node = (Inr res, n)"
    "sr_rewind res = Some (- 1)" "sr_blocks res = 1" "sr_end res = 0"
    using toy_rescan by blast
  from scan_follows_chain [OF toy_chain_served toy_fork toy_stale run(1)] run show ?thesis by auto
qed

text \<open>C14: Anchoring is guarded. A batch for mainnet is refused where mainnet is not allowed, before any
  request is sent to the Bitcoin daemon and with no effect on the node; and an anchor that is
  returned is for this batch, was sent on the network of the batch at a fee within the
  configured maximum, and does not count as confirmed.\<close>

theorem anchoring_guarded:
  assumes "get_batch (ix n) bid = Some b" "anchor_batch E R now allowed bid n = (res, n')"
  shows "(dget b ''network'' = JStr (str ''mainnet'') \<and> \<not> allowed \<longrightarrow> (\<exists>e. res = Inl e) \<and> n' = n)
    \<and> (\<forall>a fee. res = Inr (a, fee) \<longrightarrow> a_batch_id a = bid \<and> \<not> is_confirmed a
        \<and> fst (rpc_network R (calls n)) = Inr (dget b ''network'') \<and> \<not> float_less (max_anchor_fee_btc R) fee)"
  using assms(2) by (rule anchor_batch_guarded [OF assms(1)])

lemma anchoring_guarded_witness:
  "\<exists>e. anchor_batch toy_env toy_rpc 0 False (bid_of toy_main_batch) toy_main_node = (Inl e, toy_main_node)"
proof -
  obtain res n where r: "anchor_batch toy_env toy_rpc 0 False (bid_of toy_main_batch) toy_main_node = (res, n)" by force
  from anchoring_guarded [OF toy_main_held(1) r] toy_main_held(2) r show ?thesis by auto
qed

section \<open>A server\<close>

text \<open>C12: The life of a server. Whatever an application is created from (a sound node, in a database that may have
  the old layout of anchors), and whatever its background tasks and requests do, the node stays
  sound, and no background task that is configured fails. As long as no shutdown was asked for none
  has ended, and each of them can come to run its action again, on the node as it is by then, and
  then waits for the next time, also when the action raises (an exception that was not caught would
  end the task). After a shutdown the server can close (which the exception of a failed task would
  prevent), without a change to the node.\<close>

theorem server_life:
  assumes "create_app given V i n old = Inr (S, s0)" "chain_ok E R n"
    and "\<forall>table. old = Some table \<longrightarrow> old_anchors_justified R table"
    and "server_runs E R S s0 s"
  shows "chain_ok E R (app_node (sr_app s)) \<and> map fst (sr_tasks s) = background_tasks S
    \<and> (\<forall>(t, p) \<in> set (sr_tasks s). p \<noteq> Failed \<and> (p = Ended \<longrightarrow> sr_stop s))
    \<and> (\<not> sr_stop s \<longrightarrow> (\<forall>t \<in> set (background_tasks S). \<forall>W. same_world E R S W \<longrightarrow>
          (\<exists>s1 s2. server_runs E R S s s1 \<and> sr_app s1 = sr_app s \<and> server_step E R S s1 s2
             \<and> (t, Waiting) \<in> set (sr_tasks s2) \<and> sr_app s2 = snd (on_node (action t W) (sr_app s1)))))
    \<and> (sr_stop s \<longrightarrow> (\<exists>s'. server_runs E R S s s' \<and> \<not> sr_open s' \<and> sr_app s' = sr_app s))"
proof -
  note life = served_life [OF assms]
  have "\<exists>s1 s2. server_runs E R S s s1 \<and> sr_app s1 = sr_app s \<and> server_step E R S s1 s2
      \<and> (t, Waiting) \<in> set (sr_tasks s2) \<and> sr_app s2 = snd (on_node (action t W) (sr_app s1))"
    if "\<not> sr_stop s" "t \<in> set (background_tasks S)" "same_world E R S W" for t W
    using task_goes_on [OF life(2) that] by metis
  with life shutdown_closes [OF _ life(2), of E R] show ?thesis by (auto simp: orderly_def)
qed

lemma server_life_witness:
  "\<exists>s s1 s2. server_runs toy_env toy_rpc toy_scanning toy_serving s \<and> (Bitcoin_scan, Waiting) \<in> set (sr_tasks s)
    \<and> chain_ok toy_env toy_rpc (app_node (sr_app s))
    \<and> server_runs toy_env toy_rpc toy_scanning s s1 \<and> server_step toy_env toy_rpc toy_scanning s1 s2
    \<and> sr_app s2 = snd (on_node (action Bitcoin_scan toy_scan_world) (sr_app s1))"
proof -
  obtain s where s: "server_runs toy_env toy_rpc toy_scanning toy_serving s"
    "(Bitcoin_scan, Waiting) \<in> set (sr_tasks s)" "\<not> sr_stop s" using toy_scans by blast
  have "chain_ok toy_env toy_rpc empty_node"
    by (rule chain_ok_empty) (simp_all add: empty_node_ok, simp add: empty_index_def)
  from server_life [OF toy_created_app this _ s(1)] s toy_scan_configured toy_scan_world show ?thesis by blast
qed

text \<open>C19: Opening a database that is in order gives an index that is in order, with the same records, batches and
  commitments and with the same anchors under the same sequence numbers, also when the table of
  anchors had the old layout; the node keeps its identifier, and opening the result again, with
  whatever fresh identifier, changes nothing.\<close>

theorem opened_database_sound:
  assumes "create_schema i db = Inr s" "index_ok E (db_index db)"
    and "\<forall>old. db_old_anchors db = Some old \<longrightarrow> old_anchors_ok old"
  shows "index_ok E s \<and> records_t s = records_t (db_index db) \<and> batches_t s = batches_t (db_index db)
    \<and> commitments_t s = commitments_t (db_index db)
    \<and> rows (anchors_t s) = (case db_old_anchors db of None \<Rightarrow> rows (anchors_t (db_index db))
         | Some old \<Rightarrow> map (\<lambda>(k, a). (k, anchor_of_old a)) old)
    \<and> metadata_get s (str ''node_instance_id'') = (case metadata_get (db_index db) (str ''node_instance_id'') of
         None \<Rightarrow> Some i | Some v \<Rightarrow> Some v)
    \<and> create_schema j \<lparr>db_index = s, db_old_anchors = None\<rparr> = Inr s"
  using opened_index_ok [OF assms] opened_tables [OF assms(1)] create_schema_run(2) [OF assms(1)]
    create_schema_idempotent [OF assms(1)]
  by blast

lemma opened_database_sound_witness:
  "\<exists>s. create_schema (str ''id'') toy_old_database = Inr s \<and> index_ok toy_env s
    \<and> rows (anchors_t s) = [(7, anchor_of_old toy_old_anchor)]"
proof -
  obtain s where s: "create_schema (str ''id'') toy_old_database = Inr s" using toy_old(1) by blast
  have ok: "index_ok toy_env (db_index toy_old_database)"
    using toy_node_holds(1) by (simp add: toy_old_database_def node_ok_def)
  have old: "\<forall>old. db_old_anchors toy_old_database = Some old \<longrightarrow> old_anchors_ok old"
    using toy_old(2) by (simp add: toy_old_database_def)
  from opened_database_sound [OF s ok old] s show ?thesis by (simp add: toy_old_database_def)
qed

section \<open>The command line\<close>

text \<open>C11: From the client to the relay. A valid record within the policy of a relay, submitted with a token that
  the relay accepts, is posted with headers with which the relay takes it: the client ends, the
  nonce that it found is the one that the relay asks for (when there is one of at most 64 digits),
  and afterwards the relay holds the record.\<close>

theorem submitted_record_arrives:
  assumes "info W (app_node a) = Inr v" "get C url (str ''/v1/info'') [] c = (Inr v, c')"
    and "can_relay (w_settings W)" "token_accepted (w_settings W) t"
    and "\<forall>key. fst (allow (w_tick W) key (app_limiter a))"
    and "validate_record (w_env W) r = Inr ()" "relay_policy W r = Inr ()"
    and "relay_pow_bits (w_settings W) \<le> 0 \<or> (\<exists>n. 0 \<le> n \<and> n < 10 ^ 64
      \<and> meets (w_env W) (rid_of r) (relay_pow_bits (w_settings W)) n)"
    and "get_record (ix (app_node a)) (rid_of r) = None"
    and "\<forall>k. target_of r = Some k \<longrightarrow> get_record (ix (app_node a)) k \<noteq> None"
  shows "\<exists>hs a'. submit_signed_record (w_env W) C url r t c = Some (post C url (str ''/v1/records'') r hs c')
    \<and> post_record W (request_of hs host) r a = (Inr (rid_of r, ''accepted''), a')
    \<and> get_record (ix (app_node a')) (rid_of r) = Some r"
  using assms by (rule submission_accepted)

lemma submitted_record_arrives_witness:
  "\<exists>hs a. submit_signed_record toy_env toy_client [] toy_record None 0
      = Some (post toy_client [] (str ''/v1/records'') toy_record hs 1)
    \<and> post_record toy_world (request_of hs None) toy_record toy_served_app = (Inr (rid_of toy_record, ''accepted''), a)
    \<and> get_record (ix (app_node a)) (rid_of toy_record) = Some toy_record"
proof -
  have new: "get_record (ix (app_node toy_served_app)) k = None" for k
    by (simp add: toy_served_app_def new_app_def toy_served_def toy_opened(4))
  have target: "target_of toy_record = None" using toy_record_valid(4) by (simp add: target_of_def)
  show ?thesis
    using submitted_record_arrives [where r = toy_record and host = None and url = "[]",
      OF toy_info toy_relays(1,2) toy_grants] toy_relays(3)
      toy_record_valid(1) toy_relay_policy toy_settings_world(2) new target
    by simp
qed

text \<open>C27: A record that \<open>create\<close> makes declares the person impact that was chosen, as long as the tags that the
  user gives keep out of the two reserved name spaces. It meets the responsible-publication profile
  of the relays whatever the other options, with one exception: a \<open>person_impact_notice\<close> of impact
  \<open>none\<close>, which \<open>create\<close> makes and which the profile then refuses.\<close>

theorem created_record_publishable:
  assumes "create_record E X regular_file now wallet password A = Inr r" "create_args_ok A"
  shows "(validate_responsible_record r = Inr () \<longleftrightarrow>
      \<not> (ca_kind A = ''person_impact_notice'' \<and> ca_person_impact A = ''none''))
    \<and> declared_person_impact r = Inr (Some (ca_person_impact A))"
  using assms by (rule created_record_meets_profile)

lemma created_record_publishable_witness:
  "\<exists>w r. create_record toy_env toy_ciphers (\<lambda>_. None) (str ''T'') w [112] toy_create = Inr r
    \<and> validate_responsible_record r = Inr () \<and> declared_person_impact r = Inr (Some ''uncertain'')"
proof -
  obtain w r where r: "create_record toy_env toy_ciphers (\<lambda>_. None) (str ''T'') w [112] toy_create = Inr r"
    using toy_created by blast
  from created_record_publishable [OF r toy_create_ok(1)] r toy_create_ok(2) show ?thesis by auto
qed

text \<open>C15: \<open>direct-anchor\<close> writes the package before it asks the Bitcoin daemon for anything: if a run has sent a
  request, whatever became of it, then a valid package is on the disk; and an anchor that is
  reported is for the batch of this package.\<close>

theorem package_on_disk_before_transaction:
  assumes "direct_anchor_cmd T file network out w = (res, w')"
    and "sound_workspace (tb_env T) (tb_rpc T) w" "reads_well T"
    and "calls (ws_node w') \<noteq> calls (ws_node w)"
  shows "\<exists>p path payload. validate_package (tb_env T) p = Inr ()
    \<and> encode_utf8 (tb_pretty T p) = Inr payload \<and> ws_disk w' path = Some payload
    \<and> (\<forall>batch written a fee. res = Inr (batch, written, a, fee) \<longrightarrow>
        written = path \<and> a_batch_id a = bid_of (dget p ''batch''))"
  using assms by (rule direct_anchor_package_first)

lemma package_on_disk_before_transaction_witness:
  "\<exists>res w p path payload. direct_anchor_cmd toy_tools (str ''r.json'') ''regtest'' (Some (str ''p.json'')) toy_workspace = (res, w)
    \<and> calls (ws_node w) \<noteq> calls (ws_node toy_workspace)
    \<and> validate_package toy_env p = Inr () \<and> ws_disk w path = Some payload"
proof -
  obtain res w where run: "direct_anchor_cmd toy_tools (str ''r.json'') ''regtest'' (Some (str ''p.json'')) toy_workspace = (res, w)"
    "calls (ws_node w) \<noteq> calls (ws_node toy_workspace)"
    using toy_direct by blast
  from package_on_disk_before_transaction [OF run(1) _ toy_tools_read(1) run(2)] toy_workspace_sound run
  show ?thesis unfolding toy_tools_read(2,3) by blast
qed

section \<open>The release\<close>

text \<open>C39: The assets of a release. A clean repository whose tag is at its head, that has one wheel, and of which git
  can make the bundle (of the head, the branch \<open>main\<close> and the tag) is packaged; where the bundle cannot
  be made the packaging fails. Every file of the archive has its line in the checksums that the archive
  holds, except the files that are named \<open>SHA256SUMS\<close> (the checksums themselves, and any file of this
  name in a directory of the repository). The assets do not depend on the order in which git lists the
  files.\<close>

theorem release_assets_complete:
  assumes "rp_status P = []" "rp_tag P = Some (rp_head P)" "rp_wheels P = [wheel]"
    and "\<forall>(p, _) \<in> set (rp_tracked P). encodable p" "encodable (fst wheel)" "\<forall>v. encodable (dump v)"
    and "rp_bundle P = Some bundle"
    and "distinct (map fst (rp_tracked P))" "distinct (map fst ts)" "set (rp_tracked P) = set ts"
  shows "\<exists>ms ls sums. package_release E dump version P = Inr (ms, wheel, bundle)
    \<and> (\<exists>e. package_release E dump version (P\<lparr>rp_bundle := None\<rparr>) = Inl e)
    \<and> encode_utf8 (join [10] ls @ [10]) = Inr sums
    \<and> (\<exists>m \<in> set ms. zm_name m = str ''history-anchor-protocol-v'' @ version @ [47] @ str ''SHA256SUMS'' \<and> zm_data m = sums)
    \<and> (\<forall>m \<in> set ms. \<exists>p. zm_name m = str ''history-anchor-protocol-v'' @ version @ [47] @ p
        \<and> (file_name p \<noteq> str ''SHA256SUMS'' \<longrightarrow> sha256_hex E (zm_data m) @ str ''  '' @ p \<in> set ls))
    \<and> package_release E dump version (P\<lparr>rp_tracked := ts\<rparr>) = package_release E dump version P"
proof -
  obtain ms where ms: "package_release E dump version P = Inr (ms, wheel, bundle)"
    using package_release_total [OF assms(1-7)] by blast
  from release_sums [OF ms] ms release_reproducible [OF assms(8-10), of E dump version]
    package_release_no_bundle [of E dump version P] show ?thesis by blast
qed

lemma release_assets_complete_witness:
  "\<exists>ms. package_release toy_env (\<lambda>_. []) (str ''1.0.0'') toy_repo = Inr (ms, (str ''w.whl'', [1], 420), [3])
    \<and> (\<exists>m \<in> set ms. zm_name m = str ''history-anchor-protocol-v'' @ str ''1.0.0'' @ [47] @ str ''SHA256SUMS'')
    \<and> package_release toy_env (\<lambda>_. []) (str ''1.0.0'') (toy_repo\<lparr>rp_tracked := rev (rp_tracked toy_repo)\<rparr>)
        = package_release toy_env (\<lambda>_. []) (str ''1.0.0'') toy_repo"
  using release_assets_complete [of toy_repo "(str ''w.whl'', [1], 420)" "\<lambda>_. []" "[3]" "rev (rp_tracked toy_repo)" toy_env "str ''1.0.0''"]
  by (auto simp: toy_repo_def)

end
